(* ===== verification/Prelude.thy ===== *)
theory Prelude
  imports Main "HOL-Library.Word"
begin

text \<open>What every component shares: the errors of the Go program with
  errors.Is over wrapped errors, results as sums, the hint collections of the
  development, and the generic lemmas on lists and sums the component proofs
  use.\<close>

section \<open>Errors and results\<close>

text \<open>The sentinels of internal/domain/errors.go and of the packages, the
  error structs of the stream parser, messages built by fmt.Errorf, and
  fmt.Errorf around a wrapped error: \<^verbatim>\<open>"m: %w"\<close> is EWrap and
  \<^verbatim>\<open>"%wm"\<close> is ESuffix.\<close>

datatype go_error =
    ErrNotFound
  | ErrOutsideActiveWindow
  | ErrAlreadyRunning
  | ErrFullModeOff
  | ErrClaudeUsageExhausted
  | ErrSessionMissing
  | ErrTaskNotCancellable
  | ErrInvalidRange
  | ErrRangeTooLarge
  | ErrInvalidBucket
  | ErrSubCapReached
  | StreamErrSessionMissing
  | ErrRateLimited int string
  | ErrResultError string string
  | ErrWebhookDisabled
  | ErrInvalidWebhookSignature
  | ErrMissingSignatureHeader
  | ErrInvalidSignature
  | ErrExpiredTimestamp
  | ErrRecordNotFound
  | ErrNoRows
  | ErrContextCanceled
  | ErrDeadlineExceeded
  | EMsg string
  | EWrap string go_error
  | ESuffix go_error string

type_synonym 'a result = "go_error + 'a"

text \<open>The errors errors.Is and errors.As visit: the error and what it wraps.\<close>

fun err_chain :: "go_error \<Rightarrow> go_error list" where
  "err_chain (EWrap m e) = EWrap m e # err_chain e"
| "err_chain (ESuffix e m) = ESuffix e m # err_chain e"
| "err_chain e = [e]"

definition err_is :: "go_error \<Rightarrow> go_error \<Rightarrow> bool" where
  "err_is e t = (t \<in> set (err_chain e))"

fun first_rate_limited :: "go_error list \<Rightarrow> (int \<times> string) option" where
  "first_rate_limited [] = None"
| "first_rate_limited (ErrRateLimited r ty # es) = Some (r, ty)"
| "first_rate_limited (e # es) = first_rate_limited es"

definition as_rate_limited :: "go_error \<Rightarrow> (int \<times> string) option" where
  "as_rate_limited e = first_rate_limited (err_chain e)"

definition is_ok :: "'a result \<Rightarrow> bool" where
  "is_ok r = (case r of Inl _ \<Rightarrow> False | Inr _ \<Rightarrow> True)"

definition bind_res :: "'a result \<Rightarrow> ('a \<Rightarrow> 'b result) \<Rightarrow> 'b result" where
  "bind_res r f = (case r of Inl e \<Rightarrow> Inl e | Inr a \<Rightarrow> f a)"

definition wrap_err :: "string \<Rightarrow> 'a result \<Rightarrow> 'a result" where
  "wrap_err m r = (case r of Inl e \<Rightarrow> Inl (EWrap m e) | Inr a \<Rightarrow> Inr a)"

lemma is_ok_simps [simp]: "is_ok (Inr a)" "\<not> is_ok (Inl e)"
  by (simp_all add: is_ok_def)

lemma bind_res_simps [simp]:
  "bind_res (Inl e) f = Inl e" "bind_res (Inr a) f = f a"
  by (simp_all add: bind_res_def)

lemma bind_res_Inr_iff: "bind_res r f = Inr b \<longleftrightarrow> (\<exists>a. r = Inr a \<and> f a = Inr b)"
  by (cases r) simp_all

lemma wrap_err_simps [simp]:
  "wrap_err m (Inl e) = Inl (EWrap m e)" "wrap_err m (Inr a) = Inr a"
  by (simp_all add: wrap_err_def)

lemma wrap_err_Inr_iff [simp]: "wrap_err m r = Inr a \<longleftrightarrow> r = Inr a"
  by (cases r) simp_all

lemma err_is_refl [simp]: "err_is e e"
  by (cases e) (simp_all add: err_is_def)

lemma err_is_wrap [simp]: "err_is (EWrap m e) t \<longleftrightarrow> t = EWrap m e \<or> err_is e t"
  by (auto simp: err_is_def)

section \<open>Hint collections\<close>

named_theorems time_simps \<open>arithmetic of instants, days and zones\<close>
named_theorems step_defs \<open>definitions unfolded when an operation is executed\<close>

section \<open>Lists\<close>

lemma takeWhile_append_stop:
  assumes "\<forall>x \<in> set xs. P x" "\<not> P y"
  shows "takeWhile P (xs @ y # ys) = xs" "dropWhile P (xs @ y # ys) = y # ys"
  using assms by (induction xs) auto

lemma takeWhile_all:
  assumes "\<forall>x \<in> set xs. P x"
  shows "takeWhile P xs = xs" "dropWhile P xs = []"
  using assms by (induction xs) auto

lemma dropWhile_hd: "dropWhile P xs = y # ys \<Longrightarrow> \<not> P y"
  by (induction xs) (auto split: if_splits)

end
