(* ===== verification/Go_Strings.thy ===== *)
theory Go_Strings
  imports Prelude "HOL-Library.Sublist"
begin

text \<open>The parts of Go's strings, strconv and fmt packages the program uses, on
  strings as lists of bytes: prefixes and substrings, Split, Join, TrimSpace,
  TrimRight, ToLower (ASCII), decimal printing with zero padding, and the
  \<^verbatim>\<open>%d\<close> verb of Sscanf with its whitespace, sign and int64 range rules.
  Unicode white space and letters beyond ASCII are not interpreted.\<close>

section \<open>Substrings, split and join\<close>

definition has_prefix :: "string \<Rightarrow> string \<Rightarrow> bool" where
  "has_prefix s p = (take (length p) s = p)"

definition trim_prefix :: "string \<Rightarrow> string \<Rightarrow> string" where
  "trim_prefix s p = (if has_prefix s p then drop (length p) s else s)"

fun contains_str :: "string \<Rightarrow> string \<Rightarrow> bool" where
  "contains_str [] p = (p = [])"
| "contains_str (c # cs) p = (has_prefix (c # cs) p \<or> contains_str cs p)"

text \<open>strings.Split with a separator of one byte: always at least one field.\<close>

fun split_byte :: "char \<Rightarrow> string \<Rightarrow> string list" where
  "split_byte b [] = [[]]"
| "split_byte b (c # cs) =
     (if c = b then [] # split_byte b cs
      else case split_byte b cs of [] \<Rightarrow> [[c]] | f # fs \<Rightarrow> (c # f) # fs)"

fun join_str :: "string \<Rightarrow> string list \<Rightarrow> string" where
  "join_str sep [] = []"
| "join_str sep [s] = s"
| "join_str sep (s # t # ss) = s @ sep @ join_str sep (t # ss)"

lemma has_prefix_append [simp]: "has_prefix (p @ s) p"
  by (simp add: has_prefix_def)

lemma has_prefixE: "has_prefix s p \<Longrightarrow> (\<And>t. s = p @ t \<Longrightarrow> thesis) \<Longrightarrow> thesis"
  unfolding has_prefix_def by (metis append_take_drop_id)

lemma has_prefix_iff: "has_prefix s p \<longleftrightarrow> prefix p s"
  by (auto simp: has_prefix_def prefix_def) (metis append_take_drop_id)

lemma contains_str_iff: "contains_str s p \<longleftrightarrow> sublist p s"
  by (induction s p rule: contains_str.induct) (auto simp: has_prefix_iff sublist_Cons_right)

lemma split_byte_nonempty [simp]: "split_byte b s \<noteq> []"
  by (induction s) (auto split: list.splits)

lemma join_Cons: "ss \<noteq> [] \<Longrightarrow> join_str sep (s # ss) = s @ sep @ join_str sep ss"
  by (cases ss) simp_all

lemma join_split [simp]: "join_str [b] (split_byte b s) = s"
proof (induction s)
  case (Cons c s)
  then show ?case
    by (cases "split_byte b s"; cases "tl (split_byte b s)") (auto simp: join_Cons)
qed simp

lemma split_byte_no_sep: "f \<in> set (split_byte b s) \<Longrightarrow> b \<notin> set f"
  by (induction s arbitrary: f) (auto split: list.splits if_splits)

lemma split_join:
  "ss \<noteq> [] \<Longrightarrow> \<forall>s \<in> set ss. b \<notin> set s \<Longrightarrow> split_byte b (join_str [b] ss) = ss"
proof (induction ss)
  case (Cons s ss)
  have one: "split_byte b s = [s]" using Cons.prems by (induction s) auto
  have app: "split_byte b (s @ b # r) = s # split_byte b r" for r
    using Cons.prems by (induction s) auto
  show ?case using Cons one app by (cases ss) (auto simp: join_Cons)
qed simp

section \<open>Trimming and case\<close>

definition is_space :: "char \<Rightarrow> bool" where
  "is_space c = (of_char c \<in> {9, 10, 11, 12, 13, 32 :: nat})"

definition trim_space :: "string \<Rightarrow> string" where
  "trim_space s = rev (dropWhile is_space (rev (dropWhile is_space s)))"

definition trim_right :: "char \<Rightarrow> string \<Rightarrow> string" where
  "trim_right b s = rev (dropWhile (\<lambda>c. c = b) (rev s))"

definition to_lower_char :: "char \<Rightarrow> char" where
  "to_lower_char c =
     (let n = (of_char c :: nat) in if 65 \<le> n \<and> n \<le> 90 then char_of (n + 32) else c)"

definition to_lower :: "string \<Rightarrow> string" where
  "to_lower s = map to_lower_char s"

lemma trim_space_first: "trim_space s = c # cs \<Longrightarrow> \<not> is_space c"
proof -
  assume "trim_space s = c # cs"
  then have r: "rev (c # cs) = dropWhile is_space (rev (dropWhile is_space s))"
    by (simp add: trim_space_def)
  have "suffix (rev (c # cs)) (rev (dropWhile is_space s))"
    unfolding r by (rule suffix_dropWhile)
  then have "prefix (c # cs) (dropWhile is_space s)"
    by (metis rev_rev_ident suffix_to_prefix)
  then show ?thesis by (metis append_Cons dropWhile_hd prefix_def)
qed

section \<open>Decimal numbers\<close>

definition digit_char :: "nat \<Rightarrow> char" where
  "digit_char d = char_of (48 + d mod 10)"

definition is_digit :: "char \<Rightarrow> bool" where
  "is_digit c = (48 \<le> (of_char c :: nat) \<and> of_char c \<le> (57 :: nat))"

definition digit_val :: "char \<Rightarrow> nat" where
  "digit_val c = of_char c - 48"

fun nat_str :: "nat \<Rightarrow> string" where
  "nat_str n = (if n < 10 then [digit_char n] else nat_str (n div 10) @ [digit_char n])"

declare nat_str.simps [simp del]

definition int_str :: "int \<Rightarrow> string" where
  "int_str i = (if i < 0 then CHR ''-'' # nat_str (nat (- i)) else nat_str (nat i))"

text \<open>\<^verbatim>\<open>%0wd\<close> for a width w: the sign counts towards the width.\<close>

definition zero_pad :: "nat \<Rightarrow> int \<Rightarrow> string" where
  "zero_pad w i =
     (if i < 0 then let d = nat_str (nat (- i)) in CHR ''-'' # replicate (w - 1 - length d) (CHR ''0'') @ d
      else let d = nat_str (nat i) in replicate (w - length d) (CHR ''0'') @ d)"

definition digits_val :: "string \<Rightarrow> nat" where
  "digits_val ds = foldl (\<lambda>a c. 10 * a + digit_val c) 0 ds"

lemma digit_char_simps [simp]:
  "is_digit (digit_char d)" "digit_val (digit_char d) = d mod 10"
  by (simp_all add: digit_char_def is_digit_def digit_val_def)

lemma digits_val_snoc [simp]: "digits_val (ds @ [c]) = 10 * digits_val ds + digit_val c"
  by (simp add: digits_val_def)

lemma digits_val_Nil [simp]: "digits_val [] = 0"
  by (simp add: digits_val_def)

lemma foldl_digits:
  "foldl (\<lambda>a c. 10 * a + digit_val c) a ds = a * 10 ^ length ds + digits_val ds"
proof (induction ds arbitrary: a rule: rev_induct)
  case (snoc c ds)
  then show ?case by (simp add: algebra_simps)
qed simp

lemma digits_val_Cons: "digits_val (c # ds) = digit_val c * 10 ^ length ds + digits_val ds"
  using foldl_digits[of "digit_val c" ds] by (simp add: digits_val_def)

lemma digits_val_zeros [simp]: "digits_val (replicate n (CHR ''0'') @ ds) = digits_val ds"
proof (induction n)
  case (Suc n)
  then show ?case by (simp add: digits_val_Cons digit_val_def)
qed simp

lemma nat_str_digits: "\<forall>c \<in> set (nat_str n). is_digit c"
  by (induction n rule: nat_str.induct) (subst nat_str.simps, auto)

lemma nat_str_nonempty [simp]: "nat_str n \<noteq> []"
  by (subst nat_str.simps) simp

lemma digits_val_nat_str [simp]: "digits_val (nat_str n) = n"
proof (induction n rule: nat_str.induct)
  case (1 n)
  show ?case
    using 1 by (subst nat_str.simps) (auto simp: digits_val_Cons)
qed

lemma digit_val_le: "is_digit c \<Longrightarrow> digit_val c \<le> 9"
  unfolding is_digit_def digit_val_def by arith

lemma digits_val_bound: "\<forall>c \<in> set ds. is_digit c \<Longrightarrow> digits_val ds < 10 ^ length ds"
proof (induction ds rule: rev_induct)
  case (snoc c ds)
  then have "digit_val c \<le> 9" by (simp add: digit_val_le)
  then show ?case using snoc by simp
qed simp

lemma nat_str_length: "0 < k \<Longrightarrow> n < 10 ^ k \<Longrightarrow> length (nat_str n) \<le> k"
proof (induction n arbitrary: k rule: nat_str.induct)
  case (1 n)
  show ?case
  proof (cases "n < 10")
    case True
    then show ?thesis using 1 by (subst nat_str.simps) simp
  next
    case False
    then obtain k' where k: "k = Suc k'" "0 < k'"
      using 1 by (cases k; cases "k - 1") auto
    then have "n div 10 < 10 ^ k'" using 1 by auto
    then show ?thesis using 1(1)[OF False k(2)] False k by (subst nat_str.simps) simp
  qed
qed

lemma zero_digit [simp]: "is_digit (CHR ''0'')"
  by (simp add: is_digit_def)

lemma zero_pad_nonneg:
  assumes "0 \<le> i"
  shows "zero_pad w i = replicate (w - length (nat_str (nat i))) (CHR ''0'') @ nat_str (nat i)"
  using assms by (simp add: zero_pad_def Let_def)

lemma zero_pad_digits: "0 \<le> i \<Longrightarrow> \<forall>c \<in> set (zero_pad w i). is_digit c"
  using nat_str_digits by (auto simp: zero_pad_nonneg)

lemma zero_pad_val [simp]: "0 \<le> i \<Longrightarrow> digits_val (zero_pad w i) = nat i"
  by (simp add: zero_pad_nonneg)

lemma zero_pad_length: "0 \<le> i \<Longrightarrow> 0 < w \<Longrightarrow> i < 10 ^ w \<Longrightarrow> length (zero_pad w i) = w"
proof -
  assume i: "0 \<le> i" "0 < w" "i < 10 ^ w"
  have "nat i < 10 ^ w" using i by (simp add: nat_less_iff)
  then have "length (nat_str (nat i)) \<le> w" using nat_str_length i by blast
  then show ?thesis using i by (simp add: zero_pad_nonneg)
qed

lemma zero_pad_nonempty [simp]: "zero_pad w i \<noteq> []"
  by (simp add: zero_pad_def Let_def)

section \<open>Sscanf\<close>

definition int64_ok :: "int \<Rightarrow> bool" where
  "int64_ok i = (- (2 ^ 63) \<le> i \<and> i < 2 ^ 63)"

text \<open>The result of 64-bit arithmetic.\<close>

definition wrap64 :: "int \<Rightarrow> int" where
  "wrap64 i = (i + 2 ^ 63) mod 2 ^ 64 - 2 ^ 63"

lemma wrap64_ok [simp]: "int64_ok (wrap64 i)"
proof -
  have "0 \<le> (i + 2 ^ 63) mod 2 ^ 64" "(i + 2 ^ 63) mod 2 ^ 64 < 2 ^ 64" by simp_all
  then show ?thesis by (simp add: wrap64_def int64_ok_def)
qed

lemma wrap64_id: "int64_ok i \<Longrightarrow> wrap64 i = i"
  by (simp add: wrap64_def int64_ok_def mod_pos_pos_trivial)

text \<open>SkipSpace of a Sscanf: a newline that does not follow a carriage
  return stops the scan with an error (None).\<close>

fun scan_skip :: "string \<Rightarrow> string option" where
  "scan_skip [] = Some []"
| "scan_skip (c # cs) =
     (if c = CHR 0x0D \<and> cs \<noteq> [] \<and> hd cs = CHR 0x0A then scan_skip cs
      else if c = CHR 0x0A then None
      else if is_space c then scan_skip cs
      else Some (c # cs))"

definition scan_sign :: "string \<Rightarrow> bool \<times> string" where
  "scan_sign s = (case s of
      c # cs \<Rightarrow> if c = CHR ''-'' then (True, cs) else if c = CHR ''+'' then (False, cs) else (False, s)
    | [] \<Rightarrow> (False, []))"

text \<open>The \<^verbatim>\<open>%d\<close> verb into an int: blanks, a sign, at least one digit, the
  value within 64 bits; the rest of the input is left.\<close>

definition scan_int :: "string \<Rightarrow> (int \<times> string) option" where
  "scan_int s = (case scan_skip s of
      None \<Rightarrow> None
    | Some s1 \<Rightarrow>
        (let (neg, s2) = scan_sign s1; ds = takeWhile is_digit s2;
             v = (if neg then - int (digits_val ds) else int (digits_val ds))
         in if ds = [] \<or> \<not> int64_ok v then None else Some (v, dropWhile is_digit s2)))"

definition scan_lit :: "string \<Rightarrow> string \<Rightarrow> string option" where
  "scan_lit p s = (if has_prefix s p then Some (drop (length p) s) else None)"

lemma digit_not_special:
  assumes "is_digit c"
  shows "\<not> is_space c" "c \<noteq> CHR ''-''" "c \<noteq> CHR ''+''" "c \<noteq> CHR 0x0A" "c \<noteq> CHR 0x0D"
  using assms by (auto simp: is_digit_def is_space_def)

lemma scan_int_digits:
  assumes "ds \<noteq> []" "\<forall>c \<in> set ds. is_digit c" "digits_val ds < 2 ^ 63"
    and "rest = [] \<or> \<not> is_digit (hd rest)"
  shows "scan_int (ds @ rest) = Some (int (digits_val ds), rest)"
proof -
  obtain d ds' where ds: "ds = d # ds'" using assms(1) by (cases ds) auto
  have d: "is_digit d" using assms(2) ds by simp
  have tw: "takeWhile is_digit (ds @ rest) = ds" "dropWhile is_digit (ds @ rest) = rest"
    using assms(2,4) by (cases rest; simp add: takeWhile_append_stop takeWhile_all)+
  have "scan_skip (ds @ rest) = Some (ds @ rest)"
    using ds digit_not_special[OF d] by simp
  moreover have "scan_sign (ds @ rest) = (False, ds @ rest)"
    using ds digit_not_special[OF d] by (simp add: scan_sign_def)
  moreover have "int64_ok (int (digits_val ds))"
    using assms(3) by (simp add: int64_ok_def)
  ultimately show ?thesis using assms(1) tw by (simp add: scan_int_def)
qed

lemma scan_lit_append [simp]: "scan_lit p (p @ s) = Some s"
  by (simp add: scan_lit_def)

end
