(* ===== verification/Calendar.thy ===== *)
theory Calendar
  imports Go_Strings
begin

text \<open>The instants and civil dates of Go's time package. An instant is the
  number of nanoseconds since the Unix epoch, a location is the zone offset in
  seconds in effect at a Unix second (the tz database is a parameter), days are
  counted from 1970-01-01, dates are proleptic Gregorian. The lemmas show that
  dates and day numbers determine each other.\<close>

section \<open>Instants and zones\<close>

type_synonym time = int
type_synonym duration = int
type_synonym location = "int \<Rightarrow> int"

abbreviation Second :: duration where "Second \<equiv> 1000000000"
abbreviation Minute :: duration where "Minute \<equiv> 60000000000"
abbreviation Hour :: duration where "Hour \<equiv> 3600000000000"

definition UTC :: location where "UTC = (\<lambda>_. 0)"

text \<open>The zero time.Time, 0001-01-01T00:00:00Z.\<close>

definition zero_time :: time where "zero_time = - 62135596800 * Second"

definition is_zero :: "time \<Rightarrow> bool" where "is_zero t = (t = zero_time)"

definition unix_sec :: "time \<Rightarrow> int" where "unix_sec t = t div Second"

definition local_sec :: "location \<Rightarrow> time \<Rightarrow> int" where
  "local_sec loc t = unix_sec t + loc (unix_sec t)"

definition local_day :: "location \<Rightarrow> time \<Rightarrow> int" where
  "local_day loc t = local_sec loc t div 86400"

definition hour_of :: "location \<Rightarrow> time \<Rightarrow> int" where
  "hour_of loc t = local_sec loc t mod 86400 div 3600"

definition minute_of :: "location \<Rightarrow> time \<Rightarrow> int" where
  "minute_of loc t = local_sec loc t mod 3600 div 60"

text \<open>time.Weekday: Sunday is 0.\<close>

definition weekday_of_day :: "int \<Rightarrow> int" where "weekday_of_day n = (n + 4) mod 7"

definition weekday_of :: "location \<Rightarrow> time \<Rightarrow> int" where
  "weekday_of loc t = weekday_of_day (local_day loc t)"

lemma div_intro: "k * q \<le> a \<Longrightarrow> a < k * q + k \<Longrightarrow> a div k = (q::int)"
  by (rule int_div_pos_eq[of a k q "a - k * q"]) auto

lemma div_facts:
  assumes "0 < (k::int)"
  shows "k * (a div k) \<le> a" "a < k * (a div k) + k" "a mod k = a - k * (a div k)"
  using assms by (simp_all add: minus_mod_eq_mult_div[symmetric] mult.commute)

lemma div_pred: "0 < k \<Longrightarrow> (y::int) div k = (y - 1) div k + (if y mod k = 0 then 1 else 0)"
proof -
  assume k: "0 < k"
  note f = div_facts[OF k, of y]
  have d: "k * (y div k - 1) = k * (y div k) - k" by (simp add: algebra_simps)
  have "(y - 1) div k = y div k - (if y mod k = 0 then 1 else 0)"
    by (rule div_intro) (use f d k pos_mod_sign[OF k, of y] in \<open>auto split: if_splits\<close>)
  then show ?thesis by simp
qed

text \<open>A quotient by four periods whose last period has an extra day.\<close>

lemma capped_quotient:
  fixes k d :: int
  assumes "0 < k" "0 \<le> d" "d < 4 * k + 1"
  defines "c \<equiv> d div k - d div k div 4"
  shows "0 \<le> c" "c \<le> 3" "0 \<le> d - k * c" "d - k * c \<le> k" "c < 3 \<Longrightarrow> d - k * c < k"
proof -
  note f = div_facts[OF assms(1), of d]
  have q0: "0 \<le> d div k" using assms by (simp add: pos_imp_zdiv_nonneg_iff)
  have "k * (d div k) < k * 5" using f(1) assms(1,3) by linarith
  then have q4: "d div k \<le> 4" using assms(1) by simp
  have "0 \<le> c \<and> c \<le> 3 \<and> 0 \<le> d - k * c \<and> d - k * c \<le> k \<and> (c < 3 \<longrightarrow> d - k * c < k)"
  proof (cases "d div k = 4")
    case True
    then show ?thesis using f assms(3) by (simp add: c_def)
  next
    case False
    then have "d div k div 4 = 0" using q0 q4 by simp
    then show ?thesis using f q0 q4 False by (simp add: c_def)
  qed
  then show "0 \<le> c" "c \<le> 3" "0 \<le> d - k * c" "d - k * c \<le> k" "c < 3 \<Longrightarrow> d - k * c < k"
    by auto
qed

lemma hour_minute: "hour_of loc t * 60 + minute_of loc t = local_sec loc t mod 86400 div 60"
proof -
  define s where "s = local_sec loc t mod 86400"
  have "local_sec loc t mod 3600 = s mod 3600"
    unfolding s_def by (rule mod_mod_cancel[symmetric]) simp
  moreover have "s div 60 = (s div 3600 * 60) + s mod 3600 div 60"
  proof -
    have "s div 60 = (s div 3600 * 60 * 60 + s mod 3600) div 60" by simp
    also have "\<dots> = s div 3600 * 60 + s mod 3600 div 60" by (rule div_mult_self3) simp
    finally show ?thesis .
  qed
  ultimately show ?thesis by (simp add: hour_of_def minute_of_def s_def)
qed

lemma weekday_range: "0 \<le> weekday_of_day n" "weekday_of_day n < 7"
  by (simp_all add: weekday_of_day_def)

section \<open>Civil dates\<close>

definition is_leap :: "int \<Rightarrow> bool" where
  "is_leap y = (y mod 4 = 0 \<and> (y mod 100 \<noteq> 0 \<or> y mod 400 = 0))"

text \<open>Day number of January 1st of a year.\<close>

definition year_start :: "int \<Rightarrow> int" where
  "year_start y = 365 * (y - 1) + (y - 1) div 4 - (y - 1) div 100 + (y - 1) div 400 - 719162"

text \<open>The year of a day: 400-year cycles, centuries, 4-year cycles, years, the
  last one of each capped as in absDate.\<close>

definition year_of_day :: "int \<Rightarrow> int" where
  "year_of_day n =
     (let d = n + 719162; n400 = d div 146097; d1 = d mod 146097;
          c = d1 div 36524; c' = c - c div 4; d2 = d1 - 36524 * c';
          q = d2 div 1461; d3 = d2 mod 1461;
          y = d3 div 365; y' = y - y div 4
      in 400 * n400 + 100 * c' + 4 * q + y' + 1)"

definition month_days :: "bool \<Rightarrow> int \<Rightarrow> int" where
  "month_days leap m =
     (if m = 2 then (if leap then 29 else 28)
      else if m = 4 \<or> m = 6 \<or> m = 9 \<or> m = 11 then 30 else 31)"

text \<open>Days of the year before a month.\<close>

definition month_start :: "bool \<Rightarrow> int \<Rightarrow> int" where
  "month_start leap m =
     (if m \<le> 1 then 0 else if m = 2 then 31 else
      (if leap then 1 else 0) +
      (if m = 3 then 59 else if m = 4 then 90 else if m = 5 then 120 else if m = 6 then 151
       else if m = 7 then 181 else if m = 8 then 212 else if m = 9 then 243
       else if m = 10 then 273 else if m = 11 then 304 else 334))"

definition month_of_yday :: "bool \<Rightarrow> int \<Rightarrow> int" where
  "month_of_yday leap d =
     (if d < 31 then 1 else if d < month_start leap 3 then 2
      else if d < month_start leap 4 then 3 else if d < month_start leap 5 then 4
      else if d < month_start leap 6 then 5 else if d < month_start leap 7 then 6
      else if d < month_start leap 8 then 7 else if d < month_start leap 9 then 8
      else if d < month_start leap 10 then 9 else if d < month_start leap 11 then 10
      else if d < month_start leap 12 then 11 else 12)"

definition yday_of_day :: "int \<Rightarrow> int" where "yday_of_day n = n - year_start (year_of_day n)"

definition date_of_day :: "int \<Rightarrow> int \<times> int \<times> int" where
  "date_of_day n =
     (let y = year_of_day n; yd = yday_of_day n; m = month_of_yday (is_leap y) yd
      in (y, m, yd - month_start (is_leap y) m + 1))"

text \<open>time.Date normalises the month; any day number is accepted.\<close>

definition day_of_date :: "int \<Rightarrow> int \<Rightarrow> int \<Rightarrow> int" where
  "day_of_date y m d =
     (let y' = y + (m - 1) div 12; m' = (m - 1) mod 12 + 1
      in year_start y' + month_start (is_leap y') m' + d - 1)"

definition valid_date :: "int \<Rightarrow> int \<Rightarrow> int \<Rightarrow> bool" where
  "valid_date y m d = (1 \<le> m \<and> m \<le> 12 \<and> 1 \<le> d \<and> d \<le> month_days (is_leap y) m)"

lemma year_length: "year_start (y + 1) = year_start y + (if is_leap y then 366 else 365)"
proof -
  have "y div 4 = (y - 1) div 4 + (if y mod 4 = 0 then 1 else 0)" by (rule div_pred) simp
  moreover have "y div 100 = (y - 1) div 100 + (if y mod 100 = 0 then 1 else 0)"
    by (rule div_pred) simp
  moreover have "y div 400 = (y - 1) div 400 + (if y mod 400 = 0 then 1 else 0)"
    by (rule div_pred) simp
  moreover have "y mod 100 = 0 \<Longrightarrow> y mod 4 = 0"
    using mod_mod_cancel[of 4 100 y] by simp
  moreover have "y mod 400 = 0 \<Longrightarrow> y mod 100 = 0"
    using mod_mod_cancel[of 100 400 y] by simp
  ultimately show ?thesis unfolding year_start_def is_leap_def
    by (cases "y mod 4 = 0"; cases "y mod 100 = 0"; cases "y mod 400 = 0") (simp_all (no_asm_simp))
qed

lemma year_start_mono: "x \<le> y \<Longrightarrow> year_start x \<le> year_start y"
proof (induction "nat (y - x)" arbitrary: y)
  case (Suc k)
  then have "year_start x \<le> year_start (y - 1)" by auto
  also have "\<dots> \<le> year_start y" using year_length[of "y - 1"] by (auto split: if_splits)
  finally show ?case .
qed simp

lemma year_start_strict: "x < y \<Longrightarrow> year_start x + 365 \<le> year_start y"
  using year_start_mono[of "x + 1" y] year_length[of x] by (auto split: if_splits)

lemma year_unique:
  assumes "year_start y \<le> n" "n < year_start (y + 1)"
    and "year_start z \<le> n" "n < year_start (z + 1)"
  shows "y = z"
proof (rule ccontr)
  assume "y \<noteq> z"
  then consider "y + 1 \<le> z" | "z + 1 \<le> y" by linarith
  then show False using year_start_mono assms by cases fastforce+
qed

lemma year_of_day_cycles:
  fixes n :: int
  defines "d1 \<equiv> (n + 719162) mod 146097"
  defines "c \<equiv> d1 div 36524 - d1 div 36524 div 4"
  defines "d2 \<equiv> d1 - 36524 * c"
  defines "q \<equiv> d2 div 1461"
  defines "y \<equiv> d2 mod 1461 div 365 - d2 mod 1461 div 365 div 4"
  shows "year_of_day n = 400 * ((n + 719162) div 146097) + 100 * c + 4 * q + y + 1"
    and "0 \<le> c" "c \<le> 3" "0 \<le> q" "q \<le> 24" "0 \<le> y" "y \<le> 3"
    and "0 \<le> d2" "d2 \<le> 36524" "c < 3 \<Longrightarrow> d2 < 36524"
    and "0 \<le> d2 mod 1461 - 365 * y" "d2 mod 1461 - 365 * y \<le> 365"
    and "y < 3 \<Longrightarrow> d2 mod 1461 - 365 * y < 365"
proof -
  show "year_of_day n = 400 * ((n + 719162) div 146097) + 100 * c + 4 * q + y + 1"
    unfolding year_of_day_def Let_def c_def d1_def q_def d2_def y_def by (rule refl)
  have "0 \<le> d1" "d1 < 4 * 36524 + 1" by (simp_all add: d1_def)
  note c = capped_quotient[of 36524, OF _ this, folded c_def d2_def, simplified]
  show "0 \<le> c" "c \<le> 3" and d2: "0 \<le> d2" "d2 \<le> 36524" "c < 3 \<Longrightarrow> d2 < 36524"
    using c by auto
  show "0 \<le> q" using d2 unfolding q_def by (simp add: pos_imp_zdiv_nonneg_iff)
  show "q \<le> 24" using d2 div_facts[of 1461 d2] unfolding q_def by linarith
  have "0 \<le> d2 mod 1461" "d2 mod 1461 < 4 * 365 + 1" by simp_all
  note y = capped_quotient[of 365, OF _ this, folded y_def, simplified]
  show "0 \<le> y" "y \<le> 3" "0 \<le> d2 mod 1461 - 365 * y" "d2 mod 1461 - 365 * y \<le> 365"
    "y < 3 \<Longrightarrow> d2 mod 1461 - 365 * y < 365"
    using y by auto
qed

lemma year_start_cycles:
  assumes "0 \<le> c" "c \<le> 3" "0 \<le> q" "q \<le> 24" "0 \<le> y" "y \<le> (3::int)"
  shows "year_start (400 * k + 100 * c + 4 * q + y + 1) =
    146097 * k + 36524 * c + 1461 * q + 365 * y - 719162"
proof -
  have "(400 * k + 100 * c + 4 * q + y) div 4 = 100 * k + 25 * c + q"
    using assms by (intro div_intro) (simp_all add: algebra_simps)
  moreover have "(400 * k + 100 * c + 4 * q + y) div 100 = 4 * k + c"
    using assms by (intro div_intro) (simp_all add: algebra_simps)
  moreover have "(400 * k + 100 * c + 4 * q + y) div 400 = k"
    using assms by (intro div_intro) (simp_all add: algebra_simps)
  ultimately show ?thesis by (simp add: year_start_def)
qed

lemma leap_cycles:
  assumes "0 \<le> c" "c \<le> 3" "0 \<le> q" "q \<le> 24" "0 \<le> y" "y \<le> (3::int)"
  shows "is_leap (400 * k + 100 * c + 4 * q + y + 1) \<longleftrightarrow> y = 3 \<and> (q < 24 \<or> c = 3)"
proof -
  let ?y = "400 * k + 100 * c + 4 * q + y + 1"
  have 4: "?y mod 4 = 0 \<longleftrightarrow> y = 3"
  proof -
    have "?y mod 4 = (y + 1 + (100 * k + 25 * c + q) * 4) mod 4" by (simp add: algebra_simps)
    also have "\<dots> = (y + 1) mod 4" by (rule mod_mult_self1)
    also have "\<dots> = (if y + 1 = 4 then 0 else y + 1)"
      using assms by (auto intro!: mod_pos_pos_trivial)
    finally show ?thesis using assms by auto
  qed
  have 100: "?y mod 100 = 0 \<longleftrightarrow> y = 3 \<and> q = 24"
  proof -
    have "?y mod 100 = (4 * q + y + 1 + (4 * k + c) * 100) mod 100" by (simp add: algebra_simps)
    also have "\<dots> = (4 * q + y + 1) mod 100" by (rule mod_mult_self1)
    also have "\<dots> = (if 4 * q + y + 1 = 100 then 0 else 4 * q + y + 1)"
      using assms by (auto intro!: mod_pos_pos_trivial)
    finally show ?thesis using assms by auto
  qed
  have 400: "?y mod 400 = 0 \<longleftrightarrow> y = 3 \<and> q = 24 \<and> c = 3"
  proof -
    have "?y mod 400 = (100 * c + 4 * q + y + 1 + k * 400) mod 400" by (simp add: algebra_simps)
    also have "\<dots> = (100 * c + 4 * q + y + 1) mod 400" by (rule mod_mult_self1)
    also have "\<dots> = (if 100 * c + 4 * q + y + 1 = 400 then 0 else 100 * c + 4 * q + y + 1)"
    proof (cases "100 * c + 4 * q + y + 1 = 400")
      case True
      then show ?thesis by (simp only: if_True) simp
    next
      case False
      then show ?thesis using assms by (simp add: mod_pos_pos_trivial)
    qed
    finally show ?thesis using assms by auto
  qed
  show ?thesis unfolding is_leap_def 4 100 400 using assms by auto
qed

lemma year_of_day_bounds: "year_start (year_of_day n) \<le> n" "n < year_start (year_of_day n + 1)"
proof -
  define d1 where "d1 = (n + 719162) mod 146097"
  define k where "k = (n + 719162) div 146097"
  define c where "c = d1 div 36524 - d1 div 36524 div 4"
  define d2 where "d2 = d1 - 36524 * c"
  define q where "q = d2 div 1461"
  define y where "y = d2 mod 1461 div 365 - d2 mod 1461 div 365 div 4"
  note b = year_of_day_cycles[of n, folded d1_def k_def, folded c_def, folded d2_def,
      folded q_def y_def]
  have st: "year_start (year_of_day n) = 146097 * k + 36524 * c + 1461 * q + 365 * y - 719162"
    unfolding b(1) by (rule year_start_cycles[OF b(2-7)])
  have n: "n = 146097 * k + 36524 * c + 1461 * q + d2 mod 1461 - 719162"
  proof -
    have "d1 = n + 719162 - 146097 * k" unfolding d1_def k_def by (rule div_facts(3)) simp
    moreover have "d2 mod 1461 = d2 - 1461 * q" unfolding q_def by (rule div_facts(3)) simp
    ultimately show ?thesis using d2_def by linarith
  qed
  show le: "year_start (year_of_day n) \<le> n" using st n b(11) by linarith
  have short: "q = 24 \<Longrightarrow> c < 3 \<Longrightarrow> d2 mod 1461 < 1460"
    using b(10) div_facts(3)[of 1461 d2] unfolding q_def by auto
  have last: "q = 24 \<Longrightarrow> c < 3 \<Longrightarrow> d2 mod 1461 - 365 * y < 365"
    using short b(7,13) by (cases "y = 3") auto
  have "n - year_start (year_of_day n) < (if is_leap (year_of_day n) then 366 else 365)"
    unfolding b(1) leap_cycles[OF b(2-7)] st[unfolded b(1)]
    using n b(12,13) last b(2-7) by (cases "y = 3"; cases "q = 24"; cases "c = 3") auto
  then show "n < year_start (year_of_day n + 1)" by (simp add: year_length)
qed

lemma year_of_dayI: "year_start y \<le> n \<Longrightarrow> n < year_start (y + 1) \<Longrightarrow> year_of_day n = y"
  using year_unique year_of_day_bounds by blast

lemma yday_range:
  "0 \<le> yday_of_day n" "yday_of_day n < (if is_leap (year_of_day n) then 366 else 365)"
  using year_of_day_bounds[of n] by (simp_all add: yday_of_day_def year_length)

lemma month_cases:
  assumes "1 \<le> m" "m \<le> (12::int)"
  shows "m = 1 \<or> m = 2 \<or> m = 3 \<or> m = 4 \<or> m = 5 \<or> m = 6 \<or> m = 7 \<or> m = 8 \<or> m = 9 \<or>
    m = 10 \<or> m = 11 \<or> m = 12"
  using assms by presburger

lemma month_of_yday_range: "1 \<le> month_of_yday l d" "month_of_yday l d \<le> 12"
  by (simp_all add: month_of_yday_def)

lemma month_start_next:
  "month_start l 1 = 0" "month_days l 1 = 31" "month_start l 2 = 31"
  "month_start l 3 = month_start l 2 + month_days l 2" "month_start l 4 = month_start l 3 + month_days l 3"
  "month_start l 5 = month_start l 4 + month_days l 4" "month_start l 6 = month_start l 5 + month_days l 5"
  "month_start l 7 = month_start l 6 + month_days l 6" "month_start l 8 = month_start l 7 + month_days l 7"
  "month_start l 9 = month_start l 8 + month_days l 8" "month_start l 10 = month_start l 9 + month_days l 9"
  "month_start l 11 = month_start l 10 + month_days l 10"
  "month_start l 12 = month_start l 11 + month_days l 11"
  "(if l then 366 else 365) = month_start l 12 + month_days l 12"
  by (cases l; simp add: month_start_def month_days_def)+

definition month_holds :: "bool \<Rightarrow> int \<Rightarrow> int \<Rightarrow> bool" where
  "month_holds l d m = (month_start l m \<le> d \<and> d < month_start l m + month_days l m)"

lemma month_of_yday_bounds:
  assumes "0 \<le> d" "d < (if l then 366 else 365)"
  shows "month_start l (month_of_yday l d) \<le> d"
    "d < month_start l (month_of_yday l d) + month_days l (month_of_yday l d)"
proof -
  note n = month_start_next[of l]
  have "month_holds l d (month_of_yday l d)"
  proof (cases "d < 31")
    case True
    then show ?thesis using assms n(1,2) by (simp add: month_of_yday_def month_holds_def)
  next
    case a: False
    show ?thesis
    proof (cases "d < month_start l 3")
      case True
      then show ?thesis using a n(3,4) by (simp add: month_of_yday_def month_holds_def)
    next
      case b: False
      show ?thesis
      proof (cases "d < month_start l 4")
        case True
        then show ?thesis using a b n(4,5) by (simp add: month_of_yday_def month_holds_def)
      next
        case c: False
        show ?thesis
        proof (cases "d < month_start l 5")
          case True
          then show ?thesis using a b c n(5,6) by (simp add: month_of_yday_def month_holds_def)
        next
          case d: False
          show ?thesis
          proof (cases "d < month_start l 6")
            case True
            then show ?thesis using a b c d n(6,7) by (simp add: month_of_yday_def month_holds_def)
          next
            case e: False
            show ?thesis
            proof (cases "d < month_start l 7")
              case True
              then show ?thesis using a b c d e n(7,8) by (simp add: month_of_yday_def month_holds_def)
            next
              case f: False
              show ?thesis
              proof (cases "d < month_start l 8")
                case True
                then show ?thesis using a b c d e f n(8,9) by (simp add: month_of_yday_def month_holds_def)
              next
                case g: False
                show ?thesis
                proof (cases "d < month_start l 9")
                  case True
                  then show ?thesis using a b c d e f g n(9,10) by (simp add: month_of_yday_def month_holds_def)
                next
                  case h: False
                  show ?thesis
                  proof (cases "d < month_start l 10")
                    case True
                    then show ?thesis using a b c d e f g h n(10,11) by (simp add: month_of_yday_def month_holds_def)
                  next
                    case i: False
                    show ?thesis
                    proof (cases "d < month_start l 11")
                      case True
                      then show ?thesis using a b c d e f g h i n(11,12) by (simp add: month_of_yday_def month_holds_def)
                    next
                      case j: False
                      show ?thesis
                      proof (cases "d < month_start l 12")
                        case True
                        then show ?thesis using a b c d e f g h i j n(12,13) by (simp add: month_of_yday_def month_holds_def)
                      next
                        case k: False
                        show ?thesis
                        using a b c d e f g h i j k n(14) assms by (simp add: month_of_yday_def month_holds_def)
                      qed
                    qed
                  qed
                qed
              qed
            qed
          qed
        qed
      qed
    qed
  qed
  then show "month_start l (month_of_yday l d) \<le> d"
    "d < month_start l (month_of_yday l d) + month_days l (month_of_yday l d)"
    by (simp_all add: month_holds_def)
qed

lemma month_of_ydayI:
  assumes "1 \<le> m" "m \<le> 12" "month_start l m \<le> d" "d < month_start l m + month_days l m"
  shows "month_of_yday l d = m"
  using month_cases[OF assms(1,2)] assms(3,4)
  by (elim disjE; cases l) (auto simp: month_of_yday_def month_start_def month_days_def)

lemma month_in_year:
  assumes "1 \<le> m" "m \<le> 12"
  shows "0 \<le> month_start l m" "month_start l m + month_days l m \<le> (if l then 366 else 365)"
  using month_cases[OF assms] by (elim disjE; simp add: month_start_def month_days_def)+

lemma day_of_date_valid:
  "1 \<le> m \<Longrightarrow> m \<le> 12 \<Longrightarrow> day_of_date y m d = year_start y + month_start (is_leap y) m + d - 1"
  by (simp add: day_of_date_def)

lemma date_of_day_valid: "date_of_day n = (y, m, d) \<Longrightarrow> valid_date y m d"
proof -
  let ?l = "is_leap (year_of_day n)" and ?yd = "yday_of_day n"
  assume "date_of_day n = (y, m, d)"
  then have e: "year_of_day n = y" "month_of_yday ?l ?yd = m"
    "d = ?yd - month_start ?l (month_of_yday ?l ?yd) + 1"
    by (auto simp: date_of_day_def Let_def)
  show ?thesis
    unfolding valid_date_def e(1)[symmetric] e(2)[symmetric] e(3)
    using month_of_yday_bounds[OF yday_range, of n] month_of_yday_range[of ?l ?yd] by simp
qed

lemma day_of_date_of_day: "date_of_day n = (y, m, d) \<Longrightarrow> day_of_date y m d = n"
  using month_of_yday_range
  by (auto simp: date_of_day_def Let_def day_of_date_valid yday_of_day_def)

lemma date_of_day_of_date:
  assumes "valid_date y m d"
  shows "date_of_day (day_of_date y m d) = (y, m, d)"
proof -
  let ?n = "day_of_date y m d"
  have m: "1 \<le> m" "m \<le> 12" and d: "1 \<le> d" "d \<le> month_days (is_leap y) m"
    using assms by (auto simp: valid_date_def)
  have n: "?n = year_start y + (month_start (is_leap y) m + d - 1)"
    using m by (simp add: day_of_date_valid)
  have y: "year_of_day ?n = y"
    using month_in_year[OF m, of "is_leap y"] d
    by (intro year_of_dayI) (simp_all add: n year_length split: if_splits)
  have "month_of_yday (is_leap y) (month_start (is_leap y) m + d - 1) = m"
    using m d by (intro month_of_ydayI) auto
  then show ?thesis using y n by (simp add: date_of_day_def Let_def yday_of_day_def)
qed

lemma date_of_day_inj: "date_of_day a = date_of_day b \<Longrightarrow> a = b"
  by (metis day_of_date_of_day prod_cases3)

end
