(* ===== verification/Go_Time.thy ===== *)
theory Go_Time
  imports Calendar
begin

text \<open>The operations of Go's time package on top of civil dates: ISO weeks,
  time.Date with Go's choice of the offset around a zone transition, AddDate, and
  the layouts 2006-01-02 and 2006-01 with their parser. The lemmas show that an
  ISO week is the seven days from its Monday and that a formatted date parses back
  to its day.\<close>

section \<open>ISO weeks\<close>

text \<open>Time.ISOWeek: the year and week of the Thursday of the Monday-based week.\<close>

definition iso_monday :: "int \<Rightarrow> int" where "iso_monday n = n - (n + 3) mod 7"

definition iso_week :: "int \<Rightarrow> int \<times> int" where
  "iso_week n =
     (let th = iso_monday n + 3; y = year_of_day th in (y, (th - year_start y) div 7 + 1))"

lemma iso_monday_eq: "iso_monday n = 7 * ((n + 3) div 7) - 3"
  using div_facts(3)[of 7 "n + 3"] by (simp add: iso_monday_def)

lemma iso_monday_bounds: "iso_monday n \<le> n" "n < iso_monday n + 7"
  by (simp_all add: iso_monday_def)

lemma iso_monday_weekday: "weekday_of_day (iso_monday n) = 1"
proof -
  have "iso_monday n + 4 = 1 + (n + 3) div 7 * 7" by (simp add: iso_monday_eq)
  then show ?thesis unfolding weekday_of_day_def by (simp only: mod_mult_self1) simp
qed

lemma iso_monday_idem [simp]: "iso_monday (iso_monday n) = iso_monday n"
proof -
  have "iso_monday n + 3 = (n + 3) div 7 * 7" by (simp add: iso_monday_eq)
  then show ?thesis by (simp add: iso_monday_def[of "iso_monday n"])
qed

lemma iso_week_monday: "iso_week (iso_monday n) = iso_week n"
  by (simp add: iso_week_def)

lemma iso_mondayI: "iso_monday m \<le> n \<Longrightarrow> n < iso_monday m + 7 \<Longrightarrow> iso_monday n = iso_monday m"
proof -
  assume "iso_monday m \<le> n" "n < iso_monday m + 7"
  then have "(n + 3) div 7 = (m + 3) div 7"
    by (intro div_intro) (simp_all add: iso_monday_eq)
  then show ?thesis by (simp add: iso_monday_eq)
qed

text \<open>The Monday of the week of January 4th, the first ISO week of a year.\<close>

definition first_monday :: "int \<Rightarrow> int" where "first_monday y = iso_monday (year_start y + 3)"

lemma iso_week_jan4: "iso_week (year_start y + 3) = (y, 1)"
proof -
  have "year_of_day (first_monday y + 3) = y"
    using iso_monday_bounds[of "year_start y + 3"] year_start_strict[of y "y + 1"]
    by (intro year_of_dayI) (simp_all add: first_monday_def)
  moreover have "(first_monday y + 3 - year_start y) div 7 = 0"
    using iso_monday_bounds[of "year_start y + 3"]
    by (intro div_intro) (simp_all add: first_monday_def)
  ultimately show ?thesis by (simp add: iso_week_def first_monday_def Let_def)
qed

lemma iso_week_start:
  assumes "iso_week n = (y, w)"
  shows "first_monday y + (w - 1) * 7 = iso_monday n"
proof -
  let ?th = "iso_monday n + 3" and ?J = "year_start y"
  have y: "year_of_day ?th = y" and w: "w = (?th - ?J) div 7 + 1"
    using assms by (auto simp: iso_week_def Let_def)
  note b = div_facts[of 7 "?J + 6"]
  have fm: "first_monday y = 7 * ((?J + 6) div 7) - 3"
    by (simp add: first_monday_def iso_monday_eq)
  have "(?th - ?J) div 7 = (n + 3) div 7 - (?J + 6) div 7"
    by (rule div_intro) (use b(1,2) in \<open>simp_all add: iso_monday_eq\<close>)
  then show ?thesis unfolding fm w iso_monday_eq by simp
qed

lemma iso_week_inj: "iso_week a = iso_week b \<longleftrightarrow> iso_monday a = iso_monday b"
  by (metis iso_week_monday iso_week_start prod_cases3 surj_pair)

lemma iso_week_range:
  assumes "iso_week n = (y, w)"
  shows "1 \<le> w" "w \<le> 53"
proof -
  let ?th = "iso_monday n + 3"
  have y: "year_of_day ?th = y" and w: "w = (?th - year_start y) div 7 + 1"
    using assms by (auto simp: iso_week_def Let_def)
  have "0 \<le> ?th - year_start y" "?th - year_start y < 366"
    using year_of_day_bounds[of ?th] y by (auto simp: year_length split: if_splits)
  then show "1 \<le> w" "w \<le> 53"
    using div_facts(1)[of 7 "?th - year_start y"] unfolding w
    by (simp_all add: pos_imp_zdiv_nonneg_iff)
qed

section \<open>time.Date and AddDate\<close>

text \<open>The Unix second of a local second: Go looks the offset up as if the local
  second were UTC and, when it is not zero, once more at the corrected second.\<close>

definition date_unix :: "location \<Rightarrow> int \<Rightarrow> int" where
  "date_unix loc u = (let off = loc u in if off = 0 then u else u - loc (u - off))"

definition time_date :: "location \<Rightarrow> int \<Rightarrow> int \<Rightarrow> int \<Rightarrow> time" where
  "time_date loc day s ns = date_unix loc (day * 86400 + s) * Second + ns"

definition add_date :: "location \<Rightarrow> time \<Rightarrow> int \<Rightarrow> int \<Rightarrow> time" where
  "add_date loc t months days =
     (let (y, m, d) = date_of_day (local_day loc t)
      in time_date loc (day_of_date y (m + months) (d + days))
           (local_sec loc t mod 86400) (t mod Second))"

text \<open>Zones in which a local second exists and time.Date finds it.\<close>

definition exists_local :: "location \<Rightarrow> int \<Rightarrow> bool" where
  "exists_local loc u = (let v = date_unix loc u in v + loc v = u)"

definition fixed_zone :: "int \<Rightarrow> location" where "fixed_zone off = (\<lambda>_. off)"

lemma UTC_fixed: "UTC = fixed_zone 0"
  by (simp add: UTC_def fixed_zone_def)

lemma fixed_zone_exists [simp]: "exists_local (fixed_zone off) u"
  by (simp add: exists_local_def date_unix_def fixed_zone_def Let_def)

lemma unix_sec_time [simp]: "0 \<le> ns \<Longrightarrow> ns < Second \<Longrightarrow> unix_sec (u * Second + ns) = u"
  by (simp add: unix_sec_def)

lemma local_sec_time_date:
  assumes "exists_local loc (day * 86400 + s)" "0 \<le> ns" "ns < Second"
  shows "local_sec loc (time_date loc day s ns) = day * 86400 + s"
  using assms by (simp add: local_sec_def time_date_def exists_local_def Let_def)

lemma local_day_time_date:
  assumes "exists_local loc (day * 86400 + s)" "0 \<le> s" "s < 86400" "0 \<le> ns" "ns < Second"
  shows "local_day loc (time_date loc day s ns) = day"
  unfolding local_day_def local_sec_time_date[OF assms(1,4,5)]
  using assms(2,3) by (intro div_intro) simp_all

lemma day_of_date_add:
  "date_of_day n = (y, m, d) \<Longrightarrow> day_of_date y m (d + k) = n + k"
  using day_of_date_of_day[of n y m d] by (simp add: day_of_date_def Let_def)

lemma add_days_eq:
  "add_date loc t 0 k =
    time_date loc (local_day loc t + k) (local_sec loc t mod 86400) (t mod Second)"
  by (simp add: add_date_def day_of_date_add split: prod.splits)

lemma local_sec_UTC: "local_sec UTC t = unix_sec t"
  by (simp add: local_sec_def UTC_def)

lemma time_date_UTC: "time_date UTC day s ns = (day * 86400 + s) * Second + ns"
  by (simp add: time_date_def date_unix_def UTC_def)

lemma add_days_UTC: "add_date UTC t 0 k = t + k * 86400 * Second"
proof -
  have "local_day UTC t * 86400 + local_sec UTC t mod 86400 = unix_sec t"
    by (simp add: local_day_def local_sec_UTC)
  moreover have "unix_sec t * Second + t mod Second = t" by (simp add: unix_sec_def)
  moreover have "((local_day UTC t + k) * 86400 + local_sec UTC t mod 86400) * Second
      = (local_day UTC t * 86400 + local_sec UTC t mod 86400) * Second + k * 86400 * Second"
    by (simp add: algebra_simps)
  ultimately show ?thesis by (simp add: add_days_eq time_date_UTC)
qed

section \<open>Layouts\<close>

text \<open>appendInt of time.Format: the width is that of the digits.\<close>

definition append_int :: "nat \<Rightarrow> int \<Rightarrow> string" where
  "append_int w i = (if i < 0 then CHR ''-'' # zero_pad w (- i) else zero_pad w i)"

definition format_date :: "int \<Rightarrow> string" where
  "format_date n = (case date_of_day n of (y, m, d) \<Rightarrow>
     append_int 4 y @ ''-'' @ append_int 2 m @ ''-'' @ append_int 2 d)"

definition format_month :: "int \<Rightarrow> string" where
  "format_month n = (case date_of_day n of (y, m, d) \<Rightarrow> append_int 4 y @ ''-'' @ append_int 2 m)"

text \<open>time.Parse with layout 2006-01-02: four digits, two digits and two digits,
  a valid date, nothing after it.\<close>

definition parse_date :: "string \<Rightarrow> int option" where
  "parse_date s =
     (let y = take 4 s; m = take 2 (drop 5 s); d = take 2 (drop 8 s)
      in if length s = 10 \<and> list_all is_digit y \<and> list_all is_digit m \<and> list_all is_digit d
            \<and> s ! 4 = CHR ''-'' \<and> s ! 7 = CHR ''-''
            \<and> valid_date (int (digits_val y)) (int (digits_val m)) (int (digits_val d))
         then Some (day_of_date (int (digits_val y)) (int (digits_val m)) (int (digits_val d)))
         else None)"

lemma month_days_le: "month_days l m \<le> 31"
  by (simp add: month_days_def)

lemma parse_format_date:
  assumes "0 \<le> year_of_day n" "year_of_day n \<le> 9999"
  shows "parse_date (format_date n) = Some n"
proof -
  obtain y m d where e: "date_of_day n = (y, m, d)" by (metis prod_cases3)
  have y: "0 \<le> y" "y < 10 ^ 4" using assms e by (auto simp: date_of_day_def Let_def)
  have v: "valid_date y m d" using e by (rule date_of_day_valid)
  then have md: "0 \<le> m" "m < 10 ^ 2" "0 \<le> d" "d < 10 ^ 2"
    using month_days_le[of "is_leap y" m] by (auto simp: valid_date_def)
  define ys ms ds where "ys = zero_pad 4 y" "ms = zero_pad 2 m" "ds = zero_pad 2 d"
  note defs = this
  have l: "length ys = 4" "length ms = 2" "length ds = 2"
    using y md by (simp_all add: defs zero_pad_length)
  have dg: "list_all is_digit ys" "list_all is_digit ms" "list_all is_digit ds"
    using y md zero_pad_digits by (auto simp: defs list_all_iff)
  have val: "int (digits_val ys) = y" "int (digits_val ms) = m" "int (digits_val ds) = d"
    using y md by (simp_all add: defs)
  have f: "format_date n = ys @ ''-'' @ ms @ ''-'' @ ds"
    using e y md by (simp add: format_date_def append_int_def defs)
  have parts: "take 4 (format_date n) = ys" "take 2 (drop 5 (format_date n)) = ms"
    "take 2 (drop 8 (format_date n)) = ds" "format_date n ! 4 = CHR ''-''"
    "format_date n ! 7 = CHR ''-''" "length (format_date n) = 10"
    using l by (simp_all add: f nth_append)
  show ?thesis
    unfolding parse_date_def parts Let_def val using dg v day_of_date_of_day[OF e] by simp
qed

lemma format_date_inj:
  assumes "0 \<le> year_of_day a" "year_of_day a \<le> 9999" "0 \<le> year_of_day b" "year_of_day b \<le> 9999"
  shows "format_date a = format_date b \<longleftrightarrow> a = b"
  using parse_format_date assms by (metis option.inject)

end
