(* ===== verification/Window.thy ===== *)
theory Window
  imports Go_Time
begin

text \<open>Active windows: internal/domain/window.go (ActiveWindow with its parsed
  fields, Validate, Contains, parseHHMM) and AllowNow of
  internal/scheduler/window_gate.go. time.LoadLocation is the parameter
  load_location (None for an unknown zone). Validate returns the window with its
  parsed fields filled in. The lemmas characterise the parser on well-formed
  times, the fields a successful Validate leaves, and Contains as membership of
  the local week day and of the local minute in a half-open interval.\<close>

section \<open>Data\<close>

record active_window =
  Days :: "string list"
  Start :: string
  End :: string
  TZ :: string
  weekdays :: "int set"
  startH :: int
  startM :: int
  endH :: int
  endM :: int
  loc :: location

definition weekdayMap :: "(string \<times> int) list" where
  "weekdayMap = [(''sun'', 0), (''mon'', 1), (''tue'', 2), (''wed'', 3), (''thu'', 4),
     (''fri'', 5), (''sat'', 6)]"

definition new_window :: "string list \<Rightarrow> string \<Rightarrow> string \<Rightarrow> string \<Rightarrow> active_window" where
  "new_window ds s e tz = \<lparr> Days = ds, Start = s, End = e, TZ = tz, weekdays = {},
     startH = 0, startM = 0, endH = 0, endM = 0, loc = UTC \<rparr>"

section \<open>Operations\<close>

definition parseHHMM :: "string \<Rightarrow> (int \<times> int) result" where
  "parseHHMM s =
     (case scan_int s of
        None \<Rightarrow> Inl (EMsg ''expected HH:MM format'')
      | Some (hour, r1) \<Rightarrow>
          (case scan_lit '':'' r1 of
             None \<Rightarrow> Inl (EMsg ''expected HH:MM format'')
           | Some r2 \<Rightarrow>
               (case scan_int r2 of
                  None \<Rightarrow> Inl (EMsg ''expected HH:MM format'')
                | Some (minute, _) \<Rightarrow>
                    if hour < 0 \<or> 23 < hour then Inl (EMsg ''hour out of range [0,23]'')
                    else if minute < 0 \<or> 59 < minute then Inl (EMsg ''minute out of range [0,59]'')
                    else Inr (hour, minute))))"

fun parse_weekdays :: "string list \<Rightarrow> int set \<Rightarrow> int set result" where
  "parse_weekdays [] acc = Inr acc"
| "parse_weekdays (d # ds) acc =
     (case map_of weekdayMap (to_lower d) of
        None \<Rightarrow> Inl (EMsg (''invalid day abbreviation '' @ d))
      | Some wd \<Rightarrow> parse_weekdays ds (insert wd acc))"

definition Validate :: "(string \<Rightarrow> location option) \<Rightarrow> active_window \<Rightarrow> active_window result" where
  "Validate load_location w =
     (case load_location (TZ w) of
        None \<Rightarrow> Inl (EMsg (''invalid timezone '' @ TZ w))
      | Some l \<Rightarrow>
     (case parseHHMM (Start w) of
        Inl e \<Rightarrow> Inl (EWrap (''invalid start time '' @ Start w) e)
      | Inr (sh, sm) \<Rightarrow>
     (case parseHHMM (End w) of
        Inl e \<Rightarrow> Inl (EWrap (''invalid end time '' @ End w) e)
      | Inr (eh, em) \<Rightarrow>
          if eh * 60 + em \<le> sh * 60 + sm
          then Inl (EMsg (''end time '' @ End w @ '' must be after start time '' @ Start w))
          else
     (case parse_weekdays (Days w) {} of
        Inl e \<Rightarrow> Inl e
      | Inr wds \<Rightarrow>
          if wds = {} then Inl (EMsg ''at least one day must be specified'')
          else Inr (w\<lparr> loc := l, startH := sh, startM := sm, endH := eh, endM := em,
                       weekdays := wds \<rparr>)))))"

definition Contains :: "active_window \<Rightarrow> time \<Rightarrow> bool" where
  "Contains w t =
     (if weekday_of (loc w) t \<notin> weekdays w then False
      else let totalMin = hour_of (loc w) t * 60 + minute_of (loc w) t;
               startMin = startH w * 60 + startM w;
               endMin = endH w * 60 + endM w
           in startMin \<le> totalMin \<and> totalMin < endMin)"

fun AllowNow :: "time \<Rightarrow> bool \<Rightarrow> active_window list \<Rightarrow> bool" where
  "AllowNow now True ws = True"
| "AllowNow now False [] = False"
| "AllowNow now False (w # ws) = (if Contains w now then True else AllowNow now False ws)"

section \<open>Lemmas\<close>

lemma AllowNow_iff: "AllowNow now full ws \<longleftrightarrow> full \<or> (\<exists>w \<in> set ws. Contains w now)"
  by (cases full; induction ws) auto

lemma parseHHMM_range:
  "parseHHMM s = Inr (h, m) \<Longrightarrow> 0 \<le> h \<and> h \<le> 23 \<and> 0 \<le> m \<and> m \<le> 59"
  by (auto simp: parseHHMM_def split: option.splits if_splits)

lemma parseHHMM_print:
  assumes "0 \<le> h" "h \<le> 23" "0 \<le> m" "m \<le> 59"
  shows "parseHHMM (zero_pad 2 h @ '':'' @ zero_pad 2 m @ junk) = Inr (h, m) \<or>
    (junk \<noteq> [] \<and> is_digit (hd junk))"
proof (cases "junk = [] \<or> \<not> is_digit (hd junk)")
  case True
  have 1: "scan_int (zero_pad 2 h @ '':'' @ zero_pad 2 m @ junk)
      = Some (int (digits_val (zero_pad 2 h)), '':'' @ zero_pad 2 m @ junk)"
    using assms zero_pad_digits[of h 2]
    by (intro scan_int_digits) (auto simp: nat_less_iff is_digit_def[of "CHR '':''"])
  have 2: "scan_int (zero_pad 2 m @ junk) = Some (int (digits_val (zero_pad 2 m)), junk)"
    using assms True by (intro scan_int_digits) (auto simp: zero_pad_digits nat_less_iff)
  show ?thesis using assms 1 2 by (simp add: parseHHMM_def scan_lit_def has_prefix_def)
qed auto

lemma weekdayMap_range: "map_of weekdayMap d = Some n \<Longrightarrow> 0 \<le> n \<and> n < 7"
  by (auto simp: weekdayMap_def split: if_splits)

lemma parse_weekdays_eq:
  "parse_weekdays ds acc = Inr S \<Longrightarrow>
    S = acc \<union> {n. \<exists>d \<in> set ds. map_of weekdayMap (to_lower d) = Some n}"
  by (induction ds arbitrary: acc) (fastforce split: option.splits)+

lemma parse_weekdays_ok:
  "is_ok (parse_weekdays ds acc) \<longleftrightarrow> (\<forall>d \<in> set ds. map_of weekdayMap (to_lower d) \<noteq> None)"
  by (induction ds arbitrary: acc) (auto split: option.splits)

definition valid_window :: "active_window \<Rightarrow> bool" where
  "valid_window w = (0 \<le> startH w \<and> startH w \<le> 23 \<and> 0 \<le> startM w \<and> startM w \<le> 59 \<and>
     0 \<le> endH w \<and> endH w \<le> 23 \<and> 0 \<le> endM w \<and> endM w \<le> 59 \<and>
     startH w * 60 + startM w < endH w * 60 + endM w \<and>
     weekdays w \<noteq> {} \<and> weekdays w \<subseteq> {0..6})"

lemma ValidateE:
  assumes "Validate ll w = Inr w'"
  obtains l sh sm eh em wds where "ll (TZ w) = Some l" "parseHHMM (Start w) = Inr (sh, sm)"
    "parseHHMM (End w) = Inr (eh, em)" "sh * 60 + sm < eh * 60 + em"
    "parse_weekdays (Days w) {} = Inr wds" "wds \<noteq> {}"
    "w' = w\<lparr> loc := l, startH := sh, startM := sm, endH := eh, endM := em, weekdays := wds \<rparr>"
  using assms unfolding Validate_def
  by (auto split: option.splits sum.splits if_splits)

lemma Validate_valid:
  assumes "Validate ll w = Inr w'"
  shows "valid_window w'"
proof -
  obtain l sh sm eh em wds where v: "parseHHMM (Start w) = Inr (sh, sm)"
    "parseHHMM (End w) = Inr (eh, em)" "sh * 60 + sm < eh * 60 + em"
    "parse_weekdays (Days w) {} = Inr wds" "wds \<noteq> {}"
    "w' = w\<lparr> loc := l, startH := sh, startM := sm, endH := eh, endM := em, weekdays := wds \<rparr>"
    using assms by (rule ValidateE)
  have "wds \<subseteq> {0..6}"
    using parse_weekdays_eq[OF v(4)] weekdayMap_range by fastforce
  then show ?thesis
    using v parseHHMM_range[OF v(1)] parseHHMM_range[OF v(2)] by (simp add: valid_window_def)
qed

lemma Contains_iff:
  "Contains w t \<longleftrightarrow> weekday_of (loc w) t \<in> weekdays w \<and>
    startH w * 60 + startM w \<le> local_sec (loc w) t mod 86400 div 60 \<and>
    local_sec (loc w) t mod 86400 div 60 < endH w * 60 + endM w"
  by (simp add: Contains_def hour_minute Let_def)

section \<open>Properties\<close>

text \<open>C27: a window that Validate accepts contains exactly the instants whose local
  week day is one of the named days and whose local minute of the day lies in the
  half-open interval from Start to End; the interval is not empty and the parsed
  hours and minutes are in range.\<close>

lemma validated_window_contains:
  assumes "Validate load_location w = Inr w'"
  shows "\<exists>l sh sm eh em. load_location (TZ w) = Some l \<and>
    parseHHMM (Start w) = Inr (sh, sm) \<and> parseHHMM (End w) = Inr (eh, em) \<and>
    0 \<le> sh * 60 + sm \<and> sh * 60 + sm < eh * 60 + em \<and> eh * 60 + em < 1440 \<and>
    (\<forall>t. Contains w' t \<longleftrightarrow>
      (\<exists>d \<in> set (Days w). map_of weekdayMap (to_lower d) = Some (weekday_of l t)) \<and>
      sh * 60 + sm \<le> local_sec l t mod 86400 div 60 \<and>
      local_sec l t mod 86400 div 60 < eh * 60 + em)"
proof -
  obtain l sh sm eh em wds where v: "load_location (TZ w) = Some l" "parseHHMM (Start w) = Inr (sh, sm)"
    "parseHHMM (End w) = Inr (eh, em)" "sh * 60 + sm < eh * 60 + em"
    "parse_weekdays (Days w) {} = Inr wds" "wds \<noteq> {}"
    "w' = w\<lparr> loc := l, startH := sh, startM := sm, endH := eh, endM := em, weekdays := wds \<rparr>"
    using assms by (rule ValidateE)
  have wds: "wds = {n. \<exists>d \<in> set (Days w). map_of weekdayMap (to_lower d) = Some n}"
    using parse_weekdays_eq[OF v(5)] by simp
  have c: "Contains w' t \<longleftrightarrow>
      (\<exists>d \<in> set (Days w). map_of weekdayMap (to_lower d) = Some (weekday_of l t)) \<and>
      sh * 60 + sm \<le> local_sec l t mod 86400 div 60 \<and>
      local_sec l t mod 86400 div 60 < eh * 60 + em" for t
    unfolding Contains_iff v(7) wds by simp
  show ?thesis
    using v(1-4) parseHHMM_range[OF v(2)] parseHHMM_range[OF v(3)] c
    by (intro exI[of _ l] exI[of _ sh] exI[of _ sm] exI[of _ eh] exI[of _ em]) simp
qed

lemma validated_window_witness:
  "\<exists>w'. Validate (\<lambda>_. Some UTC) (new_window [''Mon'', ''tue''] ''09:00'' ''18:30'' ''UTC'') = Inr w' \<and>
    Contains w' (4 * 86400 * Second + 9 * Hour) \<and> \<not> Contains w' (4 * 86400 * Second + 18 * Hour + 30 * Minute)"
proof -
  let ?w = "new_window [''Mon'', ''tue''] ''09:00'' ''18:30'' ''UTC''"
  have p: "parseHHMM ''09:00'' = Inr (9, 0)" "parseHHMM ''18:30'' = Inr (18, 30)"
    by (simp_all add: parseHHMM_def scan_int_def scan_sign_def is_space_def is_digit_def digits_val_def
        digit_val_def scan_lit_def has_prefix_def int64_ok_def)
  have d: "map_of weekdayMap (to_lower ''Mon'') = Some 1" "map_of weekdayMap (to_lower ''tue'') = Some 2"
    by code_simp+
  obtain w' where w': "Validate (\<lambda>_. Some UTC) ?w = Inr w'"
    by (simp add: Validate_def new_window_def p d)
  have t: "weekday_of UTC (4 * 86400 * Second + 9 * Hour) = 1"
    "weekday_of UTC (4 * 86400 * Second + 18 * Hour + 30 * Minute) = 1"
    "local_sec UTC (4 * 86400 * Second + 9 * Hour) mod 86400 = 32400"
    "local_sec UTC (4 * 86400 * Second + 18 * Hour + 30 * Minute) mod 86400 = 66600"
    by (simp_all add: weekday_of_def local_day_def local_sec_def unix_sec_def UTC_def weekday_of_day_def)
  show ?thesis using validated_window_contains[OF w'] w' t p d by (auto simp: new_window_def)
qed

text \<open>C8: AllowNow lets a task run exactly when full mode is on or one of the
  windows contains the instant.\<close>

lemma allow_now_spec: "AllowNow now fullMode ws = (fullMode \<or> (\<exists>w. w \<in> set ws \<and> Contains w now))"
  by (cases fullMode; induction ws) auto

end
