(* ===== verification/Json.thy ===== *)
theory Json
  imports Go_Time Complex_Main
begin

text \<open>JSON documents and the rules of encoding/json the program relies on. A
  document is its syntax tree: the app_states column is a MySQL JSON column, so
  a stored text is always well formed and is read back in MySQL's own layout.
  Numbers written without fraction or exponent are JInt. Unmarshal into a struct
  visits the members in order, matches a field name up to ASCII case, keeps the
  old value on null, and on a type mismatch keeps the old value, goes on and
  reports the error at the end.\<close>

section \<open>Documents\<close>

datatype json =
    JNull
  | JBool bool
  | JInt int
  | JFloat rat
  | JStr string
  | JArr "json list"
  | JObj "(string \<times> json) list"

definition fold_eq :: "string \<Rightarrow> string \<Rightarrow> bool" where
  "fold_eq a b = (to_lower a = to_lower b)"

definition members :: "string \<Rightarrow> (string \<times> json) list \<Rightarrow> json list" where
  "members f kvs = map snd (filter (\<lambda>kv. fold_eq (fst kv) f) kvs)"

section \<open>Unmarshal\<close>

text \<open>A decoder maps a document and the old value to the new value and whether no
  error was met.\<close>

type_synonym 'a decoder = "json \<Rightarrow> 'a \<Rightarrow> 'a \<times> bool"

fun dec_bool :: "bool decoder" where
  "dec_bool (JBool b) v = (b, True)"
| "dec_bool JNull v = (v, True)"
| "dec_bool _ v = (v, False)"

fun dec_int :: "int decoder" where
  "dec_int (JInt i) v = (if int64_ok i then (i, True) else (v, False))"
| "dec_int JNull v = (v, True)"
| "dec_int _ v = (v, False)"

fun dec_float :: "rat decoder" where
  "dec_float (JInt i) v = (of_int i, True)"
| "dec_float (JFloat r) v = (r, True)"
| "dec_float JNull v = (v, True)"
| "dec_float _ v = (v, False)"

fun dec_str :: "string decoder" where
  "dec_str (JStr s) v = (s, True)"
| "dec_str JNull v = (v, True)"
| "dec_str _ v = (v, False)"

fun dec_list :: "'a decoder \<Rightarrow> 'a \<Rightarrow> 'a list decoder" where
  "dec_list d z (JArr js) v =
     (map (\<lambda>j. fst (d j z)) js, list_all (\<lambda>j. snd (d j z)) js)"
| "dec_list d z JNull v = ([], True)"
| "dec_list d z _ v = (v, False)"

fun dec_members :: "'a decoder \<Rightarrow> json list \<Rightarrow> 'a \<Rightarrow> 'a \<times> bool" where
  "dec_members d [] v = (v, True)"
| "dec_members d (j # js) v =
     (let (v1, ok1) = d j v; (v2, ok2) = dec_members d js v1 in (v2, ok1 \<and> ok2))"

text \<open>The value of a field of a struct read from an object, and its error flag.\<close>

definition dec_field :: "string \<Rightarrow> 'a decoder \<Rightarrow> (string \<times> json) list \<Rightarrow> 'a \<Rightarrow> 'a \<times> bool" where
  "dec_field f d kvs v = dec_members d (members f kvs) v"

definition struct_members :: "json \<Rightarrow> (string \<times> json) list option" where
  "struct_members j = (case j of JObj kvs \<Rightarrow> Some kvs | JNull \<Rightarrow> Some [] | _ \<Rightarrow> None)"

lemma members_Nil [simp]: "members f [] = []"
  by (simp add: members_def)

lemma members_Cons [simp]:
  "members f ((k, j) # kvs) = (if fold_eq k f then j # members f kvs else members f kvs)"
  by (simp add: members_def)

lemma fold_eq_refl [simp]: "fold_eq k k"
  by (simp add: fold_eq_def)

lemma fold_eq_simps:
  "fold_eq (a # as) (b # bs) \<longleftrightarrow> to_lower_char a = to_lower_char b \<and> fold_eq as bs"
  "fold_eq [] (b # bs) \<longleftrightarrow> False" "fold_eq (a # as) [] \<longleftrightarrow> False" "fold_eq [] [] \<longleftrightarrow> True"
  by (simp_all add: fold_eq_def to_lower_def)

lemma dec_members_single [simp]: "dec_members d [j] v = d j v"
  by (simp split: prod.split)

lemma struct_members_simps [simp]:
  "struct_members (JObj kvs) = Some kvs" "struct_members JNull = Some []"
  by (simp_all add: struct_members_def)

section \<open>The text of a document\<close>

text \<open>The text MySQL returns for a JSON column: one blank after a colon and a
  comma. Strings are written without escaping, which is exact for the strings the
  program stores (keys, dates, zone names, rate-limit types).\<close>

definition quote :: "string \<Rightarrow> string" where
  "quote s = CHR 0x22 # s @ [CHR 0x22]"

definition bool_text :: "bool \<Rightarrow> string" where
  "bool_text b = (if b then ''true'' else ''false'')"

fun json_text :: "(rat \<Rightarrow> string) \<Rightarrow> json \<Rightarrow> string"
  and json_members_text :: "(rat \<Rightarrow> string) \<Rightarrow> (string \<times> json) list \<Rightarrow> string list"
  and json_list_text :: "(rat \<Rightarrow> string) \<Rightarrow> json list \<Rightarrow> string list" where
  "json_text ft JNull = ''null''"
| "json_text ft (JBool b) = bool_text b"
| "json_text ft (JInt i) = int_str i"
| "json_text ft (JFloat r) = ft r"
| "json_text ft (JStr s) = quote s"
| "json_text ft (JArr js) = ''['' @ join_str '', '' (json_list_text ft js) @ '']''"
| "json_text ft (JObj kvs) = ''{'' @ join_str '', '' (json_members_text ft kvs) @ ''}''"
| "json_members_text ft [] = []"
| "json_members_text ft ((k, j) # kvs) =
     (quote k @ '': '' @ json_text ft j) # json_members_text ft kvs"
| "json_list_text ft [] = []"
| "json_list_text ft (j # js) = json_text ft j # json_list_text ft js"

text \<open>The character-by-character search of internal/scheduler/scheduler.go.\<close>

definition containsTrue :: "string \<Rightarrow> bool" where
  "containsTrue s = list_ex (\<lambda>i. take 4 (drop i s) = ''true'') [0 ..< length s - 3]"

lemma containsTrue_iff: "containsTrue s \<longleftrightarrow> sublist ''true'' s"
proof
  assume "containsTrue s"
  then obtain i where "take 4 (drop i s) = ''true''" by (auto simp: containsTrue_def list_ex_iff)
  then have "s = take i s @ ''true'' @ drop 4 (drop i s)" by (metis append_take_drop_id)
  then show "sublist ''true'' s" unfolding sublist_def by blast
next
  assume "sublist ''true'' s"
  then obtain p q where s: "s = p @ ''true'' @ q" by (auto simp: sublist_def)
  then have "take 4 (drop (length p) s) = ''true''" "length p < length s - 3" by simp_all
  then show "containsTrue s" unfolding containsTrue_def list_ex_iff by fastforce
qed

end
