(* ===== verification/Domain.thy ===== *)
theory Domain
  imports Json
begin

text \<open>The entities of internal/domain (task.go, repository.go,
  usage_repository.go): tasks, events and application states, with the string
  enums as datatypes and their Go values. Fields that hold raw JSON text are the
  document the text denotes, None for the empty string; pointers are options;
  money is a rational (float rounding is not modelled).\<close>

section \<open>Enumerations\<close>

datatype task_status =
    TaskStatusQueued
  | TaskStatusRunning
  | TaskStatusDone
  | TaskStatusFailed
  | TaskStatusCancelled
  | TaskStatusOrphaned

fun status_str :: "task_status \<Rightarrow> string" where
  "status_str TaskStatusQueued = ''queued''"
| "status_str TaskStatusRunning = ''running''"
| "status_str TaskStatusDone = ''done''"
| "status_str TaskStatusFailed = ''failed''"
| "status_str TaskStatusCancelled = ''cancelled''"
| "status_str TaskStatusOrphaned = ''orphaned''"

text \<open>A task type is an open string in Go: callers may pass another one.\<close>

datatype task_type =
    TaskTypeFeature
  | TaskTypeSecurity
  | TaskTypePerf
  | TaskTypeCIFix
  | TaskTypeOther string

fun task_type_str :: "task_type \<Rightarrow> string" where
  "task_type_str TaskTypeFeature = ''feature''"
| "task_type_str TaskTypeSecurity = ''security''"
| "task_type_str TaskTypePerf = ''perf''"
| "task_type_str TaskTypeCIFix = ''ci-fix''"
| "task_type_str (TaskTypeOther s) = s"

datatype ci_status =
    CIStatusEmpty
  | CIStatusPending
  | CIStatusWatching
  | CIStatusPassed
  | CIStatusFailed
  | CIStatusExhausted
  | CIStatusTimeout
  | CIStatusStuck
  | CIStatusClosed

fun ci_status_str :: "ci_status \<Rightarrow> string" where
  "ci_status_str CIStatusEmpty = ''''"
| "ci_status_str CIStatusPending = ''pending''"
| "ci_status_str CIStatusWatching = ''watching''"
| "ci_status_str CIStatusPassed = ''passed''"
| "ci_status_str CIStatusFailed = ''failed''"
| "ci_status_str CIStatusExhausted = ''exhausted''"
| "ci_status_str CIStatusTimeout = ''timeout''"
| "ci_status_str CIStatusStuck = ''stuck''"
| "ci_status_str CIStatusClosed = ''closed''"

datatype task_source = TaskSourceEmpty | TaskSourceGitHubIssue | TaskSourceMaintenance

fun source_str :: "task_source \<Rightarrow> string" where
  "source_str TaskSourceEmpty = ''''"
| "source_str TaskSourceGitHubIssue = ''github_issue''"
| "source_str TaskSourceMaintenance = ''maintenance''"

datatype event_kind =
    EventKindStarted
  | EventKindSlackSent
  | EventKindClaudeStdoutChunk
  | EventKindCancelled
  | EventKindUsageWarning
  | EventKindPRCreated
  | EventKindFailed
  | EventKindCICheckPolled
  | EventKindCIFailureDetected
  | EventKindCIFixEnqueued
  | EventKindCIFixExhausted

datatype bucket_kind = BucketDay | BucketWeek | BucketMonth | BucketOther string

section \<open>Entities\<close>

record task =
  ID :: string
  RepoFullName :: string
  IssueNumber :: int
  IssueTitle :: string
  TaskType :: task_type
  Status :: task_status
  Source :: task_source
  MaintenanceName :: string
  PromptTemplate :: string
  WorktreePath :: string
  PRURL :: string
  PRNumber :: int
  StartedAt :: "time option"
  FinishedAt :: "time option"
  EstimatedInputTokens :: int
  EstimatedOutputTokens :: int
  ExitCode :: "int option"
  StderrTail :: string
  CreatedAt :: time
  UpdatedAt :: time
  CostUSD :: rat
  TotalInputTokens :: int
  TotalOutputTokens :: int
  CacheCreationInputTokens :: int
  CacheReadInputTokens :: int
  ModelUsageJSON :: "json option"
  WorkerID :: "string option"
  ClaimedAt :: "time option"
  ParentTaskID :: "string option"
  FixAttemptCount :: int
  CIStatus :: ci_status
  HeadSHA :: string
  CILastPolledAt :: "time option"

text \<open>The zero value of the struct; a Go composite literal names the fields it
  sets and leaves the others here. The zero status and type strings are never
  stored, so the enums use their first value.\<close>

definition zero_task :: task where
  "zero_task = \<lparr> ID = '''', RepoFullName = '''', IssueNumber = 0, IssueTitle = '''',
     TaskType = TaskTypeOther '''', Status = TaskStatusQueued, Source = TaskSourceEmpty,
     MaintenanceName = '''', PromptTemplate = '''', WorktreePath = '''', PRURL = '''',
     PRNumber = 0, StartedAt = None, FinishedAt = None, EstimatedInputTokens = 0,
     EstimatedOutputTokens = 0, ExitCode = None, StderrTail = '''', CreatedAt = zero_time,
     UpdatedAt = zero_time, CostUSD = 0, TotalInputTokens = 0, TotalOutputTokens = 0,
     CacheCreationInputTokens = 0, CacheReadInputTokens = 0, ModelUsageJSON = None,
     WorkerID = None, ClaimedAt = None, ParentTaskID = None, FixAttemptCount = 0,
     CIStatus = CIStatusEmpty, HeadSHA = '''', CILastPolledAt = None \<rparr>"

record task_event =
  EventID :: string
  EventTaskID :: string
  Kind :: event_kind
  PayloadJSON :: "json option"
  EventCreatedAt :: time

record app_state =
  Key :: string
  ValueJSON :: json
  StateUpdatedAt :: time

text \<open>A filter's status and source come from query strings.\<close>

record task_filter =
  FilterStatus :: "string option"
  FilterSource :: "string option"
  FilterCIStatus :: "string option"
  Limit :: int
  Cursor :: string

definition zero_filter :: task_filter where
  "zero_filter = \<lparr> FilterStatus = None, FilterSource = None, FilterCIStatus = None,
     Limit = 0, Cursor = '''' \<rparr>"

record usage_bucket_row =
  Bucket :: string
  TaskCount :: int
  BucketCostUSD :: rat
  InputTokens :: int
  OutputTokens :: int
  CacheReadTokens :: int
  CacheCreationTokens :: int
  FailedCostUSD :: rat

record usage_model_row =
  ModelID :: string
  ModelTaskCount :: int
  ModelCostUSD :: rat
  ModelInputTokens :: int
  ModelOutputTokens :: int
  ModelCacheReadTokens :: int
  ModelCacheCreationTokens :: int

section \<open>Terminal states\<close>

definition terminal :: "task_status \<Rightarrow> bool" where
  "terminal s = (s \<noteq> TaskStatusQueued \<and> s \<noteq> TaskStatusRunning)"

lemma terminal_simps [simp]:
  "\<not> terminal TaskStatusQueued" "\<not> terminal TaskStatusRunning" "terminal TaskStatusDone"
  "terminal TaskStatusFailed" "terminal TaskStatusCancelled" "terminal TaskStatusOrphaned"
  by (simp_all add: terminal_def)

lemma status_str_inj [simp]: "status_str a = status_str b \<longleftrightarrow> a = b"
  by (cases a; cases b) simp_all

lemma ci_status_str_inj [simp]: "ci_status_str a = ci_status_str b \<longleftrightarrow> a = b"
  by (cases a; cases b) simp_all

section \<open>The interfaces of repository.go\<close>

text \<open>Every method returns its result and the next state of the world; the use
  cases take a repository as an argument, as their Go structs hold one.\<close>

record 's app_state_repo =
  Get :: "string \<Rightarrow> 's \<Rightarrow> app_state result \<times> 's"
  Set :: "app_state \<Rightarrow> 's \<Rightarrow> unit result \<times> 's"

record 's task_repo =
  Create :: "task \<Rightarrow> 's \<Rightarrow> unit result \<times> 's"
  GetByID :: "string \<Rightarrow> 's \<Rightarrow> task result \<times> 's"
  Update :: "task \<Rightarrow> 's \<Rightarrow> unit result \<times> 's"
  ListTasks :: "task_filter \<Rightarrow> 's \<Rightarrow> task list result \<times> 's"
  GetRunning :: "'s \<Rightarrow> task list result \<times> 's"
  ExistsByRepoAndIssue :: "string \<Rightarrow> int \<Rightarrow> 's \<Rightarrow> bool result \<times> 's"
  ClaimNext :: "string \<Rightarrow> 's \<Rightarrow> task option result \<times> 's"
  ReclaimStale :: "time \<Rightarrow> 's \<Rightarrow> int result \<times> 's"
  ListWatchingIDs :: "'s \<Rightarrow> string list result \<times> 's"
  FindFixChild :: "string \<Rightarrow> string \<Rightarrow> 's \<Rightarrow> task option result \<times> 's"
  UpdateCIStatus :: "string \<Rightarrow> ci_status \<Rightarrow> string \<Rightarrow> time \<Rightarrow> 's \<Rightarrow> unit result \<times> 's"

record 's event_repo =
  CreateEvent :: "task_event \<Rightarrow> 's \<Rightarrow> unit result \<times> 's"
  ListByTaskID :: "string \<Rightarrow> int \<Rightarrow> 's \<Rightarrow> task_event list result \<times> 's"

end
