(* ===== verification/Store.thy ===== *)
theory Store
  imports Domain
begin

text \<open>The tables of the database and one SQL statement each: migrations/*.up.sql
  (keys, CHECK constraints, the unique ci-fix dedup key), db/sqlc/task.sql.go and
  the statements GORM issues for internal/repository. A statement is atomic and
  may fail before or after its effect, as the oracle of the state decides; NOW(3)
  and GORM's clock are readings of the clock oracle. Ties of an ORDER BY are
  resolved by table order. Column widths, the collation and the millisecond
  rounding of DATETIME(3) are not modelled.\<close>

section \<open>Tables\<close>

text \<open>The GORM model of the tasks table.\<close>

record gorm_task =
  gID :: string
  gRepoFullName :: string
  gIssueNumber :: int
  gIssueTitle :: string
  gTaskType :: task_type
  gStatus :: task_status
  gSource :: task_source
  gMaintenanceName :: string
  gPromptTemplate :: string
  gWorktreePath :: string
  gPRURL :: string
  gPRNumber :: int
  gStartedAt :: "time option"
  gFinishedAt :: "time option"
  gEstimatedInputTokens :: int
  gEstimatedOutputTokens :: int
  gExitCode :: "int option"
  gStderrTail :: string
  gCreatedAt :: time
  gUpdatedAt :: time
  gCostUSD :: rat
  gTotalInputTokens :: int
  gTotalOutputTokens :: int
  gCacheCreationInputTokens :: int
  gCacheReadInputTokens :: int
  gModelUsageJSON :: "json option"
  gWorkerID :: "string option"
  gClaimedAt :: "time option"
  gParentTaskID :: "string option"
  gFixAttemptCount :: int
  gCIStatus :: ci_status
  gHeadSHA :: string
  gCILastPolledAt :: "time option"

record gorm_app_state =
  aKey :: string
  aValueJSON :: json
  aUpdatedAt :: time

record gorm_task_event =
  eID :: string
  eTaskID :: string
  eKind :: event_kind
  ePayloadJSON :: json
  eCreatedAt :: time

section \<open>The database and its statements\<close>

text \<open>Errors of the driver; none of them is a not-found sentinel.\<close>

datatype db_fault = ConnectionLost string | ContextCanceled | ContextDeadline

fun db_err :: "db_fault \<Rightarrow> go_error" where
  "db_err (ConnectionLost m) = EMsg m"
| "db_err ContextCanceled = ErrContextCanceled"
| "db_err ContextDeadline = ErrDeadlineExceeded"

datatype db_outcome = Works | FailsBefore db_fault | FailsAfter db_fault

record db =
  task_rows :: "gorm_task list"
  event_rows :: "gorm_task_event list"
  app_rows :: "gorm_app_state list"
  clock :: "nat \<Rightarrow> time"
  outcome :: "nat \<Rightarrow> db_outcome"
  ops :: nat

text \<open>Run one statement: it sees the clock at its own index.\<close>

definition exec :: "(time \<Rightarrow> 'w db_scheme \<Rightarrow> 'a result \<times> 'w db_scheme) \<Rightarrow>
    'w db_scheme \<Rightarrow> 'a result \<times> 'w db_scheme" where
  "exec f d =
     (let n = ops d; d1 = d\<lparr> ops := Suc n \<rparr> in
      case outcome d n of
        Works \<Rightarrow> f (clock d n) d1
      | FailsBefore e \<Rightarrow> (Inl (db_err e), d1)
      | FailsAfter e \<Rightarrow> (Inl (db_err e), snd (f (clock d n) d1)))"

text \<open>CHECK constraints on the type of a task and the kind of an event.\<close>

fun check_task_type :: "task_type \<Rightarrow> bool" where
  "check_task_type (TaskTypeOther _) = False"
| "check_task_type _ = True"

definition check_event_kind :: "event_kind \<Rightarrow> bool" where
  "check_event_kind k = (k \<in> {EventKindStarted, EventKindSlackSent, EventKindClaudeStdoutChunk,
     EventKindCancelled, EventKindUsageWarning, EventKindPRCreated, EventKindFailed})"

text \<open>The generated column of the unique index uniq_tasks_ci_fix_dedup.\<close>

definition dedup_key :: "gorm_task \<Rightarrow> string option" where
  "dedup_key r =
     (if gTaskType r = TaskTypeCIFix
      then Some ((case gParentTaskID r of None \<Rightarrow> '''' | Some p \<Rightarrow> p) @ ''|'' @ gHeadSHA r)
      else None)"

definition dedup_clash :: "gorm_task \<Rightarrow> gorm_task \<Rightarrow> bool" where
  "dedup_clash r s = (dedup_key r \<noteq> None \<and> dedup_key r = dedup_key s)"

definition sql_insert_task :: "gorm_task \<Rightarrow> time \<Rightarrow> 'w db_scheme \<Rightarrow> unit result \<times> 'w db_scheme" where
  "sql_insert_task r now d =
     (if list_ex (\<lambda>x. gID x = gID r) (task_rows d)
      then (Inl (EMsg ''Duplicate entry for key PRIMARY''), d)
      else if \<not> check_task_type (gTaskType r)
      then (Inl (EMsg ''Check constraint chk_tasks_task_type is violated''), d)
      else if list_ex (dedup_clash r) (task_rows d)
      then (Inl (EMsg ''Duplicate entry for key uniq_tasks_ci_fix_dedup''), d)
      else let r1 = (if is_zero (gCreatedAt r) then r\<lparr> gCreatedAt := now \<rparr> else r);
               r2 = (if is_zero (gUpdatedAt r1) then r1\<lparr> gUpdatedAt := now \<rparr> else r1)
           in (Inr (), d\<lparr> task_rows := task_rows d @ [r2] \<rparr>))"

text \<open>GORM Save: an UPDATE of every column by primary key with updated_at set to
  now; when no row has the key, an INSERT ... ON DUPLICATE KEY UPDATE.\<close>

definition set_row :: "gorm_task \<Rightarrow> gorm_task list \<Rightarrow> gorm_task list" where
  "set_row r rs = map (\<lambda>x. if gID x = gID r then r else x) rs"

definition sql_save_task :: "gorm_task \<Rightarrow> time \<Rightarrow> 'w db_scheme \<Rightarrow> unit result \<times> 'w db_scheme" where
  "sql_save_task r now d =
     (let r1 = r\<lparr> gUpdatedAt := now \<rparr> in
      if \<not> check_task_type (gTaskType r)
      then (Inl (EMsg ''Check constraint chk_tasks_task_type is violated''), d)
      else if list_ex (\<lambda>x. gID x = gID r) (task_rows d)
      then (if list_ex (\<lambda>x. gID x \<noteq> gID r \<and> dedup_clash r x) (task_rows d)
            then (Inl (EMsg ''Duplicate entry for key uniq_tasks_ci_fix_dedup''), d)
            else (Inr (), d\<lparr> task_rows := set_row r1 (task_rows d) \<rparr>))
      else if list_ex (dedup_clash r) (task_rows d)
      then (Inr (), d\<lparr> task_rows :=
              map (\<lambda>x. if dedup_clash r x then r1\<lparr> gID := gID x \<rparr> else x) (task_rows d) \<rparr>)
      else (Inr (), d\<lparr> task_rows := task_rows d @ [r1] \<rparr>))"

definition sql_first_task :: "string \<Rightarrow> time \<Rightarrow> 'w db_scheme \<Rightarrow> gorm_task result \<times> 'w db_scheme" where
  "sql_first_task i now d =
     (case find (\<lambda>r. gID r = i) (task_rows d) of
        None \<Rightarrow> (Inl ErrRecordNotFound, d)
      | Some r \<Rightarrow> (Inr r, d))"

text \<open>Comparison of ids as strings.\<close>

fun str_less :: "string \<Rightarrow> string \<Rightarrow> bool" where
  "str_less _ [] = False"
| "str_less [] (b # bs) = True"
| "str_less (a # as) (b # bs) =
     ((of_char a :: nat) < of_char b \<or> (a = b \<and> str_less as bs))"

definition opt_holds :: "('a \<Rightarrow> bool) \<Rightarrow> 'a option \<Rightarrow> bool" where
  "opt_holds p x = (case x of None \<Rightarrow> True | Some a \<Rightarrow> p a)"

section \<open>The statements of db/sqlc/task.sql.go\<close>

definition eligible :: "gorm_task list \<Rightarrow> gorm_task \<Rightarrow> bool" where
  "eligible rows t1 =
     (gStatus t1 = TaskStatusQueued \<and>
      \<not> list_ex (\<lambda>t2. gStatus t2 = TaskStatusRunning \<and> gRepoFullName t2 = gRepoFullName t1) rows)"

text \<open>ORDER BY key ASC LIMIT 1: the first row with the least key.\<close>

fun first_min :: "('a \<Rightarrow> int) \<Rightarrow> 'a list \<Rightarrow> 'a option" where
  "first_min f [] = None"
| "first_min f (x # xs) =
     (case first_min f xs of None \<Rightarrow> Some x
      | Some y \<Rightarrow> if f y < f x then Some y else Some x)"

definition pick :: "gorm_task list \<Rightarrow> gorm_task option" where
  "pick rows = first_min gCreatedAt (filter (eligible rows) rows)"

definition claim_row :: "string option \<Rightarrow> time \<Rightarrow> gorm_task \<Rightarrow> gorm_task" where
  "claim_row workerID now x = x\<lparr> gStatus := TaskStatusRunning, gWorkerID := workerID,
     gClaimedAt := Some now, gStartedAt := Some now, gUpdatedAt := now \<rparr>"

definition ClaimNextTask ::
  "string option \<Rightarrow> time \<Rightarrow> 'w db_scheme \<Rightarrow> int result \<times> 'w db_scheme" where
  "ClaimNextTask workerID now d =
     (case pick (task_rows d) of
        None \<Rightarrow> (Inr 0, d)
      | Some r \<Rightarrow>
          (Inr 1, d\<lparr> task_rows :=
             map (\<lambda>x. if gID x = gID r then claim_row workerID now x else x) (task_rows d) \<rparr>))"

definition neg_claimed :: "gorm_task \<Rightarrow> int" where
  "neg_claimed r = (case gClaimedAt r of None \<Rightarrow> 0 | Some t \<Rightarrow> - t)"

text \<open>worker_id = NULL holds for no row; ORDER BY claimed_at DESC puts NULLs last.\<close>

definition GetClaimedTaskID ::
  "string option \<Rightarrow> time \<Rightarrow> 'w db_scheme \<Rightarrow> string result \<times> 'w db_scheme" where
  "GetClaimedTaskID workerID now d =
     (let rows = filter (\<lambda>r. workerID \<noteq> None \<and> gWorkerID r = workerID \<and>
                              gStatus r = TaskStatusRunning) (task_rows d);
          claimed = filter (\<lambda>r. gClaimedAt r \<noteq> None) rows
      in case first_min neg_claimed claimed of
           Some r \<Rightarrow> (Inr (gID r), d)
         | None \<Rightarrow> (case rows of [] \<Rightarrow> (Inl ErrNoRows, d) | r # _ \<Rightarrow> (Inr (gID r), d)))"

definition stale :: "time \<Rightarrow> gorm_task \<Rightarrow> bool" where
  "stale cutoff r = (gStatus r = TaskStatusRunning \<and>
     (case gClaimedAt r of None \<Rightarrow> False | Some t \<Rightarrow> t < cutoff))"

definition orphan_row :: "time \<Rightarrow> gorm_task \<Rightarrow> gorm_task" where
  "orphan_row now x = x\<lparr> gStatus := TaskStatusOrphaned, gWorkerID := None, gUpdatedAt := now \<rparr>"

definition ReclaimStaleTasks ::
  "time \<Rightarrow> time \<Rightarrow> 'w db_scheme \<Rightarrow> int result \<times> 'w db_scheme" where
  "ReclaimStaleTasks cutoff now d =
     (Inr (int (length (filter (stale cutoff) (task_rows d)))),
      d\<lparr> task_rows := map (\<lambda>x. if stale cutoff x then orphan_row now x else x) (task_rows d) \<rparr>)"

definition polled_key :: "gorm_task \<Rightarrow> int" where
  "polled_key r = (case gCILastPolledAt r of None \<Rightarrow> 0 | Some t \<Rightarrow> t)"

definition ListWatchingTaskIDs ::
  "time \<Rightarrow> 'w db_scheme \<Rightarrow> string list result \<times> 'w db_scheme" where
  "ListWatchingTaskIDs now d =
     (let rows = filter (\<lambda>r. gCIStatus r = CIStatusWatching) (task_rows d)
      in (Inr (map gID (filter (\<lambda>r. gCILastPolledAt r = None) rows @
                 sort_key polled_key (filter (\<lambda>r. gCILastPolledAt r \<noteq> None) rows))), d))"

definition FindFixChildTaskID ::
  "string option \<Rightarrow> string \<Rightarrow> time \<Rightarrow> 'w db_scheme \<Rightarrow> string result \<times> 'w db_scheme" where
  "FindFixChildTaskID parent sha now d =
     (case find (\<lambda>r. gTaskType r = TaskTypeCIFix \<and> parent \<noteq> None \<and>
                     gParentTaskID r = parent \<and> gHeadSHA r = sha) (task_rows d) of
        None \<Rightarrow> (Inl ErrNoRows, d)
      | Some r \<Rightarrow> (Inr (gID r), d))"

text \<open>The update fails when it would give a ci-fix row the dedup key of another.\<close>

definition ci_row :: "ci_status \<Rightarrow> string \<Rightarrow> time option \<Rightarrow> time \<Rightarrow> gorm_task \<Rightarrow> gorm_task" where
  "ci_row st sha polled now x =
     x\<lparr> gCIStatus := st, gHeadSHA := sha, gCILastPolledAt := polled, gUpdatedAt := now \<rparr>"

definition UpdateTaskCIStatus ::
  "ci_status \<Rightarrow> string \<Rightarrow> time option \<Rightarrow> string \<Rightarrow> time \<Rightarrow> 'w db_scheme \<Rightarrow> unit result \<times> 'w db_scheme" where
  "UpdateTaskCIStatus st sha polled i now d =
     (if list_ex (\<lambda>x. gID x = i \<and>
           list_ex (\<lambda>y. gID y \<noteq> i \<and> dedup_clash (ci_row st sha polled now x) y) (task_rows d)) (task_rows d)
      then (Inl (EMsg ''Duplicate entry for key uniq_tasks_ci_fix_dedup''), d)
      else (Inr (), d\<lparr> task_rows :=
              map (\<lambda>x. if gID x = i then ci_row st sha polled now x else x) (task_rows d) \<rparr>))"

section \<open>Well-formed tables\<close>

text \<open>What the schema enforces: primary keys, the CHECK and the unique index.\<close>

definition wf_rows :: "gorm_task list \<Rightarrow> bool" where
  "wf_rows rows = (distinct (map gID rows) \<and> list_all (\<lambda>r. check_task_type (gTaskType r)) rows \<and>
     (\<forall>r \<in> set rows. \<forall>s \<in> set rows. dedup_clash r s \<longrightarrow> gID r = gID s))"

definition wf_db :: "'w db_scheme \<Rightarrow> bool" where
  "wf_db d = (wf_rows (task_rows d) \<and> distinct (map aKey (app_rows d)) \<and>
     distinct (map eID (event_rows d)))"

lemma exec_cases:
  assumes "exec f d = (r, d')"
  obtains (works) "f (clock d (ops d)) (d\<lparr> ops := Suc (ops d) \<rparr>) = (r, d')"
  | (before) e where "r = Inl (db_err e)" "d' = d\<lparr> ops := Suc (ops d) \<rparr>"
  | (after) e r' where "r = Inl (db_err e)"
      "f (clock d (ops d)) (d\<lparr> ops := Suc (ops d) \<rparr>) = (r', d')"
  using assms
  by (cases "outcome d (ops d)"; cases "f (clock d (ops d)) (d\<lparr> ops := Suc (ops d) \<rparr>)")
     (auto simp: exec_def Let_def)

lemma exec_works:
  "outcome d (ops d) = Works \<Longrightarrow> exec f d = f (clock d (ops d)) (d\<lparr> ops := Suc (ops d) \<rparr>)"
  by (simp add: exec_def Let_def)

lemma db_err_not_sentinel [simp]:
  "\<not> err_is (db_err e) ErrNotFound" "\<not> err_is (db_err e) ErrRecordNotFound"
  "\<not> err_is (db_err e) ErrNoRows"
  by (cases e; simp add: err_is_def)+

lemma db_err_neq [simp]:
  "db_err e \<noteq> ErrNotFound" "db_err e \<noteq> ErrRecordNotFound" "db_err e \<noteq> ErrNoRows"
  by (cases e; simp)+

lemma first_min_None [simp]: "first_min f xs = None \<longleftrightarrow> xs = []"
  by (cases xs) (auto split: option.splits)

lemma first_min_Some:
  "first_min f xs = Some x \<Longrightarrow> x \<in> set xs \<and> (\<forall>y \<in> set xs. f x \<le> f y)"
  by (induction xs arbitrary: x) (fastforce split: option.splits if_splits)+

lemma find_distinct:
  "distinct (map gID rows) \<Longrightarrow> r \<in> set rows \<Longrightarrow> find (\<lambda>x. gID x = gID r) rows = Some r"
  by (induction rows) auto

lemma find_gID: "find (\<lambda>x. gID x = i) rows = Some r \<Longrightarrow> r \<in> set rows \<and> gID r = i"
  by (induction rows) (auto split: if_splits)

lemma find_gID_None: "find (\<lambda>x. gID x = i) rows = None \<longleftrightarrow> i \<notin> gID ` set rows"
  by (induction rows) auto

end
