(* ===== verification/Repositories.thy ===== *)
theory Repositories
  imports Store
begin

text \<open>internal/repository: the GORM repositories over the tables. toGORMTask and
  toDomainTask, every method of GormTaskRepository, GormAppStateRepository and
  GormTaskEventRepository as a function of the database state, each SQL statement
  one exec. The locales state what the use cases rely on (the interfaces of
  internal/domain/repository.go) over an abstract view of the state, a map from
  keys to values; they are interpreted on the GORM repositories.\<close>

section \<open>task_repository.go\<close>

definition toGORMTask :: "task \<Rightarrow> gorm_task" where
  "toGORMTask t =
     (let src = (if Source t = TaskSourceEmpty then TaskSourceGitHubIssue else Source t);
          modelJSON = (case ModelUsageJSON t of None \<Rightarrow> JObj [] | Some j \<Rightarrow> j)
      in \<lparr> gID = ID t, gRepoFullName = RepoFullName t, gIssueNumber = IssueNumber t,
           gIssueTitle = IssueTitle t, gTaskType = TaskType t, gStatus = Status t, gSource = src,
           gMaintenanceName = MaintenanceName t, gPromptTemplate = PromptTemplate t,
           gWorktreePath = WorktreePath t, gPRURL = PRURL t, gPRNumber = PRNumber t,
           gStartedAt = StartedAt t, gFinishedAt = FinishedAt t,
           gEstimatedInputTokens = EstimatedInputTokens t,
           gEstimatedOutputTokens = EstimatedOutputTokens t, gExitCode = ExitCode t,
           gStderrTail = StderrTail t, gCreatedAt = CreatedAt t, gUpdatedAt = UpdatedAt t,
           gCostUSD = CostUSD t, gTotalInputTokens = TotalInputTokens t,
           gTotalOutputTokens = TotalOutputTokens t,
           gCacheCreationInputTokens = CacheCreationInputTokens t,
           gCacheReadInputTokens = CacheReadInputTokens t, gModelUsageJSON = Some modelJSON,
           gWorkerID = WorkerID t, gClaimedAt = ClaimedAt t, gParentTaskID = ParentTaskID t,
           gFixAttemptCount = FixAttemptCount t, gCIStatus = CIStatus t, gHeadSHA = HeadSHA t,
           gCILastPolledAt = CILastPolledAt t \<rparr>)"

definition toDomainTask :: "gorm_task \<Rightarrow> task" where
  "toDomainTask g =
     (let src = (if gSource g = TaskSourceEmpty then TaskSourceGitHubIssue else gSource g);
          modelJSON = (case gModelUsageJSON g of None \<Rightarrow> JObj [] | Some j \<Rightarrow> j)
      in \<lparr> ID = gID g, RepoFullName = gRepoFullName g, IssueNumber = gIssueNumber g,
           IssueTitle = gIssueTitle g, TaskType = gTaskType g, Status = gStatus g, Source = src,
           MaintenanceName = gMaintenanceName g, PromptTemplate = gPromptTemplate g,
           WorktreePath = gWorktreePath g, PRURL = gPRURL g, PRNumber = gPRNumber g,
           StartedAt = gStartedAt g, FinishedAt = gFinishedAt g,
           EstimatedInputTokens = gEstimatedInputTokens g,
           EstimatedOutputTokens = gEstimatedOutputTokens g, ExitCode = gExitCode g,
           StderrTail = gStderrTail g, CreatedAt = gCreatedAt g, UpdatedAt = gUpdatedAt g,
           CostUSD = gCostUSD g, TotalInputTokens = gTotalInputTokens g,
           TotalOutputTokens = gTotalOutputTokens g,
           CacheCreationInputTokens = gCacheCreationInputTokens g,
           CacheReadInputTokens = gCacheReadInputTokens g, ModelUsageJSON = Some modelJSON,
           WorkerID = gWorkerID g, ClaimedAt = gClaimedAt g, ParentTaskID = gParentTaskID g,
           FixAttemptCount = gFixAttemptCount g, CIStatus = gCIStatus g, HeadSHA = gHeadSHA g,
           CILastPolledAt = gCILastPolledAt g \<rparr>)"

definition repo_Create :: "task \<Rightarrow> 'w db_scheme \<Rightarrow> unit result \<times> 'w db_scheme" where
  "repo_Create t d =
     (case exec (sql_insert_task (toGORMTask t)) d of
        (Inl e, d1) \<Rightarrow> (Inl (EWrap ''create task'' e), d1)
      | (Inr _, d1) \<Rightarrow> (Inr (), d1))"

definition repo_GetByID :: "string \<Rightarrow> 'w db_scheme \<Rightarrow> task result \<times> 'w db_scheme" where
  "repo_GetByID i d =
     (case exec (sql_first_task i) d of
        (Inl e, d1) \<Rightarrow> (Inl (if err_is e ErrRecordNotFound then ErrNotFound
                            else EWrap ''get task by id'' e), d1)
      | (Inr g, d1) \<Rightarrow> (Inr (toDomainTask g), d1))"

definition repo_Update :: "task \<Rightarrow> 'w db_scheme \<Rightarrow> unit result \<times> 'w db_scheme" where
  "repo_Update t d =
     (case exec (sql_save_task (toGORMTask t)) d of
        (Inl e, d1) \<Rightarrow> (Inl (EWrap ''update task'' e), d1)
      | (Inr _, d1) \<Rightarrow> (Inr (), d1))"

definition filter_matches :: "task_filter \<Rightarrow> gorm_task \<Rightarrow> bool" where
  "filter_matches f r =
     (opt_holds (\<lambda>s. status_str (gStatus r) = s) (FilterStatus f) \<and>
      opt_holds (\<lambda>s. source_str (gSource r) = s) (FilterSource f) \<and>
      opt_holds (\<lambda>s. ci_status_str (gCIStatus r) = s) (FilterCIStatus f) \<and>
      (Cursor f \<noteq> '''' \<longrightarrow> str_less (gID r) (Cursor f)))"

definition list_limit :: "int \<Rightarrow> int" where
  "list_limit l = (if l \<le> 0 \<or> 100 < l then 50 else l)"

definition repo_List :: "task_filter \<Rightarrow> 'w db_scheme \<Rightarrow> task list result \<times> 'w db_scheme" where
  "repo_List f d =
     (case exec (\<lambda>_ d1. (Inr (take (nat (list_limit (Limit f)))
              (sort_key (\<lambda>r. - gCreatedAt r) (filter (filter_matches f) (task_rows d1)))), d1)) d of
        (Inl e, d1) \<Rightarrow> (Inl (EWrap ''list tasks'' e), d1)
      | (Inr rows, d1) \<Rightarrow> (Inr (map toDomainTask rows), d1))"

definition repo_GetRunning :: "'w db_scheme \<Rightarrow> task list result \<times> 'w db_scheme" where
  "repo_GetRunning d =
     (case exec (\<lambda>_ d1. (Inr (filter (\<lambda>r. gStatus r = TaskStatusRunning) (task_rows d1)), d1)) d of
        (Inl e, d1) \<Rightarrow> (Inl (EWrap ''get running tasks'' e), d1)
      | (Inr rows, d1) \<Rightarrow> (Inr (map toDomainTask rows), d1))"

definition repo_ExistsByRepoAndIssue ::
  "string \<Rightarrow> int \<Rightarrow> 'w db_scheme \<Rightarrow> bool result \<times> 'w db_scheme" where
  "repo_ExistsByRepoAndIssue repo n d =
     (case exec (\<lambda>_ d1. (Inr (length (filter (\<lambda>r. gRepoFullName r = repo \<and> gIssueNumber r = n \<and>
              (gStatus r = TaskStatusQueued \<or> gStatus r = TaskStatusRunning)) (task_rows d1))), d1)) d of
        (Inl e, d1) \<Rightarrow> (Inl (EWrap ''exists by repo and issue'' e), d1)
      | (Inr c, d1) \<Rightarrow> (Inr (c > 0), d1))"

definition null_string :: "string \<Rightarrow> string option" where
  "null_string s = (if s = '''' then None else Some s)"

definition repo_ClaimNext :: "bool \<Rightarrow> string \<Rightarrow> 'w db_scheme \<Rightarrow> task option result \<times> 'w db_scheme" where
  "repo_ClaimNext wired workerID d =
     (if \<not> wired then (Inl (EMsg ''ClaimNext: sqlc queries not wired''), d)
      else case exec (ClaimNextTask (null_string workerID)) d of
        (Inl e, d1) \<Rightarrow> (Inl (EWrap ''claim next task'' e), d1)
      | (Inr rows, d1) \<Rightarrow>
          if rows = 0 then (Inr None, d1)
          else case exec (GetClaimedTaskID (null_string workerID)) d1 of
            (Inl e, d2) \<Rightarrow> (Inl (EWrap ''load claimed task id'' e), d2)
          | (Inr taskID, d2) \<Rightarrow>
              (case repo_GetByID taskID d2 of
                 (Inl e, d3) \<Rightarrow> (Inl e, d3)
               | (Inr t, d3) \<Rightarrow> (Inr (Some t), d3)))"

definition repo_ReclaimStale :: "bool \<Rightarrow> time \<Rightarrow> 'w db_scheme \<Rightarrow> int result \<times> 'w db_scheme" where
  "repo_ReclaimStale wired cutoff d =
     (if \<not> wired then (Inl (EMsg ''ReclaimStale: sqlc queries not wired''), d)
      else case exec (ReclaimStaleTasks cutoff) d of
        (Inl e, d1) \<Rightarrow> (Inl (EWrap ''reclaim stale tasks'' e), d1)
      | (Inr n, d1) \<Rightarrow> (Inr n, d1))"

definition repo_ListWatchingIDs :: "bool \<Rightarrow> 'w db_scheme \<Rightarrow> string list result \<times> 'w db_scheme" where
  "repo_ListWatchingIDs wired d =
     (if \<not> wired then (Inl (EMsg ''ListWatchingIDs: sqlc queries not wired''), d)
      else case exec ListWatchingTaskIDs d of
        (Inl e, d1) \<Rightarrow> (Inl (EWrap ''list watching task ids'' e), d1)
      | (Inr ids, d1) \<Rightarrow> (Inr ids, d1))"

definition repo_FindFixChild ::
  "bool \<Rightarrow> string \<Rightarrow> string \<Rightarrow> 'w db_scheme \<Rightarrow> task option result \<times> 'w db_scheme" where
  "repo_FindFixChild wired parent sha d =
     (if \<not> wired then (Inl (EMsg ''FindFixChild: sqlc queries not wired''), d)
      else case exec (FindFixChildTaskID (null_string parent) sha) d of
        (Inl e, d1) \<Rightarrow> (if err_is e ErrNoRows then (Inr None, d1)
                        else (Inl (EWrap ''find fix child'' e), d1))
      | (Inr i, d1) \<Rightarrow>
          (case repo_GetByID i d1 of
             (Inl e, d2) \<Rightarrow> (Inl e, d2)
           | (Inr t, d2) \<Rightarrow> (Inr (Some t), d2)))"

definition repo_UpdateCIStatus ::
  "bool \<Rightarrow> string \<Rightarrow> ci_status \<Rightarrow> string \<Rightarrow> time \<Rightarrow> 'w db_scheme \<Rightarrow> unit result \<times> 'w db_scheme" where
  "repo_UpdateCIStatus wired i st sha polledAt d =
     (if \<not> wired then (Inl (EMsg ''UpdateCIStatus: sqlc queries not wired''), d)
      else case exec (UpdateTaskCIStatus st sha (if is_zero polledAt then None else Some polledAt) i) d of
        (Inl e, d1) \<Rightarrow> (Inl (EWrap ''update ci status'' e), d1)
      | (Inr _, d1) \<Rightarrow> (Inr (), d1))"

definition gorm_task_repo :: "bool \<Rightarrow> ('w db_scheme) task_repo" where
  "gorm_task_repo wired = \<lparr> Create = repo_Create, GetByID = repo_GetByID, Update = repo_Update,
     ListTasks = repo_List, GetRunning = repo_GetRunning,
     ExistsByRepoAndIssue = repo_ExistsByRepoAndIssue, ClaimNext = repo_ClaimNext wired,
     ReclaimStale = repo_ReclaimStale wired, ListWatchingIDs = repo_ListWatchingIDs wired,
     FindFixChild = repo_FindFixChild wired, UpdateCIStatus = repo_UpdateCIStatus wired \<rparr>"

section \<open>app_state_repository.go\<close>

definition repo_Get :: "string \<Rightarrow> 'w db_scheme \<Rightarrow> app_state result \<times> 'w db_scheme" where
  "repo_Get k d =
     (case exec (\<lambda>_ d1. (case find (\<lambda>r. aKey r = k) (app_rows d1) of
                           None \<Rightarrow> Inl ErrRecordNotFound | Some r \<Rightarrow> Inr r, d1)) d of
        (Inl e, d1) \<Rightarrow> (Inl (if err_is e ErrRecordNotFound then ErrNotFound
                            else EWrap (''get app state '' @ k) e), d1)
      | (Inr g, d1) \<Rightarrow> (Inr \<lparr> Key = aKey g, ValueJSON = aValueJSON g,
                              StateUpdatedAt = aUpdatedAt g \<rparr>, d1))"

text \<open>INSERT ... ON DUPLICATE KEY UPDATE value_json, updated_at.\<close>

definition upsert_app :: "gorm_app_state \<Rightarrow> gorm_app_state list \<Rightarrow> gorm_app_state list" where
  "upsert_app g rows =
     (if list_ex (\<lambda>r. aKey r = aKey g) rows
      then map (\<lambda>r. if aKey r = aKey g then g else r) rows
      else rows @ [g])"

definition repo_Set :: "app_state \<Rightarrow> 'w db_scheme \<Rightarrow> unit result \<times> 'w db_scheme" where
  "repo_Set st d =
     (case exec (\<lambda>now d1. (Inr (), d1\<lparr> app_rows := upsert_app
              \<lparr> aKey = Key st, aValueJSON = ValueJSON st, aUpdatedAt = now \<rparr> (app_rows d1) \<rparr>)) d of
        (Inl e, d1) \<Rightarrow> (Inl (EWrap (''set app state '' @ Key st) e), d1)
      | (Inr _, d1) \<Rightarrow> (Inr (), d1))"

definition gorm_app_repo :: "('w db_scheme) app_state_repo" where
  "gorm_app_repo = \<lparr> Get = repo_Get, Set = repo_Set \<rparr>"

section \<open>task_event_repository.go\<close>

text \<open>The payload column is JSON: an empty text is refused, as are a kind outside
  the CHECK, a repeated id and an unknown task.\<close>

definition sql_insert_event :: "task_event \<Rightarrow> time \<Rightarrow> 'w db_scheme \<Rightarrow> unit result \<times> 'w db_scheme" where
  "sql_insert_event e now d =
     (case PayloadJSON e of
        None \<Rightarrow> (Inl (EMsg ''Invalid JSON text''), d)
      | Some j \<Rightarrow>
          if \<not> check_event_kind (Kind e)
          then (Inl (EMsg ''Check constraint chk_task_events_kind is violated''), d)
          else if list_ex (\<lambda>r. eID r = EventID e) (event_rows d)
          then (Inl (EMsg ''Duplicate entry for key PRIMARY''), d)
          else if \<not> list_ex (\<lambda>r. gID r = EventTaskID e) (task_rows d)
          then (Inl (EMsg ''foreign key constraint fails''), d)
          else (Inr (), d\<lparr> event_rows := event_rows d @
                 [\<lparr> eID = EventID e, eTaskID = EventTaskID e, eKind = Kind e, ePayloadJSON = j,
                    eCreatedAt = (if is_zero (EventCreatedAt e) then now else EventCreatedAt e) \<rparr>] \<rparr>))"

definition repo_CreateEvent :: "task_event \<Rightarrow> 'w db_scheme \<Rightarrow> unit result \<times> 'w db_scheme" where
  "repo_CreateEvent e d =
     (case exec (sql_insert_event e) d of
        (Inl er, d1) \<Rightarrow> (Inl (EWrap ''create task event'' er), d1)
      | (Inr _, d1) \<Rightarrow> (Inr (), d1))"

definition toDomainTaskEvent :: "gorm_task_event \<Rightarrow> task_event" where
  "toDomainTaskEvent g = \<lparr> EventID = eID g, EventTaskID = eTaskID g, Kind = eKind g,
     PayloadJSON = Some (ePayloadJSON g), EventCreatedAt = eCreatedAt g \<rparr>"

definition event_limit :: "int \<Rightarrow> int" where
  "event_limit l = (if l \<le> 0 \<or> 500 < l then 50 else l)"

definition repo_ListByTaskID ::
  "string \<Rightarrow> int \<Rightarrow> 'w db_scheme \<Rightarrow> task_event list result \<times> 'w db_scheme" where
  "repo_ListByTaskID taskID limit d =
     (case exec (\<lambda>_ d1. (Inr (take (nat (event_limit limit))
              (sort_key (\<lambda>r. - eCreatedAt r) (filter (\<lambda>r. eTaskID r = taskID) (event_rows d1)))), d1)) d of
        (Inl e, d1) \<Rightarrow> (Inl (EWrap ''list task events'' e), d1)
      | (Inr rows, d1) \<Rightarrow> (Inr (map toDomainTaskEvent rows), d1))"

definition gorm_event_repo :: "('w db_scheme) event_repo" where
  "gorm_event_repo = \<lparr> CreateEvent = repo_CreateEvent, ListByTaskID = repo_ListByTaskID \<rparr>"

end
