(* ===== verification/Repo_Laws.thy ===== *)
theory Repo_Laws
  imports Repositories
begin

text \<open>What the repositories promise. The locales are the interfaces of
  internal/domain/repository.go with their laws over a view of the state (the
  value stored under a key, the task stored under an id), first for a database
  whose statements may fail, then for one that works; the GORM repositories are
  instances. The lemmas on the tables show that every statement keeps the schema's
  constraints, and what ClaimNext, ReclaimStale and the ci-fix lookups do.\<close>

section \<open>Interfaces\<close>

locale app_state_repository =
  fixes repo :: "'s app_state_repo"
    and view :: "'s \<Rightarrow> string \<Rightarrow> json option"
  assumes Get_keeps: "Get repo k s = (r, s') \<Longrightarrow> view s' = view s"
    and Get_found: "Get repo k s = (Inr a, s') \<Longrightarrow> view s k = Some (ValueJSON a)"
    and Get_missing: "Get repo k s = (Inl e, s') \<Longrightarrow> err_is e ErrNotFound \<Longrightarrow>
      e = ErrNotFound \<and> view s k = None"
    and Set_ok: "Set repo a s = (Inr (), s') \<Longrightarrow> view s' = (view s)(Key a \<mapsto> ValueJSON a)"
    and Set_err: "Set repo a s = (Inl e, s') \<Longrightarrow>
      view s' = view s \<or> view s' = (view s)(Key a \<mapsto> ValueJSON a)"
begin

lemma Set_other: "Set repo a s = (r, s') \<Longrightarrow> k \<noteq> Key a \<Longrightarrow> view s' k = view s k"
  using Set_ok Set_err by (cases r) fastforce+

end

text \<open>A repository whose statements succeed from here on.\<close>

locale working_app_state_repository = app_state_repository +
  fixes works :: "'a \<Rightarrow> bool"
  assumes Get_works: "works s \<Longrightarrow> \<exists>s'. works s' \<and>
      (case view s k of
         None \<Rightarrow> Get repo k s = (Inl ErrNotFound, s')
       | Some j \<Rightarrow> (\<exists>a. Get repo k s = (Inr a, s') \<and> ValueJSON a = j))"
    and Set_works: "works s \<Longrightarrow> \<exists>s'. works s' \<and> Set repo a s = (Inr (), s')"

text \<open>A task as it is stored: the defaults of the model filled in, and the two
  timestamps GORM sets.\<close>

definition norm_task :: "task \<Rightarrow> task" where
  "norm_task t = t\<lparr> Source := (if Source t = TaskSourceEmpty then TaskSourceGitHubIssue else Source t),
     ModelUsageJSON := Some (case ModelUsageJSON t of None \<Rightarrow> JObj [] | Some j \<Rightarrow> j) \<rparr>"

definition stored_as :: "task \<Rightarrow> task \<Rightarrow> bool" where
  "stored_as t u = (\<exists>c w. u = (norm_task t)\<lparr> CreatedAt := c, UpdatedAt := w \<rparr> \<and>
     (\<not> is_zero (CreatedAt t) \<longrightarrow> c = CreatedAt t))"

locale task_repository =
  fixes repo :: "'s task_repo"
    and view :: "'s \<Rightarrow> string \<Rightarrow> task option"
    and inv :: "'s \<Rightarrow> bool"
  assumes GetByID_found: "inv s \<Longrightarrow> GetByID repo i s = (Inr t, s') \<Longrightarrow> view s i = Some t"
    and GetByID_missing: "inv s \<Longrightarrow> GetByID repo i s = (Inl ErrNotFound, s') \<Longrightarrow> view s i = None"
    and GetByID_keeps: "inv s \<Longrightarrow> GetByID repo i s = (r, s') \<Longrightarrow> inv s' \<and> view s' = view s"
    and view_ID: "view s i = Some t \<Longrightarrow> ID t = i"
    and Create_ok: "inv s \<Longrightarrow> Create repo t s = (Inr (), s') \<Longrightarrow>
      inv s' \<and> view s (ID t) = None \<and> (\<exists>u. stored_as t u \<and> view s' = (view s)(ID t \<mapsto> u))"
    and Create_err: "inv s \<Longrightarrow> Create repo t s = (Inl e, s') \<Longrightarrow>
      inv s' \<and> (view s' = view s \<or>
        view s (ID t) = None \<and> (\<exists>u. stored_as t u \<and> view s' = (view s)(ID t \<mapsto> u)))"
    and Update_ok: "inv s \<Longrightarrow> view s (ID t) \<noteq> None \<Longrightarrow> Update repo t s = (Inr (), s') \<Longrightarrow>
      inv s' \<and> (\<exists>w. view s' = (view s)(ID t \<mapsto> (norm_task t)\<lparr> UpdatedAt := w \<rparr>))"
    and Update_err: "inv s \<Longrightarrow> view s (ID t) \<noteq> None \<Longrightarrow> Update repo t s = (Inl e, s') \<Longrightarrow>
      inv s' \<and> (view s' = view s \<or>
        (\<exists>w. view s' = (view s)(ID t \<mapsto> (norm_task t)\<lparr> UpdatedAt := w \<rparr>)))"
    and Exists_ok: "inv s \<Longrightarrow> ExistsByRepoAndIssue repo rn n s = (Inr b, s') \<Longrightarrow>
      b \<longleftrightarrow> (\<exists>i t. view s i = Some t \<and> RepoFullName t = rn \<and> IssueNumber t = n \<and>
        (Status t = TaskStatusQueued \<or> Status t = TaskStatusRunning))"
    and Exists_keeps: "inv s \<Longrightarrow> ExistsByRepoAndIssue repo rn n s = (xb, s') \<Longrightarrow>
      inv s' \<and> view s' = view s"
    and FindFixChild_found: "inv s \<Longrightarrow> FindFixChild repo p sha s = (Inr (Some t), s') \<Longrightarrow>
      view s (ID t) = Some t \<and> TaskType t = TaskTypeCIFix \<and> ParentTaskID t = Some p \<and> HeadSHA t = sha"
    and FindFixChild_none: "inv s \<Longrightarrow> FindFixChild repo p sha s = (Inr None, s') \<Longrightarrow> p \<noteq> '''' \<Longrightarrow>
      view s i = Some t \<Longrightarrow> \<not> (TaskType t = TaskTypeCIFix \<and> ParentTaskID t = Some p \<and> HeadSHA t = sha)"
    and FindFixChild_keeps: "inv s \<Longrightarrow> FindFixChild repo p sha s = (xf, s') \<Longrightarrow>
      inv s' \<and> view s' = view s"
    and UpdateCIStatus_ok: "inv s \<Longrightarrow> UpdateCIStatus repo i st sha tp s = (Inr (), s') \<Longrightarrow>
      inv s' \<and> (\<exists>w. view s' = (case view s i of None \<Rightarrow> view s
        | Some t \<Rightarrow> (view s)(i \<mapsto> t\<lparr> CIStatus := st, HeadSHA := sha,
            CILastPolledAt := (if is_zero tp then None else Some tp), UpdatedAt := w \<rparr>)))"
    and UpdateCIStatus_err: "inv s \<Longrightarrow> UpdateCIStatus repo i st sha tp s = (Inl e, s') \<Longrightarrow>
      inv s' \<and> (view s' = view s \<or> (\<exists>w. view s' = (case view s i of None \<Rightarrow> view s
        | Some t \<Rightarrow> (view s)(i \<mapsto> t\<lparr> CIStatus := st, HeadSHA := sha,
            CILastPolledAt := (if is_zero tp then None else Some tp), UpdatedAt := w \<rparr>))))"
begin

lemma Create_unique: "inv s \<Longrightarrow> view s (ID t) \<noteq> None \<Longrightarrow> \<exists>e s'. Create repo t s = (Inl e, s')"
  by (metis Create_ok old.sum.exhaust old.unit.exhaust surj_pair)

lemma Create_view:
  assumes "inv s" "Create repo t s = (r, s')"
  shows "inv s'" "view s' = view s \<or>
    view s (ID t) = None \<and> (\<exists>u. stored_as t u \<and> view s' = (view s)(ID t \<mapsto> u))"
  using Create_ok[of s t s'] Create_err[of s t _ s'] assms by (cases r; force)+

lemma Update_keeps:
  assumes "inv s" "view s (ID t) \<noteq> None" "Update repo t s = (r, s')"
  shows "inv s'" "i \<noteq> ID t \<Longrightarrow> view s' i = view s i" "view s' (ID t) \<noteq> None"
  using Update_ok[of s t s'] Update_err[of s t _ s'] assms by (cases r; force)+

end

section \<open>Rows and tasks\<close>

lemma toDomain_toGORM: "toDomainTask (toGORMTask t) = norm_task t"
  by (simp add: toDomainTask_def toGORMTask_def norm_task_def Let_def)

lemma toGORM_toDomain:
  "gSource g \<noteq> TaskSourceEmpty \<Longrightarrow> gModelUsageJSON g \<noteq> None \<Longrightarrow> toGORMTask (toDomainTask g) = g"
  by (auto simp: toDomainTask_def toGORMTask_def Let_def)

lemma toDomain_simps [simp]:
  "ID (toDomainTask g) = gID g" "Status (toDomainTask g) = gStatus g"
  "RepoFullName (toDomainTask g) = gRepoFullName g" "IssueNumber (toDomainTask g) = gIssueNumber g"
  "TaskType (toDomainTask g) = gTaskType g" "ParentTaskID (toDomainTask g) = gParentTaskID g"
  "HeadSHA (toDomainTask g) = gHeadSHA g" "CreatedAt (toDomainTask g) = gCreatedAt g"
  "ClaimedAt (toDomainTask g) = gClaimedAt g" "WorkerID (toDomainTask g) = gWorkerID g"
  "CIStatus (toDomainTask g) = gCIStatus g" "StartedAt (toDomainTask g) = gStartedAt g"
  by (simp_all add: toDomainTask_def Let_def)

lemma toGORM_simps [simp]:
  "gID (toGORMTask t) = ID t" "gTaskType (toGORMTask t) = TaskType t"
  "gCreatedAt (toGORMTask t) = CreatedAt t" "gUpdatedAt (toGORMTask t) = UpdatedAt t"
  "gStatus (toGORMTask t) = Status t" "gRepoFullName (toGORMTask t) = RepoFullName t"
  "gParentTaskID (toGORMTask t) = ParentTaskID t" "gHeadSHA (toGORMTask t) = HeadSHA t"
  by (simp_all add: toGORMTask_def Let_def)

lemma toDomain_updates:
  "toDomainTask (g\<lparr> gCreatedAt := c \<rparr>) = (toDomainTask g)\<lparr> CreatedAt := c \<rparr>"
  "toDomainTask (g\<lparr> gUpdatedAt := c \<rparr>) = (toDomainTask g)\<lparr> UpdatedAt := c \<rparr>"
  by (simp_all add: toDomainTask_def Let_def)

lemma toDomain_ci_row:
  "toDomainTask (ci_row st sha p w g) =
    (toDomainTask g)\<lparr> CIStatus := st, HeadSHA := sha, CILastPolledAt := p, UpdatedAt := w \<rparr>"
  by (simp add: toDomainTask_def ci_row_def Let_def)

section \<open>Constraints\<close>

lemma wf_rowsI:
  "distinct (map gID rows) \<Longrightarrow> (\<And>r. r \<in> set rows \<Longrightarrow> check_task_type (gTaskType r)) \<Longrightarrow>
   (\<And>r s. r \<in> set rows \<Longrightarrow> s \<in> set rows \<Longrightarrow> dedup_clash r s \<Longrightarrow> gID r = gID s) \<Longrightarrow> wf_rows rows"
  unfolding wf_rows_def list_all_iff by blast

lemma wf_rowsD:
  assumes "wf_rows rows"
  shows "distinct (map gID rows)" "r \<in> set rows \<Longrightarrow> check_task_type (gTaskType r)"
    "r \<in> set rows \<Longrightarrow> s \<in> set rows \<Longrightarrow> dedup_clash r s \<Longrightarrow> gID r = gID s"
  using assms unfolding wf_rows_def list_all_iff by blast+

lemma map_gID_map: "\<forall>x \<in> set rows. gID (f x) = gID x \<Longrightarrow> map gID (map f rows) = map gID rows"
  by simp

lemma wf_rows_map:
  assumes wf: "wf_rows rows"
    and f: "\<forall>x \<in> set rows. gID (f x) = gID x \<and> dedup_key (f x) = dedup_key x \<and> gTaskType (f x) = gTaskType x"
  shows "wf_rows (map f rows)"
proof (rule wf_rowsI)
  show "distinct (map gID (map f rows))"
    using wf_rowsD(1)[OF wf] map_gID_map[of rows f] f by (simp del: map_map)
  show "check_task_type (gTaskType r)" if "r \<in> set (map f rows)" for r
    using that f wf_rowsD(2)[OF wf] by auto
  fix r s assume "r \<in> set (map f rows)" "s \<in> set (map f rows)" and c: "dedup_clash r s"
  then obtain a b where ab: "a \<in> set rows" "r = f a" "b \<in> set rows" "s = f b" by auto
  then have "dedup_clash a b" using c f unfolding dedup_clash_def by metis
  then show "gID r = gID s" using wf_rowsD(3)[OF wf] ab f by simp
qed

lemma dedup_key_upd [simp]:
  "dedup_key (claim_row w n r) = dedup_key r" "dedup_key (orphan_row n r) = dedup_key r"
  "dedup_key (r\<lparr> gUpdatedAt := n \<rparr>) = dedup_key r" "dedup_key (r\<lparr> gCreatedAt := n \<rparr>) = dedup_key r"
  "dedup_key (r\<lparr> gID := i \<rparr>) = dedup_key r"
  by (simp_all add: dedup_key_def claim_row_def orphan_row_def)

lemma dedup_clash_upd [simp]:
  "dedup_clash (r\<lparr> gUpdatedAt := n \<rparr>) s = dedup_clash r s"
  "dedup_clash (r\<lparr> gCreatedAt := n \<rparr>) s = dedup_clash r s"
  by (simp_all add: dedup_clash_def)

lemma dedup_clash_sym: "dedup_clash r s = dedup_clash s r"
  by (cases "dedup_key r = dedup_key s") (simp_all add: dedup_clash_def)

lemma row_upd_simps [simp]:
  "gID (claim_row w n r) = gID r" "gID (orphan_row n r) = gID r" "gID (ci_row st sha p n r) = gID r"
  "gTaskType (claim_row w n r) = gTaskType r" "gTaskType (orphan_row n r) = gTaskType r"
  "gTaskType (ci_row st sha p n r) = gTaskType r"
  "gStatus (claim_row w n r) = TaskStatusRunning" "gStatus (orphan_row n r) = TaskStatusOrphaned"
  "gStatus (ci_row st sha p n r) = gStatus r" "gRepoFullName (ci_row st sha p n r) = gRepoFullName r"
  "gRepoFullName (claim_row w n r) = gRepoFullName r" "gRepoFullName (orphan_row n r) = gRepoFullName r"
  "gWorkerID (claim_row w n r) = w" "gClaimedAt (claim_row w n r) = Some n"
  "gCreatedAt (claim_row w n r) = gCreatedAt r"
  by (simp_all add: claim_row_def orphan_row_def ci_row_def)

text \<open>Replacing the row of one id by a row of that id.\<close>

lemma wf_rows_replace:
  assumes wf: "wf_rows rows"
    and f: "\<forall>x \<in> set rows. gID x = i \<longrightarrow> gID (f x) = i \<and> check_task_type (gTaskType (f x)) \<and>
      (\<forall>y \<in> set rows. gID y \<noteq> i \<longrightarrow> \<not> dedup_clash (f x) y)"
  shows "wf_rows (map (\<lambda>x. if gID x = i then f x else x) rows)"
proof (rule wf_rowsI)
  let ?f = "\<lambda>x. if gID x = i then f x else x"
  show "distinct (map gID (map ?f rows))"
    using wf_rowsD(1)[OF wf] map_gID_map[of rows ?f] f by (simp del: map_map)
  show "check_task_type (gTaskType r)" if "r \<in> set (map ?f rows)" for r
    using that f wf_rowsD(2)[OF wf] by auto
  fix r s assume "r \<in> set (map ?f rows)" "s \<in> set (map ?f rows)" and c: "dedup_clash r s"
  then obtain a b where ab: "a \<in> set rows" "r = ?f a" "b \<in> set rows" "s = ?f b" by auto
  show "gID r = gID s"
  proof (cases "gID a = i \<longleftrightarrow> gID b = i")
    case True
    show ?thesis
    proof (cases "gID a = i")
      case a: True
      then show ?thesis using ab f True by simp
    next
      case b: False
      then show ?thesis using ab True c wf_rowsD(3)[OF wf ab(1,3)] by simp
    qed
  next
    case False
    then show ?thesis using ab f c dedup_clash_sym[of r s] by (cases "gID a = i") auto
  qed
qed

lemma wf_rows_snoc:
  assumes wf: "wf_rows rows" and new: "gID r \<notin> gID ` set rows" "check_task_type (gTaskType r)"
    and cl: "\<forall>x \<in> set rows. \<not> dedup_clash r x"
  shows "wf_rows (rows @ [r])"
proof (rule wf_rowsI)
  show "distinct (map gID (rows @ [r]))" using wf_rowsD(1)[OF wf] new by simp
  show "check_task_type (gTaskType x)" if "x \<in> set (rows @ [r])" for x
    using that new wf_rowsD(2)[OF wf] by auto
  show "gID x = gID y" if "x \<in> set (rows @ [r])" "y \<in> set (rows @ [r])" "dedup_clash x y" for x y
    using that cl wf_rowsD(3)[OF wf, of x y] dedup_clash_sym[of x y] by auto
qed

section \<open>The statements keep the constraints\<close>

lemma insert_task_cases:
  assumes "sql_insert_task r now d = (x, d')"
  obtains (refused) e where "x = Inl e" "d' = d"
  | (inserted) c w where "x = Inr ()" "gID r \<notin> gID ` set (task_rows d)"
      "check_task_type (gTaskType r)" "\<forall>y \<in> set (task_rows d). \<not> dedup_clash r y"
      "\<not> is_zero (gCreatedAt r) \<longrightarrow> c = gCreatedAt r"
      "d' = d\<lparr> task_rows := task_rows d @ [r\<lparr> gCreatedAt := c, gUpdatedAt := w \<rparr>] \<rparr>"
proof -
  have u: "r\<lparr> gCreatedAt := gCreatedAt r, gUpdatedAt := gUpdatedAt r \<rparr> = r"
    "r\<lparr> gUpdatedAt := gUpdatedAt r \<rparr> = r" "r\<lparr> gCreatedAt := gCreatedAt r \<rparr> = r" by simp_all
  show thesis
  proof (cases "list_ex (\<lambda>y. gID y = gID r) (task_rows d) \<or> \<not> check_task_type (gTaskType r) \<or>
      list_ex (dedup_clash r) (task_rows d)")
    case True
    then have "\<exists>e. x = Inl e \<and> d' = d" using assms
      by (auto simp: sql_insert_task_def Let_def split: if_splits)
    then show ?thesis using refused by blast
  next
    case False
    let ?c = "if is_zero (gCreatedAt r) then now else gCreatedAt r"
    let ?w = "if is_zero (gUpdatedAt r) then now else gUpdatedAt r"
    have "x = Inr ()" "d' = d\<lparr> task_rows := task_rows d @ [r\<lparr> gCreatedAt := ?c, gUpdatedAt := ?w \<rparr>] \<rparr>"
      using assms False by (auto simp: sql_insert_task_def Let_def)
    then show ?thesis using False by (intro inserted[of ?c ?w]) (auto simp: list_ex_iff)
  qed
qed

lemma save_task_cases:
  assumes "sql_save_task r now d = (x, d')" "gID r \<in> gID ` set (task_rows d)"
  obtains (refused) e where "x = Inl e" "d' = d"
  | (saved) "x = Inr ()" "check_task_type (gTaskType r)"
      "\<forall>y \<in> set (task_rows d). gID y \<noteq> gID r \<longrightarrow> \<not> dedup_clash r y"
      "d' = d\<lparr> task_rows := set_row (r\<lparr> gUpdatedAt := now \<rparr>) (task_rows d) \<rparr>"
proof -
  have ex: "list_ex (\<lambda>y. gID y = gID r) (task_rows d)" using assms(2) by (force simp: list_ex_iff)
  show thesis
  proof (cases "\<not> check_task_type (gTaskType r) \<or>
      list_ex (\<lambda>y. gID y \<noteq> gID r \<and> dedup_clash r y) (task_rows d)")
    case True
    then have "\<exists>e. x = Inl e \<and> d' = d" using assms(1) ex
      by (auto simp: sql_save_task_def Let_def split: if_splits)
    then show ?thesis using refused by blast
  next
    case False
    have "x = Inr ()" "d' = d\<lparr> task_rows := set_row (r\<lparr> gUpdatedAt := now \<rparr>) (task_rows d) \<rparr>"
      using assms(1) False ex by (simp_all add: sql_save_task_def Let_def)
    moreover have "check_task_type (gTaskType r)"
      "\<forall>y \<in> set (task_rows d). gID y \<noteq> gID r \<longrightarrow> \<not> dedup_clash r y"
      using False unfolding list_ex_iff by blast+
    ultimately show ?thesis by (intro saved)
  qed
qed


lemma claim_cases:
  assumes "ClaimNextTask w now d = (x, d')"
  obtains (none) "x = Inr 0" "d' = d" "pick (task_rows d) = None"
  | (claimed) r where "x = Inr 1" "pick (task_rows d) = Some r"
      "d' = d\<lparr> task_rows := map (\<lambda>y. if gID y = gID r then claim_row w now y else y) (task_rows d) \<rparr>"
  using assms by (cases "pick (task_rows d)") (auto simp: ClaimNextTask_def)

lemma pick_Some:
  assumes "pick rows = Some r"
  shows "r \<in> set rows" "eligible rows r" "\<And>q. q \<in> set rows \<Longrightarrow> eligible rows q \<Longrightarrow> gCreatedAt r \<le> gCreatedAt q"
  using first_min_Some[OF assms[unfolded pick_def]] by auto

lemma pick_None: "pick rows = None \<longleftrightarrow> (\<forall>r \<in> set rows. \<not> eligible rows r)"
  by (auto simp: pick_def filter_empty_conv)

lemma wf_claim: "wf_rows rows \<Longrightarrow> wf_rows (map (\<lambda>y. if gID y = i then claim_row w n y else y) rows)"
  by (rule wf_rows_map) simp_all

lemma wf_orphan: "wf_rows rows \<Longrightarrow> wf_rows (map (\<lambda>y. if p y then orphan_row n y else y) rows)"
  by (rule wf_rows_map) simp_all

lemma wf_save:
  assumes "wf_rows rows" "check_task_type (gTaskType r)"
    "\<forall>y \<in> set rows. gID y \<noteq> gID r \<longrightarrow> \<not> dedup_clash r y"
  shows "wf_rows (set_row (r\<lparr> gUpdatedAt := n \<rparr>) rows)"
proof -
  have "set_row (r\<lparr> gUpdatedAt := n \<rparr>) rows
      = map (\<lambda>x. if gID x = gID r then r\<lparr> gUpdatedAt := n \<rparr> else x) rows"
    by (simp add: set_row_def)
  then show ?thesis using assms by (simp add: wf_rows_replace)
qed

lemma ci_update_cases:
  assumes "UpdateTaskCIStatus st sha p i now d = (x, d')"
  obtains (refused) e where "x = Inl e" "d' = d"
  | (updated) "x = Inr ()" "\<forall>y \<in> set (task_rows d). gID y = i \<longrightarrow>
        (\<forall>z \<in> set (task_rows d). gID z \<noteq> i \<longrightarrow> \<not> dedup_clash (ci_row st sha p now y) z)"
      "d' = d\<lparr> task_rows := map (\<lambda>y. if gID y = i then ci_row st sha p now y else y) (task_rows d) \<rparr>"
proof (cases "list_ex (\<lambda>x. gID x = i \<and> list_ex (\<lambda>y. gID y \<noteq> i \<and>
    dedup_clash (ci_row st sha p now x) y) (task_rows d)) (task_rows d)")
  case True
  then have "\<exists>e. x = Inl e \<and> d' = d" using assms by (auto simp: UpdateTaskCIStatus_def)
  then show thesis using refused by blast
next
  case False
  have "x = Inr ()" "d' = d\<lparr> task_rows :=
      map (\<lambda>y. if gID y = i then ci_row st sha p now y else y) (task_rows d) \<rparr>"
    using assms False by (simp_all add: UpdateTaskCIStatus_def)
  moreover have "\<forall>y \<in> set (task_rows d). gID y = i \<longrightarrow>
      (\<forall>z \<in> set (task_rows d). gID z \<noteq> i \<longrightarrow> \<not> dedup_clash (ci_row st sha p now y) z)"
    using False unfolding list_ex_iff by blast
  ultimately show thesis by (intro updated)
qed

section \<open>Views\<close>

definition row_at :: "'w db_scheme \<Rightarrow> string \<Rightarrow> gorm_task option" where
  "row_at d i = find (\<lambda>r. gID r = i) (task_rows d)"

definition task_view :: "'w db_scheme \<Rightarrow> string \<Rightarrow> task option" where
  "task_view d i = map_option toDomainTask (row_at d i)"

definition app_view :: "'w db_scheme \<Rightarrow> string \<Rightarrow> json option" where
  "app_view d k = map_option aValueJSON (find (\<lambda>r. aKey r = k) (app_rows d))"

lemma view_ops [simp]:
  "row_at (d\<lparr> ops := n \<rparr>) = row_at d" "task_view (d\<lparr> ops := n \<rparr>) = task_view d"
  "app_view (d\<lparr> ops := n \<rparr>) = app_view d" "wf_db (d\<lparr> ops := n \<rparr>) = wf_db d"
  by (simp_all add: fun_eq_iff row_at_def task_view_def app_view_def wf_db_def)

lemma view_rows [simp]:
  "app_view (d\<lparr> task_rows := rs \<rparr>) = app_view d" "task_view (d\<lparr> app_rows := as \<rparr>) = task_view d"
  "task_view (d\<lparr> event_rows := es \<rparr>) = task_view d" "app_view (d\<lparr> event_rows := es \<rparr>) = app_view d"
  by (simp_all add: fun_eq_iff task_view_def row_at_def app_view_def)

lemma find_map_same_id:
  "(\<And>x. gID (f x) = gID x) \<Longrightarrow>
   find (\<lambda>r. gID r = i) (map f rows) = map_option f (find (\<lambda>r. gID r = i) rows)"
  by (induction rows) simp_all

lemma find_append: "find p (xs @ ys) = (case find p xs of None \<Rightarrow> find p ys | Some x \<Rightarrow> Some x)"
  by (induction xs) auto

lemma row_at_map:
  "(\<And>x. gID (f x) = gID x) \<Longrightarrow>
   row_at (d\<lparr> task_rows := map f (task_rows d) \<rparr>) i = map_option f (row_at d i)"
  by (simp add: row_at_def find_map_same_id)

lemma row_at_mem: "wf_db d \<Longrightarrow> r \<in> set (task_rows d) \<Longrightarrow> row_at d (gID r) = Some r"
proof -
  assume wf: "wf_db d" and r: "r \<in> set (task_rows d)"
  have "distinct (map gID (task_rows d))" using wf unfolding wf_db_def wf_rows_def by (elim conjE)
  then show ?thesis unfolding row_at_def using r by (rule find_distinct)
qed

lemma row_at_Some: "row_at d i = Some r \<Longrightarrow> r \<in> set (task_rows d) \<and> gID r = i"
  unfolding row_at_def by (rule find_gID)

lemma row_at_None: "row_at d i = None \<longleftrightarrow> i \<notin> gID ` set (task_rows d)"
  by (simp add: row_at_def find_gID_None)

lemma task_view_Some: "task_view d i = Some t \<longleftrightarrow> (\<exists>r. row_at d i = Some r \<and> t = toDomainTask r)"
  by (auto simp: task_view_def)

lemma task_view_None: "task_view d i = None \<longleftrightarrow> i \<notin> gID ` set (task_rows d)"
  by (simp add: task_view_def row_at_None)

lemma task_view_snoc:
  "gID r \<notin> gID ` set (task_rows d) \<Longrightarrow>
   task_view (d\<lparr> task_rows := task_rows d @ [r] \<rparr>) = (task_view d)(gID r \<mapsto> toDomainTask r)"
proof -
  assume "gID r \<notin> gID ` set (task_rows d)"
  then have n: "find (\<lambda>x. gID x = gID r) (task_rows d) = None" by (simp add: find_gID_None)
  have "find (\<lambda>x. gID x = j) [r] = (if gID r = j then Some r else None)" for j by simp
  then show ?thesis using n
    by (auto simp: fun_eq_iff task_view_def row_at_def find_append simp del: find.simps
        split: option.splits)
qed

lemma task_view_replace:
  assumes "\<And>x. gID (f x) = gID x"
  shows "task_view (d\<lparr> task_rows := map (\<lambda>x. if gID x = i then f x else x) (task_rows d) \<rparr>) =
    (case row_at d i of None \<Rightarrow> task_view d
     | Some r \<Rightarrow> (task_view d)(i \<mapsto> toDomainTask (f r)))"
proof
  fix j
  have "row_at (d\<lparr> task_rows := map (\<lambda>x. if gID x = i then f x else x) (task_rows d) \<rparr>) j
      = map_option (\<lambda>x. if gID x = i then f x else x) (row_at d j)"
    by (rule row_at_map) (simp add: assms)
  then show "task_view (d\<lparr> task_rows := map (\<lambda>x. if gID x = i then f x else x) (task_rows d) \<rparr>) j =
    (case row_at d i of None \<Rightarrow> task_view d
     | Some r \<Rightarrow> (task_view d)(i \<mapsto> toDomainTask (f r))) j"
    using row_at_Some[of d j] by (cases "j = i"; cases "row_at d j"; cases "row_at d i")
      (auto simp: task_view_def)
qed

section \<open>The GORM app state repository\<close>

lemma find_upsert_app:
  "map_option aValueJSON (find (\<lambda>r. aKey r = k) (upsert_app g rows)) =
    (if k = aKey g then Some (aValueJSON g) else map_option aValueJSON (find (\<lambda>r. aKey r = k) rows))"
proof (cases "list_ex (\<lambda>r. aKey r = aKey g) rows")
  case True
  have "k \<noteq> aKey g \<Longrightarrow> find (\<lambda>r. aKey r = k) (map (\<lambda>r. if aKey r = aKey g then g else r) rows) =
      find (\<lambda>r. aKey r = k) rows"
    by (induction rows) auto
  moreover have "list_ex (\<lambda>r. aKey r = aKey g) rows \<Longrightarrow>
      find (\<lambda>r. aKey r = aKey g) (map (\<lambda>r. if aKey r = aKey g then g else r) rows) = Some g"
    by (induction rows) auto
  ultimately show ?thesis using True by (simp add: upsert_app_def)
next
  case False
  then have n: "find (\<lambda>r. aKey r = aKey g) rows = None"
    by (induction rows) auto
  show ?thesis
  proof (cases "k = aKey g")
    case True
    then show ?thesis using False n by (simp add: upsert_app_def find_append)
  next
    case diff: False
    then show ?thesis using False by (auto simp: upsert_app_def find_append split: option.split)
  qed
qed

lemma app_view_set:
  "app_view (d\<lparr> app_rows := upsert_app g (app_rows d) \<rparr>) = (app_view d)(aKey g \<mapsto> aValueJSON g)"
  by (simp add: fun_eq_iff app_view_def find_upsert_app)

lemma repo_Get_cases:
  assumes "repo_Get k d = (r, d')"
  obtains (found) a where "r = Inr a" "app_view d k = Some (ValueJSON a)" "d' = d\<lparr> ops := Suc (ops d) \<rparr>"
  | (missing) "r = Inl ErrNotFound" "app_view d k = None" "d' = d\<lparr> ops := Suc (ops d) \<rparr>"
  | (failed) e where "r = Inl (EWrap (''get app state '' @ k) (db_err e))" "d' = d\<lparr> ops := Suc (ops d) \<rparr>"
proof (cases "outcome d (ops d)")
  case Works
  show thesis
  proof (cases "find (\<lambda>r. aKey r = k) (app_rows d)")
    case None
    then show ?thesis using assms Works missing
      by (auto simp: repo_Get_def exec_def app_view_def)
  next
    case (Some g)
    then show ?thesis
      using assms Works
        found[of "\<lparr> Key = aKey g, ValueJSON = aValueJSON g, StateUpdatedAt = aUpdatedAt g \<rparr>"]
      by (auto simp: repo_Get_def exec_def app_view_def)
  qed
next
  case (FailsBefore e)
  then show ?thesis using assms failed[of e] by (auto simp: repo_Get_def exec_def)
next
  case (FailsAfter e)
  then show ?thesis using assms failed[of e] by (auto simp: repo_Get_def exec_def split: option.splits)
qed

lemma repo_Set_cases:
  assumes "repo_Set a d = (r, d')"
  obtains (ok) "r = Inr ()" "app_view d' = (app_view d)(Key a \<mapsto> ValueJSON a)" "task_rows d' = task_rows d"
  | (failed) e where "r = Inl (EWrap (''set app state '' @ Key a) (db_err e))"
      "app_view d' = app_view d \<or> app_view d' = (app_view d)(Key a \<mapsto> ValueJSON a)"
      "task_rows d' = task_rows d"
proof -
  let ?d1 = "d\<lparr> ops := Suc (ops d) \<rparr>"
  let ?g = "\<lparr> aKey = Key a, aValueJSON = ValueJSON a, aUpdatedAt = clock d (ops d) \<rparr>"
  have v: "app_view (?d1\<lparr> app_rows := upsert_app ?g (app_rows ?d1) \<rparr>) = (app_view d)(Key a \<mapsto> ValueJSON a)"
    unfolding app_view_set by simp
  show thesis
    using assms v ok failed unfolding repo_Set_def exec_def Let_def
    by (cases "outcome d (ops d)") auto
qed

interpretation gorm_app: app_state_repository gorm_app_repo app_view
proof unfold_locales
  fix k and s s' :: "'w db_scheme" and r
  assume "Get gorm_app_repo k s = (r, s')"
  then show "app_view s' = app_view s"
    by (auto simp: gorm_app_repo_def elim!: repo_Get_cases)
next
  fix k and s s' :: "'w db_scheme" and a
  assume "Get gorm_app_repo k s = (Inr a, s')"
  then show "app_view s k = Some (ValueJSON a)"
    by (auto simp: gorm_app_repo_def elim!: repo_Get_cases)
next
  fix k and s s' :: "'w db_scheme" and e
  assume "Get gorm_app_repo k s = (Inl e, s')" "err_is e ErrNotFound"
  then show "e = ErrNotFound \<and> app_view s k = None"
    by (auto simp: gorm_app_repo_def elim!: repo_Get_cases)
next
  fix a and s s' :: "'w db_scheme"
  assume "Set gorm_app_repo a s = (Inr (), s')"
  then show "app_view s' = (app_view s)(Key a \<mapsto> ValueJSON a)"
    by (auto simp: gorm_app_repo_def elim!: repo_Set_cases)
next
  fix a and s s' :: "'w db_scheme" and e
  assume "Set gorm_app_repo a s = (Inl e, s')"
  then show "app_view s' = app_view s \<or> app_view s' = (app_view s)(Key a \<mapsto> ValueJSON a)"
    by (auto simp: gorm_app_repo_def elim!: repo_Set_cases)
qed

text \<open>No statement fails any more.\<close>

definition db_works :: "'w db_scheme \<Rightarrow> bool" where
  "db_works d = (\<forall>n \<ge> ops d. outcome d n = Works)"

lemma db_works_exec: "db_works d \<Longrightarrow> exec f d = f (clock d (ops d)) (d\<lparr> ops := Suc (ops d) \<rparr>)"
  by (simp add: db_works_def exec_works)

lemma db_works_step [simp]: "db_works d \<Longrightarrow> db_works (d\<lparr> ops := Suc (ops d) \<rparr>)"
  by (simp add: db_works_def)

lemma db_works_rows [simp]:
  "db_works (d\<lparr> task_rows := rs \<rparr>) = db_works d" "db_works (d\<lparr> app_rows := as \<rparr>) = db_works d"
  "db_works (d\<lparr> event_rows := es \<rparr>) = db_works d"
  by (simp_all add: db_works_def)

interpretation gorm_app_works: working_app_state_repository gorm_app_repo app_view db_works
proof unfold_locales
  fix s :: "'w db_scheme" and k
  assume "db_works s"
  then show "\<exists>s'. db_works s' \<and> (case app_view s k of
      None \<Rightarrow> Get gorm_app_repo k s = (Inl ErrNotFound, s')
    | Some j \<Rightarrow> (\<exists>a. Get gorm_app_repo k s = (Inr a, s') \<and> ValueJSON a = j))"
    by (intro exI[of _ "s\<lparr> ops := Suc (ops s) \<rparr>"])
       (auto simp: gorm_app_repo_def repo_Get_def db_works_exec app_view_def split: option.split)
next
  fix s :: "'w db_scheme" and a
  assume "db_works s"
  then show "\<exists>s'. db_works s' \<and> Set gorm_app_repo a s = (Inr (), s')"
    by (auto simp: gorm_app_repo_def repo_Set_def db_works_exec)
qed

section \<open>The GORM task repository\<close>

text \<open>A statement that only reads.\<close>

lemma exec_query:
  assumes "exec f d = (r, d')" "\<And>n e. snd (f n e) = e"
  obtains (answer) "r = fst (f (clock d (ops d)) (d\<lparr> ops := Suc (ops d) \<rparr>))"
      "d' = d\<lparr> ops := Suc (ops d) \<rparr>"
  | (failed) e where "r = Inl (db_err e)" "d' = d\<lparr> ops := Suc (ops d) \<rparr>"
  using assms by (cases rule: exec_cases) (metis fst_conv snd_conv)+

lemma repo_GetByID_cases:
  assumes "repo_GetByID i d = (r, d')"
  obtains (found) g where "r = Inr (toDomainTask g)" "row_at d i = Some g" "d' = d\<lparr> ops := Suc (ops d) \<rparr>"
  | (missing) "r = Inl ErrNotFound" "row_at d i = None" "d' = d\<lparr> ops := Suc (ops d) \<rparr>"
  | (failed) e where "r = Inl (EWrap ''get task by id'' (db_err e))" "d' = d\<lparr> ops := Suc (ops d) \<rparr>"
proof -
  obtain x where x: "exec (sql_first_task i) d = (x, d')" using assms
    by (auto simp: repo_GetByID_def split: prod.splits sum.splits)
  have q: "snd (sql_first_task i n e) = e" for n e
    by (simp add: sql_first_task_def split: option.split)
  from x q show thesis
  proof (cases rule: exec_query)
    case answer
    then show ?thesis using assms x found missing
      by (cases "row_at d i") (auto simp: repo_GetByID_def sql_first_task_def row_at_def)
  next
    case (failed e)
    then show ?thesis using assms x that(3)[of e] by (simp add: repo_GetByID_def)
  qed
qed

text \<open>What a statement did, whatever was reported: nothing, or its effect.\<close>

lemma exec_effect:
  assumes "exec f d = (r, d')"
  obtains (effect) r' where "f (clock d (ops d)) (d\<lparr> ops := Suc (ops d) \<rparr>) = (r', d')"
      "is_ok r \<longrightarrow> r = r'"
  | (no_effect) e where "r = Inl (db_err e)" "d' = d\<lparr> ops := Suc (ops d) \<rparr>"
  using assms by (cases rule: exec_cases) auto

definition stored_row :: "gorm_task \<Rightarrow> gorm_task \<Rightarrow> bool" where
  "stored_row r u = (\<exists>c w. u = r\<lparr> gCreatedAt := c, gUpdatedAt := w \<rparr> \<and>
     (\<not> is_zero (gCreatedAt r) \<longrightarrow> c = gCreatedAt r))"

lemma stored_row_as: "stored_row (toGORMTask t) u \<Longrightarrow> stored_as t (toDomainTask u)"
proof -
  assume "stored_row (toGORMTask t) u"
  then obtain c w where u: "u = (toGORMTask t)\<lparr> gCreatedAt := c, gUpdatedAt := w \<rparr>"
    and c: "\<not> is_zero (CreatedAt t) \<longrightarrow> c = CreatedAt t" by (auto simp: stored_row_def)
  show ?thesis unfolding stored_as_def
    by (intro exI[of _ c] exI[of _ w]) (simp add: u c toDomain_updates toDomain_toGORM)
qed

lemma repo_Create_cases:
  assumes "repo_Create t d = (r, d')" "wf_db d"
  obtains (kept) e where "r = Inl e" "task_view d' = task_view d" "task_rows d' = task_rows d" "wf_db d'"
  | (inserted) u where "task_view d (ID t) = None" "stored_row (toGORMTask t) u"
      "task_rows d' = task_rows d @ [u]" "task_view d' = (task_view d)(ID t \<mapsto> toDomainTask u)" "wf_db d'"
proof -
  obtain x where ex: "exec (sql_insert_task (toGORMTask t)) d = (x, d')"
    and r: "is_ok r \<Longrightarrow> is_ok x"
    using assms(1) unfolding repo_Create_def by (auto split: prod.splits sum.splits)
  from ex show thesis
  proof (cases rule: exec_effect)
    case (effect x')
    from effect(1) show ?thesis
    proof (cases rule: insert_task_cases)
      case (refused e)
      then have "\<exists>e. r = Inl e" using effect(2) r by (cases r) auto
      then show ?thesis using refused assms(2) kept by auto
    next
      case (inserted c w)
      let ?u = "(toGORMTask t)\<lparr> gCreatedAt := c, gUpdatedAt := w \<rparr>"
      have u: "gID ?u = ID t" "gTaskType ?u = TaskType t" "dedup_clash ?u = dedup_clash (toGORMTask t)"
        by (simp_all add: fun_eq_iff)
      have rows: "task_rows d' = task_rows d @ [?u]" using inserted by simp
      have new: "gID ?u \<notin> gID ` set (task_rows d)" using inserted(2) by simp
      have "wf_rows (task_rows d @ [?u])"
        using assms(2) inserted u by (intro wf_rows_snoc) (auto simp: wf_db_def)
      then have "wf_db d'" using assms(2) inserted(6) by (simp add: wf_db_def)
      moreover have "task_view d' = (task_view d)(ID t \<mapsto> toDomainTask ?u)"
        using task_view_snoc[OF new] inserted(6) u by (simp add: fun_eq_iff task_view_def row_at_def)
      moreover have "task_view d (ID t) = None" using new u by (simp add: task_view_None)
      moreover have "stored_row (toGORMTask t) ?u" using inserted(5) unfolding stored_row_def by blast
      ultimately show ?thesis using that(2) rows by blast
    qed
  next
    case (no_effect e)
    then have "\<exists>e. r = Inl e" using r by (cases r) auto
    then show ?thesis using no_effect assms(2) kept by auto
  qed
qed

lemma repo_Update_cases:
  assumes "repo_Update t d = (r, d')" "wf_db d" "task_view d (ID t) \<noteq> None"
  obtains (kept) e where "r = Inl e" "task_view d' = task_view d" "task_rows d' = task_rows d" "wf_db d'"
  | (saved) w where "task_rows d' = set_row ((toGORMTask t)\<lparr> gUpdatedAt := w \<rparr>) (task_rows d)"
      "task_view d' = (task_view d)(ID t \<mapsto> (norm_task t)\<lparr> UpdatedAt := w \<rparr>)" "wf_db d'"
proof -
  let ?d1 = "d\<lparr> ops := Suc (ops d) \<rparr>"
  have mem: "gID (toGORMTask t) \<in> gID ` set (task_rows ?d1)" using assms(3) by (simp add: task_view_None)
  obtain x where ex: "exec (sql_save_task (toGORMTask t)) d = (x, d')"
    and r: "is_ok r \<Longrightarrow> is_ok x"
    using assms(1) unfolding repo_Update_def by (auto split: prod.splits sum.splits)
  from ex show thesis
  proof (cases rule: exec_effect)
    case (effect x')
    from effect(1) mem show ?thesis
    proof (cases rule: save_task_cases)
      case (refused e)
      then have "\<exists>e. r = Inl e" using effect(2) r by (cases r) auto
      then show ?thesis using refused assms(2) kept by auto
    next
      case saved
      let ?w = "clock d (ops d)"
      let ?u = "(toGORMTask t)\<lparr> gUpdatedAt := ?w \<rparr>"
      have rows: "task_rows d' = set_row ?u (task_rows d)" using saved by simp
      have "wf_rows (set_row ?u (task_rows d))"
        using assms(2) saved by (intro wf_save) (auto simp: wf_db_def)
      then have "wf_db d'" using assms(2) saved(4) by (simp add: wf_db_def)
      moreover have "task_view d' = (task_view d)(ID t \<mapsto> (norm_task t)\<lparr> UpdatedAt := ?w \<rparr>)"
      proof -
        obtain g where g: "row_at d (ID t) = Some g" using assms(3) by (auto simp: task_view_def)
        have "row_at d' j = map_option (\<lambda>x. if gID x = ID t then ?u else x) (row_at d j)" for j
          using rows by (simp add: row_at_def set_row_def find_map_same_id)
        then have "task_view d' j = ((task_view d)(ID t \<mapsto> (norm_task t)\<lparr> UpdatedAt := ?w \<rparr>)) j" for j
          using g row_at_Some[of d j]
          by (cases "j = ID t"; cases "row_at d j")
             (auto simp: task_view_def toDomain_updates toDomain_toGORM)
        then show ?thesis by (simp add: fun_eq_iff)
      qed
      ultimately show ?thesis using that(2) rows by blast
    qed
  next
    case (no_effect e)
    then have "\<exists>e. r = Inl e" using r by (cases r) auto
    then show ?thesis using no_effect assms(2) kept by auto
  qed
qed

lemma repo_Exists_cases:
  assumes "repo_ExistsByRepoAndIssue n i d = (r, d')"
  obtains (answer) "r = Inr (list_ex (\<lambda>r. gRepoFullName r = n \<and> gIssueNumber r = i \<and>
      (gStatus r = TaskStatusQueued \<or> gStatus r = TaskStatusRunning)) (task_rows d))"
      "d' = d\<lparr> ops := Suc (ops d) \<rparr>"
  | (failed) e where "r = Inl (EWrap ''exists by repo and issue'' (db_err e))" "d' = d\<lparr> ops := Suc (ops d) \<rparr>"
proof -
  have "0 < length (filter p xs) \<longleftrightarrow> list_ex p xs" for p and xs :: "gorm_task list"
    by (auto simp: list_ex_iff filter_empty_conv)
  then show thesis using assms answer failed unfolding repo_ExistsByRepoAndIssue_def exec_def Let_def
    by (cases "outcome d (ops d)") auto
qed

lemma find_fix_exec:
  assumes "exec (FindFixChildTaskID p sha) d = (r, d')"
  obtains (found) g where "r = Inr (gID g)" "g \<in> set (task_rows d)" "gTaskType g = TaskTypeCIFix"
      "p \<noteq> None" "gParentTaskID g = p" "gHeadSHA g = sha" "d' = d\<lparr> ops := Suc (ops d) \<rparr>"
  | (none) "r = Inl ErrNoRows" "d' = d\<lparr> ops := Suc (ops d) \<rparr>"
      "\<forall>g \<in> set (task_rows d). \<not> (gTaskType g = TaskTypeCIFix \<and> p \<noteq> None \<and>
         gParentTaskID g = p \<and> gHeadSHA g = sha)"
  | (failed) e where "r = Inl (db_err e)" "d' = d\<lparr> ops := Suc (ops d) \<rparr>"
proof -
  let ?P = "\<lambda>r. gTaskType r = TaskTypeCIFix \<and> p \<noteq> None \<and> gParentTaskID r = p \<and> gHeadSHA r = sha"
  let ?s = "find ?P (task_rows d)"
  have q: "FindFixChildTaskID p sha n e =
      (case find ?P (task_rows e) of None \<Rightarrow> (Inl ErrNoRows, e) | Some g \<Rightarrow> (Inr (gID g), e))" for n e
    by (simp only: FindFixChildTaskID_def)
  have k: "snd (FindFixChildTaskID p sha n e) = e" for n e
    unfolding q by (cases "find ?P (task_rows e)") auto
  from assms k show thesis
  proof (cases rule: exec_query)
    case answer
    show ?thesis
    proof (cases ?s)
      case None
      then have "\<forall>g \<in> set (task_rows d). \<not> ?P g" by (simp add: find_None_iff)
      then show ?thesis using None answer unfolding q by (intro none) simp_all
    next
      case (Some g)
      then have "g \<in> set (task_rows d)" "?P g" by (auto simp: find_Some_iff)
      then show ?thesis using Some answer unfolding q by (intro found[of g]) simp_all
    qed
  qed (rule that(3))
qed

lemma repo_FindFixChild_cases:
  assumes "repo_FindFixChild wired p sha d = (r, d')" "wf_db d"
  obtains (found) g where "r = Inr (Some (toDomainTask g))" "row_at d (gID g) = Some g"
      "gTaskType g = TaskTypeCIFix" "gParentTaskID g = Some p" "gHeadSHA g = sha"
      "\<exists>n. d' = d\<lparr> ops := n \<rparr>"
  | (none) "r = Inr None" "\<exists>n. d' = d\<lparr> ops := n \<rparr>"
      "p \<noteq> [] \<Longrightarrow> \<forall>g \<in> set (task_rows d). \<not> (gTaskType g = TaskTypeCIFix \<and>
         gParentTaskID g = Some p \<and> gHeadSHA g = sha)"
  | (failed) e where "r = Inl e" "\<exists>n. d' = d\<lparr> ops := n \<rparr>"
proof (cases wired)
  case False
  then have "d' = d" "r = Inl (EMsg ''FindFixChild: sqlc queries not wired'')"
    using assms by (simp_all add: repo_FindFixChild_def)
  moreover have "\<exists>n. d = d\<lparr> ops := n \<rparr>" by (rule exI[of _ "ops d"]) simp
  ultimately show thesis by (intro failed) simp_all
next
  case True
  obtain x d1 where x: "exec (FindFixChildTaskID (null_string p) sha) d = (x, d1)" by fastforce
  from x show thesis
  proof (cases rule: find_fix_exec)
    case (found g)
    have at: "row_at d (gID g) = Some g" using assms(2) found(2) by (rule row_at_mem)
    have p: "gParentTaskID g = Some p"
      using found(4,5) by (simp add: null_string_def split: if_splits)
    obtain y d2 where y: "repo_GetByID (gID g) d1 = (y, d2)" by fastforce
    have rd: "d' = d2" "r = (case y of Inl e \<Rightarrow> Inl e | Inr t \<Rightarrow> Inr (Some t))"
      using assms(1) x y True found by (auto simp: repo_FindFixChild_def split: sum.splits)
    from y show ?thesis
    proof (cases rule: repo_GetByID_cases)
      case (found h)
      then show ?thesis using rd at p \<open>gTaskType g = TaskTypeCIFix\<close> \<open>gHeadSHA g = sha\<close>
          \<open>d1 = d\<lparr>ops := Suc (ops d)\<rparr>\<close> by (intro that(1)[of g]) auto
    next
      case missing
      then show ?thesis using rd \<open>d1 = d\<lparr>ops := Suc (ops d)\<rparr>\<close> by (intro that(3)) auto
    next
      case (failed e)
      then show ?thesis using rd \<open>d1 = d\<lparr>ops := Suc (ops d)\<rparr>\<close> by (intro that(3)) auto
    qed
  next
    case none
    then show ?thesis using assms(1) x True
      by (intro that(2)) (auto simp: repo_FindFixChild_def null_string_def)
  next
    case (failed e)
    then show ?thesis using assms(1) x True
      by (intro that(3)) (auto simp: repo_FindFixChild_def)
  qed
qed

lemma repo_UpdateCI_cases:
  assumes "repo_UpdateCIStatus wired i st sha p d = (r, d')" "wf_db d"
  obtains (kept) e where "r = Inl e" "task_view d' = task_view d" "task_rows d' = task_rows d" "wf_db d'"
  | (updated) w where
      "task_rows d' = map (\<lambda>y. if gID y = i then ci_row st sha (if is_zero p then None else Some p) w y else y)
         (task_rows d)" "wf_db d'"
      "task_view d' = (case task_view d i of None \<Rightarrow> task_view d
        | Some t \<Rightarrow> (task_view d)(i \<mapsto> t\<lparr> CIStatus := st, HeadSHA := sha,
            CILastPolledAt := (if is_zero p then None else Some p), UpdatedAt := w \<rparr>))"
proof (cases wired)
  case False
  then show thesis using assms by (intro kept) (auto simp: repo_UpdateCIStatus_def)
next
  case True
  let ?p = "if is_zero p then None else Some p"
  obtain x where ex: "exec (UpdateTaskCIStatus st sha ?p i) d = (x, d')"
    and r: "is_ok r \<Longrightarrow> is_ok x"
    using assms(1) True unfolding repo_UpdateCIStatus_def by (auto split: prod.splits sum.splits)
  from ex show thesis
  proof (cases rule: exec_effect)
    case (effect x')
    from effect(1) show ?thesis
    proof (cases rule: ci_update_cases)
      case (refused e)
      then have "\<exists>e. r = Inl e" using effect(2) r by (cases r) auto
      then show ?thesis using refused assms(2) kept by auto
    next
      case updated
      let ?w = "clock d (ops d)"
      have rows: "task_rows d' = map (\<lambda>y. if gID y = i then ci_row st sha ?p ?w y else y) (task_rows d)"
        using updated(3) by simp
      have "wf_rows (task_rows d')" unfolding rows
        using assms(2) updated(2) wf_rowsD(2)[of "task_rows d"]
        by (intro wf_rows_replace) (auto simp: wf_db_def)
      then have "wf_db d'" using assms(2) updated(3) by (simp add: wf_db_def)
      moreover have "task_view d' = (case task_view d i of None \<Rightarrow> task_view d
        | Some t \<Rightarrow> (task_view d)(i \<mapsto> t\<lparr> CIStatus := st, HeadSHA := sha,
            CILastPolledAt := ?p, UpdatedAt := ?w \<rparr>))"
      proof -
        have "task_view d' = task_view (d\<lparr> task_rows :=
            map (\<lambda>y. if gID y = i then ci_row st sha ?p ?w y else y) (task_rows d) \<rparr>)"
          using rows by (simp add: fun_eq_iff task_view_def row_at_def)
        then show ?thesis
          by (subst (asm) task_view_replace)
             (auto simp: task_view_def toDomain_ci_row split: option.split)
      qed
      ultimately show ?thesis using that(2) rows by blast
    qed
  next
    case (no_effect e)
    then have "\<exists>e. r = Inl e" using r by (cases r) auto
    then show ?thesis using no_effect assms(2) kept by auto
  qed
qed

lemma task_view_rows_eq: "task_rows d = task_rows d' \<Longrightarrow> task_view d = task_view d'"
  by (simp add: fun_eq_iff task_view_def row_at_def)

lemma task_view_list_ex:
  assumes "wf_db d"
  shows "list_ex P (task_rows d) \<longleftrightarrow> (\<exists>i r. row_at d i = Some r \<and> P r)"
proof
  assume "list_ex P (task_rows d)"
  then obtain r where "r \<in> set (task_rows d)" "P r" by (auto simp: list_ex_iff)
  then show "\<exists>i r. row_at d i = Some r \<and> P r" using row_at_mem[OF assms] by blast
next
  assume "\<exists>i r. row_at d i = Some r \<and> P r"
  then obtain i r where r: "row_at d i = Some r" "P r" by blast
  from row_at_Some[OF r(1)] r(2) show "list_ex P (task_rows d)" unfolding list_ex_iff by blast
qed

interpretation gorm_task: task_repository "gorm_task_repo wired" task_view wf_db for wired
proof unfold_locales
  fix s s' :: "'w db_scheme" and i t
  assume "GetByID (gorm_task_repo wired) i s = (Inr t, s')"
  then show "task_view s i = Some t"
    by (auto simp: gorm_task_repo_def task_view_def elim!: repo_GetByID_cases)
next
  fix s s' :: "'w db_scheme" and i
  assume "GetByID (gorm_task_repo wired) i s = (Inl ErrNotFound, s')"
  then show "task_view s i = None"
    by (auto simp: gorm_task_repo_def task_view_def elim!: repo_GetByID_cases)
next
  fix s s' :: "'w db_scheme" and i r
  assume "wf_db s" "GetByID (gorm_task_repo wired) i s = (r, s')"
  then show "wf_db s' \<and> task_view s' = task_view s"
    by (auto simp: gorm_task_repo_def elim!: repo_GetByID_cases)
next
  fix s :: "'w db_scheme" and i t
  assume "task_view s i = Some t"
  then show "ID t = i" by (auto simp: task_view_Some dest: row_at_Some)
next
  fix s s' :: "'w db_scheme" and t
  assume "wf_db s" "Create (gorm_task_repo wired) t s = (Inr (), s')"
  then show "wf_db s' \<and> task_view s (ID t) = None \<and>
      (\<exists>u. stored_as t u \<and> task_view s' = (task_view s)(ID t \<mapsto> u))"
    by (auto simp: gorm_task_repo_def elim!: repo_Create_cases intro: stored_row_as)
next
  fix s s' :: "'w db_scheme" and t e
  assume "wf_db s" "Create (gorm_task_repo wired) t s = (Inl e, s')"
  then show "wf_db s' \<and> (task_view s' = task_view s \<or> task_view s (ID t) = None \<and>
      (\<exists>u. stored_as t u \<and> task_view s' = (task_view s)(ID t \<mapsto> u)))"
    by (auto simp: gorm_task_repo_def elim!: repo_Create_cases intro: stored_row_as)
next
  fix s s' :: "'w db_scheme" and t
  assume "wf_db s" "task_view s (ID t) \<noteq> None" "Update (gorm_task_repo wired) t s = (Inr (), s')"
  then show "wf_db s' \<and> (\<exists>w. task_view s' = (task_view s)(ID t \<mapsto> (norm_task t)\<lparr> UpdatedAt := w \<rparr>))"
    by (auto simp: gorm_task_repo_def elim!: repo_Update_cases)
next
  fix s s' :: "'w db_scheme" and t e
  assume "wf_db s" "task_view s (ID t) \<noteq> None" "Update (gorm_task_repo wired) t s = (Inl e, s')"
  then show "wf_db s' \<and> (task_view s' = task_view s \<or>
      (\<exists>w. task_view s' = (task_view s)(ID t \<mapsto> (norm_task t)\<lparr> UpdatedAt := w \<rparr>)))"
    by (auto simp: gorm_task_repo_def elim!: repo_Update_cases)
next
  fix s s' :: "'w db_scheme" and rn n b
  assume wf: "wf_db s" and "ExistsByRepoAndIssue (gorm_task_repo wired) rn n s = (Inr b, s')"
  then have "b = list_ex (\<lambda>r. gRepoFullName r = rn \<and> gIssueNumber r = n \<and>
      (gStatus r = TaskStatusQueued \<or> gStatus r = TaskStatusRunning)) (task_rows s)"
    by (auto simp: gorm_task_repo_def elim!: repo_Exists_cases)
  then show "b = (\<exists>i t. task_view s i = Some t \<and> RepoFullName t = rn \<and> IssueNumber t = n \<and>
      (Status t = TaskStatusQueued \<or> Status t = TaskStatusRunning))"
    unfolding task_view_list_ex[OF wf] task_view_Some by force
next
  fix s s' :: "'w db_scheme" and rn n xb
  assume "wf_db s" "ExistsByRepoAndIssue (gorm_task_repo wired) rn n s = (xb, s')"
  then show "wf_db s' \<and> task_view s' = task_view s"
    by (auto simp: gorm_task_repo_def elim!: repo_Exists_cases)
next
  fix s s' :: "'w db_scheme" and p sha t
  assume "wf_db s" "FindFixChild (gorm_task_repo wired) p sha s = (Inr (Some t), s')"
  then show "task_view s (ID t) = Some t \<and> TaskType t = TaskTypeCIFix \<and> ParentTaskID t = Some p \<and>
      HeadSHA t = sha"
    by (auto simp: gorm_task_repo_def task_view_def elim!: repo_FindFixChild_cases)
next
  fix s s' :: "'w db_scheme" and p sha i t
  assume "wf_db s" "FindFixChild (gorm_task_repo wired) p sha s = (Inr None, s')" "p \<noteq> []"
    "task_view s i = Some t"
  then show "\<not> (TaskType t = TaskTypeCIFix \<and> ParentTaskID t = Some p \<and> HeadSHA t = sha)"
    by (auto simp: gorm_task_repo_def task_view_Some elim!: repo_FindFixChild_cases dest!: row_at_Some)
next
  fix s s' :: "'w db_scheme" and p sha xf
  assume "wf_db s" "FindFixChild (gorm_task_repo wired) p sha s = (xf, s')"
  then show "wf_db s' \<and> task_view s' = task_view s"
    by (auto simp: gorm_task_repo_def elim!: repo_FindFixChild_cases)
next
  fix s s' :: "'w db_scheme" and i st sha tp
  assume "wf_db s" "UpdateCIStatus (gorm_task_repo wired) i st sha tp s = (Inr (), s')"
  then show "wf_db s' \<and> (\<exists>w. task_view s' = (case task_view s i of None \<Rightarrow> task_view s
      | Some t \<Rightarrow> (task_view s)(i \<mapsto> t\<lparr> CIStatus := st, HeadSHA := sha,
          CILastPolledAt := (if is_zero tp then None else Some tp), UpdatedAt := w \<rparr>)))"
    by (auto simp: gorm_task_repo_def elim!: repo_UpdateCI_cases)
next
  fix s s' :: "'w db_scheme" and i st sha tp e
  assume "wf_db s" "UpdateCIStatus (gorm_task_repo wired) i st sha tp s = (Inl e, s')"
  then show "wf_db s' \<and> (task_view s' = task_view s \<or>
      (\<exists>w. task_view s' = (case task_view s i of None \<Rightarrow> task_view s
      | Some t \<Rightarrow> (task_view s)(i \<mapsto> t\<lparr> CIStatus := st, HeadSHA := sha,
          CILastPolledAt := (if is_zero tp then None else Some tp), UpdatedAt := w \<rparr>))))"
    by (auto simp: gorm_task_repo_def elim!: repo_UpdateCI_cases)
qed

section \<open>The database after the migrations\<close>

text \<open>migrations/000003 inserts two application states; every statement works.\<close>

definition migrated_db :: "(nat \<Rightarrow> time) \<Rightarrow> db" where
  "migrated_db clk = \<lparr> task_rows = [], event_rows = [],
     app_rows = [\<lparr> aKey = ''full_mode'', aValueJSON = JObj [(''enabled'', JBool False)], aUpdatedAt = 0 \<rparr>,
       \<lparr> aKey = ''last_poll_at'', aValueJSON = JObj [(''timestamp'', JNull)], aUpdatedAt = 0 \<rparr>],
     clock = clk, outcome = (\<lambda>_. Works), ops = 0 \<rparr>"

lemma migrated_db_ok [simp]: "wf_db (migrated_db clk)" "db_works (migrated_db clk)"
  by (simp_all add: migrated_db_def wf_db_def wf_rows_def db_works_def)

end
