(* ===== verification/Claims.thy ===== *)
theory Claims
  imports Repo_Laws
begin

text \<open>The queue: what ClaimNext, ReclaimStale and List of
  internal/repository/task_repository.go do to the table of tasks, and the
  exclusion of tasks of one repository. The claim picks the oldest queued row of a
  repository without a running row and changes only that row; the rows that run
  stay at most one per repository under every operation of the repository that
  does not itself write the status running.\<close>

section \<open>Claiming\<close>

text \<open>ClaimNext from a database whose statements work.\<close>

lemma ClaimNext_works:
  assumes "db_works d"
  shows "repo_ClaimNext True w d =
    (let d1 = d\<lparr> ops := Suc (ops d) \<rparr> in
     case pick (task_rows d) of
       None \<Rightarrow> (Inr None, d1)
     | Some r \<Rightarrow>
         let d2 = d1\<lparr> task_rows := map (\<lambda>y. if gID y = gID r
               then claim_row (null_string w) (clock d (ops d)) y else y) (task_rows d) \<rparr> in
         case exec (GetClaimedTaskID (null_string w)) d2 of
            (Inl e, d3) \<Rightarrow> (Inl (EWrap ''load claimed task id'' e), d3)
          | (Inr taskID, d3) \<Rightarrow>
              (case repo_GetByID taskID d3 of
                 (Inl e, d4) \<Rightarrow> (Inl e, d4)
               | (Inr t, d4) \<Rightarrow> (Inr (Some t), d4)))"
  using db_works_exec[OF assms, of "ClaimNextTask (null_string w)"]
  by (auto simp: repo_ClaimNext_def ClaimNextTask_def Let_def split: option.split prod.split sum.split)

text \<open>The row GetClaimedTaskID finds is the row just claimed when the clock of the
  claim is later than every earlier claim of the worker.\<close>

definition fresh_claim :: "string \<Rightarrow> 'w db_scheme \<Rightarrow> bool" where
  "fresh_claim w d = (\<forall>r \<in> set (task_rows d). gStatus r = TaskStatusRunning \<longrightarrow>
     gWorkerID r = Some w \<longrightarrow> (\<exists>c. gClaimedAt r = Some c \<and> c < clock d (ops d)))"

lemma claimed_first:
  assumes "r \<in> set rows" "f r < (m :: int)"
    and "\<And>x. x \<in> set rows \<Longrightarrow> x \<noteq> r \<Longrightarrow> m \<le> f x"
  shows "first_min f rows = Some r"
proof -
  obtain x where x: "first_min f rows = Some x" using assms(1) by (cases "first_min f rows") auto
  then have "x \<in> set rows" "f x \<le> f r" using first_min_Some[OF x] assms(1) by auto
  then show ?thesis using assms x by (cases "x = r") force+
qed

lemma get_claimed_after_claim:
  assumes wf: "wf_rows rows" and r: "r \<in> set rows" and w: "w \<noteq> []"
    and fresh: "\<forall>x \<in> set rows. gStatus x = TaskStatusRunning \<longrightarrow> gWorkerID x = Some w \<longrightarrow>
      (\<exists>c. gClaimedAt x = Some c \<and> c < now)"
    and rows': "task_rows d = map (\<lambda>y. if gID y = gID r then claim_row (Some w) now y else y) rows"
  shows "GetClaimedTaskID (Some w) n d = (Inr (gID r), d)"
proof -
  let ?f = "\<lambda>y. if gID y = gID r then claim_row (Some w) now y else y"
  let ?c = "claim_row (Some w) now r"
  let ?rows = "filter (\<lambda>x. gWorkerID x = Some w \<and> gStatus x = TaskStatusRunning) (task_rows d)"
  let ?claimed = "filter (\<lambda>x. gClaimedAt x \<noteq> None) ?rows"
  have only: "x = r" if "x \<in> set rows" "gID x = gID r" for x
    using that r wf_rowsD(1)[OF wf] by (meson distinct_map inj_on_def)
  have mem: "?c \<in> set ?claimed" using r rows' by (auto intro!: image_eqI[of _ _ r])
  have old: "- now < neg_claimed x" if x: "x \<in> set ?claimed" "x \<noteq> ?c" for x
  proof -
    obtain y where y: "y \<in> set rows" "x = ?f y" using x rows' by auto
    have "gID y \<noteq> gID r" using y x(2) only[OF y(1)] by (cases "gID y = gID r") auto
    then have "x = y" using y by simp
    then show ?thesis using x y fresh by (auto simp: neg_claimed_def)
  qed
  have "first_min neg_claimed ?claimed = Some ?c"
    by (rule claimed_first[OF mem, of _ "1 - now"]) (use old in \<open>force simp: neg_claimed_def\<close>)+
  then show ?thesis by (simp add: GetClaimedTaskID_def Let_def)
qed

lemma claim_spec:
  assumes works: "db_works d" and wf: "wf_db d" and w: "w \<noteq> []" and fresh: "fresh_claim w d"
  shows "case repo_ClaimNext True w d of
      (Inr (Some t), d') \<Rightarrow> \<exists>r \<in> set (task_rows d).
          eligible (task_rows d) r \<and> (\<forall>q \<in> set (task_rows d). eligible (task_rows d) q \<longrightarrow> gCreatedAt r \<le> gCreatedAt q) \<and>
          t = toDomainTask (claim_row (Some w) (clock d (ops d)) r) \<and>
          task_rows d' = map (\<lambda>y. if gID y = gID r then claim_row (Some w) (clock d (ops d)) y else y) (task_rows d)
    | (Inr None, d') \<Rightarrow> (\<forall>r \<in> set (task_rows d). \<not> eligible (task_rows d) r) \<and> task_rows d' = task_rows d
    | (Inl e, d') \<Rightarrow> False"
proof (cases "pick (task_rows d)")
  case None
  then show ?thesis unfolding ClaimNext_works[OF works] pick_None[symmetric]
    by (simp add: None)
next
  case (Some r)
  let ?c = "claim_row (Some w) (clock d (ops d))"
  let ?rows = "map (\<lambda>y. if gID y = gID r then ?c y else y) (task_rows d)"
  define d2 where "d2 = d\<lparr> ops := Suc (ops d) \<rparr>\<lparr> task_rows := ?rows \<rparr>"
  define d3 where "d3 = d2\<lparr> ops := Suc (ops d2) \<rparr>"
  note r = pick_Some[OF Some]
  have wf': "wf_rows (task_rows d)" using wf by (simp add: wf_db_def)
  have n: "null_string w = Some w" using w by (simp add: null_string_def)
  have d: "task_rows d2 = ?rows" "task_rows d3 = ?rows" by (simp_all add: d2_def d3_def)
  have w2: "db_works d2" "db_works d3" using works by (simp_all add: db_works_def d2_def d3_def)
  have "GetClaimedTaskID (Some w) m d3 = (Inr (gID r), d3)" for m
    using get_claimed_after_claim[OF wf' r(1) w, of "clock d (ops d)" d3] fresh d
    by (simp add: fresh_claim_def)
  then have g: "exec (GetClaimedTaskID (Some w)) d2 = (Inr (gID r), d3)"
    unfolding db_works_exec[OF w2(1)] d3_def[symmetric] by simp
  have "row_at d (gID r) = Some r" using wf r(1) by (rule row_at_mem)
  then have "row_at (d\<lparr> task_rows := ?rows \<rparr>) (gID r) = Some (?c r)"
    by (subst row_at_map) simp_all
  then have f: "find (\<lambda>x. gID x = gID r) (task_rows d3) = Some (?c r)" by (simp add: row_at_def d)
  have get: "repo_GetByID (gID r) d3 = (Inr (toDomainTask (?c r)), d3\<lparr> ops := Suc (ops d3) \<rparr>)"
    using f unfolding repo_GetByID_def db_works_exec[OF w2(2)] sql_first_task_def by simp
  have "repo_ClaimNext True w d = (Inr (Some (toDomainTask (?c r))), d3\<lparr> ops := Suc (ops d3) \<rparr>)"
    using g get unfolding ClaimNext_works[OF works] Some option.case Let_def n d2_def[symmetric] by simp
  then show ?thesis using r d by auto
qed

text \<open>An empty worker id: the row is claimed but never found again.\<close>

lemma claim_empty_worker:
  assumes works: "db_works d" and pick: "pick (task_rows d) = Some r"
  shows "\<exists>d'. repo_ClaimNext True [] d = (Inl (EWrap ''load claimed task id'' ErrNoRows), d') \<and>
    task_rows d' = map (\<lambda>y. if gID y = gID r then claim_row None (clock d (ops d)) y else y) (task_rows d)"
proof -
  let ?rows = "map (\<lambda>y. if gID y = gID r then claim_row None (clock d (ops d)) y else y) (task_rows d)"
  define d2 where "d2 = d\<lparr> ops := Suc (ops d) \<rparr>\<lparr> task_rows := ?rows \<rparr>"
  have "db_works d2" using works by (simp add: db_works_def d2_def)
  then have g: "exec (GetClaimedTaskID None) d2 = (Inl ErrNoRows, d2\<lparr> ops := Suc (ops d2) \<rparr>)"
    using db_works_exec[of d2 "GetClaimedTaskID None"] by (simp add: GetClaimedTaskID_def)
  have n: "null_string [] = None" by (simp add: null_string_def)
  have "repo_ClaimNext True [] d
      = (Inl (EWrap ''load claimed task id'' ErrNoRows), d2\<lparr> ops := Suc (ops d2) \<rparr>)"
    using g unfolding ClaimNext_works[OF works] pick option.case Let_def n d2_def[symmetric] by simp
  then show ?thesis by (simp add: d2_def)
qed

section \<open>At most one running row per repository\<close>

definition repo_exclusive :: "gorm_task list \<Rightarrow> bool" where
  "repo_exclusive rows = (\<forall>r \<in> set rows. \<forall>s \<in> set rows.
     gStatus r = TaskStatusRunning \<longrightarrow> gStatus s = TaskStatusRunning \<longrightarrow>
     gRepoFullName r = gRepoFullName s \<longrightarrow> gID r = gID s)"

lemma repo_exclusiveD:
  "repo_exclusive rows \<Longrightarrow> r \<in> set rows \<Longrightarrow> s \<in> set rows \<Longrightarrow> gStatus r = TaskStatusRunning \<Longrightarrow>
   gStatus s = TaskStatusRunning \<Longrightarrow> gRepoFullName r = gRepoFullName s \<Longrightarrow> gID r = gID s"
  unfolding repo_exclusive_def by blast

lemma repo_exclusiveI:
  "(\<And>r s. r \<in> set rows \<Longrightarrow> s \<in> set rows \<Longrightarrow> gStatus r = TaskStatusRunning \<Longrightarrow>
     gStatus s = TaskStatusRunning \<Longrightarrow> gRepoFullName r = gRepoFullName s \<Longrightarrow> gID r = gID s) \<Longrightarrow>
   repo_exclusive rows"
  unfolding repo_exclusive_def by blast

text \<open>A change of rows that makes none run keeps the exclusion.\<close>

lemma repo_exclusive_shrink:
  assumes ex: "repo_exclusive rows"
    and sub: "\<And>r. r \<in> set rows' \<Longrightarrow> gStatus r = TaskStatusRunning \<Longrightarrow>
      \<exists>q \<in> set rows. gStatus q = TaskStatusRunning \<and> gID q = gID r \<and> gRepoFullName q = gRepoFullName r"
  shows "repo_exclusive rows'"
proof (rule repo_exclusiveI)
  fix r s assume "r \<in> set rows'" "s \<in> set rows'" "gStatus r = TaskStatusRunning"
    "gStatus s = TaskStatusRunning" and same: "gRepoFullName r = gRepoFullName s"
  then obtain p q where "p \<in> set rows" "gStatus p = TaskStatusRunning" "gID p = gID r"
    "gRepoFullName p = gRepoFullName r" "q \<in> set rows" "gStatus q = TaskStatusRunning" "gID q = gID s"
    "gRepoFullName q = gRepoFullName s" using sub by meson
  then show "gID r = gID s" using repo_exclusiveD[OF ex, of p q] same by simp
qed

lemma repo_exclusive_claim:
  assumes wf: "wf_rows rows" and ex: "repo_exclusive rows" and r: "r \<in> set rows" and el: "eligible rows r"
  shows "repo_exclusive (map (\<lambda>y. if gID y = gID r then claim_row w n y else y) rows)"
proof (rule repo_exclusiveI)
  let ?f = "\<lambda>y. if gID y = gID r then claim_row w n y else y"
  have none: "\<not> (gStatus y = TaskStatusRunning \<and> gRepoFullName y = gRepoFullName r)" if "y \<in> set rows" for y
    using el that unfolding eligible_def list_ex_iff by blast
  have only: "x = r" if "x \<in> set rows" "gID x = gID r" for x
    using that r wf_rowsD(1)[OF wf] by (meson distinct_map inj_on_def)
  fix a b assume "a \<in> set (map ?f rows)" "b \<in> set (map ?f rows)"
    and ab: "gStatus a = TaskStatusRunning" "gStatus b = TaskStatusRunning" "gRepoFullName a = gRepoFullName b"
  then obtain x y where xy: "x \<in> set rows" "a = ?f x" "y \<in> set rows" "b = ?f y" by auto
  consider "gID x = gID r" "gID y = gID r" | "gID x = gID r" "gID y \<noteq> gID r"
    | "gID x \<noteq> gID r" "gID y = gID r" | "gID x \<noteq> gID r" "gID y \<noteq> gID r" by blast
  then show "gID a = gID b"
  proof cases
    case 1 then show ?thesis using xy by simp
  next
    case 2 then show ?thesis using xy ab none[OF xy(3)] only[OF xy(1)] by simp
  next
    case 3 then show ?thesis using xy ab none[OF xy(1)] only[OF xy(3)] by simp
  next
    case 4 then show ?thesis using xy ab repo_exclusiveD[OF ex, of x y] by simp
  qed
qed

text \<open>One call of the repository. Update may write the status running only over a
  row of the same repository that already runs, as the worker does after a claim.\<close>

definition update_allowed :: "task \<Rightarrow> 'w db_scheme \<Rightarrow> bool" where
  "update_allowed t d = (\<exists>r. row_at d (ID t) = Some r \<and>
     (Status t = TaskStatusRunning \<longrightarrow> gStatus r = TaskStatusRunning \<and> gRepoFullName r = RepoFullName t))"

inductive queue_step :: "'w db_scheme \<Rightarrow> 'w db_scheme \<Rightarrow> bool" where
  create: "repo_Create t d = (r, d') \<Longrightarrow> Status t \<noteq> TaskStatusRunning \<Longrightarrow> queue_step d d'"
| claim: "repo_ClaimNext wired w d = (rc, d') \<Longrightarrow> queue_step d d'"
| reclaim: "repo_ReclaimStale wired cutoff d = (ri, d') \<Longrightarrow> queue_step d d'"
| update: "repo_Update t d = (r, d') \<Longrightarrow> update_allowed t d \<Longrightarrow> queue_step d d'"
| ci_update: "repo_UpdateCIStatus wired i st sha p d = (r, d') \<Longrightarrow> queue_step d d'"

inductive_cases queue_stepE: "queue_step d d'"

inductive queue_reach :: "'w db_scheme \<Rightarrow> 'w db_scheme \<Rightarrow> bool" where
  start: "queue_reach d d"
| step: "queue_reach d d1 \<Longrightarrow> queue_step d1 d2 \<Longrightarrow> queue_reach d d2"

definition queue_inv :: "'w db_scheme \<Rightarrow> bool" where
  "queue_inv d = (wf_db d \<and> repo_exclusive (task_rows d))"

lemma get_claimed_keeps:
  assumes "exec (GetClaimedTaskID w) d = (x, d')"
  shows "\<exists>n. d' = d\<lparr> ops := n \<rparr>"
proof -
  have "snd (GetClaimedTaskID w n e) = e" for n e
    by (simp add: GetClaimedTaskID_def Let_def split: option.split list.split)
  with assms show ?thesis by (cases rule: exec_query) auto
qed

lemma repo_GetByID_keeps: "repo_GetByID i d = (r, d') \<Longrightarrow> \<exists>n. d' = d\<lparr> ops := n \<rparr>"
  by (elim repo_GetByID_cases) auto

lemma repo_ClaimNext_rows:
  assumes "repo_ClaimNext wired w d = (r, d')" "wf_db d"
  shows "wf_db d' \<and> (task_rows d' = task_rows d \<or> (\<exists>q n. pick (task_rows d) = Some q \<and>
    task_rows d' = map (\<lambda>y. if gID y = gID q then claim_row (null_string w) n y else y) (task_rows d)))"
proof (cases wired)
  case False
  then show ?thesis using assms by (simp add: repo_ClaimNext_def)
next
  case True
  obtain x d1 where x: "exec (ClaimNextTask (null_string w)) d = (x, d1)" by fastforce
  have "\<exists>n. d' = d1\<lparr> ops := n \<rparr>"
  proof -
    have id: "\<exists>n. d1 = d1\<lparr> ops := n \<rparr>" by (rule exI[of _ "ops d1"]) simp
    show ?thesis using assms(1) True x id
      by (auto simp: repo_ClaimNext_def split: sum.splits if_splits prod.splits
          dest!: get_claimed_keeps repo_GetByID_keeps)
  qed
  then have eq: "task_rows d' = task_rows d1" "wf_db d' = wf_db d1" by auto
  have "wf_db d1 \<and> (task_rows d1 = task_rows d \<or> (\<exists>q n. pick (task_rows d) = Some q \<and>
    task_rows d1 = map (\<lambda>y. if gID y = gID q then claim_row (null_string w) n y else y) (task_rows d)))"
    using x
  proof (cases rule: exec_effect)
    case (effect x')
    from effect(1) show ?thesis
    proof (cases rule: claim_cases)
      case (claimed q)
      then show ?thesis using assms(2) wf_claim[of "task_rows d"] by (auto simp: wf_db_def)
    qed (use assms(2) in auto)
  qed (use assms(2) in auto)
  then show ?thesis using eq by simp
qed

lemma repo_ReclaimStale_rows:
  assumes "repo_ReclaimStale wired cutoff d = (r, d')" "wf_db d"
  shows "wf_db d' \<and> (task_rows d' = task_rows d \<or> (\<exists>n. task_rows d' =
    map (\<lambda>x. if stale cutoff x then orphan_row n x else x) (task_rows d)))"
proof (cases wired)
  case False
  then show ?thesis using assms by (simp add: repo_ReclaimStale_def)
next
  case True
  obtain x where x: "exec (ReclaimStaleTasks cutoff) d = (x, d')"
    using assms(1) True by (auto simp: repo_ReclaimStale_def split: prod.splits sum.splits)
  then show ?thesis
  proof (cases rule: exec_effect)
    case (effect x')
    then have "d' = d\<lparr> ops := Suc (ops d), task_rows :=
        map (\<lambda>y. if stale cutoff y then orphan_row (clock d (ops d)) y else y) (task_rows d) \<rparr>"
      by (simp add: ReclaimStaleTasks_def)
    then show ?thesis using assms(2) wf_orphan[of "task_rows d"] by (auto simp: wf_db_def)
  qed (use assms(2) in auto)
qed

lemma queue_step_inv:
  assumes "queue_step d d'" "queue_inv d"
  shows "queue_inv d'"
  using assms
proof (induction rule: queue_step.induct)
  case (create t d r d')
  then have wf: "wf_db d" and ex: "repo_exclusive (task_rows d)" by (auto simp: queue_inv_def)
  from create(1) wf show ?case
  proof (cases rule: repo_Create_cases)
    case (inserted u)
    then have "gStatus u = Status t" by (auto simp: stored_row_def)
    then have "repo_exclusive (task_rows d')" unfolding inserted(3)
      using create(2) by (intro repo_exclusive_shrink[OF ex]) auto
    then show ?thesis using inserted by (simp add: queue_inv_def)
  qed (use ex in \<open>auto simp: queue_inv_def\<close>)
next
  case (claim wired w d rc d')
  then have wf: "wf_db d" and ex: "repo_exclusive (task_rows d)" by (auto simp: queue_inv_def)
  from repo_ClaimNext_rows[OF claim(1) wf] show ?case
    using ex wf pick_Some(1,2)[of "task_rows d"]
      repo_exclusive_claim[of "task_rows d", OF _ ex]
    by (auto simp: queue_inv_def wf_db_def)
next
  case (reclaim wired cutoff d ri d')
  then have wf: "wf_db d" and ex: "repo_exclusive (task_rows d)" by (auto simp: queue_inv_def)
  have "repo_exclusive (map (\<lambda>x. if stale cutoff x then orphan_row n x else x) (task_rows d))" for n
    by (rule repo_exclusive_shrink[OF ex]) (auto split: if_splits)
  then show ?case using repo_ReclaimStale_rows[OF reclaim(1) wf] ex by (auto simp: queue_inv_def)
next
  case (update t d r d')
  then have wf: "wf_db d" and ex: "repo_exclusive (task_rows d)" by (auto simp: queue_inv_def)
  obtain q where q: "row_at d (ID t) = Some q"
    "Status t = TaskStatusRunning \<longrightarrow> gStatus q = TaskStatusRunning \<and> gRepoFullName q = RepoFullName t"
    using update(2) by (auto simp: update_allowed_def)
  then have v: "task_view d (ID t) \<noteq> None" by (simp add: task_view_def)
  from update(1) wf v show ?case
  proof (cases rule: repo_Update_cases)
    case (saved w)
    have "repo_exclusive (task_rows d')" unfolding saved(1)
      by (rule repo_exclusive_shrink[OF ex])
         (use q row_at_Some[OF q(1)] in \<open>auto simp: set_row_def split: if_splits\<close>)
    then show ?thesis using saved by (simp add: queue_inv_def)
  qed (use ex in \<open>auto simp: queue_inv_def\<close>)
next
  case (ci_update wired i st sha p d r d')
  then have wf: "wf_db d" and ex: "repo_exclusive (task_rows d)" by (auto simp: queue_inv_def)
  from ci_update(1) wf show ?case
  proof (cases rule: repo_UpdateCI_cases)
    case (updated w)
    have "repo_exclusive (task_rows d')" unfolding updated(1)
      by (rule repo_exclusive_shrink[OF ex]) (auto split: if_splits)
    then show ?thesis using updated by (simp add: queue_inv_def)
  qed (use ex in \<open>auto simp: queue_inv_def\<close>)
qed

lemma queue_reach_inv: "queue_reach d d' \<Longrightarrow> queue_inv d \<Longrightarrow> queue_inv d'"
  by (induction rule: queue_reach.induct) (auto intro: queue_step_inv)

section \<open>Listing\<close>

lemma list_limit_range: "0 < list_limit l \<and> list_limit l \<le> 100"
  by (auto simp: list_limit_def)

lemma repo_List_works:
  assumes "db_works d"
  shows "repo_List f d = (Inr (map toDomainTask (take (nat (list_limit (Limit f)))
      (sort_key (\<lambda>r. - gCreatedAt r) (filter (filter_matches f) (task_rows d))))), d\<lparr> ops := Suc (ops d) \<rparr>)"
  unfolding repo_List_def db_works_exec[OF assms] by simp

section \<open>Properties\<close>

text \<open>C8: ClaimNext of a worker with a non-empty id, over a working store, takes the
  oldest queued task among those whose repository has no running task, returns it
  as it is stored after the claim, and changes no other row; it returns nothing
  only when no such task exists. The clock must have advanced past the worker's
  earlier claims, since the row is looked up again by its claim time.\<close>

lemma claim_next_spec:
  assumes "db_works d" "wf_db d" "w \<noteq> []" "fresh_claim w d"
  shows "case repo_ClaimNext True w d of
      (Inr (Some t), d') \<Rightarrow> \<exists>r \<in> set (task_rows d).
          eligible (task_rows d) r \<and>
          (\<forall>q \<in> set (task_rows d). eligible (task_rows d) q \<longrightarrow> gCreatedAt r \<le> gCreatedAt q) \<and>
          t = toDomainTask (claim_row (Some w) (clock d (ops d)) r) \<and>
          task_rows d' = map (\<lambda>y. if gID y = gID r then claim_row (Some w) (clock d (ops d)) y else y) (task_rows d)
    | (Inr None, d') \<Rightarrow> (\<forall>r \<in> set (task_rows d). \<not> eligible (task_rows d) r) \<and> task_rows d' = task_rows d
    | (Inl e, d') \<Rightarrow> False"
  using assms by (rule claim_spec)

definition sample_row :: "string \<Rightarrow> string \<Rightarrow> task_status \<Rightarrow> time \<Rightarrow> gorm_task" where
  "sample_row i rn st c = toGORMTask (zero_task\<lparr> ID := i, RepoFullName := rn, TaskType := TaskTypeFeature,
     Status := st, CreatedAt := c \<rparr>)"

definition sample_db :: db where
  "sample_db = (migrated_db (\<lambda>n. 100 + int n))\<lparr> task_rows := [sample_row ''a'' ''o/r'' TaskStatusQueued 5,
     sample_row ''b'' ''o/r'' TaskStatusQueued 3, sample_row ''c'' ''o/s'' TaskStatusQueued 1,
     sample_row ''d'' ''o/s'' TaskStatusRunning 0] \<rparr>"

lemma sample_row_simps [simp]:
  "gID (sample_row i rn st c) = i" "gRepoFullName (sample_row i rn st c) = rn"
  "gStatus (sample_row i rn st c) = st" "gCreatedAt (sample_row i rn st c) = c"
  "gTaskType (sample_row i rn st c) = TaskTypeFeature" "gWorkerID (sample_row i rn st c) = None"
  by (simp_all add: sample_row_def toGORMTask_def zero_task_def Let_def)

lemma sample_db_rows:
  "task_rows sample_db = [sample_row ''a'' ''o/r'' TaskStatusQueued 5,
     sample_row ''b'' ''o/r'' TaskStatusQueued 3, sample_row ''c'' ''o/s'' TaskStatusQueued 1,
     sample_row ''d'' ''o/s'' TaskStatusRunning 0]"
  by (simp add: sample_db_def)

lemma sample_db_ok: "wf_db sample_db" "db_works sample_db"
  using migrated_db_ok[of "\<lambda>n. 100 + int n"]
  by (simp_all add: sample_db_def wf_db_def wf_rows_def db_works_def migrated_db_def dedup_clash_def dedup_key_def)

lemma sample_db_eligible:
  "\<not> eligible (task_rows sample_db) (sample_row ''c'' ''o/s'' TaskStatusQueued 1)"
  "\<not> eligible (task_rows sample_db) (sample_row ''d'' ''o/s'' TaskStatusRunning 0)"
  "eligible (task_rows sample_db) (sample_row ''b'' ''o/r'' TaskStatusQueued 3)"
  by (simp_all add: sample_db_rows eligible_def)

lemma claim_next_witness:
  "\<exists>t d'. repo_ClaimNext True ''w'' sample_db = (Inr (Some t), d') \<and> ID t = ''b'' \<and> Status t = TaskStatusRunning"
proof -
  have f: "fresh_claim ''w'' sample_db" by (simp add: fresh_claim_def sample_db_rows)
  obtain x d' where x: "repo_ClaimNext True ''w'' sample_db = (x, d')" by fastforce
  note c = claim_next_spec[OF sample_db_ok(2,1) _ f, simplified, unfolded x prod.case]
  show ?thesis
  proof (cases x)
    case (Inr ot)
    show ?thesis
    proof (cases ot)
      case None
      then show ?thesis using c Inr sample_db_eligible(3) by (simp add: sample_db_rows)
    next
      case (Some t)
      then show ?thesis using c Inr x sample_db_eligible by (auto simp: sample_db_rows)
    qed
  qed (use c in simp)
qed

text \<open>With an empty worker id, which the configuration of the scheduler allows,
  ClaimNext flips the picked row to running and then reports an error: nobody owns
  the row and its repository is blocked.\<close>

lemma claim_without_worker_id_strands_row:
  assumes "db_works d" "pick (task_rows d) = Some r"
  shows "\<exists>d'. repo_ClaimNext True [] d = (Inl (EWrap ''load claimed task id'' ErrNoRows), d') \<and>
    task_rows d' = map (\<lambda>y. if gID y = gID r then claim_row None (clock d (ops d)) y else y) (task_rows d)"
  using assms by (rule claim_empty_worker)

lemma claim_without_worker_id_witness:
  "\<exists>d'. repo_ClaimNext True [] sample_db = (Inl (EWrap ''load claimed task id'' ErrNoRows), d') \<and>
    (\<exists>x \<in> set (task_rows d'). gID x = ''b'' \<and> gStatus x = TaskStatusRunning \<and> gWorkerID x = None)"
proof -
  have "pick (task_rows sample_db) = Some (sample_row ''b'' ''o/r'' TaskStatusQueued 3)"
    by (simp add: pick_def eligible_def sample_db_rows)
  from claim_without_worker_id_strands_row[OF sample_db_ok(2) this]
  show ?thesis by (auto simp: sample_db_rows)
qed

text \<open>C1: starting from tables that satisfy the schema and have at most one running
  task per repository, every sequence of calls of the task repository (creations,
  claims, reclaims, watcher updates, and updates that write the status running only
  over a task that already runs), with statements failing at any point, keeps both.\<close>

lemma one_running_task_per_repo:
  assumes "queue_reach d d'" "wf_db d" "repo_exclusive (task_rows d)"
  shows "wf_db d' \<and> repo_exclusive (task_rows d')"
  using queue_reach_inv[OF assms(1)] assms(2,3) by (simp add: queue_inv_def)

lemma one_running_task_witness:
  "repo_exclusive (task_rows (snd (repo_ClaimNext True ''w'' (snd (repo_ClaimNext True ''w'' sample_db)))))"
proof -
  have "queue_step d (snd (repo_ClaimNext True ''w'' d))" for d :: db
    using queue_step.claim[of True "''w''" d] by (metis prod.collapse)
  then have "queue_reach sample_db (snd (repo_ClaimNext True ''w'' (snd (repo_ClaimNext True ''w'' sample_db))))"
    by (blast intro: queue_reach.intros)
  moreover have "repo_exclusive (task_rows sample_db)"
    by (simp add: repo_exclusive_def sample_db_rows)
  ultimately show ?thesis using one_running_task_per_repo sample_db_ok(1) by blast
qed

end
