(* ===== verification/Json_Text.thy ===== *)
theory Json_Text
  imports Json
begin

text \<open>Reading JSON text, as json.Unmarshal does before it decodes: white space,
  literals, strings with their escapes (a \<^verbatim>\<open>u\<close> escape becomes the bytes of its
  code point, a surrogate pair one code point, a lone surrogate the replacement
  character), numbers, arrays and objects with their members in order and
  duplicates kept. The recursion is on fuel; json_of_string gives it two units per
  byte, one for a value and one for the member or element it stands in. Bytes
  above 127 are passed through.\<close>

section \<open>Lexical parts\<close>

definition json_ws :: "char \<Rightarrow> bool" where
  "json_ws c = (c = CHR 0x20 \<or> c = CHR 0x09 \<or> c = CHR 0x0A \<or> c = CHR 0x0D)"

definition skip_ws :: "string \<Rightarrow> string" where "skip_ws = dropWhile json_ws"

definition hex_val :: "char \<Rightarrow> nat option" where
  "hex_val c = (let n = of_char c :: nat in
     if 48 \<le> n \<and> n \<le> 57 then Some (n - 48)
     else if 97 \<le> n \<and> n \<le> 102 then Some (n - 87)
     else if 65 \<le> n \<and> n \<le> 70 then Some (n - 55) else None)"

definition hex4 :: "string \<Rightarrow> (nat \<times> string) option" where
  "hex4 s = (case s of
      a # b # c # d # r \<Rightarrow>
        (case (hex_val a, hex_val b, hex_val c, hex_val d) of
           (Some w, Some x, Some y, Some z) \<Rightarrow> Some (((w * 16 + x) * 16 + y) * 16 + z, r)
         | _ \<Rightarrow> None)
    | _ \<Rightarrow> None)"

definition utf8 :: "nat \<Rightarrow> string" where
  "utf8 n =
     (if n < 128 then [char_of n]
      else if n < 2048 then [char_of (192 + n div 64), char_of (128 + n mod 64)]
      else if n < 65536
      then [char_of (224 + n div 4096), char_of (128 + n div 64 mod 64), char_of (128 + n mod 64)]
      else [char_of (240 + n div 262144), char_of (128 + n div 4096 mod 64),
            char_of (128 + n div 64 mod 64), char_of (128 + n mod 64)])"

definition high_surrogate :: "nat \<Rightarrow> bool" where "high_surrogate n = (55296 \<le> n \<and> n < 56320)"
definition low_surrogate :: "nat \<Rightarrow> bool" where "low_surrogate n = (56320 \<le> n \<and> n < 57344)"

text \<open>The code point of a u escape, and the rest of the text.\<close>

definition unicode_escape :: "string \<Rightarrow> (string \<times> string) option" where
  "unicode_escape s =
     (case hex4 s of
        None \<Rightarrow> None
      | Some (n, r) \<Rightarrow>
          if high_surrogate n then
            (case r of
               b # u # r1 \<Rightarrow>
                 (if b = CHR 0x5C \<and> u = CHR ''u'' then
                    (case hex4 r1 of
                       Some (m, r2) \<Rightarrow>
                         if low_surrogate m
                         then Some (utf8 (65536 + (n - 55296) * 1024 + (m - 56320)), r2)
                         else Some (utf8 65533, r)
                     | None \<Rightarrow> None)
                  else Some (utf8 65533, r))
             | _ \<Rightarrow> Some (utf8 65533, r))
          else if low_surrogate n then Some (utf8 65533, r)
          else Some (utf8 n, r))"

definition simple_escape :: "char \<Rightarrow> char option" where
  "simple_escape c =
     (if c = CHR 0x22 \<or> c = CHR 0x5C \<or> c = CHR ''/'' then Some c
      else if c = CHR ''b'' then Some (CHR 0x08) else if c = CHR ''f'' then Some (CHR 0x0C)
      else if c = CHR ''n'' then Some (CHR 0x0A) else if c = CHR ''r'' then Some (CHR 0x0D)
      else if c = CHR ''t'' then Some (CHR 0x09) else None)"

text \<open>The characters after the opening quote.\<close>

fun p_string :: "nat \<Rightarrow> string \<Rightarrow> (string \<times> string) option" where
  "p_string 0 s = None"
| "p_string (Suc n) [] = None"
| "p_string (Suc n) (c # cs) =
     (if c = CHR 0x22 then Some ([], cs)
      else if c = CHR 0x5C then
        (case cs of
           [] \<Rightarrow> None
         | e # es \<Rightarrow>
             if e = CHR ''u'' then
               (case unicode_escape es of
                  None \<Rightarrow> None
                | Some (x, r) \<Rightarrow>
                    (case p_string n r of None \<Rightarrow> None | Some (t, r') \<Rightarrow> Some (x @ t, r')))
             else
               (case simple_escape e of
                  None \<Rightarrow> None
                | Some x \<Rightarrow>
                    (case p_string n es of None \<Rightarrow> None | Some (t, r') \<Rightarrow> Some (x # t, r'))))
      else if (of_char c :: nat) < 32 then None
      else (case p_string n cs of None \<Rightarrow> None | Some (t, r) \<Rightarrow> Some (c # t, r)))"

section \<open>Numbers\<close>

definition take_digits :: "string \<Rightarrow> string \<times> string" where
  "take_digits s = (takeWhile is_digit s, dropWhile is_digit s)"

definition p_int_digits :: "string \<Rightarrow> (string \<times> string) option" where
  "p_int_digits s =
     (let (ds, r) = take_digits s in
      if ds = [] then None
      else if hd ds = CHR ''0'' \<and> tl ds \<noteq> [] then None else Some (ds, r))"

definition p_frac :: "string \<Rightarrow> (string \<times> string) option" where
  "p_frac s = (case s of
      c # cs \<Rightarrow> if c = CHR ''.'' then (let (ds, r) = take_digits cs in if ds = [] then None else Some (ds, r))
                else Some ([], s)
    | [] \<Rightarrow> Some ([], []))"

definition p_exp :: "string \<Rightarrow> (int option \<times> string) option" where
  "p_exp s = (case s of
      c # cs \<Rightarrow>
        if c = CHR ''e'' \<or> c = CHR ''E'' then
          (let (neg, r) = scan_sign cs; (ds, r1) = take_digits r in
           if ds = [] then None
           else Some (Some (if neg then - int (digits_val ds) else int (digits_val ds)), r1))
        else Some (None, s)
    | [] \<Rightarrow> Some (None, []))"

definition pow10 :: "int \<Rightarrow> rat" where
  "pow10 e = (if 0 \<le> e then 10 ^ nat e else 1 / 10 ^ nat (- e))"

definition p_number :: "string \<Rightarrow> (json \<times> string) option" where
  "p_number s =
     (let (neg, s1) = (case s of c # cs \<Rightarrow> if c = CHR ''-'' then (True, cs) else (False, s) | [] \<Rightarrow> (False, s)) in
      case p_int_digits s1 of None \<Rightarrow> None | Some (ds, r1) \<Rightarrow>
      (case p_frac r1 of None \<Rightarrow> None | Some (fs, r2) \<Rightarrow>
      (case p_exp r2 of None \<Rightarrow> None | Some (ex, r3) \<Rightarrow>
         if fs = [] \<and> ex = None
         then Some (JInt (if neg then - int (digits_val ds) else int (digits_val ds)), r3)
         else let v = (of_nat (digits_val (ds @ fs)) / 10 ^ length fs) *
                      pow10 (case ex of None \<Rightarrow> 0 | Some e \<Rightarrow> e)
              in Some (JFloat (if neg then - v else v), r3))))"

section \<open>Values\<close>

definition p_lit :: "string \<Rightarrow> json \<Rightarrow> string \<Rightarrow> (json \<times> string) option" where
  "p_lit l j s = (if has_prefix s l then Some (j, drop (length l) s) else None)"

definition expect :: "char \<Rightarrow> string \<Rightarrow> string option" where
  "expect c s = (case skip_ws s of d # r \<Rightarrow> if d = c then Some r else None | [] \<Rightarrow> None)"

fun p_value :: "nat \<Rightarrow> string \<Rightarrow> (json \<times> string) option"
  and p_elems :: "nat \<Rightarrow> string \<Rightarrow> (json list \<times> string) option"
  and p_membs :: "nat \<Rightarrow> string \<Rightarrow> ((string \<times> json) list \<times> string) option" where
  "p_value 0 s = None"
| "p_value (Suc n) s =
     (case skip_ws s of
        [] \<Rightarrow> None
      | c # cs \<Rightarrow>
          if c = CHR 0x22 then
            (case p_string (Suc (length cs)) cs of None \<Rightarrow> None | Some (t, r) \<Rightarrow> Some (JStr t, r))
          else if c = CHR ''{'' then
            (case expect (CHR ''}'') cs of
               Some r \<Rightarrow> Some (JObj [], r)
             | None \<Rightarrow> (case p_membs n cs of None \<Rightarrow> None | Some (kvs, r) \<Rightarrow> Some (JObj kvs, r)))
          else if c = CHR ''['' then
            (case expect (CHR '']'') cs of
               Some r \<Rightarrow> Some (JArr [], r)
             | None \<Rightarrow> (case p_elems n cs of None \<Rightarrow> None | Some (js, r) \<Rightarrow> Some (JArr js, r)))
          else if c = CHR ''t'' then p_lit ''true'' (JBool True) (c # cs)
          else if c = CHR ''f'' then p_lit ''false'' (JBool False) (c # cs)
          else if c = CHR ''n'' then p_lit ''null'' JNull (c # cs)
          else p_number (c # cs))"
| "p_elems 0 s = None"
| "p_elems (Suc n) s =
     (case p_value n s of
        None \<Rightarrow> None
      | Some (j, r) \<Rightarrow>
          (case expect (CHR '','') r of
             Some r1 \<Rightarrow> (case p_elems n r1 of None \<Rightarrow> None | Some (js, r2) \<Rightarrow> Some (j # js, r2))
           | None \<Rightarrow> (case expect (CHR '']'') r of None \<Rightarrow> None | Some r1 \<Rightarrow> Some ([j], r1))))"
| "p_membs 0 s = None"
| "p_membs (Suc n) s =
     (case expect (CHR 0x22) s of
        None \<Rightarrow> None
      | Some r0 \<Rightarrow>
     (case p_string (Suc (length r0)) r0 of
        None \<Rightarrow> None
      | Some (k, r1) \<Rightarrow>
     (case expect (CHR '':'') r1 of
        None \<Rightarrow> None
      | Some r2 \<Rightarrow>
     (case p_value n r2 of
        None \<Rightarrow> None
      | Some (j, r3) \<Rightarrow>
          (case expect (CHR '','') r3 of
             Some r4 \<Rightarrow> (case p_membs n r4 of None \<Rightarrow> None | Some (kvs, r5) \<Rightarrow> Some ((k, j) # kvs, r5))
           | None \<Rightarrow> (case expect (CHR ''}'') r3 of None \<Rightarrow> None | Some r4 \<Rightarrow> Some ([(k, j)], r4)))))))"

definition json_of_string :: "string \<Rightarrow> json option" where
  "json_of_string s =
     (case p_value (2 * length s + 2) s of
        None \<Rightarrow> None
      | Some (j, r) \<Rightarrow> if skip_ws r = [] then Some j else None)"

end
