(* ===== verification/Stream.thy ===== *)
theory Stream
  imports Json_Text "HOL-Library.AList"
begin

text \<open>internal/claude/stream (events.go, parser.go): the events of the Claude CLI
  decoded from JSON lines as encoding/json does, and ParseStream from the bytes of
  stdout to the signals it emits and the error it returns. The scanner splits at
  newlines and stops at a line of a megabyte or more. The context is the number of
  checks (at each line and each send) that pass before one of them takes the
  cancelled branch, None for never.\<close>

section \<open>Events\<close>

record model_usage =
  mInputTokens :: int
  mOutputTokens :: int
  mCacheReadInputTokens :: int
  mCacheCreationInputTokens :: int
  mWebSearchRequests :: int
  mCostUSD :: rat
  mContextWindow :: int
  mMaxOutputTokens :: int

record result_usage =
  uInputTokens :: int
  uCacheCreationInputTokens :: int
  uCacheReadInputTokens :: int
  uOutputTokens :: int

record result_event =
  Subtype :: string
  IsError :: bool
  DurationMS :: int
  ResultText :: string
  TotalCostUSD :: rat
  Usage :: result_usage
  ModelUsage :: "(string \<times> model_usage) list"

record rate_limit_info =
  RLStatus :: string
  ResetsAt :: int
  RLType :: string

definition zero_usage :: result_usage where
  "zero_usage = \<lparr> uInputTokens = 0, uCacheCreationInputTokens = 0, uCacheReadInputTokens = 0,
     uOutputTokens = 0 \<rparr>"

definition zero_model_usage :: model_usage where
  "zero_model_usage = \<lparr> mInputTokens = 0, mOutputTokens = 0, mCacheReadInputTokens = 0,
     mCacheCreationInputTokens = 0, mWebSearchRequests = 0, mCostUSD = 0, mContextWindow = 0,
     mMaxOutputTokens = 0 \<rparr>"

text \<open>A struct decoder from a function of the members; null keeps the value.\<close>

definition dec_struct :: "((string \<times> json) list \<Rightarrow> 'a \<Rightarrow> 'a \<times> bool) \<Rightarrow> 'a decoder" where
  "dec_struct f j v = (case j of JObj kvs \<Rightarrow> f kvs v | JNull \<Rightarrow> (v, True) | _ \<Rightarrow> (v, False))"

text \<open>A field that is only checked for its type.\<close>

definition typed :: "string \<Rightarrow> 'a decoder \<Rightarrow> 'a \<Rightarrow> (string \<times> json) list \<Rightarrow> bool" where
  "typed f d z kvs = snd (dec_field f d kvs z)"

definition dec_result_usage :: "result_usage decoder" where
  "dec_result_usage = dec_struct (\<lambda>kvs v.
     let (i, o1) = dec_field ''input_tokens'' dec_int kvs (uInputTokens v);
         (cc, o2) = dec_field ''cache_creation_input_tokens'' dec_int kvs (uCacheCreationInputTokens v);
         (cr, o3) = dec_field ''cache_read_input_tokens'' dec_int kvs (uCacheReadInputTokens v);
         (out, o4) = dec_field ''output_tokens'' dec_int kvs (uOutputTokens v)
     in (\<lparr> uInputTokens = i, uCacheCreationInputTokens = cc, uCacheReadInputTokens = cr,
           uOutputTokens = out \<rparr>, o1 \<and> o2 \<and> o3 \<and> o4))"

definition dec_model_usage :: "model_usage decoder" where
  "dec_model_usage = dec_struct (\<lambda>kvs v.
     let (a, o1) = dec_field ''inputTokens'' dec_int kvs (mInputTokens v);
         (b, o2) = dec_field ''outputTokens'' dec_int kvs (mOutputTokens v);
         (c, o3) = dec_field ''cacheReadInputTokens'' dec_int kvs (mCacheReadInputTokens v);
         (d, o4) = dec_field ''cacheCreationInputTokens'' dec_int kvs (mCacheCreationInputTokens v);
         (w, o5) = dec_field ''webSearchRequests'' dec_int kvs (mWebSearchRequests v);
         (co, o6) = dec_field ''costUSD'' dec_float kvs (mCostUSD v);
         (cw, o7) = dec_field ''contextWindow'' dec_int kvs (mContextWindow v);
         (mo, o8) = dec_field ''maxOutputTokens'' dec_int kvs (mMaxOutputTokens v)
     in (\<lparr> mInputTokens = a, mOutputTokens = b, mCacheReadInputTokens = c,
           mCacheCreationInputTokens = d, mWebSearchRequests = w, mCostUSD = co,
           mContextWindow = cw, mMaxOutputTokens = mo \<rparr>,
         o1 \<and> o2 \<and> o3 \<and> o4 \<and> o5 \<and> o6 \<and> o7 \<and> o8))"

text \<open>A map from strings: every member is decoded from the zero value.\<close>

fun dec_entries :: "'a decoder \<Rightarrow> 'a \<Rightarrow> (string \<times> json) list \<Rightarrow> (string \<times> 'a) list \<Rightarrow> (string \<times> 'a) list \<times> bool" where
  "dec_entries d z [] m = (m, True)"
| "dec_entries d z ((k, j) # kvs) m =
     (let (x, ok1) = d j z; (m', ok2) = dec_entries d z kvs (AList.update k x m) in (m', ok1 \<and> ok2))"

definition dec_map :: "'a decoder \<Rightarrow> 'a \<Rightarrow> (string \<times> 'a) list decoder" where
  "dec_map d z j m = (case j of JObj kvs \<Rightarrow> dec_entries d z kvs m | JNull \<Rightarrow> ([], True) | _ \<Rightarrow> (m, False))"

definition dec_content :: "(string \<times> string) decoder" where
  "dec_content = dec_struct (\<lambda>kvs v.
     let (ty, o1) = dec_field ''type'' dec_str kvs (fst v);
         (tx, o2) = dec_field ''text'' dec_str kvs (snd v)
     in ((ty, tx), o1 \<and> o2))"

definition dec_message_usage :: "unit decoder" where
  "dec_message_usage = dec_struct (\<lambda>kvs v.
     (v, typed ''input_tokens'' dec_int 0 kvs \<and> typed ''cache_creation_input_tokens'' dec_int 0 kvs \<and>
         typed ''cache_read_input_tokens'' dec_int 0 kvs \<and> typed ''output_tokens'' dec_int 0 kvs \<and>
         typed ''service_tier'' dec_str '''' kvs))"

text \<open>The message of an AssistantEvent: its content blocks.\<close>

definition dec_message :: "(string \<times> string) list decoder" where
  "dec_message = dec_struct (\<lambda>kvs v.
     let (c, ok) = dec_field ''content'' (dec_list dec_content ('''', '''')) kvs v
     in (c, ok \<and> typed ''model'' dec_str '''' kvs \<and> typed ''id'' dec_str '''' kvs \<and>
            typed ''role'' dec_str '''' kvs \<and> typed ''usage'' dec_message_usage () kvs))"

definition dec_rate_limit_info :: "rate_limit_info decoder" where
  "dec_rate_limit_info = dec_struct (\<lambda>kvs v.
     let (st, o1) = dec_field ''status'' dec_str kvs (RLStatus v);
         (ra, o2) = dec_field ''resetsAt'' dec_int kvs (ResetsAt v);
         (ty, o3) = dec_field ''rateLimitType'' dec_str kvs (RLType v)
     in (\<lparr> RLStatus = st, ResetsAt = ra, RLType = ty \<rparr>,
         o1 \<and> o2 \<and> o3 \<and> typed ''overageStatus'' dec_str '''' kvs \<and>
         typed ''overageDisabledReason'' dec_str '''' kvs \<and> typed ''isUsingOverage'' dec_bool False kvs))"

definition dec_denial :: "unit decoder" where
  "dec_denial = dec_struct (\<lambda>kvs v. (v, typed ''tool'' dec_str '''' kvs \<and> typed ''reason'' dec_str '''' kvs))"

definition dec_result_event :: "(string \<times> json) list \<Rightarrow> result_event \<times> bool" where
  "dec_result_event kvs =
     (let (st, o1) = dec_field ''subtype'' dec_str kvs '''';
          (er, o2) = dec_field ''is_error'' dec_bool kvs False;
          (du, o3) = dec_field ''duration_ms'' dec_int kvs 0;
          (re, o4) = dec_field ''result'' dec_str kvs '''';
          (co, o5) = dec_field ''total_cost_usd'' dec_float kvs 0;
          (us, o6) = dec_field ''usage'' dec_result_usage kvs zero_usage;
          (mu, o7) = dec_field ''modelUsage'' (dec_map dec_model_usage zero_model_usage) kvs []
      in (\<lparr> Subtype = st, IsError = er, DurationMS = du, ResultText = re, TotalCostUSD = co,
            Usage = us, ModelUsage = mu \<rparr>,
          o1 \<and> o2 \<and> o3 \<and> o4 \<and> o5 \<and> o6 \<and> o7 \<and>
          typed ''api_error_status'' dec_str '''' kvs \<and> typed ''duration_api_ms'' dec_int 0 kvs \<and>
          typed ''num_turns'' dec_int 0 kvs \<and> typed ''stop_reason'' dec_str '''' kvs \<and>
          typed ''terminal_reason'' dec_str '''' kvs \<and>
          typed ''permission_denials'' (dec_list dec_denial ()) [] kvs))"

text \<open>The key source of a system.init event: read from its data member first and
  then from the event itself, errors ignored.\<close>

definition api_key_source :: "(string \<times> json) list \<Rightarrow> string" where
  "api_key_source kvs =
     (let v = fst (dec_field ''data'' (dec_struct (\<lambda>ks v. dec_field ''apiKeySource'' dec_str ks v)) kvs '''')
      in fst (dec_field ''apiKeySource'' dec_str kvs v))"

text \<open>The envelope: the type of the line, None when it does not unmarshal.\<close>

definition envelope_type :: "(string \<times> json) list \<Rightarrow> string option" where
  "envelope_type kvs =
     (let (ty, ok) = dec_field ''type'' dec_str kvs ''''
      in if ok \<and> typed ''session_id'' dec_str '''' kvs \<and> typed ''uuid'' dec_str '''' kvs
         then Some ty else None)"

section \<open>ParseStream\<close>

datatype signal =
    SignalText string
  | SignalUsageWarning
  | SignalResult result_event

text \<open>The context: checks left before cancellation is seen.\<close>

type_synonym ctx = "nat option"

fun ctx_check :: "ctx \<Rightarrow> ctx option" where
  "ctx_check None = Some None"
| "ctx_check (Some 0) = None"
| "ctx_check (Some (Suc n)) = Some (Some n)"

datatype line_result =
    Continue "signal list" ctx
  | Return "signal list" "go_error option"

fun emit_texts :: "ctx \<Rightarrow> (string \<times> string) list \<Rightarrow> line_result" where
  "emit_texts c [] = Continue [] c"
| "emit_texts c ((ty, tx) # cs) =
     (if ty = ''text'' \<and> tx \<noteq> '''' then
        (case ctx_check c of
           None \<Rightarrow> Return [] (Some ErrContextCanceled)
         | Some c1 \<Rightarrow>
             (case emit_texts c1 cs of
                Continue ss c2 \<Rightarrow> Continue (SignalText tx # ss) c2
              | Return ss e \<Rightarrow> Return (SignalText tx # ss) e))
      else emit_texts c cs)"

definition result_error :: "result_event \<Rightarrow> go_error option" where
  "result_error re =
     (if \<not> IsError re then None
      else let msg = to_lower (ResultText re) in
        if contains_str msg ''rate limit'' then Some (ErrRateLimited 0 ''unknown'')
        else if contains_str msg ''please login'' \<or> contains_str msg ''not logged in''
        then Some StreamErrSessionMissing
        else Some (ErrResultError (Subtype re) (ResultText re)))"

definition event_step :: "ctx \<Rightarrow> string \<Rightarrow> (string \<times> json) list \<Rightarrow> line_result" where
  "event_step c ty kvs =
     (if ty = ''system.init'' then
        (let key = api_key_source kvs in
         if key \<noteq> '''' \<and> key \<noteq> ''none'' then Return [] (Some StreamErrSessionMissing) else Continue [] c)
      else if ty = ''assistant'' then
        (let (cs, ok) = dec_field ''message'' dec_message kvs [] in
         if \<not> ok then Continue [] c else emit_texts c cs)
      else if ty = ''rate_limit_event'' then
        (let (info, ok) = dec_field ''rate_limit_info'' dec_rate_limit_info kvs
               \<lparr> RLStatus = '''', ResetsAt = 0, RLType = '''' \<rparr> in
         if \<not> ok then Continue [] c
         else if RLStatus info \<noteq> ''allowed'' then Return [] (Some (ErrRateLimited (ResetsAt info) (RLType info)))
         else (case ctx_check c of
                 None \<Rightarrow> Return [] (Some ErrContextCanceled)
               | Some c1 \<Rightarrow> Continue [SignalUsageWarning] c1))
      else if ty = ''result'' then
        (let (re, ok) = dec_result_event kvs in
         if \<not> ok then Continue [] c
         else (case ctx_check c of
                 None \<Rightarrow> Return [] (Some ErrContextCanceled)
               | Some c1 \<Rightarrow> Return [SignalResult re] (result_error re)))
      else Continue [] c)"

definition line_step :: "ctx \<Rightarrow> string \<Rightarrow> line_result" where
  "line_step c raw =
     (case ctx_check c of
        None \<Rightarrow> Return [] (Some ErrContextCanceled)
      | Some c1 \<Rightarrow>
          let line = trim_space raw in
          if line = '''' then Continue [] c1
          else (case json_of_string line of
                  None \<Rightarrow> Continue [] c1
                | Some j \<Rightarrow>
                    (case struct_members j of
                       None \<Rightarrow> Continue [] c1
                     | Some kvs \<Rightarrow>
                         (case envelope_type kvs of
                            None \<Rightarrow> Continue [] c1
                          | Some ty \<Rightarrow> event_step c1 ty kvs))))"

definition max_line :: nat where "max_line = 1048576"

fun parse_lines :: "ctx \<Rightarrow> string list \<Rightarrow> signal list \<times> go_error option" where
  "parse_lines c [] = ([], None)"
| "parse_lines c (l # ls) =
     (if max_line \<le> length l
      then ([], Some (EWrap ''stream scanner'' (EMsg ''bufio.Scanner: token too long'')))
      else case line_step c l of
        Return ss e \<Rightarrow> (ss, e)
      | Continue ss c1 \<Rightarrow> (let (ss', e) = parse_lines c1 ls in (ss @ ss', e)))"

text \<open>bufio.ScanLines: a final empty line is not a token, a trailing carriage
  return is dropped.\<close>

definition drop_cr :: "string \<Rightarrow> string" where
  "drop_cr l = (if l \<noteq> [] \<and> last l = CHR 0x0D then butlast l else l)"

definition scan_lines :: "string \<Rightarrow> string list" where
  "scan_lines s = (let ls = split_byte (CHR 0x0A) s in map drop_cr (if last ls = [] then butlast ls else ls))"

definition ParseStream :: "ctx \<Rightarrow> string \<Rightarrow> signal list \<times> go_error option" where
  "ParseStream c stdout = parse_lines c (scan_lines stdout)"

section \<open>Lemmas\<close>

lemma ctx_check_None [simp]: "ctx_check None = Some None"
  by simp

fun ends_session :: "signal \<Rightarrow> bool" where
  "ends_session (SignalResult _) = True"
| "ends_session _ = False"

lemma emit_texts_signals:
  "(case emit_texts c cs of Continue ss _ \<Rightarrow> \<forall>s \<in> set ss. \<not> ends_session s
     | Return ss e \<Rightarrow> (\<forall>s \<in> set ss. \<not> ends_session s) \<and> e = Some ErrContextCanceled)"
  by (induction c cs rule: emit_texts.induct) (auto split: option.splits line_result.splits)

lemma emit_texts_none:
  "emit_texts None cs = Continue (map (\<lambda>x. SignalText (snd x))
     (filter (\<lambda>x. fst x = ''text'' \<and> snd x \<noteq> []) cs)) None"
  by (induction cs) auto

text \<open>How a step of the parser may leave the stream: it goes on without a result
  signal, ends with the one result and the error read from it, or fails.\<close>

definition step_ok :: "line_result \<Rightarrow> bool" where
  "step_ok r = (case r of Continue ss _ \<Rightarrow> (\<forall>s \<in> set ss. \<not> ends_session s)
     | Return ss e \<Rightarrow> (\<exists>re. ss = [SignalResult re] \<and> e = result_error re) \<or>
         ((\<forall>s \<in> set ss. \<not> ends_session s) \<and> e \<noteq> None))"

lemma step_ok_simps [simp]:
  "step_ok (Continue [] c)" "step_ok (Continue [SignalUsageWarning] c)"
  "step_ok (Return [] (Some e))" "step_ok (Return [SignalResult re] (result_error re))"
  by (simp_all add: step_ok_def)

lemma emit_texts_ok [simp]: "step_ok (emit_texts c cs)"
  using emit_texts_signals[of c cs] by (auto simp: step_ok_def split: line_result.splits)

lemma event_step_ok [simp]: "step_ok (event_step c ty kvs)"
proof -
  consider "ty = ''system.init''" | "ty = ''assistant''" | "ty = ''rate_limit_event''" | "ty = ''result''"
    | "ty \<notin> {''system.init'', ''assistant'', ''rate_limit_event'', ''result''}"
    by auto
  then show ?thesis
  proof cases
    case 5
    then show ?thesis by (simp add: event_step_def)
  qed (simp_all add: event_step_def Let_def split: prod.split option.split)
qed

lemma line_step_ok [simp]: "step_ok (line_step c raw)"
  by (simp add: line_step_def Let_def split: option.split)

text \<open>At most one result signal, and it is the last one.\<close>

definition stream_ok :: "signal list \<times> go_error option \<Rightarrow> bool" where
  "stream_ok r = ((\<forall>s \<in> set (fst r). \<not> ends_session s) \<or>
    (\<exists>ts re. fst r = ts @ [SignalResult re] \<and> (\<forall>s \<in> set ts. \<not> ends_session s) \<and>
       snd r = result_error re))"

lemma stream_ok_append:
  assumes "\<forall>s \<in> set ss. \<not> ends_session s" "stream_ok (ss', e)"
  shows "stream_ok (ss @ ss', e)"
  using assms(2) unfolding stream_ok_def fst_conv snd_conv
proof
  assume "\<forall>s \<in> set ss'. \<not> ends_session s"
  then show "(\<forall>s \<in> set (ss @ ss'). \<not> ends_session s) \<or>
    (\<exists>ts re. ss @ ss' = ts @ [SignalResult re] \<and> (\<forall>s \<in> set ts. \<not> ends_session s) \<and> e = result_error re)"
    using assms(1) by auto
next
  assume "\<exists>ts re. ss' = ts @ [SignalResult re] \<and> (\<forall>s \<in> set ts. \<not> ends_session s) \<and> e = result_error re"
  then obtain ts re where "ss' = ts @ [SignalResult re]" "\<forall>s \<in> set ts. \<not> ends_session s" "e = result_error re"
    by blast
  then have "ss @ ss' = (ss @ ts) @ [SignalResult re] \<and> (\<forall>s \<in> set (ss @ ts). \<not> ends_session s) \<and>
      e = result_error re"
    using assms(1) by auto
  then show "(\<forall>s \<in> set (ss @ ss'). \<not> ends_session s) \<or>
    (\<exists>ts re. ss @ ss' = ts @ [SignalResult re] \<and> (\<forall>s \<in> set ts. \<not> ends_session s) \<and> e = result_error re)"
    by blast
qed

lemma step_ok_return: "step_ok (Return ss e) \<Longrightarrow> stream_ok (ss, e)"
  unfolding step_ok_def stream_ok_def line_result.case fst_conv snd_conv
  by (metis append_Nil empty_iff list.set(1))

lemma parse_lines_ok: "stream_ok (parse_lines c ls)"
proof (induction c ls rule: parse_lines.induct)
  case (1 c)
  show ?case by (simp add: stream_ok_def)
next
  case (2 c l ls)
  show ?case
  proof (cases "max_line \<le> length l")
    case True
    then show ?thesis by (simp add: stream_ok_def)
  next
    case False
    note st = line_step_ok[of c l]
    show ?thesis
    proof (cases "line_step c l")
      case (Return rs re)
      then show ?thesis using False st step_ok_return by simp
    next
      case (Continue rs c1)
      then have "\<forall>s \<in> set rs. \<not> ends_session s" using st by (simp add: step_ok_def)
      moreover obtain ss' e where r: "parse_lines c1 ls = (ss', e)" by fastforce
      ultimately have "stream_ok (rs @ ss', e)" using 2[OF False Continue] stream_ok_append by simp
      then show ?thesis using False Continue r by simp
    qed
  qed
qed

section \<open>Properties\<close>

text \<open>C28: every stream, whatever its bytes and whenever it is cancelled, yields at
  most one result signal; that signal is the last one, and the error ParseStream
  returns is then the one read from the result event.\<close>

theorem parse_stream_one_result:
  "filter ends_session (fst (ParseStream c out)) = [] \<or>
   (\<exists>ts re. fst (ParseStream c out) = ts @ [SignalResult re] \<and> filter ends_session ts = [] \<and>
      snd (ParseStream c out) = result_error re)"
  using parse_lines_ok[of c "scan_lines out"]
  unfolding stream_ok_def ParseStream_def filter_empty_conv by blast

text \<open>A line that says nothing: short, and empty, not JSON, not an object, with an
  envelope that does not unmarshal or a type the parser does not know.\<close>

definition known_type :: "string \<Rightarrow> bool" where
  "known_type ty = (ty \<in> {''system.init'', ''assistant'', ''rate_limit_event'', ''result''})"

definition ignored_line :: "string \<Rightarrow> bool" where
  "ignored_line raw =
     (length raw < max_line \<and>
      (trim_space raw = '''' \<or>
       (case json_of_string (trim_space raw) of
          None \<Rightarrow> True
        | Some j \<Rightarrow>
            (case struct_members j of
               None \<Rightarrow> True
             | Some kvs \<Rightarrow> (case envelope_type kvs of None \<Rightarrow> True | Some ty \<Rightarrow> \<not> known_type ty)))))"

lemma event_step_unknown: "\<not> known_type ty \<Longrightarrow> event_step c ty kvs = Continue [] c"
  by (simp add: known_type_def event_step_def)

lemma line_step_ignored:
  assumes "ignored_line raw"
  shows "line_step None raw = Continue [] None"
  using assms unfolding ignored_line_def line_step_def
  by (auto simp: Let_def event_step_unknown split: option.splits)

lemma emit_texts_ctx: "emit_texts None cs = Continue ss c1 \<Longrightarrow> c1 = None"
  by (simp add: emit_texts_none)

lemma event_step_ctx: "event_step None ty kvs = Continue ss c1 \<Longrightarrow> c1 = None"
  using emit_texts_ctx by (auto simp: event_step_def Let_def split: if_splits prod.splits)

lemma line_step_ctx: "line_step None raw = Continue ss c1 \<Longrightarrow> c1 = None"
  using event_step_ctx by (auto simp: line_step_def Let_def split: if_splits option.splits)

text \<open>C14: lines the parser does not understand (blank ones, text that is not JSON,
  other JSON values, unknown event types) change nothing: dropping them from the input
  leaves the signals and the error as they are.\<close>

theorem ignored_lines_change_nothing:
  "parse_lines None (filter (\<lambda>l. \<not> ignored_line l) ls) = parse_lines None ls"
proof (induction ls)
  case (Cons l ls)
  have "length l < max_line" if "ignored_line l" using that by (simp add: ignored_line_def)
  then show ?case using Cons line_step_ignored[of l] line_step_ctx[of l]
    by (cases "line_step None l") (auto simp: not_le split: prod.split)
qed simp

end
