(* ===== verification/Runner.thy ===== *)
theory Runner
  imports Stream Window
begin

text \<open>internal/claude/runner.go: one invocation of the Claude CLI. The process is
  what the operating system gave: a pipe or a start that failed, or the bytes it wrote
  to stdout and stderr and what Wait returned. Run parses the whole of stdout before it
  waits; a process that never closes its pipes is not modelled.\<close>

section \<open>The process\<close>

text \<open>Wait: success, an exec.ExitError with its code and text, another error.\<close>

datatype wait_result = WaitOK | WaitExit int string | WaitOther string

record claude_output =
  Stdout :: string
  Stderr :: string
  Waited :: wait_result

datatype process =
    StdoutPipeFails string
  | StderrPipeFails string
  | StartFails string
  | Started claude_output

record run_result =
  TextOutput :: string
  RunInputTokens :: int
  RunOutputTokens :: int
  RunCacheReadInputTokens :: int
  RunCacheCreationInputTokens :: int
  RunTotalCostUSD :: rat
  RunDurationMS :: int
  RunExitCode :: int
  RunStderrTail :: string
  RunModelUsage :: "(string \<times> model_usage) list"

definition zero_run :: run_result where
  "zero_run = \<lparr> TextOutput = '''', RunInputTokens = 0, RunOutputTokens = 0,
     RunCacheReadInputTokens = 0, RunCacheCreationInputTokens = 0, RunTotalCostUSD = 0,
     RunDurationMS = 0, RunExitCode = 0, RunStderrTail = '''', RunModelUsage = [] \<rparr>"

section \<open>Arguments and the stderr tail\<close>

definition buildArgs :: "string \<Rightarrow> string \<Rightarrow> string list" where
  "buildArgs prompt sessionID =
     [''-p'', prompt, ''--output-format'', ''stream-json'', ''--verbose'',
      ''--permission-mode'', ''acceptEdits'',
      ''--allowedTools'', ''Bash,Edit,Read,Write,Glob,Grep'',
      ''--disallowedTools'', ''WebFetch,WebSearch''] @
     (if sessionID \<noteq> '''' then [''--resume'', sessionID] else [])"

definition tail :: "string \<Rightarrow> nat \<Rightarrow> string" where
  "tail s n =
     (let lines = split_byte (CHR 0x0A) s in
      if length lines \<le> n then s
      else join_str [CHR 0x0A] (drop (length lines - n) lines))"

section \<open>Run\<close>

text \<open>The collector: text chunks in order, the last result signal.\<close>

fun collect :: "signal list \<Rightarrow> string list \<times> result_event option \<Rightarrow> string list \<times> result_event option" where
  "collect [] acc = acc"
| "collect (SignalText t # ss) (ts, r) = collect ss (ts @ [t], r)"
| "collect (SignalResult re # ss) (ts, r) = collect ss (ts, Some re)"
| "collect (SignalUsageWarning # ss) acc = collect ss acc"

definition session_missing_stderr :: "string \<Rightarrow> bool" where
  "session_missing_stderr s = (contains_str s ''please login'' \<or> contains_str s ''not logged in'')"

definition exit_code :: "wait_result \<Rightarrow> int" where
  "exit_code w = (case w of WaitExit code _ \<Rightarrow> code | _ \<Rightarrow> 0)"

definition run_summary :: "signal list \<Rightarrow> int \<Rightarrow> string \<Rightarrow> run_result" where
  "run_summary ss code stderrText =
     (let (texts, result) = collect ss ([], None);
          res = zero_run\<lparr> TextOutput := concat texts, RunExitCode := code, RunStderrTail := stderrText \<rparr>
      in case result of
           None \<Rightarrow> res
         | Some re \<Rightarrow>
             res\<lparr> RunInputTokens := uInputTokens (Usage re),
                  RunOutputTokens := uOutputTokens (Usage re),
                  RunCacheReadInputTokens := uCacheReadInputTokens (Usage re),
                  RunCacheCreationInputTokens := uCacheCreationInputTokens (Usage re),
                  RunTotalCostUSD := TotalCostUSD re,
                  RunDurationMS := DurationMS re,
                  RunModelUsage := ModelUsage re \<rparr>)"

text \<open>What Run does with a started process: its result and its error.\<close>

definition finish_run :: "ctx \<Rightarrow> claude_output \<Rightarrow> run_result option \<times> go_error option" where
  "finish_run c out =
     (let (signals, perr) = ParseStream c (Stdout out);
          stderrText = tail (Stderr out) 150;
          parseErr = (if perr = None \<and> session_missing_stderr stderrText
                      then Some ErrSessionMissing else perr);
          code = exit_code (Waited out)
      in case parseErr of
           Some e \<Rightarrow> (Some (zero_run\<lparr> RunExitCode := code, RunStderrTail := stderrText \<rparr>), Some e)
         | None \<Rightarrow>
             let res = run_summary signals code stderrText
             in case Waited out of
                  WaitExit x m \<Rightarrow>
                    if x \<noteq> 0
                    then (Some res, Some (EWrap (''claude exited with code '' @ int_str x) (EMsg m)))
                    else (Some res, None)
                | _ \<Rightarrow> (Some res, None))"

definition run_process :: "ctx \<Rightarrow> process \<Rightarrow> run_result option \<times> go_error option" where
  "run_process c p =
     (case p of
        StdoutPipeFails m \<Rightarrow> (None, Some (EWrap ''stdout pipe'' (EMsg m)))
      | StderrPipeFails m \<Rightarrow> (None, Some (EWrap ''stderr pipe'' (EMsg m)))
      | StartFails m \<Rightarrow> (None, Some (EWrap ''start claude'' (EMsg m)))
      | Started out \<Rightarrow> finish_run c out)"

text \<open>The outcome of Run: refused by the window gate without spawning, or the
  arguments it spawned with and what came of it.\<close>

datatype run_outcome =
    NotSpawned
  | Spawned "string list" "run_result option" "go_error option"

record run_input =
  Prompt :: string
  Worktree :: string
  SessionID :: string
  FullMode :: bool
  WindowGate :: "(time \<Rightarrow> bool \<Rightarrow> bool) option"

definition Run :: "time \<Rightarrow> ctx \<Rightarrow> run_input \<Rightarrow> (string list \<Rightarrow> process) \<Rightarrow> run_outcome" where
  "Run now c input spawn =
     (if (case WindowGate input of None \<Rightarrow> False | Some g \<Rightarrow> \<not> g now (FullMode input))
      then NotSpawned
      else let args = buildArgs (Prompt input) (SessionID input);
               (res, e) = run_process c (spawn args)
           in Spawned args res e)"

fun run_error :: "run_outcome \<Rightarrow> go_error option" where
  "run_error NotSpawned = Some ErrOutsideActiveWindow"
| "run_error (Spawned _ _ e) = e"

fun run_output :: "run_outcome \<Rightarrow> run_result option" where
  "run_output NotSpawned = None"
| "run_output (Spawned _ r _) = r"

section \<open>Lemmas\<close>

definition signal_texts :: "signal list \<Rightarrow> string list" where
  "signal_texts ss = concat (map (\<lambda>s. case s of SignalText t \<Rightarrow> [t] | _ \<Rightarrow> []) ss)"

lemma collect_texts: "fst (collect ss (ts, r)) = ts @ signal_texts ss"
  by (induction ss "(ts, r)" arbitrary: ts r rule: collect.induct) (simp_all add: signal_texts_def)

lemma collect_no_result: "\<forall>s \<in> set ss. \<not> ends_session s \<Longrightarrow> snd (collect ss (ts, r)) = r"
  by (induction ss "(ts, r)" arbitrary: ts r rule: collect.induct) simp_all

lemma collect_append: "collect (xs @ ys) acc = collect ys (collect xs acc)"
  by (induction xs acc rule: collect.induct) simp_all

lemma collect_result:
  "\<forall>s \<in> set ss. \<not> ends_session s \<Longrightarrow> snd (collect (ss @ [SignalResult re]) (ts, r)) = Some re"
  by (simp add: collect_append) (metis collect.simps(1,3) snd_conv surj_pair)

lemma tail_length: "length (split_byte (CHR 0x0A) (tail s n)) \<le> max 1 n"
proof -
  let ?ls = "split_byte (CHR 0x0A) s"
  show ?thesis
  proof (cases "length ?ls \<le> n \<or> n = 0")
    case True
    then show ?thesis by (auto simp: tail_def Let_def)
  next
    case False
    let ?d = "drop (length ?ls - n) ?ls"
    have "length ?d = n" "?d \<noteq> []" using False by auto
    moreover have "\<forall>f \<in> set ?d. CHR 0x0A \<notin> set f"
      using split_byte_no_sep[of _ "CHR 0x0A" s] by (meson in_set_dropD)
    ultimately have "split_byte (CHR 0x0A) (join_str [CHR 0x0A] ?d) = ?d"
      by (intro split_join) auto
    then show ?thesis using False \<open>length ?d = n\<close> by (simp add: tail_def Let_def)
  qed
qed

text \<open>Run succeeds exactly when the process started, its stream ended without an
  error, stderr does not ask for a login, and it did not exit with a nonzero code.\<close>

lemma finish_run_ok:
  "snd (finish_run c out) = None \<longleftrightarrow>
     snd (ParseStream c (Stdout out)) = None \<and> \<not> session_missing_stderr (tail (Stderr out) 150) \<and>
     exit_code (Waited out) = 0"
  by (auto simp: finish_run_def Let_def exit_code_def split: prod.splits option.splits wait_result.splits)

section \<open>Properties\<close>

text \<open>Run reports success exactly when the window gate, if there is one, allows
  the present moment, the process started with the arguments built from the prompt and
  the session, its stream ended without an error, stderr's last lines do not ask for a
  login, and the process did not exit with a nonzero code.\<close>

theorem run_succeeds_iff:
  "run_error (Run now c input spawn) = None \<longleftrightarrow>
     (case WindowGate input of None \<Rightarrow> True | Some g \<Rightarrow> g now (FullMode input)) \<and>
     (\<exists>out. spawn (buildArgs (Prompt input) (SessionID input)) = Started out \<and>
        snd (ParseStream c (Stdout out)) = None \<and>
        \<not> session_missing_stderr (tail (Stderr out) 150) \<and> exit_code (Waited out) = 0)"
proof (cases "case WindowGate input of None \<Rightarrow> False | Some g \<Rightarrow> \<not> g now (FullMode input)")
  case True
  then show ?thesis by (auto simp: Run_def split: option.splits)
next
  case False
  then have g: "case WindowGate input of None \<Rightarrow> True | Some g \<Rightarrow> g now (FullMode input)"
    by (auto split: option.splits)
  have "run_error (Run now c input spawn) =
      snd (run_process c (spawn (buildArgs (Prompt input) (SessionID input))))"
    using False by (simp add: Run_def Let_def split: prod.split)
  then show ?thesis using eqTrueI[OF g]
    by (cases "spawn (buildArgs (Prompt input) (SessionID input))")
       (simp_all add: run_process_def finish_run_ok)
qed

definition usage_matches :: "run_result \<Rightarrow> result_event \<Rightarrow> bool" where
  "usage_matches res re =
     (RunTotalCostUSD res = TotalCostUSD re \<and> RunDurationMS res = DurationMS re \<and>
      RunInputTokens res = uInputTokens (Usage re) \<and> RunOutputTokens res = uOutputTokens (Usage re) \<and>
      RunCacheReadInputTokens res = uCacheReadInputTokens (Usage re) \<and>
      RunCacheCreationInputTokens res = uCacheCreationInputTokens (Usage re) \<and>
      RunModelUsage res = ModelUsage re)"

lemma run_result_eq:
  assumes "run_process c (Started out) = (Some res, None)"
  shows "snd (ParseStream c (Stdout out)) = None"
    "res = run_summary (fst (ParseStream c (Stdout out))) (exit_code (Waited out)) (tail (Stderr out) 150)"
  using assms by (auto simp: run_process_def finish_run_def Let_def exit_code_def
      split: if_splits wait_result.splits prod.splits option.splits)

text \<open>C29: the output of a successful run is the concatenation of the text chunks of the
  stream, and its tokens, cost and model usage are those of the stream's result event,
  which does not report an error.\<close>

theorem run_output_is_the_stream:
  assumes "run_process c (Started out) = (Some res, None)"
    and "SignalResult re \<in> set (fst (ParseStream c (Stdout out)))"
  shows "TextOutput res = concat (signal_texts (fst (ParseStream c (Stdout out)))) \<and>
    usage_matches res re \<and> \<not> IsError re"
proof -
  let ?ss = "fst (ParseStream c (Stdout out))"
  note res = run_result_eq[OF assms(1)]
  have "stream_ok (?ss, None)"
    using parse_lines_ok[of c "scan_lines (Stdout out)"] res(1)
    by (metis ParseStream_def prod.collapse)
  then obtain ts re' where ss: "?ss = ts @ [SignalResult re']" "\<forall>s \<in> set ts. \<not> ends_session s"
    "result_error re' = None"
    using assms(2) by (auto simp: stream_ok_def)
  then have "re' = re" using assms(2) by auto
  then have c: "snd (collect ?ss ([], None)) = Some re" using ss collect_result by metis
  have t: "fst (collect ?ss ([], None)) = signal_texts ?ss" using collect_texts[of ?ss "[]" None] by simp
  have "\<not> IsError re" using ss \<open>re' = re\<close> by (auto simp: result_error_def Let_def split: if_splits)
  then show ?thesis using c t
    by (auto simp: res(2) run_summary_def usage_matches_def Let_def split: prod.split)
qed

definition sample_output :: claude_output where
  "sample_output = \<lparr> Stdout =
     ''{\"type\":\"assistant\",\"message\":{\"content\":[{\"type\":\"text\",\"text\":\"ok\"}]}}'' @ [CHR 0x0A] @
     ''{\"type\":\"result\",\"subtype\":\"success\",\"usage\":{\"input_tokens\":7},\"total_cost_usd\":2}'',
     Stderr = '''', Waited = WaitOK \<rparr>"

definition sample_result_event :: result_event where
  "sample_result_event = \<lparr> Subtype = ''success'', IsError = False, DurationMS = 0, ResultText = '''',
     TotalCostUSD = 2, Usage = zero_usage\<lparr> uInputTokens := 7 \<rparr>, ModelUsage = [] \<rparr>"

definition sample_lines :: "string list" where
  "sample_lines =
     [''{\"type\":\"assistant\",\"message\":{\"content\":[{\"type\":\"text\",\"text\":\"ok\"}]}}'',
      ''{\"type\":\"result\",\"subtype\":\"success\",\"usage\":{\"input_tokens\":7},\"total_cost_usd\":2}'']"

lemma sample_stream:
  "ParseStream None (Stdout sample_output) = ([SignalText ''ok'', SignalResult sample_result_event], None)"
proof -
  have l: "scan_lines (Stdout sample_output) = sample_lines" by code_simp
  have s: "line_step None (sample_lines ! 0) = Continue [SignalText ''ok''] None"
    "line_step None (sample_lines ! 1) = Return [SignalResult sample_result_event] None" by code_simp+
  have n: "sample_lines = [sample_lines ! 0, sample_lines ! 1]" by (simp add: sample_lines_def)
  have len: "length (sample_lines ! 0) = 72" "length (sample_lines ! 1) = 83" by code_simp+
  have "parse_lines None [sample_lines ! 0, sample_lines ! 1] =
    ([SignalText ''ok'', SignalResult sample_result_event], None)"
    by (simp add: s len max_line_def del: One_nat_def)
  then show ?thesis unfolding ParseStream_def l n[symmetric] .
qed

lemma run_output_witness:
  "\<exists>res. run_process None (Started sample_output) = (Some res, None) \<and> TextOutput res = ''ok'' \<and>
     usage_matches res sample_result_event"
proof -
  have t: "tail (Stderr sample_output) 150 = ''''" by code_simp
  have w: "Waited sample_output = WaitOK" by (simp add: sample_output_def)
  obtain res where r: "run_process None (Started sample_output) = (Some res, None)"
    by (simp add: run_process_def finish_run_def sample_stream t w session_missing_stderr_def Let_def)
  have "SignalResult sample_result_event \<in> set (fst (ParseStream None (Stdout sample_output)))"
    by (simp add: sample_stream)
  from run_output_is_the_stream[OF r this] show ?thesis
    using r by (simp add: sample_stream signal_texts_def)
qed

end
