(* ===== verification/Go_Fmt.thy ===== *)
theory Go_Fmt
  imports Go_Strings Complex_Main
begin

text \<open>Texts the program builds: the Error method of every error, fmt's
  \<^verbatim>\<open>%q\<close> verb (bytes above 127 kept), its fixed-point verb for money, and
  strconv's integer parser; and filepath.Join.\<close>

section \<open>Errors\<close>

fun err_text :: "go_error \<Rightarrow> string" where
  "err_text ErrNotFound = ''not found''"
| "err_text ErrOutsideActiveWindow = ''outside active window''"
| "err_text ErrAlreadyRunning = ''task already running for this issue''"
| "err_text ErrFullModeOff = ''full mode is off''"
| "err_text ErrClaudeUsageExhausted = ''claude usage exhausted''"
| "err_text ErrSessionMissing =
     ''claude session missing: please run '' @ [CHR 0x27] @ ''claude login'' @ [CHR 0x27] @
     '' on this machine''"
| "err_text ErrTaskNotCancellable = ''task cannot be cancelled in its current state''"
| "err_text ErrInvalidRange = ''from date must not be after to date''"
| "err_text ErrRangeTooLarge = ''date range must not exceed 365 days''"
| "err_text ErrInvalidBucket = ''group_by must be one of: day, week, month''"
| "err_text ErrSubCapReached = ''maintenance sub-cap reached''"
| "err_text StreamErrSessionMissing =
     ''claude session missing: apiKeySource is not '' @ [CHR 0x27] @ ''none'' @ [CHR 0x27]"
| "err_text (ErrRateLimited r ty) =
     ''rate limited (type='' @ ty @ '', resetsAt='' @ int_str r @ '')''"
| "err_text (ErrResultError st m) = ''claude result error (subtype='' @ st @ ''): '' @ m"
| "err_text ErrWebhookDisabled = ''github webhook disabled: secret not set''"
| "err_text ErrInvalidWebhookSignature = ''invalid github webhook signature''"
| "err_text ErrMissingSignatureHeader = ''missing X-Hub-Signature-256 header''"
| "err_text ErrInvalidSignature = ''invalid slack signature''"
| "err_text ErrExpiredTimestamp = ''slack request timestamp expired''"
| "err_text ErrRecordNotFound = ''record not found''"
| "err_text ErrNoRows = ''sql: no rows in result set''"
| "err_text ErrContextCanceled = ''context canceled''"
| "err_text ErrDeadlineExceeded = ''context deadline exceeded''"
| "err_text (EMsg m) = m"
| "err_text (EWrap m e) = m @ '': '' @ err_text e"
| "err_text (ESuffix e m) = err_text e @ m"

section \<open>Quoted strings\<close>

definition hex_digit :: "nat \<Rightarrow> char" where
  "hex_digit n = (if n < 10 then char_of (48 + n) else char_of (87 + n))"

definition quote_char :: "char \<Rightarrow> string" where
  "quote_char c =
     (if c = CHR 0x22 then [CHR 0x5C, CHR 0x22]
      else if c = CHR 0x5C then [CHR 0x5C, CHR 0x5C]
      else if c = CHR 0x0A then [CHR 0x5C, CHR ''n'']
      else if c = CHR 0x09 then [CHR 0x5C, CHR ''t'']
      else if c = CHR 0x0D then [CHR 0x5C, CHR ''r'']
      else if c = CHR 0x07 then [CHR 0x5C, CHR ''a'']
      else if c = CHR 0x08 then [CHR 0x5C, CHR ''b'']
      else if c = CHR 0x0C then [CHR 0x5C, CHR ''f'']
      else if c = CHR 0x0B then [CHR 0x5C, CHR ''v'']
      else if (of_char c :: nat) < 32 \<or> (of_char c :: nat) = 127
      then [CHR 0x5C, CHR ''x'', hex_digit (of_char c div 16), hex_digit (of_char c mod 16)]
      else [c])"

definition go_quote :: "string \<Rightarrow> string" where
  "go_quote s = [CHR 0x22] @ concat (map quote_char s) @ [CHR 0x22]"

section \<open>Fixed-point numbers\<close>

definition round_half_even :: "rat \<Rightarrow> int" where
  "round_half_even q =
     (let f = floor q; r = q - of_int f in
      if r < 1 / 2 then f else if 1 / 2 < r then f + 1 else if even f then f else f + 1)"

definition fmt_fixed :: "nat \<Rightarrow> rat \<Rightarrow> string" where
  "fmt_fixed n q =
     (let k = round_half_even (abs q * 10 ^ n); p = 10 ^ n
      in (if q < 0 then ''-'' else '''') @ int_str (k div p) @
         (if n = 0 then '''' else ''.'' @ zero_pad n (k mod p)))"

section \<open>Parsing integers\<close>

definition ParseInt :: "string \<Rightarrow> int option" where
  "ParseInt s =
     (let (neg, ds) = scan_sign s
      in if ds = [] \<or> \<not> list_all is_digit ds then None
         else let v = (if neg then - int (digits_val ds) else int (digits_val ds))
              in if int64_ok v then Some v else None)"

text \<open>Atoi, its error dropped: zero for a syntax error, the nearest int64 for a
  number out of range.\<close>

definition atoi_or_zero :: "string \<Rightarrow> int" where
  "atoi_or_zero s =
     (let (neg, ds) = scan_sign s
      in if ds = [] \<or> \<not> list_all is_digit ds then 0
         else let v = (if neg then - int (digits_val ds) else int (digits_val ds))
              in if v < - (2 ^ 63) then - (2 ^ 63) else if 2 ^ 63 \<le> v then 2 ^ 63 - 1 else v)"

lemma ParseInt_int64: "ParseInt s = Some v \<Longrightarrow> int64_ok v"
  by (auto simp: ParseInt_def Let_def split: prod.splits if_splits)

lemma atoi_digits: "ds \<noteq> [] \<Longrightarrow> \<forall>c \<in> set ds. is_digit c \<Longrightarrow> digits_val ds < 2 ^ 63 \<Longrightarrow>
    atoi_or_zero ds = int (digits_val ds)"
proof -
  assume a: "ds \<noteq> []" "\<forall>c \<in> set ds. is_digit c" "digits_val ds < 2 ^ 63"
  then obtain c cs where ds: "ds = c # cs" by (cases ds) auto
  then have "scan_sign ds = (False, ds)"
    using digit_not_special[of c] a(2) by (simp add: scan_sign_def)
  moreover have "int (digits_val ds) < 2 ^ 63"
    using a(3) by (metis of_nat_less_iff of_nat_numeral of_nat_power)
  ultimately show ?thesis using a(1,2) by (simp add: atoi_or_zero_def list_all_iff)
qed

section \<open>Paths\<close>

text \<open>filepath.Clean and filepath.Join on Unix: elements are pushed on a stack, a dot
  is dropped, two dots pop what is there.\<close>

definition clean_step :: "bool \<Rightarrow> string \<Rightarrow> string list \<Rightarrow> string list" where
  "clean_step rooted e stack =
     (if e = '''' \<or> e = ''.'' then stack
      else if e = ''..''
      then (case stack of
              [] \<Rightarrow> if rooted then [] else [''..'']
            | t # ts \<Rightarrow> if t = ''..'' then ''..'' # stack else ts)
      else e # stack)"

definition path_clean :: "string \<Rightarrow> string" where
  "path_clean s =
     (let rooted = has_prefix s ''/'';
          p = join_str ''/'' (rev (fold (clean_step rooted) (split_byte (CHR ''/'') s) []))
      in if rooted then ''/'' @ p else if p = '''' then ''.'' else p)"

definition path_join :: "string list \<Rightarrow> string" where
  "path_join es = (case dropWhile (\<lambda>e. e = '''') es of
      [] \<Rightarrow> '''' | f # fs \<Rightarrow> path_clean (join_str ''/'' (f # fs)))"

lemma path_clean_nonempty [simp]: "path_clean s \<noteq> ''''"
  by (simp add: path_clean_def Let_def)

lemma path_join_nonempty: "e \<in> set es \<Longrightarrow> e \<noteq> '''' \<Longrightarrow> path_join es \<noteq> ''''"
  by (auto simp: path_join_def split: list.splits)

end
