(* ===== verification/Slack_Blocks.thy ===== *)
theory Slack_Blocks
  imports Go_Fmt Json
begin

text \<open>internal/slack/blocks.go: the Block Kit messages, and how encoding/json
  renders them. Emoji names are ASCII; the dash, the arrow and the ellipsis are their
  UTF-8 bytes.\<close>

record text_obj =
  TextObjType :: string
  TextObjText :: string

record element =
  ElType :: string
  ElText :: "text_obj option"
  ElStyle :: string
  ElValue :: string
  ElURL :: string
  ElActionID :: string

record block =
  BlockType :: string
  BlockText :: "text_obj option"
  BlockElements :: "element list"

type_synonym slack_message = "block list"

definition em_dash :: string where "em_dash = [CHR 0xE2, CHR 0x80, CHR 0x94]"
definition right_arrow :: string where "right_arrow = [CHR 0xE2, CHR 0x86, CHR 0x92]"
definition ellipsis :: string where "ellipsis = [CHR 0xE2, CHR 0x80, CHR 0xA6]"

definition section_block :: "string \<Rightarrow> block" where
  "section_block t = \<lparr> BlockType = ''section'',
     BlockText = Some \<lparr> TextObjType = ''mrkdwn'', TextObjText = t \<rparr>, BlockElements = [] \<rparr>"

definition button :: "string \<Rightarrow> element" where
  "button t = \<lparr> ElType = ''button'', ElText = Some \<lparr> TextObjType = ''plain_text'', TextObjText = t \<rparr>,
     ElStyle = '''', ElValue = '''', ElURL = '''', ElActionID = '''' \<rparr>"

definition actions_block :: "element list \<Rightarrow> block" where
  "actions_block es = \<lparr> BlockType = ''actions'', BlockText = None, BlockElements = es \<rparr>"

definition backtick_ref :: "string \<Rightarrow> int \<Rightarrow> string" where
  "backtick_ref repo n = [CHR 0x60] @ repo @ ''#'' @ int_str n @ [CHR 0x60]"

definition BuildStarted :: "string \<Rightarrow> string \<Rightarrow> int \<Rightarrow> string \<Rightarrow> slack_message" where
  "BuildStarted taskID repo n issueURL =
     [section_block ('':rocket: *Task started* '' @ em_dash @ '' '' @ backtick_ref repo n),
      actions_block
        [(button ''Stop'')\<lparr> ElStyle := ''danger'', ElValue := ''task:'' @ taskID,
           ElActionID := ''stop_task'' \<rparr>,
         (button ''View Issue'')\<lparr> ElURL := issueURL \<rparr>]]"

definition BuildDone :: "string \<Rightarrow> int \<Rightarrow> string \<Rightarrow> int \<Rightarrow> slack_message" where
  "BuildDone repo n prURL prNumber =
     [section_block ('':white_check_mark: *Done* '' @ em_dash @ '' '' @ backtick_ref repo n @ '' '' @
        right_arrow @ '' PR #'' @ int_str prNumber),
      actions_block [(button (''View PR #'' @ int_str prNumber))\<lparr> ElURL := prURL, ElStyle := ''primary'' \<rparr>]]"

definition BuildFailed :: "string \<Rightarrow> int \<Rightarrow> string \<Rightarrow> slack_message" where
  "BuildFailed repo n errMsg =
     (let m = (if 500 < length errMsg then take 500 errMsg @ ellipsis else errMsg)
      in [section_block ('':x: *Task failed* '' @ em_dash @ '' '' @ backtick_ref repo n @ [CHR 0x0A] @
            [CHR 0x60, CHR 0x60, CHR 0x60] @ m @ [CHR 0x60, CHR 0x60, CHR 0x60])])"

definition BuildCancelled :: "string \<Rightarrow> int \<Rightarrow> slack_message" where
  "BuildCancelled repo n =
     [section_block ('':no_entry: *Cancelled* '' @ em_dash @ '' '' @ backtick_ref repo n)]"

definition BuildModeChange :: "bool \<Rightarrow> slack_message" where
  "BuildModeChange enabled =
     [section_block ((if enabled then '':zap:'' else '':zzz:'') @ '' *Full usage mode '' @
        (if enabled then ''enabled'' else ''disabled'') @ ''*'')]"

section \<open>Rendering\<close>

definition omit_str :: "string \<Rightarrow> string \<Rightarrow> (string \<times> json) list" where
  "omit_str k s = (if s = '''' then [] else [(k, JStr s)])"

definition json_text_obj :: "text_obj \<Rightarrow> json" where
  "json_text_obj t = JObj [(''type'', JStr (TextObjType t)), (''text'', JStr (TextObjText t))]"

definition json_element :: "element \<Rightarrow> json" where
  "json_element e = JObj ([(''type'', JStr (ElType e))] @
     (case ElText e of None \<Rightarrow> [] | Some t \<Rightarrow> [(''text'', json_text_obj t)]) @
     omit_str ''style'' (ElStyle e) @ omit_str ''value'' (ElValue e) @ omit_str ''url'' (ElURL e) @
     omit_str ''action_id'' (ElActionID e))"

definition json_block :: "block \<Rightarrow> json" where
  "json_block b = JObj ([(''type'', JStr (BlockType b))] @
     (case BlockText b of None \<Rightarrow> [] | Some t \<Rightarrow> [(''text'', json_text_obj t)]) @
     (if BlockElements b = [] then [] else [(''elements'', JArr (map json_element (BlockElements b)))]))"

text \<open>The task a Stop button of a message names.\<close>

definition stop_values :: "slack_message \<Rightarrow> string list" where
  "stop_values m = concat (map (\<lambda>b. map ElValue (filter (\<lambda>e. ElActionID e = ''stop_task'')
     (BlockElements b))) m)"

lemma started_stop: "stop_values (BuildStarted i repo n url) = [''task:'' @ i]"
  by (simp add: stop_values_def BuildStarted_def section_block_def actions_block_def button_def)

end
