(* ===== verification/Budget_Gate.thy ===== *)
theory Budget_Gate
  imports Go_Time
begin

text \<open>internal/scheduler/budget_gate.go: limits, counters and the rate-limit
  block, EvaluateBudget, the bucket keys DateKey and WeekKey and the rollover of
  the counters. The lemmas show which decision is made on every branch, that two
  instants have the same daily key exactly when they fall on the same local day
  and the same weekly key exactly when their weeks start on the same local day,
  and that a rollover resets a counter exactly when its bucket has changed.\<close>

section \<open>Data\<close>

record budget_limits =
  DailyMax :: int
  WeeklyMax :: int
  WeekStartsOn :: int
  ResetTZ :: "location option"

record budget_counters =
  DailyCount :: int
  DailyKey :: string
  WeeklyCount :: int
  WeeklyKey :: string

record rate_limit_block =
  BlockedUntil :: time
  RateLimitType :: string

datatype budget_reason =
    BudgetReasonAllowed
  | BudgetReasonDailyCap
  | BudgetReasonWeeklyCap
  | BudgetReasonRateLimited

fun budget_reason_str :: "budget_reason \<Rightarrow> string" where
  "budget_reason_str BudgetReasonAllowed = ''''"
| "budget_reason_str BudgetReasonDailyCap = ''daily_cap_reached''"
| "budget_reason_str BudgetReasonWeeklyCap = ''weekly_cap_reached''"
| "budget_reason_str BudgetReasonRateLimited = ''rate_limited''"

definition no_block :: rate_limit_block where
  "no_block = \<lparr> BlockedUntil = zero_time, RateLimitType = '''' \<rparr>"

definition zero_counters :: budget_counters where
  "zero_counters = \<lparr> DailyCount = 0, DailyKey = '''', WeeklyCount = 0, WeeklyKey = '''' \<rparr>"

section \<open>Operations\<close>

definition Active :: "rate_limit_block \<Rightarrow> time \<Rightarrow> bool" where
  "Active b now = (\<not> is_zero (BlockedUntil b) \<and> now < BlockedUntil b)"

definition EvaluateBudget ::
  "time \<Rightarrow> budget_counters \<Rightarrow> budget_limits \<Rightarrow> rate_limit_block \<Rightarrow> budget_reason" where
  "EvaluateBudget now c l b =
     (if Active b now then BudgetReasonRateLimited
      else if 0 < DailyMax l \<and> DailyMax l \<le> DailyCount c then BudgetReasonDailyCap
      else if 0 < WeeklyMax l \<and> WeeklyMax l \<le> WeeklyCount c then BudgetReasonWeeklyCap
      else BudgetReasonAllowed)"

definition tz_of :: "location option \<Rightarrow> location" where
  "tz_of tz = (case tz of None \<Rightarrow> UTC | Some l \<Rightarrow> l)"

definition DateKey :: "time \<Rightarrow> location option \<Rightarrow> string" where
  "DateKey now tz = format_date (local_day (tz_of tz) now)"

definition week_offset :: "int \<Rightarrow> int \<Rightarrow> int" where
  "week_offset wd ws = (wd - ws + 7) mod 7"

definition format_week :: "int \<times> int \<Rightarrow> string" where
  "format_week yw = zero_pad 4 (fst yw) @ ''-W'' @ zero_pad 2 (snd yw)"

definition WeekKey :: "time \<Rightarrow> location option \<Rightarrow> int \<Rightarrow> string" where
  "WeekKey now tz weekStartsOn =
     (let l = tz_of tz;
          offset = week_offset (weekday_of l now) weekStartsOn;
          weekStart = add_date l (time_date l (local_day l now) 0 0) 0 (- offset)
      in format_week (iso_week (local_day l weekStart)))"

definition RolloverCounters :: "time \<Rightarrow> budget_counters \<Rightarrow> budget_limits \<Rightarrow> budget_counters" where
  "RolloverCounters now c l =
     (let dailyKey = DateKey now (ResetTZ l);
          weeklyKey = WeekKey now (ResetTZ l) (WeekStartsOn l);
          out1 = (if DailyKey c \<noteq> dailyKey then c\<lparr> DailyKey := dailyKey, DailyCount := 0 \<rparr> else c)
      in if WeeklyKey out1 \<noteq> weeklyKey
         then out1\<lparr> WeeklyKey := weeklyKey, WeeklyCount := 0 \<rparr> else out1)"

section \<open>The gate\<close>

lemma EvaluateBudget_allowed_iff:
  "EvaluateBudget now c l b = BudgetReasonAllowed \<longleftrightarrow>
    \<not> Active b now \<and> (0 < DailyMax l \<longrightarrow> DailyCount c < DailyMax l) \<and>
    (0 < WeeklyMax l \<longrightarrow> WeeklyCount c < WeeklyMax l)"
  by (auto simp: EvaluateBudget_def)

lemma no_block_inactive [simp]: "\<not> Active no_block now"
  by (simp add: Active_def no_block_def is_zero_def)

section \<open>Keys\<close>

text \<open>The local day on which the week of a local day starts.\<close>

definition week_start_day :: "int \<Rightarrow> int \<Rightarrow> int" where
  "week_start_day ws n = n - week_offset (weekday_of_day n) ws"

definition four_digit_year :: "int \<Rightarrow> bool" where
  "four_digit_year n = (0 \<le> year_of_day n \<and> year_of_day n \<le> 9999)"

lemma DateKey_same_day:
  assumes "four_digit_year (local_day (tz_of tz) a)" "four_digit_year (local_day (tz_of tz) b)"
  shows "DateKey a tz = DateKey b tz \<longleftrightarrow> local_day (tz_of tz) a = local_day (tz_of tz) b"
  using assms format_date_inj by (simp add: DateKey_def four_digit_year_def)

lemma week_offset_range: "0 \<le> week_offset wd ws" "week_offset wd ws < 7"
  by (simp_all add: week_offset_def)

lemma week_start_day_weekday:
  assumes "0 \<le> ws" "ws < 7"
  shows "weekday_of_day (week_start_day ws n) = ws"
proof -
  have "weekday_of_day (week_start_day ws n)
      = (n + 4 - ((n + 4) mod 7 - ws + 7) mod 7) mod 7"
    by (simp add: weekday_of_day_def week_start_day_def week_offset_def algebra_simps)
  also have "\<dots> = ((n + 4) - ((n + 4) - ws + 7)) mod 7"
    by (simp add: mod_simps)
  also have "\<dots> = ws" using assms by (simp add: mod_simps)
  finally show ?thesis .
qed

text \<open>Every Monday-based week holds exactly one day of each week day.\<close>

lemma same_iso_week_same_weekday:
  assumes "iso_monday a = iso_monday b" "weekday_of_day a = weekday_of_day b"
  shows "a = b"
proof -
  have "a mod 7 = b mod 7"
    using assms(2) by (simp add: weekday_of_day_def mod_eq_dvd_iff)
  then have "7 dvd a - b" by (simp add: mod_eq_dvd_iff)
  moreover have "a - b < 7" "b - a < 7"
    using iso_monday_bounds[of a] iso_monday_bounds[of b] assms(1) by linarith+
  ultimately show ?thesis using zdvd_imp_le[of 7 "a - b"] zdvd_imp_le[of 7 "b - a"]
    by (cases "a < b"; cases "b < a") (auto simp: dvd_diff_commute)
qed

text \<open>The zone has the two midnights WeekKey builds.\<close>

definition week_midnights :: "location \<Rightarrow> int \<Rightarrow> time \<Rightarrow> bool" where
  "week_midnights l ws t =
     (exists_local l (local_day l t * 86400) \<and>
      exists_local l (week_start_day ws (local_day l t) * 86400))"

lemma WeekKey_eq:
  assumes "week_midnights (tz_of tz) ws t"
  shows "WeekKey t tz ws = format_week (iso_week (week_start_day ws (local_day (tz_of tz) t)))"
proof -
  let ?l = "tz_of tz"
  let ?m = "time_date ?l (local_day ?l t) 0 0"
  have m: "local_day ?l ?m = local_day ?l t"
    using assms by (intro local_day_time_date) (simp_all add: week_midnights_def)
  have s: "local_sec ?l ?m mod 86400 = 0"
    using assms local_sec_time_date[of ?l "local_day ?l t" 0 0] by (simp add: week_midnights_def)
  have z: "?m mod Second = 0" by (simp add: time_date_def)
  have "local_day ?l (time_date ?l (week_start_day ws (local_day ?l t)) 0 0)
      = week_start_day ws (local_day ?l t)"
    using assms by (intro local_day_time_date) (simp_all add: week_midnights_def)
  then show ?thesis
    by (simp add: WeekKey_def Let_def add_days_eq m s z week_start_day_def weekday_of_def)
qed

text \<open>Sscanf of a week key, as internal/repository/usage_repository.go reads it.\<close>

definition scan_week_key :: "string \<Rightarrow> (int \<times> int) option" where
  "scan_week_key key =
     (case scan_int key of
        None \<Rightarrow> None
      | Some (year, r1) \<Rightarrow>
          (case scan_lit ''-W'' r1 of
             None \<Rightarrow> None
           | Some r2 \<Rightarrow>
               (case scan_int r2 of None \<Rightarrow> None | Some (week, _) \<Rightarrow> Some (year, week))))"

lemma scan_format_week:
  assumes "0 \<le> y" "y \<le> 9999" "0 \<le> w" "w \<le> 99"
  shows "scan_week_key (format_week (y, w)) = Some (y, w)"
proof -
  have 1: "scan_int (zero_pad 4 y @ ''-W'' @ zero_pad 2 w)
      = Some (int (digits_val (zero_pad 4 y)), ''-W'' @ zero_pad 2 w)"
    using assms zero_pad_digits[of y 4]
    by (intro scan_int_digits) (auto simp: nat_less_iff is_digit_def[of "CHR ''-''"])
  have 2: "scan_int (zero_pad 2 w @ []) = Some (int (digits_val (zero_pad 2 w)), [])"
    using assms zero_pad_digits[of w 2] by (intro scan_int_digits) (auto simp: nat_less_iff)
  show ?thesis
    using assms 1 2 by (simp add: scan_week_key_def format_week_def scan_lit_def has_prefix_def)
qed

lemma iso_year_of_week:
  assumes "iso_week n = (y, w)"
  shows "0 \<le> w" "w \<le> 99"
  using iso_week_range[OF assms] by auto

lemma format_week_inj:
  assumes "0 \<le> fst (iso_week a)" "fst (iso_week a) \<le> 9999"
    and "0 \<le> fst (iso_week b)" "fst (iso_week b) \<le> 9999"
  shows "format_week (iso_week a) = format_week (iso_week b) \<longleftrightarrow> iso_week a = iso_week b"
proof
  assume e: "format_week (iso_week a) = format_week (iso_week b)"
  obtain y w y' w' where i: "iso_week a = (y, w)" "iso_week b = (y', w')" by fastforce
  have b: "0 \<le> y" "y \<le> 9999" "0 \<le> y'" "y' \<le> 9999" using assms i by auto
  have "Some (y, w) = scan_week_key (format_week (y, w))"
    using scan_format_week[OF b(1,2) iso_year_of_week[OF i(1)]] by (rule sym)
  also have "\<dots> = scan_week_key (format_week (y', w'))" using e unfolding i by (rule arg_cong)
  also have "\<dots> = Some (y', w')"
    by (rule scan_format_week[OF b(3,4) iso_year_of_week[OF i(2)]])
  finally have "Some (y, w) = Some (y', w')" .
  then show "iso_week a = iso_week b" by (simp add: i)
qed simp

definition four_digit_week :: "int \<Rightarrow> bool" where
  "four_digit_week n = (0 \<le> fst (iso_week n) \<and> fst (iso_week n) \<le> 9999)"

lemma week_key_same_week:
  fixes tz ws a b
  defines "s \<equiv> \<lambda>t. week_start_day ws (local_day (tz_of tz) t)"
  assumes ws: "0 \<le> ws" "ws < 7"
    and m: "week_midnights (tz_of tz) ws a" "week_midnights (tz_of tz) ws b"
    and y: "four_digit_week (s a)" "four_digit_week (s b)"
  shows "WeekKey a tz ws = WeekKey b tz ws \<longleftrightarrow> s a = s b"
proof -
  have "WeekKey a tz ws = WeekKey b tz ws \<longleftrightarrow> iso_week (s a) = iso_week (s b)"
    using y format_week_inj by (simp add: WeekKey_eq m s_def four_digit_week_def)
  also have "\<dots> \<longleftrightarrow> iso_monday (s a) = iso_monday (s b)" by (rule iso_week_inj)
  also have "\<dots> \<longleftrightarrow> s a = s b"
    using same_iso_week_same_weekday[of "s a" "s b"] week_start_day_weekday[OF ws]
    unfolding s_def by auto
  finally show ?thesis .
qed

section \<open>Rollover\<close>

lemma RolloverCounters_fields:
  "DailyKey (RolloverCounters now c l) = DateKey now (ResetTZ l)"
  "WeeklyKey (RolloverCounters now c l) = WeekKey now (ResetTZ l) (WeekStartsOn l)"
  "DailyCount (RolloverCounters now c l) =
     (if DailyKey c = DateKey now (ResetTZ l) then DailyCount c else 0)"
  "WeeklyCount (RolloverCounters now c l) =
     (if WeeklyKey c = WeekKey now (ResetTZ l) (WeekStartsOn l) then WeeklyCount c else 0)"
  by (simp_all add: RolloverCounters_def Let_def)

lemma RolloverCounters_id:
  "DailyKey c = DateKey now (ResetTZ l) \<Longrightarrow>
   WeeklyKey c = WeekKey now (ResetTZ l) (WeekStartsOn l) \<Longrightarrow> RolloverCounters now c l = c"
  by (simp add: RolloverCounters_def)

lemma RolloverCounters_idem:
  "RolloverCounters now (RolloverCounters now c l) l = RolloverCounters now c l"
  by (rule RolloverCounters_id) (simp_all add: RolloverCounters_fields)

lemma RolloverCounters_nonneg:
  "0 \<le> DailyCount c \<Longrightarrow> 0 \<le> DailyCount (RolloverCounters now c l) \<and>
     DailyCount (RolloverCounters now c l) \<le> DailyCount c"
  "0 \<le> WeeklyCount c \<Longrightarrow> 0 \<le> WeeklyCount (RolloverCounters now c l) \<and>
     WeeklyCount (RolloverCounters now c l) \<le> WeeklyCount c"
  by (simp_all add: RolloverCounters_fields)

section \<open>Properties\<close>

text \<open>Two instants get the same daily key exactly when they fall on the same
  local day of the limits' zone (years 0 to 9999).\<close>

lemma date_key_identifies_day:
  assumes "four_digit_year (local_day (tz_of tz) a)" "four_digit_year (local_day (tz_of tz) b)"
  shows "DateKey a tz = DateKey b tz \<longleftrightarrow> local_day (tz_of tz) a = local_day (tz_of tz) b"
  using assms by (rule DateKey_same_day)

lemma date_key_witness:
  "DateKey (20562 * 86400 * Second) None = DateKey (20562 * 86400 * Second + 23 * Hour) None \<and>
   DateKey (20562 * 86400 * Second) None \<noteq> DateKey (20563 * 86400 * Second) None"
proof -
  have d: "local_day UTC (20562 * 86400 * Second) = 20562" "local_day UTC (20562 * 86400 * Second + 23 * Hour) = 20562"
    "local_day UTC (20563 * 86400 * Second) = 20563"
    by (simp_all add: local_day_def local_sec_def unix_sec_def UTC_def)
  have y: "four_digit_year 20562" "four_digit_year 20563"
    unfolding four_digit_year_def by code_simp+
  show ?thesis
    using date_key_identifies_day[of None "20562 * 86400 * Second" "20562 * 86400 * Second + 23 * Hour"]
      date_key_identifies_day[of None "20562 * 86400 * Second" "20563 * 86400 * Second"] d y
    by (simp add: tz_of_def)
qed

text \<open>Two instants get the same weekly key exactly when their weeks, starting on
  the configured week day, start on the same local day. Years have four digits and
  the zone has the local midnights that WeekKey asks time.Date for.\<close>

lemma week_key_identifies_week:
  assumes "0 \<le> ws" "ws < 7"
    and "week_midnights (tz_of tz) ws a" "week_midnights (tz_of tz) ws b"
    and "four_digit_week (week_start_day ws (local_day (tz_of tz) a))"
    and "four_digit_week (week_start_day ws (local_day (tz_of tz) b))"
  shows "WeekKey a tz ws = WeekKey b tz ws \<longleftrightarrow>
    week_start_day ws (local_day (tz_of tz) a) = week_start_day ws (local_day (tz_of tz) b)"
  using assms by (rule week_key_same_week)

lemma week_key_witness:
  "WeekKey (20563 * 86400 * Second) None 1 = WeekKey (20565 * 86400 * Second) None 1 \<and>
   WeekKey (20563 * 86400 * Second) None 1 \<noteq> WeekKey (20570 * 86400 * Second) None 1"
proof -
  have d: "local_day UTC (20563 * 86400 * Second) = 20563" "local_day UTC (20565 * 86400 * Second) = 20565"
    "local_day UTC (20570 * 86400 * Second) = 20570"
    by (simp_all add: local_day_def local_sec_def unix_sec_def UTC_def)
  have s: "week_start_day 1 20563 = 20563" "week_start_day 1 20565 = 20563" "week_start_day 1 20570 = 20570"
    by (simp_all add: week_start_day_def week_offset_def weekday_of_day_def)
  have y: "four_digit_week 20563" "four_digit_week 20570"
  proof -
    have f: "fst (iso_week n) = year_of_day (iso_monday n + 3)" for n by (simp add: iso_week_def Let_def)
    show "four_digit_week 20563" "four_digit_week 20570"
      unfolding four_digit_week_def f by code_simp+
  qed
  have m: "week_midnights UTC 1 t" for t by (simp add: week_midnights_def UTC_fixed)
  show ?thesis
    using week_key_identifies_week[of 1 None "20563 * 86400 * Second" "20565 * 86400 * Second"]
      week_key_identifies_week[of 1 None "20563 * 86400 * Second" "20570 * 86400 * Second"] d s y m
    by (simp add: tz_of_def)
qed

text \<open>A rollover keeps a count exactly when its bucket is still current, sets it
  to zero otherwise, leaves the current keys, and changes nothing when repeated.\<close>

lemma rollover_spec:
  "DailyKey (RolloverCounters now c l) = DateKey now (ResetTZ l) \<and>
   WeeklyKey (RolloverCounters now c l) = WeekKey now (ResetTZ l) (WeekStartsOn l) \<and>
   DailyCount (RolloverCounters now c l) =
     (if DailyKey c = DateKey now (ResetTZ l) then DailyCount c else 0) \<and>
   WeeklyCount (RolloverCounters now c l) =
     (if WeeklyKey c = WeekKey now (ResetTZ l) (WeekStartsOn l) then WeeklyCount c else 0) \<and>
   RolloverCounters now (RolloverCounters now c l) l = RolloverCounters now c l"
  by (simp add: RolloverCounters_fields RolloverCounters_idem)

end
