(* ===== verification/World.thy ===== *)
theory World
  imports Repo_Laws Runner Slack_Blocks Budget_Gate "HOL-Library.State_Monad"
begin

text \<open>The world an operation of the program runs in: the database, what the
  outside answers (commands, the Claude process, HTTP, templates, uuids, the clock)
  as functions of a step counter, the context the operation was given, as the step
  from which it is cancelled, and the trace of what the operation did to the outside.
  Operations are programs of the library's state monad; every use of the outside takes
  one step. Two calculi carry the proofs: relations a program keeps (state_io_rel of
  the library, with rules for the constructs) and triples.\<close>

section \<open>The world\<close>

datatype effect =
    ShellRun string "string list" bool
  | ClaudeRun string "string list"
  | SlackPost slack_message
  | LogFile string string
  | TaskMetric string string string int
  | BudgetBlockMetric budget_reason
  | WindowCloseMetric
  | RemovedAll string

text \<open>How a check command ended: it did not start, it was waited for, or its timeout
  or the context ended it.\<close>

datatype check_exit = CheckSpawnFails string | CheckWaited wait_result | CheckKilled go_error

datatype http_reply = HttpFails string | HttpReply int string

record world = db +
  trace :: "effect list"
  done_from :: "nat option"
  shell_reply :: "nat \<Rightarrow> string \<times> go_error option"
  check_reply :: "nat \<Rightarrow> string \<times> check_exit"
  claude_reply :: "nat \<Rightarrow> process"
  claude_checks :: "nat \<Rightarrow> nat"
  http_answer :: "nat \<Rightarrow> http_reply"
  template_reply :: "nat \<Rightarrow> string result"
  file_absent :: "nat \<Rightarrow> bool"
  mkdir_error :: "nat \<Rightarrow> go_error option"
  remove_error :: "nat \<Rightarrow> go_error option"
  uuids :: "nat \<Rightarrow> string"
  float_text :: "rat \<Rightarrow> string"

type_synonym 'a prog = "(world, 'a) state"

abbreviation ret :: "'a \<Rightarrow> 'a prog" where "ret \<equiv> State_Monad.return"

definition cancelled :: "world \<Rightarrow> bool" where
  "cancelled w = (case done_from w of None \<Rightarrow> False | Some k \<Rightarrow> k \<le> ops w)"

definition tick :: "world \<Rightarrow> world" where "tick w = w\<lparr> ops := Suc (ops w) \<rparr>"

section \<open>Primitives\<close>

definition ctx_done :: "bool prog" where
  "ctx_done = State (\<lambda>w. (cancelled w, w))"

text \<open>One reading of the outside: what a projection says at the present step.\<close>

definition ask :: "(world \<Rightarrow> nat \<Rightarrow> 'a) \<Rightarrow> 'a prog" where
  "ask f = State (\<lambda>w. (f w (ops w), tick w))"

definition now_prog :: "time prog" where "now_prog = ask clock"

definition emit :: "effect \<Rightarrow> unit prog" where
  "emit e = State (\<lambda>w. ((), w\<lparr> trace := trace w @ [e] \<rparr>))"

text \<open>A command: with a context that is already cancelled it is not started.\<close>

definition shell :: "string \<Rightarrow> string list \<Rightarrow> (string \<times> go_error option) prog" where
  "shell dir argv = do {
     (out, e) \<leftarrow> ask shell_reply;
     emit (ShellRun dir argv (e = None));
     ret (out, e)
   }"

definition shell_ctx :: "string \<Rightarrow> string list \<Rightarrow> (string \<times> go_error option) prog" where
  "shell_ctx dir argv = do {
     c \<leftarrow> ctx_done;
     if c then ret ('''', Some ErrContextCanceled) else shell dir argv
   }"

text \<open>An optional dependency: the call is skipped when it is nil.\<close>

definition when_some :: "'a option \<Rightarrow> ('a \<Rightarrow> unit prog) \<Rightarrow> unit prog" where
  "when_some x f = (case x of None \<Rightarrow> ret () | Some a \<Rightarrow> f a)"

text \<open>One run of the Claude process, as one step: the context of its stream is done
  from the start, never, or (when it is cancelled during this step) after as many checks
  as the outside says; a process is not started under a cancelled context.\<close>

definition stream_ctx :: "world \<Rightarrow> ctx" where
  "stream_ctx w = (case done_from w of
      None \<Rightarrow> None
    | Some k \<Rightarrow> if k \<le> ops w then Some 0
                else if k = Suc (ops w) then Some (claude_checks w (ops w)) else None)"

definition run_claude :: "run_input \<Rightarrow> run_outcome prog" where
  "run_claude input = do {
     t \<leftarrow> now_prog;
     c \<leftarrow> State (\<lambda>w. (stream_ctx w, w));
     dead \<leftarrow> ctx_done;
     p \<leftarrow> ask claude_reply;
     let q = (if dead then StartFails ''context canceled'' else p);
     let r = Run t c input (\<lambda>_. q);
     (case (r, q) of
        (Spawned args _ _, Started _) \<Rightarrow> emit (ClaudeRun (Worktree input) args)
      | _ \<Rightarrow> ret ());
     ret r
   }"

text \<open>A repository call as a program.\<close>

abbreviation call :: "(world \<Rightarrow> 'a \<times> world) \<Rightarrow> 'a prog" where "call \<equiv> State"

section \<open>Relations a program keeps\<close>

named_theorems keeps_intros \<open>rules for state_io_rel over the constructs of programs\<close>

lemma keeps_return: "reflp R \<Longrightarrow> state_io_rel R (ret a)"
  by (auto simp: state_io_rel_def reflp_def)

lemma keeps_bind:
  assumes "transp R" "state_io_rel R m" "\<And>a. state_io_rel R (f a)"
  shows "state_io_rel R (State_Monad.bind m f)"
proof (rule state_io_relI)
  fix a s s' assume "run_state (State_Monad.bind m f) s = (a, s')"
  then obtain b t where m: "run_state m s = (b, t)" "run_state (f b) t = (a, s')"
    by (auto split: prod.splits)
  then have "R s t" "R t s'" using assms(2,3) by (auto dest!: state_io_relD)
  then show "R s s'" using assms(1) by (rule transpD[rotated])
qed

lemma keeps_case_prod: "(\<And>a b. state_io_rel R (f a b)) \<Longrightarrow> state_io_rel R (case p of (a, b) \<Rightarrow> f a b)"
  by (cases p) simp

lemma keeps_case_option:
  "state_io_rel R f \<Longrightarrow> (\<And>a. state_io_rel R (g a)) \<Longrightarrow>
   state_io_rel R (case x of None \<Rightarrow> f | Some a \<Rightarrow> g a)"
  by (cases x) simp_all

lemma keeps_case_sum:
  "(\<And>e. state_io_rel R (f e)) \<Longrightarrow> (\<And>a. state_io_rel R (g a)) \<Longrightarrow>
   state_io_rel R (case x of Inl e \<Rightarrow> f e | Inr a \<Rightarrow> g a)"
  by (cases x) simp_all

lemma keeps_if: "state_io_rel R f \<Longrightarrow> state_io_rel R g \<Longrightarrow> state_io_rel R (if b then f else g)"
  by simp

lemma keeps_let: "state_io_rel R (f a) \<Longrightarrow> state_io_rel R (let x = a in f x)"
  by simp

lemma keeps_when_some: "reflp R \<Longrightarrow> (\<And>a. x = Some a \<Longrightarrow> state_io_rel R (f a)) \<Longrightarrow> state_io_rel R (when_some x f)"
  by (cases x) (simp_all add: when_some_def keeps_return)

lemmas keeps_rules = keeps_return keeps_bind keeps_case_prod keeps_case_option keeps_case_sum keeps_if
  keeps_let keeps_when_some

text \<open>The frame of an effect set: the tables are as before, nothing the
  outside answers changes, and the trace grows by effects of the set.\<close>

definition same_env :: "world \<Rightarrow> world \<Rightarrow> bool" where
  "same_env w w' = (clock w' = clock w \<and> outcome w' = outcome w \<and> done_from w' = done_from w \<and>
     shell_reply w' = shell_reply w \<and> check_reply w' = check_reply w \<and> claude_reply w' = claude_reply w \<and>
     claude_checks w' = claude_checks w \<and>     http_answer w' = http_answer w \<and> template_reply w' = template_reply w \<and>
     file_absent w' = file_absent w \<and> mkdir_error w' = mkdir_error w \<and> remove_error w' = remove_error w \<and> uuids w' = uuids w \<and>
     float_text w' = float_text w \<and>
     ops w \<le> ops w')"

definition grows :: "effect set \<Rightarrow> world \<Rightarrow> world \<Rightarrow> bool" where
  "grows F w w' = (same_env w w' \<and> (\<exists>es. trace w' = trace w @ es \<and> set es \<subseteq> F))"

definition frame :: "effect set \<Rightarrow> world \<Rightarrow> world \<Rightarrow> bool" where
  "frame F w w' = (grows F w w' \<and> task_rows w' = task_rows w \<and> app_rows w' = app_rows w \<and>
     event_rows w' = event_rows w)"

lemma same_env_refl [simp]: "same_env w w"
  by (simp add: same_env_def)

lemma same_env_trans: "same_env a b \<Longrightarrow> same_env b c \<Longrightarrow> same_env a c"
  by (simp add: same_env_def)

lemma grows_refl [simp]: "grows F w w"
  by (simp add: grows_def)

lemma grows_trans:
  assumes "grows F a b" "grows F b c"
  shows "grows F a c"
proof -
  obtain es fs where "trace b = trace a @ es" "set es \<subseteq> F" "trace c = trace b @ fs" "set fs \<subseteq> F"
    using assms by (auto simp: grows_def)
  then have "trace c = trace a @ (es @ fs) \<and> set (es @ fs) \<subseteq> F" by simp
  then show ?thesis using assms same_env_trans unfolding grows_def by blast
qed

lemma grows_mono: "grows F a b \<Longrightarrow> F \<subseteq> G \<Longrightarrow> grows G a b"
  by (auto simp: grows_def)

lemma frame_refl [simp]: "frame F w w"
  by (simp add: frame_def)

lemma frame_trans: "frame F a b \<Longrightarrow> frame F b c \<Longrightarrow> frame F a c"
  using grows_trans by (auto simp: frame_def)

lemma frame_mono: "frame F a b \<Longrightarrow> F \<subseteq> G \<Longrightarrow> frame G a b"
  using grows_mono by (auto simp: frame_def)

lemma frame_reflp [simp]: "reflp (frame F)" "reflp (grows F)"
  by (auto simp: reflp_def)

lemma frame_transp [simp]: "transp (frame F)" "transp (grows F)"
  using frame_trans grows_trans by (auto simp: transp_def)

lemma keeps_frame_mono: "state_io_rel (frame F) m \<Longrightarrow> F \<subseteq> G \<Longrightarrow> state_io_rel (frame G) m"
  unfolding state_io_rel_def using frame_mono by blast

lemma keeps_frame_grows: "state_io_rel (frame F) m \<Longrightarrow> state_io_rel (grows F) m"
  by (auto simp: state_io_rel_def frame_def)

lemma frame_ask [keeps_intros]: "state_io_rel (frame F) (ask f)"
  by (auto simp: state_io_rel_def ask_def tick_def frame_def grows_def same_env_def)

lemma frame_now [keeps_intros]: "state_io_rel (frame F) now_prog"
  unfolding now_prog_def by (rule frame_ask)

lemma frame_ctx_done [keeps_intros]: "state_io_rel (frame F) ctx_done"
  by (auto simp: state_io_rel_def ctx_done_def)

lemma frame_emit [keeps_intros]: "e \<in> F \<Longrightarrow> state_io_rel (frame F) (emit e)"
  by (auto simp: state_io_rel_def emit_def frame_def grows_def same_env_def)

lemma frame_return [keeps_intros]: "state_io_rel (frame F) (ret a)"
  by (rule keeps_return) simp

lemma frame_bind [keeps_intros]:
  "state_io_rel (frame F) m \<Longrightarrow> (\<And>a. state_io_rel (frame F) (f a)) \<Longrightarrow>
   state_io_rel (frame F) (State_Monad.bind m f)"
  by (rule keeps_bind) simp_all

lemma frame_when_some [keeps_intros]:
  "(\<And>a. x = Some a \<Longrightarrow> state_io_rel (frame F) (f a)) \<Longrightarrow> state_io_rel (frame F) (when_some x f)"
  by (rule keeps_when_some) simp_all

lemmas [keeps_intros] = keeps_case_prod keeps_case_option keeps_case_sum keeps_if keeps_let

definition shell_effects :: "effect set" where "shell_effects = {ShellRun d a b |d a b. True}"

lemma frame_shell [keeps_intros]:
  assumes "\<And>b. ShellRun dir argv b \<in> F"
  shows "state_io_rel (frame F) (shell dir argv)" "state_io_rel (frame F) (shell_ctx dir argv)"
  unfolding shell_ctx_def shell_def by (intro keeps_intros assms)+

section \<open>Statements of the database\<close>

text \<open>A statement of the database within a relation that steps of the counter keep.\<close>

lemma exec_rel:
  assumes "transp R" "reflp R" "\<And>d. R d (d\<lparr> ops := Suc (ops d) \<rparr>)" "\<And>n d. R d (snd (f n d))"
  shows "R w (snd (exec f (w :: world)))"
proof -
  let ?w = "w\<lparr> ops := Suc (ops w) \<rparr>"
  have "R w (snd (f n ?w))" for n using transpD[OF assms(1) assms(3) assms(4)] .
  moreover have "R w ?w" by (rule assms)
  ultimately show ?thesis by (simp add: exec_def Let_def split: db_outcome.split)
qed

text \<open>Repository methods that only map the result of one statement.\<close>

lemma snd_mapped [simp]:
  "snd (case p of (Inl e, d) \<Rightarrow> (f e, d) | (Inr x, d) \<Rightarrow> (g x, d)) = snd p"
  by (simp split: prod.split sum.split)

section \<open>Triples\<close>

definition triple :: "(world \<Rightarrow> bool) \<Rightarrow> 'a prog \<Rightarrow> ('a \<Rightarrow> world \<Rightarrow> bool) \<Rightarrow> bool" where
  "triple P m Q = (\<forall>w a w'. P w \<longrightarrow> run_state m w = (a, w') \<longrightarrow> Q a w')"

lemma tripleI: "(\<And>w a w'. P w \<Longrightarrow> run_state m w = (a, w') \<Longrightarrow> Q a w') \<Longrightarrow> triple P m Q"
  by (simp add: triple_def)

lemma tripleD: "triple P m Q \<Longrightarrow> P w \<Longrightarrow> run_state m w = (a, w') \<Longrightarrow> Q a w'"
  by (simp add: triple_def)

lemma triple_return [simp]: "triple P (ret a) Q \<longleftrightarrow> (\<forall>w. P w \<longrightarrow> Q a w)"
  by (auto simp: triple_def)

lemma triple_bind:
  assumes "triple P m R" "\<And>a. triple (R a) (f a) Q"
  shows "triple P (State_Monad.bind m f) Q"
proof (rule tripleI)
  fix w a w' assume "P w" "run_state (State_Monad.bind m f) w = (a, w')"
  then obtain b v where "run_state m w = (b, v)" "run_state (f b) v = (a, w')"
    by (auto split: prod.splits)
  then show "Q a w'" using assms \<open>P w\<close> by (blast dest: tripleD)
qed

lemma triple_weaken:
  "triple P m Q \<Longrightarrow> (\<And>w. P' w \<Longrightarrow> P w) \<Longrightarrow> (\<And>a w. Q a w \<Longrightarrow> Q' a w) \<Longrightarrow> triple P' m Q'"
  by (simp add: triple_def) blast

text \<open>A predicate that does not look at what a frame may change stays true.\<close>

lemma triple_keeps:
  "state_io_rel R m \<Longrightarrow> (\<And>w w'. P w \<Longrightarrow> R w w' \<Longrightarrow> Q w') \<Longrightarrow> triple P m (\<lambda>_. Q)"
  by (rule tripleI) (blast dest: state_io_relD)

section \<open>A calm world\<close>

text \<open>The outside answers every request well; used by the examples.\<close>

definition calm_world :: "db \<Rightarrow> world" where
  "calm_world d = \<lparr> task_rows = task_rows d, event_rows = event_rows d, app_rows = app_rows d,
     clock = clock d, outcome = outcome d, ops = ops d,
     trace = [], done_from = None, shell_reply = (\<lambda>_. ('''', None)),
     check_reply = (\<lambda>_. ('''', CheckWaited WaitOK)),
     claude_reply = (\<lambda>_. Started \<lparr> Stdout = '''', Stderr = '''', Waited = WaitOK \<rparr>),
     claude_checks = (\<lambda>_. 0), http_answer = (\<lambda>_. HttpReply 200 ''{\"ok\":true}''),
     template_reply = (\<lambda>_. Inr ''go''), file_absent = (\<lambda>_. True), mkdir_error = (\<lambda>_. None), remove_error = (\<lambda>_. None),
     uuids = (\<lambda>n. ''uuid-'' @ nat_str n), float_text = (\<lambda>_. ''0.0'') \<rparr>"

lemma calm_world_simps [simp]:
  "task_rows (calm_world d) = task_rows d" "event_rows (calm_world d) = event_rows d"
  "app_rows (calm_world d) = app_rows d" "outcome (calm_world d) = outcome d" "ops (calm_world d) = ops d"
  "clock (calm_world d) = clock d" "trace (calm_world d) = []" "done_from (calm_world d) = None"
  by (simp_all add: calm_world_def)

end
