(* ===== verification/Slack_Client.thy ===== *)
theory Slack_Client
  imports World Domain Json_Text
begin

text \<open>internal/slack/client.go: posting a message with chat.postMessage and the
  notifications built on it. The HTTP exchange is an answer of the outside; a request
  that goes out is an effect of the trace. A cancelled context fails the request before
  it is sent.\<close>

text \<open>The reply body: the first JSON value, decoded into ok and error.\<close>

definition decode_reply :: "string \<Rightarrow> (bool \<times> string) option" where
  "decode_reply body =
     (case p_value (2 * length body + 2) body of
        None \<Rightarrow> None
      | Some (j, _) \<Rightarrow>
          (case struct_members j of
             None \<Rightarrow> None
           | Some kvs \<Rightarrow>
               let (b, o1) = dec_field ''ok'' dec_bool kvs False;
                   (e, o2) = dec_field ''error'' dec_str kvs ''''
               in if o1 \<and> o2 then Some (b, e) else None))"

definition reply_error :: "http_reply \<Rightarrow> go_error option" where
  "reply_error r =
     (case r of
        HttpFails m \<Rightarrow> Some (EWrap ''post to slack'' (EMsg m))
      | HttpReply code body \<Rightarrow>
          if code \<noteq> 200 then Some (EMsg (''slack API returned '' @ int_str code))
          else (case decode_reply body of
                  None \<Rightarrow> Some (EWrap ''decode slack response'' (EMsg ''invalid JSON''))
                | Some (True, _) \<Rightarrow> None
                | Some (False, e) \<Rightarrow> Some (EMsg (''slack API error: '' @ e))))"

definition postMessage :: "slack_message \<Rightarrow> go_error option prog" where
  "postMessage msg = do {
     c \<leftarrow> ctx_done;
     if c then ret (Some (EWrap ''post to slack'' ErrContextCanceled))
     else do {
       r \<leftarrow> ask http_answer;
       emit (SlackPost msg);
       ret (reply_error r)
     }
   }"

definition issue_url :: "task \<Rightarrow> string" where
  "issue_url t = ''https://github.com/'' @ RepoFullName t @ ''/issues/'' @ int_str (IssueNumber t)"

definition NotifyStarted :: "task \<Rightarrow> go_error option prog" where
  "NotifyStarted t = postMessage (BuildStarted (ID t) (RepoFullName t) (IssueNumber t) (issue_url t))"

definition NotifyDone :: "task \<Rightarrow> go_error option prog" where
  "NotifyDone t = postMessage (BuildDone (RepoFullName t) (IssueNumber t) (PRURL t) (PRNumber t))"

definition NotifyFailed :: "task \<Rightarrow> string \<Rightarrow> go_error option prog" where
  "NotifyFailed t m = postMessage (BuildFailed (RepoFullName t) (IssueNumber t) m)"

definition NotifyCancelled :: "task \<Rightarrow> go_error option prog" where
  "NotifyCancelled t = postMessage (BuildCancelled (RepoFullName t) (IssueNumber t))"

definition NotifyOrphaned :: "task \<Rightarrow> go_error option prog" where
  "NotifyOrphaned t = postMessage (BuildFailed (RepoFullName t) (IssueNumber t)
     (''orphaned '' @ em_dash @ '' worktree '' @ go_quote (WorktreePath t) @
      '' has unsaved changes; manual review required''))"

definition NotifyModeChange :: "bool \<Rightarrow> go_error option prog" where
  "NotifyModeChange enabled = postMessage (BuildModeChange enabled)"

definition cost_warning_text :: "string \<Rightarrow> rat \<Rightarrow> rat \<Rightarrow> rat \<Rightarrow> string" where
  "cost_warning_text scope percent current cap =
     (let (emoji, level) =
        (if 100 \<le> percent then ('':rotating_light:'', ''cap reached'')
         else ('':warning:'', fmt_fixed 0 percent @ ''% used''))
      in emoji @ '' '' @ scope @ '' cost '' @ level @ '' ($'' @ fmt_fixed 4 current @ '' / $'' @
         fmt_fixed 4 cap @ '')'')"

definition NotifyCostWarning :: "string \<Rightarrow> rat \<Rightarrow> rat \<Rightarrow> rat \<Rightarrow> go_error option prog" where
  "NotifyCostWarning scope percent current cap =
     postMessage [section_block (cost_warning_text scope percent current cap)]"

section \<open>Lemmas\<close>

definition slack_effects :: "effect set" where "slack_effects = range SlackPost"

lemma slack_frame [keeps_intros]: "slack_effects \<subseteq> F \<Longrightarrow> state_io_rel (frame F) (postMessage m)"
  unfolding postMessage_def by (intro keeps_intros) (auto simp: slack_effects_def)

lemmas slack_calls = NotifyStarted_def NotifyDone_def NotifyFailed_def NotifyCancelled_def
  NotifyOrphaned_def NotifyModeChange_def NotifyCostWarning_def

lemma notify_frames [keeps_intros]:
  assumes "slack_effects \<subseteq> F"
  shows "state_io_rel (frame F) (NotifyStarted t)" "state_io_rel (frame F) (NotifyDone t)"
    "state_io_rel (frame F) (NotifyFailed t m)" "state_io_rel (frame F) (NotifyCancelled t)"
    "state_io_rel (frame F) (NotifyOrphaned t)" "state_io_rel (frame F) (NotifyModeChange b)"
    "state_io_rel (frame F) (NotifyCostWarning s p q u)"
  using assms by (simp_all add: slack_calls slack_frame)

end
