(* ===== verification/Ci_Text.thy ===== *)
theory Ci_Text
  imports Go_Fmt Json_Text
begin

text \<open>internal/ci/mask.go and checks.go: masking the secrets of a log before it reaches a
  prompt, its last lines, and the classification of check runs. A regular expression of
  secretPatterns is a function that gives, at a position of the text, the replacement and
  what follows the match (leftmost, greedy, as the regexp package finds it); the classes
  of the expressions are disjoint from what may follow them, so there is one match at most.
  Text is bytes; a repetition counts code points.\<close>

section \<open>Characters\<close>

definition byte :: "char \<Rightarrow> nat" where "byte c = of_char c"

definition is_alnum :: "char \<Rightarrow> bool" where
  "is_alnum c = (let b = byte c in 48 \<le> b \<and> b \<le> 57 \<or> 97 \<le> b \<and> b \<le> 122 \<or> 65 \<le> b \<and> b \<le> 90)"

text \<open>The class of blanks of the regexp package.\<close>

definition re_space :: "char \<Rightarrow> bool" where
  "re_space c = (c = CHR '' '' \<or> c = CHR 0x09 \<or> c = CHR 0x0A \<or> c = CHR 0x0C \<or> c = CHR 0x0D)"

text \<open>The bytes of the first code point; an invalid byte is one by itself.\<close>

definition cont_byte :: "nat \<Rightarrow> nat \<Rightarrow> string \<Rightarrow> bool" where
  "cont_byte lo hi s = (case s of [] \<Rightarrow> False | c # _ \<Rightarrow> lo \<le> byte c \<and> byte c \<le> hi)"

definition rune_width :: "string \<Rightarrow> nat" where
  "rune_width s = (case s of
     [] \<Rightarrow> 0
   | c # r \<Rightarrow>
       let b = byte c; tail = (\<lambda>k. cont_byte 128 191 (drop k r)) in
       if 194 \<le> b \<and> b \<le> 223 \<and> tail 0 then 2
       else if 224 \<le> b \<and> b \<le> 239 \<and>
               cont_byte (if b = 224 then 160 else 128) (if b = 237 then 159 else 191) r \<and> tail 1 then 3
       else if 240 \<le> b \<and> b \<le> 244 \<and>
               cont_byte (if b = 240 then 144 else 128) (if b = 244 then 143 else 191) r \<and> tail 1 \<and> tail 2 then 4
       else 1)"

text \<open>Literals regardless of case: s and k have one more variant each outside ASCII.\<close>

definition fold_char :: "char \<Rightarrow> string \<Rightarrow> string option" where
  "fold_char c s =
     (case s of
        [] \<Rightarrow> None
      | d # r \<Rightarrow>
          if to_lower_char d = c then Some r
          else if c = CHR ''s'' \<and> take 2 s = [CHR 0xC5, CHR 0xBF] then Some (drop 2 s)
          else if c = CHR ''k'' \<and> take 3 s = [CHR 0xE2, CHR 0x84, CHR 0xAA] then Some (drop 3 s)
          else None)"

fun fold_lit :: "string \<Rightarrow> string \<Rightarrow> string option" where
  "fold_lit [] s = Some s"
| "fold_lit (c # cs) s = (case fold_char c s of None \<Rightarrow> None | Some r \<Rightarrow> fold_lit cs r)"

definition skip_blanks :: "string \<Rightarrow> string" where "skip_blanks = dropWhile re_space"

definition lit :: "string \<Rightarrow> string \<Rightarrow> string option" where
  "lit p s = (if has_prefix s p then Some (drop (length p) s) else None)"

section \<open>The patterns\<close>

text \<open>An expression of a GitHub Actions secret.\<close>

definition match_expression :: "string \<Rightarrow> (string \<times> string) option" where
  "match_expression s =
     (case lit ''${{'' s of None \<Rightarrow> None | Some r1 \<Rightarrow>
     (case lit ''secrets.'' (skip_blanks r1) of None \<Rightarrow> None | Some r2 \<Rightarrow>
       let name = takeWhile (\<lambda>c. is_alnum c \<or> c = CHR ''_'') r2;
           r3 = dropWhile (\<lambda>c. is_alnum c \<or> c = CHR ''_'') r2 in
       if name = [] then None
       else (case lit ''}}'' (skip_blanks r3) of None \<Rightarrow> None
             | Some r4 \<Rightarrow> Some (''${{ secrets.*** }}'', r4))))"

text \<open>The keys of an assignment, with an optional separator before key.\<close>

definition keyed :: "string \<Rightarrow> string \<Rightarrow> string option" where
  "keyed p s =
     (case fold_lit p s of
        None \<Rightarrow> None
      | Some r \<Rightarrow>
          (case r of
             c # r1 \<Rightarrow> if c = CHR ''_'' \<or> c = CHR ''-'' then fold_lit ''key'' r1 else fold_lit ''key'' r
           | [] \<Rightarrow> None))"

fun first_some :: "(string \<Rightarrow> string option) list \<Rightarrow> string \<Rightarrow> string option" where
  "first_some [] s = None"
| "first_some (f # fs) s = (case f s of None \<Rightarrow> first_some fs s | Some r \<Rightarrow> Some r)"

definition secret_key :: "string \<Rightarrow> string option" where
  "secret_key = first_some [fold_lit ''token'', fold_lit ''secret'', fold_lit ''password'', keyed ''api'',
     keyed ''access'', keyed ''private'', fold_lit ''bearer'']"

text \<open>The longest run of code points without blanks and quotes: how many, and the rest.\<close>

function value_run :: "string \<Rightarrow> nat \<times> string" where
  "value_run s =
     (case s of
        [] \<Rightarrow> (0, [])
      | c # r \<Rightarrow>
          if re_space c \<or> c = CHR 0x27 \<or> c = CHR 0x22 then (0, s)
          else (case value_run (drop (rune_width s) s) of (n, rest) \<Rightarrow> (Suc n, rest)))"
  by auto
termination
proof (relation "measure length")
  fix s c r assume "s = c # r" "\<not> (re_space c \<or> c = CHR 0x27 \<or> c = CHR 0x22)"
  then show "(drop (rune_width s) s, s) \<in> measure length"
    by (simp add: rune_width_def Let_def)
qed simp

declare value_run.simps [simp del]

definition match_assignment :: "string \<Rightarrow> (string \<times> string) option" where
  "match_assignment s =
     (case secret_key s of
        None \<Rightarrow> None
      | Some r \<Rightarrow>
          (case skip_blanks r of
             c # r1 \<Rightarrow>
               if c = CHR '':'' \<or> c = CHR ''='' then
                 (case value_run (skip_blanks r1) of
                    (n, rest) \<Rightarrow> if 4 \<le> n then Some (take (length s - length r) s @ ''=***'', rest) else None)
               else None
           | [] \<Rightarrow> None))"

definition token_char :: "char \<Rightarrow> bool" where
  "token_char c = (is_alnum c \<or> c = CHR ''.'' \<or> c = CHR ''_'' \<or> c = CHR ''-'')"

text \<open>The class of a bearer token, regardless of case.\<close>

function token_run :: "string \<Rightarrow> nat \<times> string" where
  "token_run s =
     (case s of
        [] \<Rightarrow> (0, [])
      | c # r \<Rightarrow>
          if token_char c then (case token_run r of (n, rest) \<Rightarrow> (Suc n, rest))
          else if take 2 s = [CHR 0xC5, CHR 0xBF]
          then (case token_run (drop 2 s) of (n, rest) \<Rightarrow> (Suc n, rest))
          else if take 3 s = [CHR 0xE2, CHR 0x84, CHR 0xAA]
          then (case token_run (drop 3 s) of (n, rest) \<Rightarrow> (Suc n, rest))
          else (0, s))"
  by auto
termination by (relation "measure length") auto

declare token_run.simps [simp del]

definition match_bearer :: "string \<Rightarrow> (string \<times> string) option" where
  "match_bearer s =
     (case fold_lit ''bearer'' s of
        None \<Rightarrow> None
      | Some r \<Rightarrow>
          if skip_blanks r = r then None
          else (case token_run (skip_blanks r) of
                  (n, rest) \<Rightarrow> if 8 \<le> n then Some (''Bearer ***'', rest) else None))"

definition match_github_token :: "string \<Rightarrow> (string \<times> string) option" where
  "match_github_token s =
     (if take 2 s = ''gh'' \<and> 4 \<le> length s \<and> s ! 2 \<in> set ''posur'' \<and> s ! 3 = CHR ''_'' \<and>
         20 \<le> length (takeWhile is_alnum (drop 4 s))
      then Some (''***'', dropWhile is_alnum (drop 4 s)) else None)"

section \<open>MaskSecrets\<close>

text \<open>ReplaceAllString: from left to right; a match is never empty, so the text shrinks. The
  fuel is the length of the text.\<close>

fun replace_all :: "(string \<Rightarrow> (string \<times> string) option) \<Rightarrow> nat \<Rightarrow> string \<Rightarrow> string" where
  "replace_all m 0 s = s"
| "replace_all m (Suc n) [] = []"
| "replace_all m (Suc n) (c # r) =
     (case m (c # r) of
        Some (repl, rest) \<Rightarrow> repl @ replace_all m n rest
      | None \<Rightarrow> c # replace_all m n r)"

definition ReplaceAllString :: "(string \<Rightarrow> (string \<times> string) option) \<Rightarrow> string \<Rightarrow> string" where
  "ReplaceAllString m s = replace_all m (length s) s"

definition MaskSecrets :: "string \<Rightarrow> string" where
  "MaskSecrets s = ReplaceAllString match_github_token (ReplaceAllString match_bearer
     (ReplaceAllString match_assignment (ReplaceAllString match_expression s)))"

text \<open>The decimal digits, last first; the most negative number stays negative under the
  change of sign, and its loop does not run.\<close>

fun itoa_digits :: "nat \<Rightarrow> int \<Rightarrow> string" where
  "itoa_digits 0 n = []"
| "itoa_digits (Suc k) n = (if 0 < n then itoa_digits k (n div 10) @ [digit_char (nat (n mod 10))] else [])"

definition itoa :: "int \<Rightarrow> string" where
  "itoa n =
     (if n = 0 then ''0''
      else let m = (if n < 0 then wrap64 (- n) else n)
           in (if n < 0 then ''-'' else []) @ itoa_digits 20 m)"

definition TruncateLogTail :: "string \<Rightarrow> int \<Rightarrow> string" where
  "TruncateLogTail s maxLines =
     (if maxLines \<le> 0 then s
      else let lines = split_byte (CHR 0x0A) s in
        if int (length lines) \<le> maxLines then s
        else ''[truncated '' @ itoa (int (length lines) - maxLines) @ '' earlier lines]'' @ [CHR 0x0A] @
             join_str [CHR 0x0A] (drop (length lines - nat maxLines) lines))"

section \<open>Check runs\<close>

datatype check_conclusion =
    ConclusionEmpty | ConclusionSuccess | ConclusionFailure | ConclusionTimedOut | ConclusionCancelled
  | ConclusionActionRequired | ConclusionSkipped | ConclusionNeutral | ConclusionStale | ConclusionOther string

definition conclusion_of :: "string \<Rightarrow> check_conclusion" where
  "conclusion_of s =
     (if s = '''' then ConclusionEmpty
      else if s = ''success'' then ConclusionSuccess
      else if s = ''failure'' then ConclusionFailure
      else if s = ''timed_out'' then ConclusionTimedOut
      else if s = ''cancelled'' then ConclusionCancelled
      else if s = ''action_required'' then ConclusionActionRequired
      else if s = ''skipped'' then ConclusionSkipped
      else if s = ''neutral'' then ConclusionNeutral
      else if s = ''stale'' then ConclusionStale
      else ConclusionOther s)"

record check_run_info =
  CheckName :: string
  CheckStatus :: string
  Conclusion :: check_conclusion
  DetailsURL :: string
  WorkflowRun :: int

text \<open>The loop over the runs: whether all are completed, whether an approval is missing, and
  the failed runs in order.\<close>

fun aggregate_step :: "check_run_info \<Rightarrow> bool \<times> bool \<times> check_run_info list \<Rightarrow> bool \<times> bool \<times> check_run_info list" where
  "aggregate_step c (allTerminal, hasActionRequired, failedRuns) =
     (let t = (if CheckStatus c \<noteq> ''completed'' then False else allTerminal) in
      case Conclusion c of
        ConclusionFailure \<Rightarrow> (t, hasActionRequired, failedRuns @ [c])
      | ConclusionTimedOut \<Rightarrow> (t, hasActionRequired, failedRuns @ [c])
      | ConclusionCancelled \<Rightarrow> (t, hasActionRequired, failedRuns @ [c])
      | ConclusionActionRequired \<Rightarrow> (t, True, failedRuns)
      | _ \<Rightarrow> (t, hasActionRequired, failedRuns))"

definition AggregateConclusion :: "check_run_info list \<Rightarrow> string \<times> check_run_info list" where
  "AggregateConclusion checks =
     (if checks = [] then ('''', [])
      else case fold aggregate_step checks (True, False, []) of
        (allTerminal, hasActionRequired, failedRuns) \<Rightarrow>
          if \<not> allTerminal then ('''', [])
          else if failedRuns \<noteq> [] then (''failed'', failedRuns)
          else if hasActionRequired then (''stuck'', [])
          else (''passed'', []))"

section \<open>No GitHub token is left\<close>

definition star :: char where "star = CHR ''*''"

lemma alnum_not_star: "is_alnum c \<Longrightarrow> c \<noteq> star"
  by (auto simp: is_alnum_def star_def byte_def Let_def)

lemma token_mono:
  assumes "match_github_token (p @ y) \<noteq> None" "star \<notin> set p" "y = [] \<or> hd y = star"
  shows "match_github_token (p @ z) \<noteq> None"
proof -
  let ?s = "p @ y"
  have m: "take 2 ?s = ''gh''" "4 \<le> length ?s" "?s ! 2 \<in> set ''posur''" "?s ! 3 = CHR ''_''"
    "20 \<le> length (takeWhile is_alnum (drop 4 ?s))"
    using assms(1) by (auto simp: match_github_token_def split: if_splits)
  have "?s ! 0 = CHR ''g''" "?s ! 1 = CHR ''h''"
    using m(1,2) by (cases ?s; cases "tl ?s"; simp)+
  then have ns: "?s ! 0 \<noteq> star" "?s ! 1 \<noteq> star" "?s ! 2 \<noteq> star" "?s ! 3 \<noteq> star"
    using m(3,4) by (auto simp: star_def)
  have l: "4 \<le> length p"
  proof (rule ccontr)
    assume "\<not> 4 \<le> length p"
    then have lt: "length p < 4" by simp
    then have "y \<noteq> []" using m(2) by auto
    then have "?s ! length p = star" using assms(3) by (simp add: nth_append hd_conv_nth)
    moreover have "length p = 0 \<or> length p = 1 \<or> length p = 2 \<or> length p = 3" using lt by linarith
    ultimately show False using ns by auto
  qed
  have run: "takeWhile is_alnum (drop 4 ?s) = takeWhile is_alnum (drop 4 p)"
  proof (cases "\<exists>x \<in> set (drop 4 p). \<not> is_alnum x")
    case True
    then show ?thesis using l by (auto simp: takeWhile_append1)
  next
    case False
    then have a: "takeWhile is_alnum (drop 4 p @ y) = drop 4 p @ takeWhile is_alnum y" by (simp add: takeWhile_append2)
    have b: "takeWhile is_alnum y = []" using assms(3) alnum_not_star by (cases y) auto
    have c: "takeWhile is_alnum (drop 4 p) = drop 4 p"
      by (rule takeWhile_eq_all_conv[THEN iffD2]) (use False in blast)
    show ?thesis unfolding c using a b l by simp
  qed
  have "length (takeWhile is_alnum (drop 4 p)) \<le> length (takeWhile is_alnum (drop 4 p @ z))"
    by (cases "\<exists>x \<in> set (drop 4 p). \<not> is_alnum x")
      (auto simp: takeWhile_append1 takeWhile_append2 takeWhile_eq_all_conv[THEN iffD2])
  then have "20 \<le> length (takeWhile is_alnum (drop 4 (p @ z)))" using m(5) run l by simp
  moreover have "take 2 (p @ z) = ''gh''" "4 \<le> length (p @ z)" "(p @ z) ! 2 \<in> set ''posur''" "(p @ z) ! 3 = CHR ''_''"
    using m(1,3,4) l by (simp_all add: nth_append)
  ultimately show ?thesis unfolding match_github_token_def by simp
qed

lemma token_starts: "s = [] \<or> hd s = star \<Longrightarrow> match_github_token s = None"
  by (cases s) (auto simp: match_github_token_def star_def)

text \<open>What was copied: up to the first star, the masked text is the text.\<close>

lemma replace_copies:
  "\<exists>z. s = takeWhile (\<lambda>c. c \<noteq> star) (replace_all match_github_token n s) @ z"
proof (induction match_github_token n s rule: replace_all.induct)
  case (1 s)
  then show ?case by (metis replace_all.simps(1) takeWhile_dropWhile_id)
next
  case (3 n c r)
  show ?case
  proof (cases "match_github_token (c # r)")
    case None
    then show ?thesis using "3.hyps"(1)[OF None] by (cases "c = star") auto
  next
    case (Some x)
    then obtain rest where "x = (''***'', rest)" by (auto simp: match_github_token_def split: if_splits)
    then show ?thesis using Some by (simp add: star_def)
  qed
qed simp

lemma masked_head:
  assumes "match_github_token (c # r) = None" "c \<noteq> star"
  shows "match_github_token (c # replace_all match_github_token n r) = None"
proof -
  let ?R = "replace_all match_github_token n r"
  let ?p = "takeWhile (\<lambda>x. x \<noteq> star) ?R" and ?y = "dropWhile (\<lambda>x. x \<noteq> star) ?R"
  have "\<exists>z. r = ?p @ z" by (rule replace_copies)
  then obtain z where z: "r = ?p @ z" ..
  have e: "(c # ?p) @ z = c # r" by (simp only: append_Cons z[symmetric])
  have y: "?y = [] \<or> hd ?y = star" using hd_dropWhile[of "\<lambda>x. x \<noteq> star" ?R] by blast
  have ps: "star \<notin> set (c # ?p)" using assms(2) set_takeWhileD[of star "\<lambda>x. x \<noteq> star" ?R] by auto
  have R: "(c # ?p) @ ?y = c # ?R" by simp
  have "match_github_token ((c # ?p) @ ?y) = None"
  proof (rule ccontr)
    assume "match_github_token ((c # ?p) @ ?y) \<noteq> None"
    from token_mono[OF this ps y, of z] show False unfolding e using assms(1) by (rule notE)
  qed
  then show ?thesis unfolding R .
qed

lemma masked_no_token:
  "length s \<le> n \<Longrightarrow> match_github_token (drop i (replace_all match_github_token n s)) = None"
proof (induction match_github_token n s arbitrary: i rule: replace_all.induct)
  case (1 s)
  then show ?case by (simp add: token_starts)
next
  case (2 n)
  then show ?case by (simp add: token_starts)
next
  case (3 n c r)
  show ?case
  proof (cases "match_github_token (c # r)")
    case (Some x)
    then obtain rest where x: "x = (''***'', rest)" "rest = dropWhile is_alnum (drop 4 (c # r))"
      by (auto simp: match_github_token_def split: if_splits)
    have "length rest \<le> length (drop 4 (c # r))" unfolding x(2) by (rule length_dropWhile_le)
    then have len: "length rest \<le> n" using "3.prems" by simp
    note IH = "3.hyps"(2)[OF Some[unfolded x(1)] refl len]
    let ?R = "replace_all match_github_token n rest"
    have out: "replace_all match_github_token (Suc n) (c # r) = star # star # star # ?R"
      using Some x(1) by (simp add: star_def)
    consider "i = 0" | "i = 1" | "i = 2" | j where "i = Suc (Suc (Suc j))"
      by (metis One_nat_def Suc_1 not0_implies_Suc)
    then show ?thesis unfolding out by cases (simp_all add: token_starts IH)
  next
    case None
    let ?R = "replace_all match_github_token n r"
    have out: "replace_all match_github_token (Suc n) (c # r) = c # ?R" using None by simp
    show ?thesis
    proof (cases i)
      case (Suc j)
      then show ?thesis using "3.hyps"(1)[OF None, of j] "3.prems" out by simp
    next
      case 0
      show ?thesis
      proof (cases "c = star")
        case True
        then show ?thesis using 0 out token_starts by simp
      next
        case False
        have "match_github_token (c # ?R) = None" using masked_head[OF None False] .
        then show ?thesis using 0 out by simp
      qed
    qed
  qed
qed

section \<open>Properties\<close>

text \<open>C35: whatever the log says, the text that reaches the prompt contains no GitHub token
  (gh, one of p o s u r, an underscore and twenty letters or digits) at any position.\<close>

theorem mask_leaves_no_github_token:
  "\<forall>i. match_github_token (drop i (MaskSecrets s)) = None"
  unfolding MaskSecrets_def by (intro allI, subst ReplaceAllString_def, rule masked_no_token) simp

text \<open>A secret after the word Bearer in an assignment is not masked: the mask of the
  assignment takes the word for the value.\<close>

theorem mask_leaks_bearer_assignment:
  "MaskSecrets ''token: Bearer abcdefghij'' = ''token=*** abcdefghij''"
  by code_simp

definition failing :: "check_run_info \<Rightarrow> bool" where
  "failing c = (Conclusion c = ConclusionFailure \<or> Conclusion c = ConclusionTimedOut \<or>
     Conclusion c = ConclusionCancelled)"

lemma aggregate_fold:
  "fold aggregate_step cs (t, a, fs) =
     (t \<and> list_all (\<lambda>c. CheckStatus c = ''completed'') cs,
      a \<or> list_ex (\<lambda>c. Conclusion c = ConclusionActionRequired) cs, fs @ filter failing cs)"
proof (induction cs arbitrary: t a fs)
  case (Cons c cs)
  have "aggregate_step c (t, a, fs) = (t \<and> CheckStatus c = ''completed'',
      a \<or> Conclusion c = ConclusionActionRequired, fs @ (if failing c then [c] else []))"
    by (simp add: failing_def Let_def split: check_conclusion.split)
  then show ?case using Cons.IH by (auto simp: failing_def)
qed simp

text \<open>C36: the classification of check runs by a decision list: none or one not completed
  means to go on watching; else any failure, timeout or cancellation means failed, with
  those runs in order; else a missing approval means stuck; everything else has passed,
  runs that are only stale included (which the comment calls stuck).\<close>

theorem aggregate_conclusion_spec:
  "AggregateConclusion cs =
     (if cs = [] \<or> list_ex (\<lambda>c. CheckStatus c \<noteq> ''completed'') cs then ('''', [])
      else if list_ex failing cs then (''failed'', filter failing cs)
      else if list_ex (\<lambda>c. Conclusion c = ConclusionActionRequired) cs then (''stuck'', [])
      else (''passed'', []))"
proof -
  have "filter failing cs = [] \<longleftrightarrow> \<not> list_ex failing cs" by (auto simp: list_ex_iff filter_empty_conv)
  moreover have "list_all (\<lambda>c. CheckStatus c = ''completed'') cs \<longleftrightarrow> \<not> list_ex (\<lambda>c. CheckStatus c \<noteq> ''completed'') cs"
    by (auto simp: list_ex_iff list_all_iff)
  ultimately show ?thesis by (auto simp: AggregateConclusion_def aggregate_fold)
qed

end
