(* ===== verification/Worker.thy ===== *)
theory Worker
  imports World Runner
begin

text \<open>internal/scheduler/worker.go: the pipeline of one task. The dependencies of
  WorkerConfig are the fields of a record, an option where the code checks for nil;
  each helper of the Go file is a program of the same name, and RunTask is cut at its
  gates into stages that call each other in the order of the code. The Go errors that
  are only logged are dropped.\<close>

section \<open>Dependencies\<close>

record slack_notifier =
  SlackStarted :: "task \<Rightarrow> go_error option prog"
  SlackDone :: "task \<Rightarrow> go_error option prog"
  SlackFailed :: "task \<Rightarrow> string \<Rightarrow> go_error option prog"
  SlackCancelled :: "task \<Rightarrow> go_error option prog"

record budget_enforcer =
  EnfCheckAndIncrementReason :: "time \<Rightarrow> budget_reason result prog"
  EnfRecordRateLimitBlock :: "int \<Rightarrow> string \<Rightarrow> time \<Rightarrow> unit result prog"

record metrics_recorder =
  MetTaskFinished :: "string \<Rightarrow> string \<Rightarrow> string \<Rightarrow> time \<Rightarrow> time \<Rightarrow> unit prog"
  MetBudgetBlock :: "budget_reason \<Rightarrow> unit prog"
  MetWindowClose :: "unit prog"

record quality_gate_result =
  GatePassed :: bool
  GateFailedCommand :: string
  GateExit :: int
  GateOutput :: string

record quality_gate =
  GateLookup :: "string \<Rightarrow> (string list \<times> int) option"
  GateRun :: "string \<Rightarrow> string list \<Rightarrow> int \<Rightarrow> quality_gate_result prog"

record worker_config =
  TaskRepo :: "world task_repo"
  EventRepo :: "world event_repo option"
  AppStateRepo :: "world app_state_repo option"
  Slack :: "slack_notifier option"
  PRCreator :: "(task \<Rightarrow> (string \<times> int) result prog) option"
  Budget :: "budget_enforcer option"
  CostWarn :: "(time \<Rightarrow> unit result prog) option"
  Metrics :: "metrics_recorder option"
  QualityGate :: "quality_gate option"
  Windows :: "active_window list"
  WorktreeRoot :: string
  PromptsDir :: string
  LogDir :: string
  CIFixEnabled :: bool

section \<open>Helpers\<close>

definition recordEvent :: "worker_config \<Rightarrow> string \<Rightarrow> event_kind \<Rightarrow> json \<Rightarrow> unit prog" where
  "recordEvent cfg taskID kind payload = when_some (EventRepo cfg) (\<lambda>repo. do {
     i \<leftarrow> ask uuids;
     t \<leftarrow> now_prog;
     _ \<leftarrow> call (CreateEvent repo \<lparr> EventID = i, EventTaskID = taskID, Kind = kind,
            PayloadJSON = Some payload, EventCreatedAt = t \<rparr>);
     ret ()
   })"

definition opt_time :: "time option \<Rightarrow> time" where
  "opt_time t = (case t of None \<Rightarrow> zero_time | Some x \<Rightarrow> x)"

definition recordFinished :: "worker_config \<Rightarrow> task \<Rightarrow> unit prog" where
  "recordFinished cfg t = when_some (Metrics cfg) (\<lambda>m.
     MetTaskFinished m (RepoFullName t) (task_type_str (TaskType t)) (status_str (Status t))
       (opt_time (StartedAt t)) (opt_time (FinishedAt t)))"

definition slack_send :: "worker_config \<Rightarrow> (slack_notifier \<Rightarrow> go_error option prog) \<Rightarrow> unit prog" where
  "slack_send cfg f = when_some (Slack cfg) (\<lambda>s. do { _ \<leftarrow> f s; ret () })"

definition fail :: "worker_config \<Rightarrow> task \<Rightarrow> string \<Rightarrow> unit result prog" where
  "fail cfg task msg = do {
     finishedAt \<leftarrow> now_prog;
     let t = task\<lparr> Status := TaskStatusFailed, FinishedAt := Some finishedAt, StderrTail := msg \<rparr>;
     _ \<leftarrow> call (Update (TaskRepo cfg) t);
     recordEvent cfg (ID t) EventKindFailed (JObj [(''msg'', JStr msg)]);
     recordFinished cfg t;
     slack_send cfg (\<lambda>s. SlackFailed s t msg);
     ret (Inl (EMsg (''task '' @ ID t @ '' failed: '' @ msg)))
   }"

definition removeWorktree :: "string \<Rightarrow> unit prog" where
  "removeWorktree path =
     (if path = '''' then ret ()
      else do { _ \<leftarrow> shell '''' [''git'', ''worktree'', ''remove'', ''--force'', path]; ret () })"

definition cancel :: "worker_config \<Rightarrow> task \<Rightarrow> unit result prog" where
  "cancel cfg task = do {
     finishedAt \<leftarrow> now_prog;
     let t = task\<lparr> Status := TaskStatusCancelled, FinishedAt := Some finishedAt \<rparr>;
     _ \<leftarrow> call (Update (TaskRepo cfg) t);
     recordEvent cfg (ID t) EventKindCancelled (JObj []);
     recordFinished cfg t;
     removeWorktree (WorktreePath t);
     slack_send cfg (\<lambda>s. SlackCancelled s t);
     ret (Inr ())
   }"

text \<open>The clone lies beside the worktree root.\<close>

definition underscored :: "string \<Rightarrow> string" where
  "underscored s = map (\<lambda>c. if c = CHR ''/'' then CHR ''_'' else c) s"

definition worktree_path :: "worker_config \<Rightarrow> task \<Rightarrow> string" where
  "worktree_path cfg t = path_join [WorktreeRoot cfg, ''task-'' @ ID t]"

definition task_branch :: "task \<Rightarrow> string" where
  "task_branch t = ''claude/issue-'' @ int_str (IssueNumber t)"

definition createWorktree :: "worker_config \<Rightarrow> task \<Rightarrow> string \<Rightarrow> string \<Rightarrow> go_error option prog" where
  "createWorktree cfg t path branch = do {
     m \<leftarrow> ask mkdir_error;
     (case m of
        Some e \<Rightarrow> ret (Some (EWrap ''mkdir worktrees'' e))
      | None \<Rightarrow> do {
          absent \<leftarrow> ask file_absent;
          let repoDir = (if absent then ''.''
                         else path_join [WorktreeRoot cfg, ''..'', underscored (RepoFullName t)]);
          (out, e) \<leftarrow> shell_ctx repoDir [''git'', ''worktree'', ''add'', ''-b'', branch, path];
          ret (map_option (\<lambda>er. EWrap ''git worktree add'' (ESuffix er ([CHR 0x0A] @ out))) e)
        })
   }"

definition writeLog :: "worker_config \<Rightarrow> string \<Rightarrow> string \<Rightarrow> unit prog" where
  "writeLog cfg taskID content =
     (if LogDir cfg = '''' then ret ()
      else do {
        m \<leftarrow> ask mkdir_error;
        (case m of
           Some _ \<Rightarrow> ret ()
         | None \<Rightarrow> emit (LogFile (path_join [LogDir cfg, taskID @ ''.log'']) content))
      })"

text \<open>The test for the word true in the stored document's text, as the database
  prints it (float_text says how it prints a fraction).\<close>

definition isFullMode :: "worker_config \<Rightarrow> bool prog" where
  "isFullMode cfg =
     (case AppStateRepo cfg of
        None \<Rightarrow> ret False
      | Some repo \<Rightarrow> do {
          r \<leftarrow> call (Get repo ''full_mode'');
          ft \<leftarrow> State (\<lambda>w. (float_text w, w));
          ret (case r of Inl _ \<Rightarrow> False | Inr st \<Rightarrow> containsTrue (json_text ft (ValueJSON st)))
        })"

definition maybeRecordRateLimit :: "worker_config \<Rightarrow> task \<Rightarrow> go_error \<Rightarrow> unit prog" where
  "maybeRecordRateLimit cfg t runErr = when_some (Budget cfg) (\<lambda>b.
     case as_rate_limited runErr of
       None \<Rightarrow> ret ()
     | Some (resetsAt, ty) \<Rightarrow> do {
         now \<leftarrow> now_prog;
         _ \<leftarrow> EnfRecordRateLimitBlock b resetsAt ty now;
         recordEvent cfg (ID t) EventKindUsageWarning
           (JObj [(''rate_limit_type'', JStr ty), (''resets_at_unix'', JInt resetsAt)])
       })"

definition json_model_usage :: "model_usage \<Rightarrow> json" where
  "json_model_usage m = JObj [(''inputTokens'', JInt (mInputTokens m)),
     (''outputTokens'', JInt (mOutputTokens m)),
     (''cacheReadInputTokens'', JInt (mCacheReadInputTokens m)),
     (''cacheCreationInputTokens'', JInt (mCacheCreationInputTokens m)),
     (''webSearchRequests'', JInt (mWebSearchRequests m)), (''costUSD'', JFloat (mCostUSD m)),
     (''contextWindow'', JInt (mContextWindow m)), (''maxOutputTokens'', JInt (mMaxOutputTokens m))]"

text \<open>A map is marshalled with its keys sorted; the order of the document's members is
  not observed.\<close>

definition applyRunUsage :: "task \<Rightarrow> run_result \<Rightarrow> task" where
  "applyRunUsage t r =
     t\<lparr> CostUSD := RunTotalCostUSD r, TotalInputTokens := RunInputTokens r,
        TotalOutputTokens := RunOutputTokens r, CacheReadInputTokens := RunCacheReadInputTokens r,
        CacheCreationInputTokens := RunCacheCreationInputTokens r,
        ModelUsageJSON := Some (JObj (map (\<lambda>(k, m). (k, json_model_usage m)) (RunModelUsage r))) \<rparr>"

section \<open>The pipeline\<close>

text \<open>Mark done, warn about cost, notify, and hand the worktree to the CI watcher or
  remove it.\<close>

definition finish_task :: "worker_config \<Rightarrow> task \<Rightarrow> unit result prog" where
  "finish_task cfg task = do {
     finishedAt \<leftarrow> now_prog;
     let t = task\<lparr> Status := TaskStatusDone, FinishedAt := Some finishedAt \<rparr>;
     _ \<leftarrow> call (Update (TaskRepo cfg) t);
     recordFinished cfg t;
     when_some (CostWarn cfg) (\<lambda>f. do { _ \<leftarrow> f finishedAt; ret () });
     slack_send cfg (\<lambda>s. SlackDone s t);
     (if CIFixEnabled cfg \<and> 0 < PRNumber t \<and> TaskType t \<noteq> TaskTypeCIFix
      then do {
        polled \<leftarrow> now_prog;
        _ \<leftarrow> call (UpdateCIStatus (TaskRepo cfg) (ID t) CIStatusWatching (HeadSHA t) polled);
        ret (Inr ())
      }
      else do { removeWorktree (WorktreePath t); ret (Inr ()) })
   }"

text \<open>The pull request.\<close>

definition pr_stage :: "worker_config \<Rightarrow> task \<Rightarrow> unit result prog" where
  "pr_stage cfg task =
     (case PRCreator cfg of
        None \<Rightarrow> finish_task cfg task
      | Some create \<Rightarrow> do {
          r \<leftarrow> create task;
          (case r of
             Inl e \<Rightarrow> do {
               removeWorktree (WorktreePath task);
               fail cfg task (''create PR: '' @ err_text e)
             }
           | Inr (url, num) \<Rightarrow> do {
               let t = task\<lparr> PRURL := url, PRNumber := num \<rparr>;
               recordEvent cfg (ID t) EventKindPRCreated
                 (JObj [(''pr_number'', JInt num), (''pr_url'', JStr url)]);
               finish_task cfg t
             })
        })"

text \<open>The repository's own commands; a failure keeps the worktree.\<close>

definition gate_message :: "quality_gate_result \<Rightarrow> string" where
  "gate_message g = ''quality gate failed: '' @ go_quote (GateFailedCommand g) @ '' exit='' @
     int_str (GateExit g) @ [CHR 0x0A] @ ''---'' @ [CHR 0x0A] @ GateOutput g"

definition gate_stage :: "worker_config \<Rightarrow> string \<Rightarrow> task \<Rightarrow> unit result prog" where
  "gate_stage cfg path task =
     (case QualityGate cfg of
        None \<Rightarrow> pr_stage cfg task
      | Some q \<Rightarrow>
          (case GateLookup q (RepoFullName task) of
             None \<Rightarrow> pr_stage cfg task
           | Some (cmds, timeout) \<Rightarrow>
               if cmds = [] then pr_stage cfg task
               else do {
                 g \<leftarrow> GateRun q path cmds timeout;
                 if GatePassed g then pr_stage cfg task
                 else do {
                   recordEvent cfg (ID task) EventKindFailed
                     (JObj [(''exit_code'', JInt (GateExit g)),
                            (''failed_command'', JStr (GateFailedCommand g)),
                            (''stage'', JStr ''quality_gate'')]);
                   fail cfg task (gate_message g)
                 }
               }))"

text \<open>The Claude run and its errors.\<close>

definition with_usage :: "task \<Rightarrow> run_result option \<Rightarrow> task" where
  "with_usage t r = (case r of None \<Rightarrow> t
     | Some res \<Rightarrow> applyRunUsage (t\<lparr> EstimatedInputTokens := RunInputTokens res,
                                    EstimatedOutputTokens := RunOutputTokens res \<rparr>) res)"

definition claude_stage :: "worker_config \<Rightarrow> string \<Rightarrow> string \<Rightarrow> bool \<Rightarrow> task \<Rightarrow> unit result prog" where
  "claude_stage cfg path prompt full task = do {
     out \<leftarrow> run_claude \<lparr> Prompt = prompt, Worktree = path, SessionID = '''', FullMode = full,
              WindowGate = Some (\<lambda>t fm. AllowNow t fm (Windows cfg)) \<rparr>;
     let result = run_output out;
     when_some result (\<lambda>res.
       if TextOutput res = '''' then ret ()
       else do {
         writeLog cfg (ID task) (TextOutput res);
         recordEvent cfg (ID task) EventKindClaudeStdoutChunk
           (JObj [(''len'', JInt (int (length (TextOutput res))))])
       });
     (case run_error out of
        Some e \<Rightarrow> do {
          maybeRecordRateLimit cfg task e;
          c \<leftarrow> ctx_done;
          if c then cancel cfg task
          else fail cfg task (''claude: '' @ err_text e @ [CHR 0x0A] @
                 (case result of None \<Rightarrow> '''' | Some res \<Rightarrow> RunStderrTail res))
        }
      | None \<Rightarrow> gate_stage cfg path (with_usage task result))
   }"

text \<open>The budget slot, the last gate before the process.\<close>

definition budget_stage :: "worker_config \<Rightarrow> string \<Rightarrow> string \<Rightarrow> bool \<Rightarrow> task \<Rightarrow> unit result prog" where
  "budget_stage cfg path prompt full task =
     (case Budget cfg of
        None \<Rightarrow> claude_stage cfg path prompt full task
      | Some b \<Rightarrow> do {
          now \<leftarrow> now_prog;
          r \<leftarrow> EnfCheckAndIncrementReason b now;
          (case r of
             Inl e \<Rightarrow> do {
               removeWorktree (WorktreePath task);
               fail cfg task (''budget gate error: '' @ err_text e)
             }
           | Inr reason \<Rightarrow>
               if reason = BudgetReasonAllowed then claude_stage cfg path prompt full task
               else do {
                 when_some (Metrics cfg) (\<lambda>m. MetBudgetBlock m reason);
                 removeWorktree (WorktreePath task);
                 cancel cfg task
               })
        })"

text \<open>The prompt and the second look at the window.\<close>

definition window_stage :: "worker_config \<Rightarrow> string \<Rightarrow> task \<Rightarrow> unit result prog" where
  "window_stage cfg path task = do {
     prompt \<leftarrow> ask template_reply;
     (case prompt of
        Inl e \<Rightarrow> fail cfg task (''render prompt: '' @ err_text e)
      | Inr text \<Rightarrow> do {
          full \<leftarrow> isFullMode cfg;
          now \<leftarrow> now_prog;
          if AllowNow now full (Windows cfg) then budget_stage cfg path text full task
          else do {
            when_some (Metrics cfg) (\<lambda>m. MetWindowClose m);
            removeWorktree (WorktreePath task);
            cancel cfg task
          }
        })
   }"

definition worktree_stage :: "worker_config \<Rightarrow> task \<Rightarrow> unit result prog" where
  "worktree_stage cfg task = do {
     let path = worktree_path cfg task;
     e \<leftarrow> createWorktree cfg task path (task_branch task);
     (case e of
        Some er \<Rightarrow> fail cfg task (''create worktree: '' @ err_text er)
      | None \<Rightarrow> do {
          let t = task\<lparr> WorktreePath := path \<rparr>;
          _ \<leftarrow> call (Update (TaskRepo cfg) t);
          c \<leftarrow> ctx_done;
          if c then cancel cfg t else window_stage cfg path t
        })
   }"

definition RunTask :: "worker_config \<Rightarrow> task \<Rightarrow> unit result prog" where
  "RunTask cfg task0 = do {
     now \<leftarrow> now_prog;
     let task = task0\<lparr> Status := TaskStatusRunning, StartedAt := Some now \<rparr>;
     r \<leftarrow> call (Update (TaskRepo cfg) task);
     (case r of
        Inl e \<Rightarrow> ret (Inl (EWrap ''mark running'' e))
      | Inr _ \<Rightarrow> do {
          recordEvent cfg (ID task) EventKindStarted
            (JObj [(''issue'', JInt (IssueNumber task)), (''repo'', JStr (RepoFullName task))]);
          when_some (Slack cfg) (\<lambda>s. do {
            _ \<leftarrow> SlackStarted s task;
            recordEvent cfg (ID task) EventKindSlackSent (JObj [(''kind'', JStr ''started'')])
          });
          worktree_stage cfg task
        })
   }"

end
