(* ===== verification/Scheduler.thy ===== *)
theory Scheduler
  imports Worker Claims
begin

text \<open>internal/scheduler/scheduler.go and reclaimer.go: the pool of worker goroutines, the
  tick that polls and dispatches, the map of cancel functions and the reclaimer of stale
  claims. A goroutine in flight is an entry of a list with the number of its context; the
  tick is a program, and the goroutines' exits, the cancellations and everything else that
  happens to the world are steps of a relation, so that invariants hold for every
  interleaving.\<close>

section \<open>State\<close>

record scheduler_config =
  SchedWindows :: "active_window list"
  SchedTaskRepo :: "world task_repo"
  SchedAppState :: "world app_state_repo option"
  SchedPoller :: "go_error option prog option"
  SchedBudgetGate :: "(time \<Rightarrow> budget_reason result prog) option"
  SchedTickInterval :: int
  SchedWorkerID :: string
  SchedMaxParallel :: int

text \<open>The semaphore's length and capacity, the cancel functions by task id, the goroutines
  in flight, the contexts that were cancelled and whether stopCh is closed.\<close>

record scheduler =
  Sem :: nat
  SemCap :: nat
  CancelMap :: "string \<Rightarrow> nat option"
  InFlight :: "(nat \<times> task) list"
  NextCtx :: nat
  CancelledCtx :: "nat list"
  StopClosed :: bool

definition NewScheduler :: "scheduler_config \<Rightarrow> scheduler_config \<times> scheduler" where
  "NewScheduler cfg =
     (let cfg1 = (if SchedTickInterval cfg \<le> 0 then cfg\<lparr> SchedTickInterval := 30 * Second \<rparr> else cfg);
          cfg2 = (if SchedMaxParallel cfg1 < 1 then cfg1\<lparr> SchedMaxParallel := 1 \<rparr> else cfg1)
      in (cfg2, \<lparr> Sem = 0, SemCap = nat (SchedMaxParallel cfg2), CancelMap = Map.empty, InFlight = [],
                  NextCtx = 0, CancelledCtx = [], StopClosed = False \<rparr>))"

definition SlotsInUse :: "scheduler \<Rightarrow> nat" where "SlotsInUse st = Sem st"

definition MaxSlots :: "scheduler \<Rightarrow> nat" where "MaxSlots st = SemCap st"

section \<open>Operations\<close>

definition cancel_ctx :: "nat \<Rightarrow> scheduler \<Rightarrow> scheduler" where
  "cancel_ctx c st = st\<lparr> CancelledCtx := List.insert c (CancelledCtx st) \<rparr>"

definition CancelTask :: "string \<Rightarrow> scheduler \<Rightarrow> unit result \<times> scheduler" where
  "CancelTask taskID st =
     (case CancelMap st taskID of
        None \<Rightarrow> (Inl ErrNotFound, st)
      | Some c \<Rightarrow> (Inr (), cancel_ctx c st))"

definition sched_isFullMode :: "scheduler_config \<Rightarrow> bool prog" where
  "sched_isFullMode cfg =
     (case SchedAppState cfg of
        None \<Rightarrow> ret False
      | Some repo \<Rightarrow> do {
          r \<leftarrow> call (Get repo ''full_mode'');
          ft \<leftarrow> State (\<lambda>w. (float_text w, w));
          ret (case r of Inl _ \<Rightarrow> False | Inr st \<Rightarrow> containsTrue (json_text ft (ValueJSON st)))
        })"

text \<open>The caller holds a slot. A claimed task gets a context, its cancel function is
  registered and a goroutine started.\<close>

definition dispatchOne :: "scheduler_config \<Rightarrow> scheduler \<Rightarrow> (bool \<times> scheduler) prog" where
  "dispatchOne cfg st = do {
     r \<leftarrow> call (ClaimNext (SchedTaskRepo cfg) (SchedWorkerID cfg));
     ret (case r of
        Inl _ \<Rightarrow> (False, st)
      | Inr None \<Rightarrow> (False, st)
      | Inr (Some t) \<Rightarrow>
          (True, st\<lparr> CancelMap := (CancelMap st)(ID t \<mapsto> NextCtx st),
                     InFlight := InFlight st @ [(NextCtx st, t)], NextCtx := Suc (NextCtx st) \<rparr>))
   }"

text \<open>The deferred calls of the goroutine: cancel, delete from the map, free the slot.\<close>

definition goroutine_exit :: "nat \<times> task \<Rightarrow> scheduler \<Rightarrow> scheduler" where
  "goroutine_exit ct st =
     (cancel_ctx (fst ct) st)\<lparr> CancelMap := (CancelMap st)(ID (snd ct) := None),
        Sem := Sem st - 1, InFlight := remove1 ct (InFlight st) \<rparr>"

text \<open>The loop of the tick. Each round takes a free slot, so their number bounds the rounds.\<close>

primrec fill_slots :: "nat \<Rightarrow> scheduler_config \<Rightarrow> scheduler \<Rightarrow> scheduler prog" where
  "fill_slots 0 cfg st = ret st"
| "fill_slots (Suc n) cfg st =
     (if Sem st < SemCap st
      then do {
        (dispatched, st1) \<leftarrow> dispatchOne cfg (st\<lparr> Sem := Suc (Sem st) \<rparr>);
        if dispatched then fill_slots n cfg st1 else ret (st1\<lparr> Sem := Sem st1 - 1 \<rparr>)
      }
      else ret st)"

definition sched_tick :: "scheduler_config \<Rightarrow> scheduler \<Rightarrow> scheduler prog" where
  "sched_tick cfg st = do {
     fullMode \<leftarrow> sched_isFullMode cfg;
     now \<leftarrow> now_prog;
     if \<not> AllowNow now fullMode (SchedWindows cfg) then ret st
     else do {
       when_some (SchedPoller cfg) (\<lambda>poll. do { _ \<leftarrow> poll; ret () });
       blocked \<leftarrow> (case SchedBudgetGate cfg of
           None \<Rightarrow> ret False
         | Some gate \<Rightarrow> do {
             now2 \<leftarrow> now_prog;
             r \<leftarrow> gate now2;
             ret (case r of Inl _ \<Rightarrow> False | Inr reason \<Rightarrow> reason \<noteq> BudgetReasonAllowed)
           });
       if blocked then ret st else fill_slots (SemCap st - Sem st) cfg st
     }
   }"

text \<open>What the select of Start can receive; the loop ends with a stop or a cancelled
  context.\<close>

datatype sched_event = StopRequested | ContextDone | TickerFired

fun StartScheduler :: "scheduler_config \<Rightarrow> sched_event list \<Rightarrow> scheduler \<Rightarrow> scheduler prog" where
  "StartScheduler cfg [] st = ret st"
| "StartScheduler cfg (StopRequested # evs) st = ret st"
| "StartScheduler cfg (ContextDone # evs) st = ret st"
| "StartScheduler cfg (TickerFired # evs) st = do { st1 \<leftarrow> sched_tick cfg st; StartScheduler cfg evs st1 }"

text \<open>Closing a closed channel panics. Stop returns when no goroutine is in flight.\<close>

definition StopScheduler :: "scheduler \<Rightarrow> scheduler result" where
  "StopScheduler st = (if StopClosed st then Inl (EMsg ''close of closed channel'')
     else Inr (st\<lparr> StopClosed := True \<rparr>))"

definition stop_returns :: "scheduler \<Rightarrow> bool" where
  "stop_returns st = (StopClosed st \<and> InFlight st = [])"

section \<open>The reclaimer\<close>

record reclaimer =
  ReclaimRepo :: "world task_repo option"
  RecInterval :: int
  RecLease :: int

definition reclaim_once :: "world task_repo \<Rightarrow> int \<Rightarrow> int result prog" where
  "reclaim_once repo lease = do {
     now \<leftarrow> now_prog;
     call (ReclaimStale repo (now - lease))
   }"

primrec reclaim_loop :: "world task_repo \<Rightarrow> int \<Rightarrow> sched_event list \<Rightarrow> unit prog" where
  "reclaim_loop repo lease [] = ret ()"
| "reclaim_loop repo lease (ev # evs) =
     (if ev = TickerFired then do { _ \<leftarrow> reclaim_once repo lease; reclaim_loop repo lease evs } else ret ())"

definition StartReclaimer :: "reclaimer \<Rightarrow> sched_event list \<Rightarrow> unit prog" where
  "StartReclaimer r evs =
     (case ReclaimRepo r of
        None \<Rightarrow> ret ()
      | Some repo \<Rightarrow> if RecInterval r \<le> 0 \<or> RecLease r \<le> 0 then ret () else reclaim_loop repo (RecLease r) evs)"

section \<open>Every interleaving\<close>

text \<open>A step: a slot is taken and a task claimed or the slot given back, a goroutine exits,
  someone cancels a task, or anything else happens to the world.\<close>

inductive sched_step :: "scheduler_config \<Rightarrow> scheduler \<times> world \<Rightarrow> scheduler \<times> world \<Rightarrow> bool"
  for cfg :: scheduler_config where
  dispatch: "Sem st < SemCap st \<Longrightarrow>
    run_state (dispatchOne cfg (st\<lparr> Sem := Suc (Sem st) \<rparr>)) w = ((True, st'), w') \<Longrightarrow>
    sched_step cfg (st, w) (st', w')"
| no_task: "Sem st < SemCap st \<Longrightarrow>
    run_state (dispatchOne cfg (st\<lparr> Sem := Suc (Sem st) \<rparr>)) w = ((False, st'), w') \<Longrightarrow>
    sched_step cfg (st, w) (st'\<lparr> Sem := Sem st' - 1 \<rparr>, w')"
| exit: "ct \<in> set (InFlight st) \<Longrightarrow> sched_step cfg (st, w) (goroutine_exit ct st, w)"
| cancel_task: "CancelTask i st = (r, st') \<Longrightarrow> sched_step cfg (st, w) (st', w)"
| stop: "StopScheduler st = Inr st' \<Longrightarrow> sched_step cfg (st, w) (st', w)"
| elsewhere: "sched_step cfg (st, w) (st, w')"

inductive sched_reach :: "scheduler_config \<Rightarrow>
    (scheduler \<times> world \<Rightarrow> scheduler \<times> world \<Rightarrow> bool) \<Rightarrow> scheduler \<times> world \<Rightarrow> scheduler \<times> world \<Rightarrow> bool"
  for cfg :: scheduler_config and P :: "scheduler \<times> world \<Rightarrow> scheduler \<times> world \<Rightarrow> bool" where
  start: "sched_reach cfg P s s"
| step: "sched_reach cfg P s s1 \<Longrightarrow> sched_step cfg s1 s2 \<Longrightarrow> P s1 s2 \<Longrightarrow> sched_reach cfg P s s2"

inductive_cases sched_stepE: "sched_step cfg (st, w) (st', w')"

lemmas sched_step_cases = sched_stepE[consumes 1, case_names dispatch no_task exit cancel_task stop elsewhere]

lemma dispatchOne_cases:
  assumes "run_state (dispatchOne cfg st) w = ((b, st'), w')"
  obtains (claimed) t where "b" "ClaimNext (SchedTaskRepo cfg) (SchedWorkerID cfg) w = (Inr (Some t), w')"
      "st' = st\<lparr> CancelMap := (CancelMap st)(ID t \<mapsto> NextCtx st),
                 InFlight := InFlight st @ [(NextCtx st, t)], NextCtx := Suc (NextCtx st) \<rparr>"
  | (unclaimed) r where "\<not> b" "st' = st" "ClaimNext (SchedTaskRepo cfg) (SchedWorkerID cfg) w = (r, w')"
      "\<forall>t. r \<noteq> Inr (Some t)"
  using assms
  by (cases "fst (ClaimNext (SchedTaskRepo cfg) (SchedWorkerID cfg) w)")
    (auto simp: dispatchOne_def split: prod.splits sum.splits option.splits)

lemma distinct_map_remove1: "distinct (map f xs) \<Longrightarrow> distinct (map f (remove1 x xs))"
  by (auto simp: distinct_map intro: inj_on_subset)

text \<open>The semaphore counts the goroutines; a registered cancel function belongs to one.\<close>

definition slots_ok :: "scheduler \<Rightarrow> bool" where
  "slots_ok st = (Sem st = length (InFlight st) \<and> Sem st \<le> SemCap st \<and>
     list_all (\<lambda>ct. fst ct < NextCtx st) (InFlight st) \<and> distinct (map fst (InFlight st)) \<and>
     (\<forall>i c. CancelMap st i = Some c \<longrightarrow> (\<exists>t. (c, t) \<in> set (InFlight st) \<and> ID t = i)))"

lemma slots_ok_step:
  assumes "sched_step cfg (st, w) (st', w')" "slots_ok st"
  shows "slots_ok st' \<and> SemCap st' = SemCap st"
  using assms(1)
proof (cases rule: sched_step_cases)
  case dispatch
  show ?thesis using dispatch(2) assms(2) dispatch(1)
    by (cases rule: dispatchOne_cases)
      (fastforce simp: slots_ok_def list_all_iff less_Suc_eq split: if_splits)+
next
  case (no_task st1)
  show ?thesis using no_task(3) assms(2) no_task(1)
    by (cases rule: dispatchOne_cases) (auto simp: slots_ok_def)
next
  case (exit ct)
  have "\<exists>t. (c, t) \<in> set (remove1 ct (InFlight st)) \<and> ID t = i"
    if "((CancelMap st)(ID (snd ct) := None)) i = Some c" for c i
  proof -
    have i: "i \<noteq> ID (snd ct)" "CancelMap st i = Some c" using that by (auto split: if_splits)
    then obtain t where "(c, t) \<in> set (InFlight st)" "ID t = i" using assms(2) by (auto simp: slots_ok_def)
    moreover from this i have "(c, t) \<noteq> ct" by auto
    then have "((c, t) \<in> set (remove1 ct (InFlight st))) = ((c, t) \<in> set (InFlight st))" by (rule in_set_remove1)
    ultimately show ?thesis by metis
  qed
  moreover have "list_all (\<lambda>ct. fst ct < NextCtx st) (remove1 ct (InFlight st))"
    using assms(2) by (auto simp: slots_ok_def list_all_iff dest: notin_set_remove1)
  moreover have "distinct (map fst (remove1 ct (InFlight st)))"
    using assms(2) by (simp add: slots_ok_def distinct_map_remove1)
  ultimately show ?thesis using exit assms(2)
    unfolding slots_ok_def by (auto simp: goroutine_exit_def cancel_ctx_def length_remove1 simp del: fun_upd_apply)
next
  case (cancel_task i r)
  then show ?thesis using assms(2)
    by (auto simp: CancelTask_def cancel_ctx_def slots_ok_def split: option.splits)
next
  case stop
  then show ?thesis using assms(2) by (auto simp: StopScheduler_def slots_ok_def split: if_splits)
qed (use assms in simp_all)

section \<open>Claims of the pool\<close>

text \<open>A claim that returned a task: the row was eligible, and it is that row.\<close>

lemma claim_returns:
  assumes c: "repo_ClaimNext True wid d = (Inr (Some t), d')" and wf: "wf_db d" and w: "wid \<noteq> []"
    and fresh: "fresh_claim wid d"
  obtains r where "r \<in> set (task_rows d)" "eligible (task_rows d) r"
    "t = toDomainTask (claim_row (Some wid) (clock d (ops d)) r)"
    "task_rows d' = map (\<lambda>y. if gID y = gID r then claim_row (Some wid) (clock d (ops d)) y else y) (task_rows d)"
proof -
  have n: "null_string wid = Some wid" using w by (simp add: null_string_def)
  obtain k d1 where e1: "exec (ClaimNextTask (Some wid)) d = (Inr k, d1)" "k \<noteq> 0"
    using c n by (auto simp: repo_ClaimNext_def split: prod.splits sum.splits if_splits)
  obtain i d2 where e2: "exec (GetClaimedTaskID (Some wid)) d1 = (Inr i, d2)"
    using c n e1 by (auto simp: repo_ClaimNext_def split: prod.splits sum.splits)
  have g: "repo_GetByID i d2 = (Inr t, d')"
    using c n e1 e2 by (auto simp: repo_ClaimNext_def split: prod.splits sum.splits)
  have cl: "ClaimNextTask (Some wid) (clock d (ops d)) (d\<lparr> ops := Suc (ops d) \<rparr>) = (Inr k, d1)"
    using e1(1) by (cases rule: exec_cases) auto
  then obtain r where r: "pick (task_rows d) = Some r"
    "d1 = d\<lparr> ops := Suc (ops d) \<rparr>\<lparr> task_rows :=
      map (\<lambda>y. if gID y = gID r then claim_row (Some wid) (clock d (ops d)) y else y) (task_rows d) \<rparr>"
    using e1(2) by (cases rule: claim_cases) auto
  have wf': "wf_rows (task_rows d)" using wf by (simp add: wf_db_def)
  have q: "GetClaimedTaskID (Some wid) m (d1\<lparr> ops := x \<rparr>) = (Inr (gID r), d1\<lparr> ops := x \<rparr>)" for m x
    by (rule get_claimed_after_claim[OF wf' pick_Some(1)[OF r(1)] w fresh[unfolded fresh_claim_def]])
      (simp add: r(2))
  have "i = gID r \<and> task_rows d2 = task_rows d1"
    using e2 by (cases rule: exec_cases) (use q in auto)
  moreover have "row_at d1 (gID r) = Some (claim_row (Some wid) (clock d (ops d)) r)"
  proof -
    have "row_at d (gID r) = Some r" using wf pick_Some(1)[OF r(1)] by (rule row_at_mem)
    then have "row_at (d\<lparr> task_rows := map (\<lambda>y. if gID y = gID r then claim_row (Some wid) (clock d (ops d)) y else y) (task_rows d) \<rparr>) (gID r)
        = Some (claim_row (Some wid) (clock d (ops d)) r)"
      by (subst row_at_map) simp_all
    then show ?thesis using r(2) by (simp add: row_at_def)
  qed
  ultimately have "t = toDomainTask (claim_row (Some wid) (clock d (ops d)) r)" "task_rows d' = task_rows d1"
    using g by (auto elim!: repo_GetByID_cases simp: row_at_def)
  then show thesis using that[of r] pick_Some[OF r(1)] r(2) by simp
qed

text \<open>Every goroutine can be cancelled when claims are fresh and no row of a task in flight
  becomes queued again.\<close>

definition orderly :: "scheduler_config \<Rightarrow> scheduler \<times> world \<Rightarrow> scheduler \<times> world \<Rightarrow> bool" where
  "orderly cfg s s' = (wf_db (snd s) \<and> fresh_claim (SchedWorkerID cfg) (snd s) \<and>
     (\<forall>ct \<in> set (InFlight (fst s')). \<forall>u. task_view (snd s') (ID (snd ct)) = Some u \<longrightarrow>
        Status u \<noteq> TaskStatusQueued))"

definition registered :: "scheduler \<Rightarrow> bool" where
  "registered st = (distinct (map (ID \<circ> snd) (InFlight st)) \<and>
     (\<forall>ct \<in> set (InFlight st). CancelMap st (ID (snd ct)) = Some (fst ct)))"

lemma registered_cong:
  "InFlight st' = InFlight st \<Longrightarrow> CancelMap st' = CancelMap st \<Longrightarrow> registered st' = registered st"
  by (simp add: registered_def)

definition none_queued :: "scheduler \<Rightarrow> world \<Rightarrow> bool" where
  "none_queued st w = (\<forall>ct \<in> set (InFlight st). \<forall>u. task_view w (ID (snd ct)) = Some u \<longrightarrow>
     Status u \<noteq> TaskStatusQueued)"

lemma registered_step:
  assumes "sched_step cfg (st, w) (st', w')" "SchedTaskRepo cfg = gorm_task_repo True" "SchedWorkerID cfg \<noteq> []"
    and "wf_db w" "fresh_claim (SchedWorkerID cfg) w" "none_queued st w" "registered st"
  shows "registered st'"
  using assms(1)
proof (cases rule: sched_step_cases)
  case dispatch
  show ?thesis using dispatch(2)
  proof (cases rule: dispatchOne_cases)
    case (claimed t)
    have c: "repo_ClaimNext True (SchedWorkerID cfg) w = (Inr (Some t), w')"
      using claimed(2) assms(2) by (simp add: gorm_task_repo_def)
    obtain r where r: "r \<in> set (task_rows w)" "eligible (task_rows w) r"
      "t = toDomainTask (claim_row (Some (SchedWorkerID cfg)) (clock w (ops w)) r)"
      using claim_returns[OF c assms(4,3,5)] by blast
    have "task_view w (ID t) = Some (toDomainTask r)" "Status (toDomainTask r) = TaskStatusQueued"
      using r row_at_mem[OF assms(4) r(1)] by (simp_all add: task_view_Some eligible_def)
    then have new: "ID t \<noteq> ID (snd ct)" if "ct \<in> set (InFlight st)" for ct
      using that assms(6) by (auto simp: none_queued_def)
    then show ?thesis using claimed(3) assms(7) by (auto simp: registered_def) metis
  qed simp
next
  case (no_task st1)
  show ?thesis using no_task(3)
    by (cases rule: dispatchOne_cases) (use no_task(1) assms(7) in \<open>simp_all add: registered_def\<close>)
next
  case (exit ct)
  have d: "distinct (map (ID \<circ> snd) (InFlight st))" using assms(7) by (simp add: registered_def)
  have "ID (snd x) \<noteq> ID (snd ct)" if "x \<in> set (remove1 ct (InFlight st))" for x
  proof -
    have "distinct (InFlight st)" using d by (simp add: distinct_map)
    then have "x \<noteq> ct" "x \<in> set (InFlight st)" using that by simp_all
    then show ?thesis using d exit(1) by (auto simp: distinct_map inj_on_def)
  qed
  then show ?thesis using exit(2) assms(7) distinct_map_remove1[OF d]
    by (auto simp: registered_def goroutine_exit_def cancel_ctx_def dest: set_remove1_subset[THEN subsetD])
next
  case (cancel_task i r)
  then have "InFlight st' = InFlight st" "CancelMap st' = CancelMap st"
    by (auto simp: CancelTask_def cancel_ctx_def split: option.splits)
  then show ?thesis using assms(7) registered_cong by blast
next
  case stop
  then have "InFlight st' = InFlight st" "CancelMap st' = CancelMap st"
    by (auto simp: StopScheduler_def split: if_splits)
  then show ?thesis using assms(7) registered_cong by blast
qed (use assms in simp_all)

lemma slots_ok_reach:
  assumes "sched_reach cfg P s s'"
  shows "slots_ok (fst s) \<Longrightarrow> slots_ok (fst s') \<and> SemCap (fst s') = SemCap (fst s)"
  using assms
proof (induction rule: sched_reach.induct)
  case (step s s1 s2)
  then show ?case using slots_ok_step[of cfg "fst s1" "snd s1" "fst s2" "snd s2"] by simp
qed simp

lemma registered_reach:
  assumes "sched_reach cfg (orderly cfg) s s'" "SchedTaskRepo cfg = gorm_task_repo True" "SchedWorkerID cfg \<noteq> []"
  shows "registered (fst s) \<and> none_queued (fst s) (snd s) \<Longrightarrow> registered (fst s') \<and> none_queued (fst s') (snd s')"
  using assms(1)
proof (induction rule: sched_reach.induct)
  case (step s s1 s2)
  then show ?case using registered_step[of cfg "fst s1" "snd s1" "fst s2" "snd s2"] assms(2,3)
    by (auto simp: orderly_def none_queued_def)
qed simp

lemma new_scheduler_ok: "slots_ok (snd (NewScheduler cfg)) \<and> registered (snd (NewScheduler cfg)) \<and>
    0 < SemCap (snd (NewScheduler cfg))"
  by (simp add: NewScheduler_def slots_ok_def registered_def Let_def)

section \<open>The dispatch loop\<close>

text \<open>A law on claims of the repository: what a claim without a task says, and that a
  claim keeps a working database working.\<close>

lemma claim_none_works:
  assumes "repo_ClaimNext True wid w = (r, w')" "db_works w" "wf_db w" "wid \<noteq> []" "fresh_claim wid w"
  shows "(\<exists>t. r = Inr (Some t)) \<or> (r = Inr None \<and> (\<forall>q \<in> set (task_rows w'). \<not> eligible (task_rows w') q))"
  using claim_spec[OF assms(2-5)] assms(1) by (cases r) (auto split: option.splits)

text \<open>What a statement leaves of the environment.\<close>

definition later :: "world \<Rightarrow> world \<Rightarrow> bool" where
  "later w w' = (clock w' = clock w \<and> outcome w' = outcome w \<and> ops w \<le> ops w')"

lemma later_rel: "transp later" "reflp later" "later d (d\<lparr> ops := Suc (ops d) \<rparr>)"
  by (auto simp: transp_def reflp_def later_def)

lemma claim_later:
  assumes "repo_ClaimNext True wid w = (r, w')"
  shows "later w w' \<and> ops w < ops w'"
proof -
  let ?x = "exec (ClaimNextTask (null_string wid)) w"
  have 1: "later (w\<lparr> ops := Suc (ops w) \<rparr>) (snd ?x)"
    by (auto simp: exec_def Let_def later_def ClaimNextTask_def split: db_outcome.split option.split)
  have 2: "later d (snd (exec (GetClaimedTaskID x) d))" for x and d :: world
    by (rule exec_rel[OF later_rel]) (auto simp: later_def GetClaimedTaskID_def Let_def split: option.split list.split)
  have 3: "later d (snd (repo_GetByID i d))" for i and d :: world
  proof -
    obtain a d' where "repo_GetByID i d = (a, d')" by fastforce
    then show ?thesis by (auto simp: later_def elim!: repo_GetByID_cases)
  qed
  have t: "later a b \<Longrightarrow> later b c \<Longrightarrow> later a c" for a b c using later_rel(1) by (rule transpD)
  obtain k d1 where x: "?x = (k, d1)" by fastforce
  obtain i d2 where y: "exec (GetClaimedTaskID (null_string wid)) d1 = (i, d2)" by fastforce
  have l: "later (w\<lparr> ops := Suc (ops w) \<rparr>) d1" "later d1 d2"
    using 1 2[where x = "null_string wid" and d = d1] x y by simp_all
  have "w' = d1 \<or> w' = d2 \<or> (\<exists>i. w' = snd (repo_GetByID i d2))"
    using assms x y
    by (auto simp: repo_ClaimNext_def split: sum.splits if_splits prod.splits) (metis snd_conv)+
  then have "later (w\<lparr> ops := Suc (ops w) \<rparr>) w'" using l 3 t by blast
  then show ?thesis by (simp add: later_def)
qed

definition rising :: "world \<Rightarrow> bool" where
  "rising w = (\<forall>n m. ops w \<le> n \<longrightarrow> n < m \<longrightarrow> clock w n < clock w m)"

lemma fresh_after_claim:
  assumes "fresh_claim wid w" "rising w" "later w w'" "ops w < ops w'"
    and "task_rows w' = map (\<lambda>y. if gID y = i then claim_row (Some wid) (clock w (ops w)) y else y) (task_rows w)"
  shows "fresh_claim wid w' \<and> rising w'"
proof -
  have c: "clock w (ops w) < clock w (ops w')" using assms(2,4) by (simp add: rising_def)
  have "\<exists>c. gClaimedAt x = Some c \<and> c < clock w (ops w')"
    if x: "x \<in> set (task_rows w')" "gStatus x = TaskStatusRunning" "gWorkerID x = Some wid" for x
  proof -
    obtain y where y: "y \<in> set (task_rows w)" "x = (if gID y = i then claim_row (Some wid) (clock w (ops w)) y else y)"
      using x(1)[unfolded assms(5) set_map image_iff] by (elim bexE)
    show ?thesis
    proof (cases "gID y = i")
      case False
      then obtain d where "gClaimedAt x = Some d" "d < clock w (ops w)"
        using y x(2,3) assms(1) by (auto simp: fresh_claim_def)
      then show ?thesis using c by auto
    qed (use y c in simp)
  qed
  then show ?thesis using assms(2-4) by (auto simp: fresh_claim_def rising_def later_def)
qed

lemma view_after_claim:
  assumes "wf_db w" "r \<in> set (task_rows w)"
    and "task_rows w' = map (\<lambda>y. if gID y = gID r then claim_row v n y else y) (task_rows w)"
  shows "task_view w' = (task_view w)(gID r \<mapsto> toDomainTask (claim_row v n r))"
proof -
  have "task_view w' = task_view (w\<lparr> task_rows := map (\<lambda>y. if gID y = gID r then claim_row v n y else y) (task_rows w) \<rparr>)"
    by (rule task_view_rows_eq) (simp add: assms(3))
  then show ?thesis using task_view_replace[where f = "claim_row v n" and d = w and i = "gID r"] row_at_mem[OF assms(1,2)] by simp
qed

lemma fill_slots_spec:
  assumes "run_state (fill_slots n cfg st) w = (st', w')" "n = SemCap st - Sem st" "Sem st \<le> SemCap st"
    and "SchedTaskRepo cfg = gorm_task_repo True" "SchedWorkerID cfg \<noteq> []"
    and "db_works w" "wf_db w" "fresh_claim (SchedWorkerID cfg) w" "rising w"
  shows "(Sem st' = SemCap st \<or> (\<forall>q \<in> set (task_rows w'). \<not> eligible (task_rows w') q)) \<and>
    (\<forall>i u. task_view w i = Some u \<longrightarrow> Status u = TaskStatusRunning \<longrightarrow> task_view w' i = Some u) \<and>
    (\<exists>new. InFlight st' = InFlight st @ new \<and> Sem st' = Sem st + length new \<and>
      list_all (\<lambda>(c, t). task_view w' (ID t) = Some t \<and> Status t = TaskStatusRunning) new)"
  using assms(1-3,6-9)
proof (induction n arbitrary: st w)
  case 0
  then show ?case by simp
next
  case (Suc n)
  let ?st = "st\<lparr> Sem := Suc (Sem st) \<rparr>" and ?id = "SchedWorkerID cfg"
  have free: "Sem st < SemCap st" using Suc.prems(2) by simp
  obtain b st1 w1 where d: "run_state (dispatchOne cfg ?st) w = ((b, st1), w1)" by (metis prod.exhaust)
  show ?case using d
  proof (cases rule: dispatchOne_cases)
    case (claimed t)
    have c: "repo_ClaimNext True ?id w = (Inr (Some t), w1)"
      using claimed(2) assms(4) by (simp add: gorm_task_repo_def)
    obtain r where r: "r \<in> set (task_rows w)" "eligible (task_rows w) r"
      "t = toDomainTask (claim_row (Some ?id) (clock w (ops w)) r)"
      "task_rows w1 = map (\<lambda>y. if gID y = gID r then claim_row (Some ?id) (clock w (ops w)) y else y) (task_rows w)"
      using claim_returns[OF c Suc.prems(5) assms(5) Suc.prems(6)] by blast
    have l: "later w w1" "ops w < ops w1" using claim_later[OF c] by simp_all
    note f = fresh_after_claim[OF Suc.prems(6,7) l r(4)]
    have w1: "db_works w1" "wf_db w1"
      using Suc.prems(4,5) l repo_ClaimNext_rows[OF c] by (simp_all add: db_works_def later_def)
    have v: "task_view w1 = (task_view w)(gID r \<mapsto> t)" using view_after_claim[OF Suc.prems(5) r(1,4)] r(3) by simp
    have tr: "ID t = gID r" "Status t = TaskStatusRunning" using r(3) by simp_all
    have old: "Status u = TaskStatusQueued" if "task_view w (gID r) = Some u" for u
      using that row_at_mem[OF Suc.prems(5) r(1)] r(2) by (auto simp: task_view_def eligible_def)
    have run: "run_state (fill_slots n cfg st1) w1 = (st', w')"
      using Suc.prems(1) d claimed(1) free by simp
    have s1: "n = SemCap st1 - Sem st1" "Sem st1 \<le> SemCap st1" "SemCap st1 = SemCap st" "Sem st1 = Suc (Sem st)"
      "InFlight st1 = InFlight st @ [(NextCtx st, t)]"
      using claimed(3) Suc.prems(2) free by simp_all
    from Suc.IH[OF run s1(1,2) w1 conjunct1[OF f] conjunct2[OF f]]
    obtain new where IH: "Sem st' = SemCap st \<or> (\<forall>q \<in> set (task_rows w'). \<not> eligible (task_rows w') q)"
      "\<forall>i u. task_view w1 i = Some u \<longrightarrow> Status u = TaskStatusRunning \<longrightarrow> task_view w' i = Some u"
      "InFlight st' = InFlight st1 @ new" "Sem st' = Sem st1 + length new"
      "list_all (\<lambda>(c, t). task_view w' (ID t) = Some t \<and> Status t = TaskStatusRunning) new"
      using s1(3) by auto
    have "task_view w' (ID t) = Some t" using IH(2) v tr by simp
    moreover have "task_view w' i = Some u" if "task_view w i = Some u" "Status u = TaskStatusRunning" for i u
      using that IH(2) v old by (cases "i = gID r") auto
    ultimately show ?thesis using IH(1,3-5) s1(4,5) tr(2)
      by (intro conjI exI[of _ "(NextCtx st, t) # new"]) auto
  next
    case (unclaimed r)
    have c: "repo_ClaimNext True ?id w = (r, w1)" using unclaimed(3) assms(4) by (simp add: gorm_task_repo_def)
    have e: "\<forall>q \<in> set (task_rows w1). \<not> eligible (task_rows w1) q"
      using claim_none_works[OF c Suc.prems(4,5) assms(5) Suc.prems(6)] unclaimed(4) by blast
    have rows: "task_rows w1 = task_rows w"
      using claim_spec[OF Suc.prems(4,5) assms(5) Suc.prems(6)] c unclaimed(4)
      by (cases r) (auto split: option.splits)
    have "st' = st1\<lparr> Sem := Sem st1 - 1 \<rparr>" "w' = w1"
      using Suc.prems(1) d unclaimed(1) free by simp_all
    then show ?thesis using e rows unclaimed(2) task_view_rows_eq[of w1 w] by simp
  qed
qed

section \<open>Properties\<close>

lemma stop_reaches_the_task:
  assumes "sched_reach cfg (orderly cfg) (snd (NewScheduler cfg0), w) (st, w')"
    and "SchedTaskRepo cfg = gorm_task_repo True" "SchedWorkerID cfg \<noteq> []" "(c, t) \<in> set (InFlight st)"
  shows "CancelTask (ID t) st = (Inr (), cancel_ctx c st)"
proof -
  have "none_queued (snd (NewScheduler cfg0)) w" by (simp add: none_queued_def NewScheduler_def Let_def)
  then have "registered st" using registered_reach[OF assms(1-3)] new_scheduler_ok[of cfg0] by simp
  then show ?thesis using assms(4) by (auto simp: registered_def CancelTask_def split: option.split)
qed


text \<open>C13: when the database works, its clock rises and the worker has an id, the dispatch
  loop of a tick leaves no work behind: afterwards every slot is taken or no queued task
  is eligible. Each goroutine it starts has its row, marked as running, in the table, and
  rows that were running stay as they were.\<close>

theorem tick_leaves_no_work:
  assumes "run_state (fill_slots (SemCap st - Sem st) cfg st) w = (st', w')" "Sem st \<le> SemCap st"
    and "SchedTaskRepo cfg = gorm_task_repo True" "SchedWorkerID cfg \<noteq> []"
    and "db_works w" "wf_db w" "fresh_claim (SchedWorkerID cfg) w" "rising w"
  shows "(Sem st' = SemCap st \<or> (\<forall>q \<in> set (task_rows w'). \<not> eligible (task_rows w') q)) \<and>
    (\<forall>i u. task_view w i = Some u \<longrightarrow> Status u = TaskStatusRunning \<longrightarrow> task_view w' i = Some u) \<and>
    (\<exists>new. InFlight st' = InFlight st @ new \<and> Sem st' = Sem st + length new \<and>
      list_all (\<lambda>(c, t). task_view w' (ID t) = Some t \<and> Status t = TaskStatusRunning) new)"
  using fill_slots_spec[OF assms(1) refl assms(2-8)] .

definition sample_sched :: scheduler_config where
  "sample_sched = \<lparr> SchedWindows = [], SchedTaskRepo = gorm_task_repo True, SchedAppState = Some gorm_app_repo,
     SchedPoller = None, SchedBudgetGate = None, SchedTickInterval = 0, SchedWorkerID = ''w'', SchedMaxParallel = 2 \<rparr>"

lemma sample_sched_world:
  "db_works (calm_world sample_db)" "wf_db (calm_world sample_db)" "fresh_claim ''w'' (calm_world sample_db)"
  "rising (calm_world sample_db)"
  using sample_db_ok
  by (simp_all add: db_works_def wf_db_def fresh_claim_def sample_db_rows rising_def)
     (simp add: sample_db_def migrated_db_def)


lemma tick_witness:
  "case run_state (fill_slots 2 sample_sched (snd (NewScheduler sample_sched))) (calm_world sample_db) of (st', w') \<Rightarrow>
     (Sem st' = 2 \<or> (\<forall>q \<in> set (task_rows w'). \<not> eligible (task_rows w') q))"
proof -
  let ?st = "snd (NewScheduler sample_sched)"
  obtain st' w' where r: "run_state (fill_slots 2 sample_sched ?st) (calm_world sample_db) = (st', w')" by fastforce
  have s: "SemCap ?st = 2" "Sem ?st = 0" "SchedTaskRepo sample_sched = gorm_task_repo True" "SchedWorkerID sample_sched = ''w''"
    by (simp_all add: NewScheduler_def sample_sched_def Let_def)
  from tick_leaves_no_work[of ?st sample_sched "calm_world sample_db" st' w'] r s sample_sched_world
  show ?thesis by simp
qed

definition tie_sample :: world where
  "tie_sample = calm_world ((migrated_db (\<lambda>_. 7))\<lparr> task_rows :=
     [sample_row ''a'' ''o/r'' TaskStatusQueued 1, sample_row ''b'' ''o/s'' TaskStatusQueued 2] \<rparr>)"


end
