(* ===== verification/Usage_Repo.thy ===== *)
theory Usage_Repo
  imports Repo_Laws Budget_Gate Stream Go_Fmt "HOL-Library.Char_ord" "HOL-Library.List_Lexorder" "HOL-Library.Multiset"
begin

text \<open>db/sqlc/usage.sql.go and internal/repository/usage_repository.go: the aggregate
  queries over the tasks table, the per-model breakdown, and the key ranges behind the
  cost sums. The DATETIME columns hold UTC, so DATE_FORMAT works on the UTC day. The
  per-model accumulator is kept in the order the models were met, where Go's map
  iteration may take any order among equal costs. A statement is one exec.\<close>

section \<open>The aggregate queries\<close>

definition usage_time :: "gorm_task \<Rightarrow> time" where
  "usage_time r = (case gFinishedAt r of None \<Rightarrow> gCreatedAt r | Some t \<Rightarrow> t)"

text \<open>The bounds are NULL for a zero time, and a comparison with NULL holds for no row.\<close>

definition in_range :: "time \<Rightarrow> time \<Rightarrow> gorm_task \<Rightarrow> bool" where
  "in_range from_ts to_ts r = (\<not> is_zero from_ts \<and> \<not> is_zero to_ts \<and>
     from_ts \<le> usage_time r \<and> usage_time r < to_ts)"

definition row_done :: "gorm_task \<Rightarrow> bool" where
  "row_done r = (gStatus r = TaskStatusDone)"

definition row_failed :: "gorm_task \<Rightarrow> bool" where
  "row_failed r = (gStatus r = TaskStatusFailed \<or> gStatus r = TaskStatusCancelled)"

definition sum_when :: "('r \<Rightarrow> bool) \<Rightarrow> ('r \<Rightarrow> 'n::comm_monoid_add) \<Rightarrow> 'r list \<Rightarrow> 'n" where
  "sum_when p f rs = sum_list (map (\<lambda>r. if p r then f r else 0) rs)"

definition bucket_row :: "string \<Rightarrow> gorm_task list \<Rightarrow> usage_bucket_row" where
  "bucket_row key rs = \<lparr> Bucket = key,
     TaskCount = sum_when row_done (\<lambda>_. 1) rs,
     BucketCostUSD = sum_when row_done gCostUSD rs,
     InputTokens = sum_when row_done gTotalInputTokens rs,
     OutputTokens = sum_when row_done gTotalOutputTokens rs,
     CacheReadTokens = sum_when row_done gCacheReadInputTokens rs,
     CacheCreationTokens = sum_when row_done gCacheCreationInputTokens rs,
     FailedCostUSD = sum_when row_failed gCostUSD rs \<rparr>"

text \<open>GROUP BY bucket ORDER BY bucket.\<close>

definition group_rows :: "(gorm_task \<Rightarrow> string) \<Rightarrow> gorm_task list \<Rightarrow> usage_bucket_row list" where
  "group_rows key rs =
     map (\<lambda>k. bucket_row k (filter (\<lambda>r. key r = k) rs)) (sort (remdups (map key rs)))"

definition day_bucket :: "gorm_task \<Rightarrow> string" where
  "day_bucket r = format_date (local_day UTC (usage_time r))"

definition week_bucket :: "gorm_task \<Rightarrow> string" where
  "week_bucket r = format_week (iso_week (local_day UTC (usage_time r)))"

definition month_bucket :: "gorm_task \<Rightarrow> string" where
  "month_bucket r = format_month (local_day UTC (usage_time r))"

definition grouped :: "(gorm_task \<Rightarrow> string) \<Rightarrow> time \<Rightarrow> time \<Rightarrow> 'w db_scheme \<Rightarrow> usage_bucket_row list" where
  "grouped key from_ts to_ts d = group_rows key (filter (in_range from_ts to_ts) (task_rows d))"

definition SumUsageByDay :: "time \<Rightarrow> time \<Rightarrow> time \<Rightarrow> 'w db_scheme \<Rightarrow> usage_bucket_row list result \<times> 'w db_scheme" where
  "SumUsageByDay from_ts to_ts now d = (Inr (grouped day_bucket from_ts to_ts d), d)"

definition SumUsageByWeek :: "time \<Rightarrow> time \<Rightarrow> time \<Rightarrow> 'w db_scheme \<Rightarrow> usage_bucket_row list result \<times> 'w db_scheme" where
  "SumUsageByWeek from_ts to_ts now d = (Inr (grouped week_bucket from_ts to_ts d), d)"

definition SumUsageByMonth :: "time \<Rightarrow> time \<Rightarrow> time \<Rightarrow> 'w db_scheme \<Rightarrow> usage_bucket_row list result \<times> 'w db_scheme" where
  "SumUsageByMonth from_ts to_ts now d = (Inr (grouped month_bucket from_ts to_ts d), d)"

definition SumUsageByModel :: "time \<Rightarrow> time \<Rightarrow> time \<Rightarrow> 'w db_scheme \<Rightarrow> gorm_task list result \<times> 'w db_scheme" where
  "SumUsageByModel from_ts to_ts now d =
     (Inr (filter (\<lambda>r. row_done r \<and> in_range from_ts to_ts r) (task_rows d)), d)"

text \<open>Both cost statements select the same sum.\<close>

definition cost_between :: "time \<Rightarrow> time \<Rightarrow> 'w db_scheme \<Rightarrow> rat" where
  "cost_between start stop d =
     sum_list (map gCostUSD (filter (\<lambda>r. row_done r \<and> in_range start stop r) (task_rows d)))"

definition SqlSumDailyCost :: "time \<Rightarrow> time \<Rightarrow> time \<Rightarrow> 'w db_scheme \<Rightarrow> rat result \<times> 'w db_scheme" where
  "SqlSumDailyCost DayStart DayEnd now d = (Inr (cost_between DayStart DayEnd d), d)"

definition SqlSumWeeklyCost :: "time \<Rightarrow> time \<Rightarrow> time \<Rightarrow> 'w db_scheme \<Rightarrow> rat result \<times> 'w db_scheme" where
  "SqlSumWeeklyCost WeekStart WeekEnd now d = (Inr (cost_between WeekStart WeekEnd d), d)"

section \<open>The repository\<close>

definition sumByDay :: "time \<Rightarrow> time \<Rightarrow> 'w db_scheme \<Rightarrow> usage_bucket_row list result \<times> 'w db_scheme" where
  "sumByDay from_ts to_ts d =
     (case exec (SumUsageByDay from_ts to_ts) d of
        (Inl e, d1) \<Rightarrow> (Inl (EWrap ''sum usage by day'' e), d1) | (Inr rows, d1) \<Rightarrow> (Inr rows, d1))"

definition sumByWeek :: "time \<Rightarrow> time \<Rightarrow> 'w db_scheme \<Rightarrow> usage_bucket_row list result \<times> 'w db_scheme" where
  "sumByWeek from_ts to_ts d =
     (case exec (SumUsageByWeek from_ts to_ts) d of
        (Inl e, d1) \<Rightarrow> (Inl (EWrap ''sum usage by week'' e), d1) | (Inr rows, d1) \<Rightarrow> (Inr rows, d1))"

definition sumByMonth :: "time \<Rightarrow> time \<Rightarrow> 'w db_scheme \<Rightarrow> usage_bucket_row list result \<times> 'w db_scheme" where
  "sumByMonth from_ts to_ts d =
     (case exec (SumUsageByMonth from_ts to_ts) d of
        (Inl e, d1) \<Rightarrow> (Inl (EWrap ''sum usage by month'' e), d1) | (Inr rows, d1) \<Rightarrow> (Inr rows, d1))"

definition SumByBucket :: "time \<Rightarrow> time \<Rightarrow> bucket_kind \<Rightarrow> 'w db_scheme \<Rightarrow>
    usage_bucket_row list result \<times> 'w db_scheme" where
  "SumByBucket from_ts to_ts bucket d =
     (case bucket of
        BucketDay \<Rightarrow> sumByDay from_ts to_ts d
      | BucketWeek \<Rightarrow> sumByWeek from_ts to_ts d
      | BucketMonth \<Rightarrow> sumByMonth from_ts to_ts d
      | BucketOther _ \<Rightarrow> (Inl ErrInvalidBucket, d))"

record model_entry =
  eInput :: int
  eOutput :: int
  eCacheRead :: int
  eCacheCreation :: int
  eCost :: rat

definition zero_entry :: model_entry where
  "zero_entry = \<lparr> eInput = 0, eOutput = 0, eCacheRead = 0, eCacheCreation = 0, eCost = 0 \<rparr>"

definition dec_model_entry :: "model_entry decoder" where
  "dec_model_entry = dec_struct (\<lambda>kvs v.
     let (i, o1) = dec_field ''inputTokens'' dec_int kvs (eInput v);
         (out, o2) = dec_field ''outputTokens'' dec_int kvs (eOutput v);
         (cr, o3) = dec_field ''cacheReadInputTokens'' dec_int kvs (eCacheRead v);
         (cc, o4) = dec_field ''cacheCreationInputTokens'' dec_int kvs (eCacheCreation v);
         (co, o5) = dec_field ''costUSD'' dec_float kvs (eCost v)
     in (\<lparr> eInput = i, eOutput = out, eCacheRead = cr, eCacheCreation = cc, eCost = co \<rparr>,
         o1 \<and> o2 \<and> o3 \<and> o4 \<and> o5))"

definition model_map :: "json option \<Rightarrow> (string \<times> model_entry) list" where
  "model_map j =
     (case j of
        None \<Rightarrow> []
      | Some doc \<Rightarrow> (let (m, ok) = dec_map dec_model_entry zero_entry doc [] in if ok then m else []))"

definition zero_model :: "string \<Rightarrow> usage_model_row" where
  "zero_model i = \<lparr> ModelID = i, ModelTaskCount = 0, ModelCostUSD = 0, ModelInputTokens = 0,
     ModelOutputTokens = 0, ModelCacheReadTokens = 0, ModelCacheCreationTokens = 0 \<rparr>"

definition add_usage :: "model_entry \<Rightarrow> usage_model_row \<Rightarrow> usage_model_row" where
  "add_usage e a = a\<lparr> ModelTaskCount := ModelTaskCount a + 1,
     ModelCostUSD := ModelCostUSD a + eCost e, ModelInputTokens := ModelInputTokens a + eInput e,
     ModelOutputTokens := ModelOutputTokens a + eOutput e,
     ModelCacheReadTokens := ModelCacheReadTokens a + eCacheRead e,
     ModelCacheCreationTokens := ModelCacheCreationTokens a + eCacheCreation e \<rparr>"

fun accumulate :: "string \<Rightarrow> model_entry \<Rightarrow> usage_model_row list \<Rightarrow> usage_model_row list" where
  "accumulate k e [] = [add_usage e (zero_model k)]"
| "accumulate k e (a # as) = (if ModelID a = k then add_usage e a # as else a # accumulate k e as)"

definition row_entry :: "gorm_task \<Rightarrow> model_entry" where
  "row_entry r = \<lparr> eInput = gTotalInputTokens r, eOutput = gTotalOutputTokens r,
     eCacheRead = gCacheReadInputTokens r, eCacheCreation = gCacheCreationInputTokens r,
     eCost = gCostUSD r \<rparr>"

text \<open>What one task contributes: its models, or the unknown model with its totals.\<close>

definition contributions :: "gorm_task \<Rightarrow> (string \<times> model_entry) list" where
  "contributions r =
     (let m = model_map (gModelUsageJSON r) in
      if m = [] then [(''unknown'', row_entry r)]
      else map (\<lambda>(k, e). (if k = '''' then ''unknown'' else k, e)) m)"

definition aggregate_models :: "gorm_task list \<Rightarrow> usage_model_row list" where
  "aggregate_models rs =
     fold (\<lambda>(k, e) acc. accumulate k e acc) (concat (map contributions rs)) []"

text \<open>The exchange sort: a pass over the rest swaps a larger cost to the front.\<close>

fun exchange_pass :: "usage_model_row \<Rightarrow> usage_model_row list \<Rightarrow> usage_model_row \<times> usage_model_row list" where
  "exchange_pass x [] = (x, [])"
| "exchange_pass x (y # ys) =
     (if ModelCostUSD x < ModelCostUSD y
      then (let (m, r) = exchange_pass y ys in (m, x # r))
      else (let (m, r) = exchange_pass x ys in (m, y # r)))"

lemma exchange_pass_length [simp]: "length (snd (exchange_pass x ys)) = length ys"
  by (induction x ys rule: exchange_pass.induct) (auto split: prod.splits)

function exchange_sort :: "usage_model_row list \<Rightarrow> usage_model_row list" where
  "exchange_sort [] = []"
| "exchange_sort (x # xs) = fst (exchange_pass x xs) # exchange_sort (snd (exchange_pass x xs))"
  by pat_completeness auto
termination by (relation "measure length") simp_all

definition SumByModel :: "time \<Rightarrow> time \<Rightarrow> 'w db_scheme \<Rightarrow> usage_model_row list result \<times> 'w db_scheme" where
  "SumByModel from_ts to_ts d =
     (case exec (SumUsageByModel from_ts to_ts) d of
        (Inl e, d1) \<Rightarrow> (Inl (EWrap ''sum usage by model'' e), d1)
      | (Inr rows, d1) \<Rightarrow> (Inr (exchange_sort (aggregate_models rows)), d1))"

section \<open>Key ranges\<close>

definition day_time :: "int \<Rightarrow> time" where "day_time n = time_date UTC n 0 0"

definition dayKeyToRange :: "string \<Rightarrow> (time \<times> time) result" where
  "dayKeyToRange key =
     (case parse_date key of
        None \<Rightarrow> Inl (EWrap ''parse day key'' (EMsg ''parsing time''))
      | Some n \<Rightarrow> Inr (day_time n, add_date UTC (day_time n) 0 1))"

definition weekKeyToRange :: "string \<Rightarrow> (time \<times> time) result" where
  "weekKeyToRange key =
     (case scan_week_key key of
        None \<Rightarrow> Inl (EWrap ''parse week key'' (EMsg ''input does not match format''))
      | Some (year, week) \<Rightarrow>
          let jan4 = day_of_date year 1 4;
              jan4Week = snd (iso_week jan4);
              jan4Mon = add_date UTC (day_time jan4) 0 (- ((weekday_of_day jan4 - 1 + 7) mod 7));
              weekStart = add_date UTC jan4Mon 0 ((week - jan4Week) * 7)
          in Inr (weekStart, add_date UTC weekStart 0 7))"

definition SumDailyCost :: "string \<Rightarrow> 'w db_scheme \<Rightarrow> rat result \<times> 'w db_scheme" where
  "SumDailyCost key d =
     (case dayKeyToRange key of
        Inl e \<Rightarrow> (Inl (EWrap (''sum daily cost parse key '' @ go_quote key) e), d)
      | Inr (start, stop) \<Rightarrow>
          (case exec (SqlSumDailyCost start stop) d of
             (Inl e, d1) \<Rightarrow> (Inl (EWrap ''sum daily cost'' e), d1) | (Inr c, d1) \<Rightarrow> (Inr c, d1)))"

definition SumWeeklyCost :: "string \<Rightarrow> 'w db_scheme \<Rightarrow> rat result \<times> 'w db_scheme" where
  "SumWeeklyCost key d =
     (case weekKeyToRange key of
        Inl e \<Rightarrow> (Inl (EWrap (''sum weekly cost parse key '' @ go_quote key) e), d)
      | Inr (start, stop) \<Rightarrow>
          (case exec (SqlSumWeeklyCost start stop) d of
             (Inl e, d1) \<Rightarrow> (Inl (EWrap ''sum weekly cost'' e), d1) | (Inr c, d1) \<Rightarrow> (Inr c, d1)))"

section \<open>Grouping\<close>

lemma sum_keys:
  "distinct ks \<Longrightarrow> set (map key rs) \<subseteq> set ks \<Longrightarrow>
   sum_list (map (\<lambda>k. sum_list (map f (filter (\<lambda>r. key r = k) rs))) ks)
     = (sum_list (map f rs) :: 'n::comm_monoid_add)"
proof (induction rs)
  case Nil
  then show ?case by simp
next
  case (Cons r rs)
  have split: "sum_list (map f (filter (\<lambda>x. key x = k) (r # rs)))
      = (if key r = k then f r else 0) + sum_list (map f (filter (\<lambda>x. key x = k) rs))" for k
    by simp
  have one: "sum_list (map (\<lambda>k. if key r = k then f r else 0) ks) = f r"
    using Cons.prems by (simp add: sum_list_distinct_conv_sum_set)
  show ?case unfolding split sum_list_addf using Cons one by simp
qed

lemma group_rows_sum:
  assumes "\<And>k xs. g (bucket_row k xs) = sum_when p f xs"
  shows "sum_list (map g (group_rows key rs)) = (sum_when p f rs :: 'n::comm_monoid_add)"
proof -
  have "map g (group_rows key rs) = map (\<lambda>k. sum_list (map (\<lambda>r. if p r then f r else 0)
      (filter (\<lambda>r. key r = k) rs))) (sort (remdups (map key rs)))"
    by (simp add: group_rows_def assms sum_when_def)
  then show ?thesis
    using sum_keys[of "sort (remdups (map key rs))" key rs "\<lambda>r. if p r then f r else 0"]
    by (simp add: sum_when_def)
qed

lemma group_rows_keys: "map Bucket (group_rows key rs) = sort (remdups (map key rs))"
  by (simp add: group_rows_def bucket_row_def comp_def)

section \<open>The per-model breakdown\<close>

lemma accumulate_cost:
  "sum_list (map ModelCostUSD (accumulate k e as)) = eCost e + sum_list (map ModelCostUSD as)"
  by (induction k e as rule: accumulate.induct) (simp_all add: add_usage_def zero_model_def)

lemma fold_accumulate_cost:
  "sum_list (map ModelCostUSD (fold (\<lambda>(k, e) acc. accumulate k e acc) kes acc))
     = sum_list (map (eCost \<circ> snd) kes) + sum_list (map ModelCostUSD acc)"
  by (induction kes arbitrary: acc) (auto simp: accumulate_cost)

lemma accumulate_ids: "set (map ModelID (accumulate k e as)) = insert k (set (map ModelID as))"
  by (induction k e as rule: accumulate.induct) (auto simp: add_usage_def zero_model_def)

lemma accumulate_distinct: "distinct (map ModelID as) \<Longrightarrow> distinct (map ModelID (accumulate k e as))"
proof (induction k e as rule: accumulate.induct)
  case (2 k e a as)
  then show ?case using accumulate_ids[of k e as] by (auto simp: add_usage_def)
qed simp

lemma aggregate_distinct: "distinct (map ModelID (aggregate_models rs))"
proof -
  have "distinct (map ModelID acc) \<Longrightarrow>
      distinct (map ModelID (fold (\<lambda>(k, e) acc. accumulate k e acc) kes acc))" for kes acc
    by (induction kes arbitrary: acc) (auto simp: accumulate_distinct)
  then show ?thesis by (simp add: aggregate_models_def)
qed

lemma pass_mset: "exchange_pass x ys = (m, r) \<Longrightarrow> mset (m # r) = mset (x # ys)"
proof (induction x ys arbitrary: m r rule: exchange_pass.induct)
  case (2 x y ys)
  then show ?case by (cases "ModelCostUSD x < ModelCostUSD y") (auto split: prod.splits)
qed simp

lemma pass_max: "exchange_pass x ys = (m, r) \<Longrightarrow> ModelCostUSD x \<le> ModelCostUSD m \<and>
    (\<forall>a \<in> set r. ModelCostUSD a \<le> ModelCostUSD m)"
proof (induction x ys arbitrary: m r rule: exchange_pass.induct)
  case (2 x y ys)
  show ?case
  proof (cases "ModelCostUSD x < ModelCostUSD y")
    case True
    obtain m1 r1 where p: "exchange_pass y ys = (m1, r1)" by fastforce
    then show ?thesis using "2.IH"(1)[OF True p] "2.prems" True by auto
  next
    case False
    obtain m1 r1 where p: "exchange_pass x ys = (m1, r1)" by fastforce
    then show ?thesis using "2.IH"(2)[OF False p] "2.prems" False by auto
  qed
qed simp

lemma exchange_sort_mset: "mset (exchange_sort xs) = mset xs"
proof (induction xs rule: exchange_sort.induct)
  case (2 x xs)
  obtain m r where p: "exchange_pass x xs = (m, r)" by fastforce
  then show ?case using 2 pass_mset[OF p] by simp
qed simp

lemma exchange_sort_sorted: "sorted_wrt (\<lambda>a b. ModelCostUSD b \<le> ModelCostUSD a) (exchange_sort xs)"
proof (induction xs rule: exchange_sort.induct)
  case (2 x xs)
  obtain m r where p: "exchange_pass x xs = (m, r)" by fastforce
  have "set (exchange_sort r) = set r" using exchange_sort_mset by (metis set_mset_mset)
  then show ?case using 2 pass_max[OF p] p by simp
qed simp

section \<open>Ranges\<close>

lemma day_time_eq: "day_time n = n * 86400 * Second"
  by (simp add: day_time_def time_date_UTC)

lemma local_day_UTC: "local_day UTC t = t div (86400 * Second)"
proof -
  have "t div (86400 * Second) = t div Second div 86400"
    by (simp add: zdiv_zmult2_eq mult.commute[of 86400])
  then show ?thesis by (simp add: local_day_def local_sec_UTC unix_sec_def)
qed

lemma local_day_UTC_iff: "local_day UTC t = n \<longleftrightarrow> day_time n \<le> t \<and> t < day_time n + 86400 * Second"
  unfolding local_day_UTC day_time_eq
  using div_facts(1,2)[of "86400 * Second" t] div_intro[of "86400 * Second" n t] by auto

lemma monday_offset: "(6 + weekday_of_day n) mod 7 = (n + 3) mod 7"
proof -
  have "(6 + weekday_of_day n) mod 7 = (6 + (n + 4)) mod 7"
    unfolding weekday_of_day_def by (rule mod_add_right_eq)
  also have "6 + (n + 4) = n + 3 + 7" by simp
  finally show ?thesis by (simp only: mod_add_self2)
qed

lemma week_of_monday:
  "year_start y + 3 = n \<Longrightarrow> n - (weekday_of_day n - 1 + 7) mod 7 = first_monday y"
proof -
  assume "year_start y + 3 = n"
  moreover have "(weekday_of_day n - 1 + 7) mod 7 = (n + 3) mod 7"
    using monday_offset[of n] by simp
  ultimately show ?thesis by (simp add: first_monday_def iso_monday_def)
qed

lemma week_range_of:
  assumes "iso_week n = (y, w)" "0 \<le> y" "y \<le> 9999"
  shows "weekKeyToRange (format_week (y, w)) =
    Inr (day_time (iso_monday n), day_time (iso_monday n) + 7 * 86400 * Second)"
proof -
  have k: "scan_week_key (format_week (y, w)) = Some (y, w)"
    using scan_format_week[OF assms(2,3) iso_year_of_week[OF assms(1)]] .
  have j: "day_of_date y 1 4 = year_start y + 3" by (simp add: day_of_date_valid month_start_def)
  have "add_date UTC (day_time (year_start y + 3)) 0
      (- ((weekday_of_day (year_start y + 3) - 1 + 7) mod 7)) = day_time (first_monday y)"
    unfolding add_days_UTC day_time_eq week_of_monday[OF refl, symmetric] by (simp add: algebra_simps)
  moreover have "add_date UTC (day_time (first_monday y)) 0 ((w - 1) * 7) = day_time (iso_monday n)"
    unfolding add_days_UTC day_time_eq iso_week_start[OF assms(1), symmetric] by (simp add: algebra_simps)
  ultimately show ?thesis
    using k by (simp add: weekKeyToRange_def j iso_week_jan4 Let_def add_days_UTC)
qed

section \<open>Properties\<close>

text \<open>The daily cost of the day named by the UTC daily key of an instant is taken
  over the day that contains the instant: the key parses back to a range of one day
  around it.\<close>

theorem day_key_range_contains:
  assumes "0 \<le> year_of_day (local_day UTC t)" "year_of_day (local_day UTC t) \<le> 9999"
  shows "\<exists>start. dayKeyToRange (DateKey t None) = Inr (start, start + 86400 * Second) \<and>
    start \<le> t \<and> t < start + 86400 * Second"
  using parse_format_date[OF assms] local_day_UTC_iff[of t "local_day UTC t"]
  by (simp add: dayKeyToRange_def DateKey_def tz_of_def add_days_UTC)

lemma day_key_range_witness:
  "\<exists>start. dayKeyToRange (DateKey 0 None) = Inr (start, start + 86400 * Second) \<and>
    start \<le> 0 \<and> 0 < start + 86400 * Second"
  by (rule day_key_range_contains) code_simp+

text \<open>The weekly cost of the week named by the UTC weekly key of an instant, with
  Monday as the first day, is taken over the seven days from that week's Monday, which
  contain the instant.\<close>

theorem week_key_range_contains:
  assumes "0 \<le> fst (iso_week (local_day UTC t))" "fst (iso_week (local_day UTC t)) \<le> 9999"
  shows "\<exists>start. weekKeyToRange (WeekKey t None 1) = Inr (start, start + 7 * 86400 * Second) \<and>
    start = day_time (iso_monday (local_day UTC t)) \<and> start \<le> t \<and> t < start + 7 * 86400 * Second"
proof -
  let ?n = "local_day UTC t"
  obtain y w where yw: "iso_week ?n = (y, w)" by fastforce
  have "week_start_day 1 ?n = iso_monday ?n"
    using monday_offset[of ?n] by (simp add: week_start_day_def week_offset_def iso_monday_def)
  then have key: "WeekKey t None 1 = format_week (y, w)"
    using WeekKey_eq[of None 1 t] yw iso_week_monday[of ?n]
    by (simp add: tz_of_def week_midnights_def UTC_fixed)
  have "0 \<le> y" "y \<le> 9999" using assms yw by simp_all
  then have r: "weekKeyToRange (WeekKey t None 1) =
      Inr (day_time (iso_monday ?n), day_time (iso_monday ?n) + 7 * 86400 * Second)"
    using week_range_of[OF yw] key by simp
  have "day_time ?n \<le> t" "t < day_time ?n + 86400 * Second" using local_day_UTC_iff[of t ?n] by simp_all
  moreover have "day_time (iso_monday ?n) \<le> day_time ?n" "day_time ?n \<le> day_time (iso_monday ?n) + 6 * 86400 * Second"
    using iso_monday_bounds[of ?n] by (simp_all add: day_time_eq)
  ultimately show ?thesis using r by simp
qed

lemma week_key_range_witness:
  "\<exists>start. weekKeyToRange (WeekKey 0 None 1) = Inr (start, start + 7 * 86400 * Second) \<and>
    start = day_time (iso_monday (local_day UTC 0)) \<and> start \<le> 0 \<and> 0 < start + 7 * 86400 * Second"
  by (rule week_key_range_contains) code_simp+

text \<open>With the default reset zone, nine hours ahead of UTC, the range the cost
  repository sums for the current daily key does not contain the present moment: at
  half past midnight local time the key names the new local day, whose UTC range starts
  eight and a half hours later. (Stated at one such instant; the key comes from the
  reset zone, the range is in UTC.)\<close>

theorem reset_zone_day_misses_now:
  "\<exists>start stop. dayKeyToRange (DateKey (day_time 20000 + 55800 * Second) (Some (fixed_zone 32400)))
      = Inr (start, stop) \<and> day_time 20000 + 55800 * Second < start"
proof -
  define t where "t = day_time 20000 + 55800 * Second"
  have d: "local_day (fixed_zone 32400) t = 20001" unfolding t_def by code_simp
  have "year_of_day 20001 = 2024" by code_simp
  then have "dayKeyToRange (format_date 20001) = Inr (day_time 20001, add_date UTC (day_time 20001) 0 1)"
    using parse_format_date[of 20001] by (simp add: dayKeyToRange_def)
  moreover have "DateKey t (Some (fixed_zone 32400)) = format_date 20001"
    by (simp add: DateKey_def tz_of_def d)
  moreover have "t < day_time 20001" by (simp add: t_def day_time_eq)
  ultimately show ?thesis unfolding t_def[symmetric] by simp
qed

lemma SumByBucket_rows:
  assumes "SumByBucket from_ts to_ts bucket d = (Inr rows, d')"
  shows "\<exists>key. rows = grouped key from_ts to_ts d"
  using assms
  by (cases bucket)
    (auto simp: SumByBucket_def sumByDay_def sumByWeek_def sumByMonth_def SumUsageByDay_def
       SumUsageByWeek_def SumUsageByMonth_def grouped_def exec_def Let_def
       split: prod.splits sum.splits db_outcome.splits)

text \<open>However a range is grouped, the rows of the answer add up to the tasks of the
  range: the costs of the buckets to the cost of the done tasks, the failed costs to
  that of the failed and cancelled ones; the buckets are sorted and distinct.\<close>

theorem usage_buckets_conserve_cost:
  assumes "SumByBucket from_ts to_ts bucket d = (Inr rows, d')"
  shows "sum_list (map BucketCostUSD rows) = sum_when row_done gCostUSD (filter (in_range from_ts to_ts) (task_rows d)) \<and>
     sum_list (map FailedCostUSD rows) = sum_when row_failed gCostUSD (filter (in_range from_ts to_ts) (task_rows d)) \<and>
     sum_list (map TaskCount rows) = sum_when row_done (\<lambda>_. 1) (filter (in_range from_ts to_ts) (task_rows d)) \<and>
     sorted (map Bucket rows) \<and> distinct (map Bucket rows)"
proof -
  obtain key where rows: "rows = group_rows key (filter (in_range from_ts to_ts) (task_rows d))"
    using SumByBucket_rows[OF assms] by (auto simp: grouped_def)
  show ?thesis unfolding rows group_rows_keys
    by (intro conjI group_rows_sum) (simp_all add: bucket_row_def)
qed

definition usage_sample :: db where
  "usage_sample = (migrated_db (\<lambda>_. 1))\<lparr> task_rows :=
     [toGORMTask (zero_task\<lparr> ID := ''t1'', Status := TaskStatusDone, CreatedAt := 5, CostUSD := 3 \<rparr>),
      toGORMTask (zero_task\<lparr> ID := ''t2'', Status := TaskStatusFailed, CreatedAt := 6, CostUSD := 4 \<rparr>)] \<rparr>"

lemma usage_buckets_witness:
  "\<exists>rows d'. SumByBucket 1 9 BucketDay usage_sample = (Inr rows, d') \<and>
     sum_list (map BucketCostUSD rows) = 3 \<and> sum_list (map FailedCostUSD rows) = 4"
proof -
  have w: "db_works usage_sample" by (simp add: usage_sample_def migrated_db_def db_works_def)
  have f: "filter (in_range 1 9) (task_rows usage_sample) = task_rows usage_sample"
    by (simp add: usage_sample_def in_range_def usage_time_def is_zero_def zero_time_def toGORMTask_def
        zero_task_def Let_def)
  obtain rows d' where r: "SumByBucket 1 9 BucketDay usage_sample = (Inr rows, d')"
    using db_works_exec[OF w, of "SumUsageByDay 1 9"]
    by (simp add: SumByBucket_def sumByDay_def SumUsageByDay_def)
  from usage_buckets_conserve_cost[OF r] show ?thesis using r
    by (simp add: f) (simp add: usage_sample_def sum_when_def row_done_def row_failed_def toGORMTask_def
        zero_task_def Let_def)
qed

text \<open>The breakdown by model lists every model once, most expensive first, and its
  costs add up to what the tasks of the range recorded for their models.\<close>

theorem usage_by_model_sorted:
  assumes "SumByModel from_ts to_ts d = (Inr rows, d')" "exec (SumUsageByModel from_ts to_ts) d = (Inr ts, d')"
  shows "sorted_wrt (\<lambda>a b. ModelCostUSD b \<le> ModelCostUSD a) rows \<and> distinct (map ModelID rows) \<and>
    sum_list (map ModelCostUSD rows) = sum_list (map (eCost \<circ> snd) (concat (map contributions ts)))"
proof -
  have r: "rows = exchange_sort (aggregate_models ts)"
    using assms by (simp add: SumByModel_def)
  then have m: "mset rows = mset (aggregate_models ts)" by (simp add: exchange_sort_mset)
  then have "mset (map ModelID rows) = mset (map ModelID (aggregate_models ts))"
    "mset (map ModelCostUSD rows) = mset (map ModelCostUSD (aggregate_models ts))" by simp_all
  then have "distinct (map ModelID rows)"
    "sum_list (map ModelCostUSD rows) = sum_list (map ModelCostUSD (aggregate_models ts))"
    using aggregate_distinct[of ts] by (metis mset_eq_imp_distinct_iff) (metis sum_mset_sum_list \<open>mset (map ModelCostUSD rows) = _\<close>)
  then show ?thesis
    using exchange_sort_sorted[of "aggregate_models ts"] r fold_accumulate_cost[of "concat (map contributions ts)" "[]"]
    by (simp add: aggregate_models_def)
qed

lemma usage_by_model_witness:
  "\<exists>rows d'. SumByModel 1 9 usage_sample = (Inr rows, d') \<and> distinct (map ModelID rows) \<and>
     sum_list (map ModelCostUSD rows) = 3"
proof -
  let ?t1 = "toGORMTask (zero_task\<lparr> ID := ''t1'', Status := TaskStatusDone, CreatedAt := 5, CostUSD := 3 \<rparr>)"
  have w: "db_works usage_sample" by (simp add: usage_sample_def migrated_db_def db_works_def)
  have e: "exec (SumUsageByModel 1 9) usage_sample = (Inr [?t1], usage_sample\<lparr> ops := 1 \<rparr>)"
    unfolding db_works_exec[OF w]
    by (simp add: SumUsageByModel_def usage_sample_def in_range_def row_done_def usage_time_def is_zero_def
        zero_time_def toGORMTask_def zero_task_def migrated_db_def Let_def)
  then obtain rows where r: "SumByModel 1 9 usage_sample = (Inr rows, usage_sample\<lparr> ops := 1 \<rparr>)"
    by (simp add: SumByModel_def)
  have c: "concat (map contributions [?t1]) = [(''unknown'', row_entry ?t1)]"
    by (simp add: contributions_def model_map_def toGORMTask_def zero_task_def dec_map_def Let_def)
  from usage_by_model_sorted[OF r e] show ?thesis
    unfolding c using r by (auto simp: row_entry_def toGORMTask_def Let_def)
qed

end
