(* ===== verification/Usage_Usecase.thy ===== *)
theory Usage_Usecase
  imports Usage_Repo
begin

text \<open>internal/usecase/usage_usecase.go: usage reports over any usage repository: range
  checks, gap filling, totals and the snapshot against the cost limits. The times of a
  request are UTC, as the handler makes them. Money is rational; int64 totals are not
  wrapped. The lemmas show that filling gaps keeps the totals of a report by day.\<close>

section \<open>The repository interface\<close>

record 's usage_repo =
  RepoSumByBucket :: "time \<Rightarrow> time \<Rightarrow> bucket_kind \<Rightarrow> 's \<Rightarrow> usage_bucket_row list result \<times> 's"
  RepoSumByModel :: "time \<Rightarrow> time \<Rightarrow> 's \<Rightarrow> usage_model_row list result \<times> 's"
  RepoSumDailyCost :: "string \<Rightarrow> 's \<Rightarrow> rat result \<times> 's"
  RepoSumWeeklyCost :: "string \<Rightarrow> 's \<Rightarrow> rat result \<times> 's"

definition gorm_usage_repo :: "('w db_scheme) usage_repo" where
  "gorm_usage_repo = \<lparr> RepoSumByBucket = SumByBucket, RepoSumByModel = SumByModel,
     RepoSumDailyCost = SumDailyCost, RepoSumWeeklyCost = SumWeeklyCost \<rparr>"

section \<open>Validation\<close>

definition maxRangeDays :: int where "maxRangeDays = 365"

definition validateDateRange :: "time \<Rightarrow> time \<Rightarrow> go_error option" where
  "validateDateRange from_t to_t =
     (if to_t < from_t then Some ErrInvalidRange
      else if maxRangeDays * 86400 * Second < to_t - from_t then Some ErrRangeTooLarge
      else None)"

definition validateRange :: "time \<Rightarrow> time \<Rightarrow> bucket_kind \<Rightarrow> go_error option" where
  "validateRange from_t to_t bucket =
     (case validateDateRange from_t to_t of
        Some e \<Rightarrow> Some e
      | None \<Rightarrow> (case bucket of BucketOther _ \<Rightarrow> Some ErrInvalidBucket | _ \<Rightarrow> None))"

section \<open>Gap filling\<close>

definition zero_bucket :: "string \<Rightarrow> usage_bucket_row" where
  "zero_bucket k = \<lparr> Bucket = k, TaskCount = 0, BucketCostUSD = 0, InputTokens = 0, OutputTokens = 0,
     CacheReadTokens = 0, CacheCreationTokens = 0, FailedCostUSD = 0 \<rparr>"

text \<open>The map by key: the last row of a key.\<close>

definition byKey :: "usage_bucket_row list \<Rightarrow> string \<Rightarrow> usage_bucket_row option" where
  "byKey rows = map_of (rev (map (\<lambda>r. (Bucket r, r)) rows))"

definition fill :: "usage_bucket_row list \<Rightarrow> string \<Rightarrow> usage_bucket_row" where
  "fill rows key = (case byKey rows key of Some row \<Rightarrow> row | None \<Rightarrow> zero_bucket key)"

lemma next_day_later: "cur < add_date UTC cur 0 1"
  by (simp add: add_days_UTC)

function gap_days :: "time \<Rightarrow> time \<Rightarrow> string list" where
  "gap_days cur stop =
     (if stop < cur then []
      else format_date (local_day UTC cur) # gap_days (add_date UTC cur 0 1) stop)"
  by pat_completeness auto
termination
  by (relation "measure (\<lambda>(cur, stop). nat (stop + 1 - cur))") (auto simp: add_days_UTC)

function gap_weeks :: "location option \<Rightarrow> int \<Rightarrow> time \<Rightarrow> time \<Rightarrow> string list \<Rightarrow> string list" where
  "gap_weeks tz ws cur stop seen =
     (if stop < cur then []
      else let key = WeekKey cur tz ws
           in if key \<in> set seen then gap_weeks tz ws (add_date UTC cur 0 1) stop seen
              else key # gap_weeks tz ws (add_date UTC cur 0 1) stop (key # seen))"
  by pat_completeness auto
termination
  by (relation "measure (\<lambda>(tz, ws, cur, stop, seen). nat (stop + 1 - cur))") (auto simp: add_days_UTC)

text \<open>The first of the month of an instant.\<close>

definition month_first :: "time \<Rightarrow> time" where
  "month_first t = (case date_of_day (local_day UTC t) of (y, m, d) \<Rightarrow> day_time (day_of_date y m 1))"

lemma month_later:
  assumes "date_of_day n = (y, m, d)"
  shows "n < day_of_date y (m + 1) d"
proof -
  have v: "1 \<le> m" "m \<le> 12" using date_of_day_valid[OF assms] by (auto simp: valid_date_def)
  have n: "n = year_start y + month_start (is_leap y) m + d - 1"
    using day_of_date_of_day[OF assms] v by (simp add: day_of_date_valid)
  show ?thesis
  proof (cases "m = 12")
    case True
    then have "day_of_date y (m + 1) d = year_start (y + 1) + d - 1"
      by (simp add: day_of_date_def month_start_def Let_def)
    then show ?thesis using True n year_start_strict[of y "y + 1"] by (simp add: month_start_def split: if_splits)
  next
    case False
    then have "day_of_date y (m + 1) d = year_start y + month_start (is_leap y) (m + 1) + d - 1"
      using v by (simp add: day_of_date_valid)
    moreover have "month_start (is_leap y) m < month_start (is_leap y) (m + 1)"
      using v False month_cases[OF v] by (elim disjE) (simp_all add: month_start_def)
    ultimately show ?thesis using n by simp
  qed
qed

lemma next_month_later: "cur < add_date UTC cur 1 0"
proof -
  obtain y m d where e: "date_of_day (local_day UTC cur) = (y, m, d)" by (metis prod_cases3)
  let ?k = "day_of_date y (m + 1) d" and ?n = "local_day UTC cur"
  have "?n * 86400 + local_sec UTC cur mod 86400 = unix_sec cur"
    by (simp add: local_day_def local_sec_UTC)
  moreover have "unix_sec cur * Second + cur mod Second = cur" by (simp add: unix_sec_def)
  moreover have "add_date UTC cur 1 0 = (?k * 86400 + local_sec UTC cur mod 86400) * Second + cur mod Second"
    using e by (simp add: add_date_def time_date_UTC)
  ultimately show ?thesis using month_later[OF e] by (simp add: algebra_simps)
qed

function gap_months :: "time \<Rightarrow> time \<Rightarrow> string list" where
  "gap_months cur stop =
     (if stop < cur then []
      else format_month (local_day UTC cur) # gap_months (add_date UTC cur 1 0) stop)"
  by pat_completeness auto
termination
  by (relation "measure (\<lambda>(cur, stop). nat (stop + 1 - cur))") (use next_month_later in \<open>auto simp: not_less\<close>)

declare gap_days.simps [simp del] gap_weeks.simps [simp del] gap_months.simps [simp del]

definition gap_keys :: "budget_limits \<Rightarrow> time \<Rightarrow> time \<Rightarrow> bucket_kind \<Rightarrow> string list" where
  "gap_keys l from_t to_t bucket =
     (case bucket of
        BucketDay \<Rightarrow> gap_days from_t to_t
      | BucketWeek \<Rightarrow> gap_weeks (ResetTZ l) (WeekStartsOn l) from_t to_t []
      | BucketMonth \<Rightarrow> gap_months (month_first from_t) (month_first to_t)
      | BucketOther _ \<Rightarrow> [])"

definition gapFill :: "budget_limits \<Rightarrow> time \<Rightarrow> time \<Rightarrow> bucket_kind \<Rightarrow> usage_bucket_row list \<Rightarrow>
    usage_bucket_row list" where
  "gapFill l from_t to_t bucket rows = map (fill rows) (gap_keys l from_t to_t bucket)"

definition add_rows :: "usage_bucket_row \<Rightarrow> usage_bucket_row \<Rightarrow> usage_bucket_row" where
  "add_rows t r = t\<lparr> TaskCount := TaskCount t + TaskCount r,
     BucketCostUSD := BucketCostUSD t + BucketCostUSD r, InputTokens := InputTokens t + InputTokens r,
     OutputTokens := OutputTokens t + OutputTokens r, CacheReadTokens := CacheReadTokens t + CacheReadTokens r,
     CacheCreationTokens := CacheCreationTokens t + CacheCreationTokens r,
     FailedCostUSD := FailedCostUSD t + FailedCostUSD r \<rparr>"

definition computeTotals :: "usage_bucket_row list \<Rightarrow> usage_bucket_row" where
  "computeTotals rows = foldl add_rows (zero_bucket '''') rows"

section \<open>The use case\<close>

record usage_result =
  ResFrom :: string
  ResTo :: string
  ResGroupBy :: bucket_kind
  ResBuckets :: "usage_bucket_row list"
  ResTotals :: usage_bucket_row

definition Aggregate :: "'s usage_repo \<Rightarrow> budget_limits \<Rightarrow> time \<Rightarrow> time \<Rightarrow> bucket_kind \<Rightarrow> 's \<Rightarrow>
    usage_result result \<times> 's" where
  "Aggregate repo l from_t to_t bucket s =
     (case validateRange from_t to_t bucket of
        Some e \<Rightarrow> (Inl e, s)
      | None \<Rightarrow>
          (case RepoSumByBucket repo from_t (add_date UTC to_t 0 1) bucket s of
             (Inl e, s1) \<Rightarrow> (Inl (EWrap ''aggregate usage'' e), s1)
           | (Inr rows, s1) \<Rightarrow>
               let filled = gapFill l from_t to_t bucket rows
               in (Inr \<lparr> ResFrom = format_date (local_day UTC from_t), ResTo = format_date (local_day UTC to_t),
                         ResGroupBy = bucket, ResBuckets = filled, ResTotals = computeTotals filled \<rparr>, s1)))"

definition ByModel :: "'s usage_repo \<Rightarrow> time \<Rightarrow> time \<Rightarrow> 's \<Rightarrow> usage_model_row list result \<times> 's" where
  "ByModel repo from_t to_t s =
     (case validateDateRange from_t to_t of
        Some e \<Rightarrow> (Inl e, s)
      | None \<Rightarrow>
          (case RepoSumByModel repo from_t (add_date UTC to_t 0 1) s of
             (Inl e, s1) \<Rightarrow> (Inl (EWrap ''by model usage'' e), s1)
           | (Inr rows, s1) \<Rightarrow> (Inr rows, s1)))"

text \<open>math.Round: half away from zero.\<close>

definition go_round :: "rat \<Rightarrow> int" where
  "go_round q = (if 0 \<le> q then floor (q + 1 / 2) else - floor (- q + 1 / 2))"

definition percent_used :: "rat \<Rightarrow> rat \<Rightarrow> rat" where
  "percent_used cost cap = of_int (go_round (cost / cap * 100 * 10)) / 10"

record usage_limits_snapshot =
  DailyCountUSD :: rat
  DailyMaxUSD :: rat
  DailyPercent :: "rat option"
  DailyDate :: string
  WeeklyCountUSD :: rat
  WeeklyMaxUSD :: rat
  WeeklyPercent :: "rat option"
  WeeklyWeek :: string

definition capped_percent :: "rat \<Rightarrow> rat \<Rightarrow> rat option" where
  "capped_percent cost cap =
     (if 0 < cap then Some (if 100 < percent_used cost cap then 100 else percent_used cost cap) else None)"

definition UsageLimits :: "'s usage_repo \<Rightarrow> budget_limits \<Rightarrow> rat \<Rightarrow> rat \<Rightarrow> time \<Rightarrow> 's \<Rightarrow>
    usage_limits_snapshot result \<times> 's" where
  "UsageLimits repo l dailyMax weeklyMax now s =
     (let dayKey = DateKey now (ResetTZ l); weekKey = WeekKey now (ResetTZ l) (WeekStartsOn l) in
      case RepoSumDailyCost repo dayKey s of
        (Inl e, s1) \<Rightarrow> (Inl (EWrap ''sum daily cost'' e), s1)
      | (Inr dailyCost, s1) \<Rightarrow>
          (case RepoSumWeeklyCost repo weekKey s1 of
             (Inl e, s2) \<Rightarrow> (Inl (EWrap ''sum weekly cost'' e), s2)
           | (Inr weeklyCost, s2) \<Rightarrow>
               (Inr \<lparr> DailyCountUSD = dailyCost, DailyMaxUSD = dailyMax,
                      DailyPercent = capped_percent dailyCost dailyMax, DailyDate = dayKey,
                      WeeklyCountUSD = weeklyCost, WeeklyMaxUSD = weeklyMax,
                      WeeklyPercent = capped_percent weeklyCost weeklyMax, WeeklyWeek = weekKey \<rparr>, s2)))"


section \<open>Gap filling keeps the totals\<close>

lemma computeTotals_sums:
  "BucketCostUSD (foldl add_rows t rows) = BucketCostUSD t + sum_list (map BucketCostUSD rows)"
  "FailedCostUSD (foldl add_rows t rows) = FailedCostUSD t + sum_list (map FailedCostUSD rows)"
  "TaskCount (foldl add_rows t rows) = TaskCount t + sum_list (map TaskCount rows)"
  by (induction rows arbitrary: t) (simp_all add: add_rows_def)

lemma byKey_row:
  assumes "distinct (map Bucket rows)" "r \<in> set rows"
  shows "fill rows (Bucket r) = r"
proof -
  have "distinct (map fst (rev (map (\<lambda>r. (Bucket r, r)) rows)))"
    using assms(1) by (simp add: rev_map[symmetric] comp_def)
  moreover have "(Bucket r, r) \<in> set (rev (map (\<lambda>r. (Bucket r, r)) rows))" using assms(2) by auto
  ultimately show ?thesis by (simp add: fill_def byKey_def map_of_is_SomeI)
qed

lemma byKey_absent: "k \<notin> Bucket ` set rows \<Longrightarrow> fill rows k = zero_bucket k"
proof -
  assume "k \<notin> Bucket ` set rows"
  then have "map_of (rev (map (\<lambda>r. (Bucket r, r)) rows)) k = None"
    by (simp add: map_of_eq_None_iff image_image)
  then show ?thesis by (simp add: fill_def byKey_def)
qed

lemma fill_Bucket [simp]: "distinct (map Bucket rows) \<Longrightarrow> Bucket (fill rows k) = k"
  by (cases "k \<in> Bucket ` set rows") (auto simp: byKey_row byKey_absent zero_bucket_def)

lemma fill_sum:
  assumes d: "distinct (map Bucket rows)" "distinct keys" and sub: "Bucket ` set rows \<subseteq> set keys"
    and z: "\<And>k. g (zero_bucket k) = (0 :: 'n::comm_monoid_add)"
  shows "sum_list (map g (map (fill rows) keys)) = sum_list (map g rows)"
proof -
  have inj: "inj_on Bucket (set rows)" and dr: "distinct rows" using d(1) by (simp_all add: distinct_map)
  have "sum_list (map g (map (fill rows) keys)) = (\<Sum>k\<in>set keys. g (fill rows k))"
    using d(2) by (simp add: sum_list_distinct_conv_sum_set comp_def)
  also have "\<dots> = (\<Sum>k\<in>Bucket ` set rows. g (fill rows k))"
    using sub z byKey_absent by (intro sum.mono_neutral_right) auto
  also have "\<dots> = (\<Sum>r\<in>set rows. g r)"
    using inj d(1) by (simp add: sum.reindex byKey_row)
  also have "\<dots> = sum_list (map g rows)" using dr by (simp add: sum_list_distinct_conv_sum_set)
  finally show ?thesis .
qed

lemma gap_days_eq:
  "gap_days (day_time a) (day_time b) = map format_date [a..b]"
proof (induction "nat (b + 1 - a)" arbitrary: a)
  case 0
  then have "b < a" by simp
  then show ?case by (subst gap_days.simps) (simp add: day_time_eq)
next
  case (Suc n)
  then have le: "a \<le> b" by simp
  have "add_date UTC (day_time a) 0 1 = day_time (a + 1)" by (simp add: add_days_UTC day_time_eq algebra_simps)
  moreover have "local_day UTC (day_time a) = a" by (simp add: local_day_UTC_iff)
  moreover have "gap_days (day_time (a + 1)) (day_time b) = map format_date [a + 1..b]"
    using Suc by (intro Suc(1)) simp
  ultimately show ?case using le
    by (subst gap_days.simps) (simp add: day_time_eq upto_rec1)
qed

lemma year_between:
  assumes "a \<le> n" "n \<le> b" "0 \<le> year_of_day a" "year_of_day b \<le> 9999"
  shows "0 \<le> year_of_day n" "year_of_day n \<le> 9999"
proof -
  have mono: "year_of_day x \<le> year_of_day y" if "x \<le> y" for x y
  proof (rule ccontr)
    assume "\<not> ?thesis"
    then have "year_of_day y + 1 = year_of_day x \<or> year_of_day y + 1 < year_of_day x" by linarith
    then have "year_start (year_of_day y + 1) \<le> year_start (year_of_day x)"
      using year_start_strict[of "year_of_day y + 1" "year_of_day x"] by auto
    then show False using year_of_day_bounds[of x] year_of_day_bounds[of y] that by linarith
  qed
  show "0 \<le> year_of_day n" "year_of_day n \<le> 9999"
    using mono[OF assms(1)] mono[OF assms(2)] assms(3,4) by linarith+
qed

text \<open>C32: a report by day over the days a to b lists each of these days once, in order,
  and its totals are those of the tasks finished (or created) in them: filling the gaps
  loses no row and counts none twice.\<close>

theorem daily_report_complete:
  assumes "Aggregate gorm_usage_repo l (day_time a) (day_time b) BucketDay d = (Inr res, d')"
    and "0 \<le> year_of_day a" "year_of_day b \<le> 9999"
  shows "map Bucket (ResBuckets res) = map format_date [a..b] \<and>
    BucketCostUSD (ResTotals res) = sum_when row_done gCostUSD
      (filter (in_range (day_time a) (day_time (b + 1))) (task_rows d)) \<and>
    FailedCostUSD (ResTotals res) = sum_when row_failed gCostUSD
      (filter (in_range (day_time a) (day_time (b + 1))) (task_rows d)) \<and>
    TaskCount (ResTotals res) = sum_when row_done (\<lambda>_. 1)
      (filter (in_range (day_time a) (day_time (b + 1))) (task_rows d))"
proof -
  have nxt: "add_date UTC (day_time b) 0 1 = day_time (b + 1)" by (simp add: add_days_UTC day_time_eq algebra_simps)
  let ?rs = "filter (in_range (day_time a) (day_time (b + 1))) (task_rows d)"
  obtain rows where q: "SumByBucket (day_time a) (day_time (b + 1)) BucketDay d = (Inr rows, d')"
    and res: "ResBuckets res = gapFill l (day_time a) (day_time b) BucketDay rows"
      "ResTotals res = computeTotals (ResBuckets res)"
    using assms(1) nxt
    by (fastforce simp: Aggregate_def gorm_usage_repo_def Let_def split: option.splits prod.splits sum.splits)
  have rows: "rows = group_rows day_bucket ?rs"
    using q by (auto simp: SumByBucket_def sumByDay_def SumUsageByDay_def grouped_def exec_def Let_def
        split: prod.splits sum.splits db_outcome.splits)
  have db: "distinct (map Bucket rows)" unfolding rows group_rows_keys by simp
  have inj: "inj_on format_date {a..b}"
  proof (rule inj_onI)
    fix x y assume "x \<in> {a..b}" "y \<in> {a..b}" "format_date x = format_date y"
    then show "x = y" using format_date_inj[of x y] year_between[of a x b] year_between[of a y b] assms(2,3) by simp
  qed
  then have dk: "distinct (map format_date [a..b])" by (simp add: distinct_map)
  have "day_bucket r \<in> format_date ` {a..b}" if "r \<in> set ?rs" for r
  proof -
    have "day_time a \<le> usage_time r" "usage_time r < day_time (b + 1)" using that by (simp_all add: in_range_def)
    then have "a \<le> local_day UTC (usage_time r)" "local_day UTC (usage_time r) \<le> b"
      using local_day_UTC_iff[of "usage_time r" "local_day UTC (usage_time r)"] by (simp_all add: day_time_eq)
    then show ?thesis by (simp add: day_bucket_def)
  qed
  then have sub: "Bucket ` set rows \<subseteq> set (map format_date [a..b])"
    using arg_cong[OF group_rows_keys[of day_bucket ?rs], of set] by (auto simp: rows)
  have filled: "ResBuckets res = map (fill rows) (map format_date [a..b])"
    by (simp add: res gapFill_def gap_keys_def gap_days_eq)
  have sums: "sum_list (map g (ResBuckets res)) = sum_list (map g rows)"
    if "\<And>k. g (zero_bucket k) = (0 :: 'n::comm_monoid_add)" for g
    unfolding filled by (rule fill_sum[OF db dk sub]) (rule that)
  show ?thesis
    unfolding res(2) computeTotals_def computeTotals_sums
    using db sums[of BucketCostUSD] sums[of FailedCostUSD] sums[of TaskCount]
      group_rows_sum[of BucketCostUSD row_done gCostUSD day_bucket ?rs]
      group_rows_sum[of FailedCostUSD row_failed gCostUSD day_bucket ?rs]
      group_rows_sum[of TaskCount row_done "\<lambda>_. 1" day_bucket ?rs]
    by (simp add: zero_bucket_def bucket_row_def rows[symmetric] filled comp_def)
qed

definition sunday_limits :: budget_limits where
  "sunday_limits = \<lparr> DailyMax = 0, WeeklyMax = 0, WeekStartsOn = 0, ResetTZ = None \<rparr>"

lemma daily_report_witness:
  "\<exists>res d'. Aggregate gorm_usage_repo sunday_limits (day_time 0) (day_time 1) BucketDay usage_sample = (Inr res, d') \<and>
     map Bucket (ResBuckets res) = [''1970-01-01'', ''1970-01-02''] \<and> BucketCostUSD (ResTotals res) = 3"
proof -
  have w: "db_works usage_sample" by (simp add: usage_sample_def migrated_db_def db_works_def)
  have v: "validateRange (day_time 0) (day_time 1) BucketDay = None" by code_simp
  obtain res d' where r: "Aggregate gorm_usage_repo sunday_limits (day_time 0) (day_time 1) BucketDay usage_sample
      = (Inr res, d')"
    using db_works_exec[OF w, of "SumUsageByDay (day_time 0) (add_date UTC (day_time 1) 0 1)"]
    by (simp add: Aggregate_def v gorm_usage_repo_def SumByBucket_def sumByDay_def SumUsageByDay_def Let_def)
  have b: "filter (in_range (day_time 0) (day_time 2)) (task_rows usage_sample) = task_rows usage_sample"
    by (simp add: usage_sample_def in_range_def usage_time_def is_zero_def zero_time_def toGORMTask_def
        zero_task_def Let_def day_time_eq)
  have k: "map format_date [0..1] = [''1970-01-01'', ''1970-01-02'']" by code_simp
  have "(1::int) + 1 = 2" "0 \<le> year_of_day 0" "year_of_day 1 \<le> 9999" by code_simp+
  then have "map Bucket (ResBuckets res) = map format_date [0..1] \<and>
     BucketCostUSD (ResTotals res) = sum_when row_done gCostUSD (task_rows usage_sample)"
    using daily_report_complete[OF r] b by metis
  then show ?thesis using r k
    by (simp add: usage_sample_def sum_when_def row_done_def toGORMTask_def zero_task_def Let_def)
qed

section \<open>Weeks that do not start on Monday\<close>

definition monday_sample :: db where
  "monday_sample = (migrated_db (\<lambda>_. 1))\<lparr> task_rows :=
     [toGORMTask (zero_task\<lparr> ID := ''t1'', Status := TaskStatusDone, CreatedAt := day_time 4 + 5, CostUSD := 3 \<rparr>)] \<rparr>"

text \<open>With weeks that start on Sunday the report by week for a Monday loses the usage
  of that day: the statement groups by the ISO week of the Monday, the keys of the report
  name the week by its Sunday, which lies in the ISO week before, and a row whose key the
  report does not list is dropped from the buckets and from the totals. The report by day
  of the same range has it.\<close>

theorem week_report_drops_usage:
  "\<exists>res d'. Aggregate gorm_usage_repo sunday_limits (day_time 4) (day_time 4) BucketWeek monday_sample = (Inr res, d') \<and>
     sum_when row_done gCostUSD (filter (in_range (day_time 4) (day_time 5)) (task_rows monday_sample)) = 3 \<and>
     map Bucket (ResBuckets res) = [''1970-W01''] \<and> BucketCostUSD (ResTotals res) = 0 \<and>
     TaskCount (ResTotals res) = 0"
proof -
  have w: "db_works monday_sample" by (simp add: monday_sample_def migrated_db_def db_works_def)
  have v: "validateRange (day_time 4) (day_time 4) BucketWeek = None" by code_simp
  have k: "gap_keys sunday_limits (day_time 4) (day_time 4) BucketWeek = [''1970-W01'']" by code_simp
  have f: "filter (in_range (day_time 4) (day_time 5)) (task_rows monday_sample) = task_rows monday_sample"
    by (simp add: monday_sample_def in_range_def usage_time_def is_zero_def zero_time_def toGORMTask_def
        zero_task_def Let_def day_time_eq)
  have n: "add_date UTC (day_time 4) 0 1 = day_time 5" by code_simp
  have wk: "week_bucket (toGORMTask (zero_task\<lparr> ID := ''t1'', Status := TaskStatusDone,
      CreatedAt := day_time 4 + 5, CostUSD := 3 \<rparr>)) = ''1970-W02''" by code_simp
  have g: "grouped week_bucket (day_time 4) (day_time 5) monday_sample = [bucket_row ''1970-W02'' (task_rows monday_sample)]"
    unfolding grouped_def f group_rows_def by (simp add: monday_sample_def wk)
  have q: "SumByBucket (day_time 4) (day_time 5) BucketWeek monday_sample =
      (Inr [bucket_row ''1970-W02'' (task_rows monday_sample)], monday_sample\<lparr> ops := Suc (ops monday_sample) \<rparr>)"
    unfolding SumByBucket_def bucket_kind.case sumByWeek_def db_works_exec[OF w] SumUsageByWeek_def g[symmetric]
    by (simp add: grouped_def)
  show ?thesis
    by (simp add: q Aggregate_def v n f gorm_usage_repo_def Let_def gapFill_def k fill_def byKey_def bucket_row_def computeTotals_def add_rows_def zero_bucket_def)
      (simp add: monday_sample_def sum_when_def row_done_def toGORMTask_def zero_task_def Let_def)
qed

end
