(* ===== verification/Budget_Usecase.thy ===== *)
theory Budget_Usecase
  imports Budget_Gate Repo_Laws
begin

text \<open>internal/usecase/budget_usecase.go over any AppStateRepository: the JSON
  shapes of the persisted counters, blocks and overrides, Snapshot, CheckAndIncrement,
  RecordRateLimitBlock and SetLimits (EvaluateCostWarn is in Cost_Warn). The mutex makes
  each of them one step. Counters are Go ints, so an increment wraps at 64 bits.\<close>

section \<open>Persisted shapes\<close>

definition enc_counters :: "budget_counters \<Rightarrow> json" where
  "enc_counters c = JObj [(''daily_count'', JInt (DailyCount c)), (''daily_key'', JStr (DailyKey c)),
     (''weekly_count'', JInt (WeeklyCount c)), (''weekly_key'', JStr (WeeklyKey c))]"

definition dec_counters :: "json \<Rightarrow> budget_counters option" where
  "dec_counters j =
     (case struct_members j of
        None \<Rightarrow> None
      | Some kvs \<Rightarrow>
          let (dc, ok1) = dec_field ''daily_count'' dec_int kvs 0;
              (dk, ok2) = dec_field ''daily_key'' dec_str kvs '''';
              (wc, ok3) = dec_field ''weekly_count'' dec_int kvs 0;
              (wk, ok4) = dec_field ''weekly_key'' dec_str kvs ''''
          in if ok1 \<and> ok2 \<and> ok3 \<and> ok4
             then Some \<lparr> DailyCount = dc, DailyKey = dk, WeeklyCount = wc, WeeklyKey = wk \<rparr>
             else None)"

definition enc_block :: "int \<Rightarrow> string \<Rightarrow> int \<Rightarrow> json" where
  "enc_block until ty observed = JObj [(''blocked_until_unix'', JInt until),
     (''rate_limit_type'', JStr ty), (''observed_at_unix'', JInt observed)]"

definition dec_block :: "json \<Rightarrow> (int \<times> string) option" where
  "dec_block j =
     (case struct_members j of
        None \<Rightarrow> None
      | Some kvs \<Rightarrow>
          let (u, ok1) = dec_field ''blocked_until_unix'' dec_int kvs 0;
              (ty, ok2) = dec_field ''rate_limit_type'' dec_str kvs '''';
              (ob, ok3) = dec_field ''observed_at_unix'' dec_int kvs 0
          in if ok1 \<and> ok2 \<and> ok3 then Some (u, ty) else None)"

definition enc_override :: "int \<Rightarrow> int \<Rightarrow> json" where
  "enc_override d w = JObj [(''daily_max'', JInt d), (''weekly_max'', JInt w)]"

definition dec_override :: "json \<Rightarrow> (int \<times> int) option" where
  "dec_override j =
     (case struct_members j of
        None \<Rightarrow> None
      | Some kvs \<Rightarrow>
          let (d, ok1) = dec_field ''daily_max'' dec_int kvs 0;
              (w, ok2) = dec_field ''weekly_max'' dec_int kvs 0
          in if ok1 \<and> ok2 then Some (d, w) else None)"

section \<open>Operations\<close>

record budget_snapshot =
  Counters :: budget_counters
  Limits :: budget_limits
  Block :: rate_limit_block
  Reason :: budget_reason

text \<open>What a stored override, counters or block document means to the loader.\<close>

definition override_limits :: "budget_limits \<Rightarrow> json \<Rightarrow> budget_limits" where
  "override_limits limits j =
     (case dec_override j of
        None \<Rightarrow> limits
      | Some (d, w) \<Rightarrow>
          let l1 = (if 0 < d then limits\<lparr> DailyMax := d \<rparr> else limits)
          in if 0 < w then l1\<lparr> WeeklyMax := w \<rparr> else l1)"

definition counters_of_json :: "json \<Rightarrow> budget_counters" where
  "counters_of_json j = (case dec_counters j of None \<Rightarrow> zero_counters | Some c \<Rightarrow> c)"

definition block_of_json :: "json \<Rightarrow> rate_limit_block" where
  "block_of_json j =
     (case dec_block j of
        None \<Rightarrow> no_block
      | Some (u, ty) \<Rightarrow> if u = 0 then no_block
                        else \<lparr> BlockedUntil = u * Second, RateLimitType = ty \<rparr>)"

text \<open>Load a key: a missing entry gives the default, any other error is returned.\<close>

definition load_state :: "'s app_state_repo \<Rightarrow> string \<Rightarrow> 'a \<Rightarrow> (json \<Rightarrow> 'a) \<Rightarrow> 's \<Rightarrow> 'a result \<times> 's" where
  "load_state repo k dflt f s =
     (case Get repo k s of
        (Inl e, s1) \<Rightarrow> (if err_is e ErrNotFound then Inr dflt else Inl e, s1)
      | (Inr st, s1) \<Rightarrow> (Inr (f (ValueJSON st)), s1))"

definition effectiveLimitsLocked ::
  "'s app_state_repo \<Rightarrow> budget_limits \<Rightarrow> 's \<Rightarrow> budget_limits result \<times> 's" where
  "effectiveLimitsLocked repo cfg = load_state repo ''limits_override'' cfg (override_limits cfg)"

definition loadCountersLocked :: "'s app_state_repo \<Rightarrow> 's \<Rightarrow> budget_counters result \<times> 's" where
  "loadCountersLocked repo = load_state repo ''task_counters'' zero_counters counters_of_json"

definition loadBlockLocked :: "'s app_state_repo \<Rightarrow> 's \<Rightarrow> rate_limit_block result \<times> 's" where
  "loadBlockLocked repo = load_state repo ''rate_limit_block'' no_block block_of_json"

text \<open>The stored timestamp is set by the repository, the one passed here is unused.\<close>

definition put_state :: "'s app_state_repo \<Rightarrow> string \<Rightarrow> json \<Rightarrow> time \<Rightarrow> 's \<Rightarrow> unit result \<times> 's" where
  "put_state repo k j t = Set repo \<lparr> Key = k, ValueJSON = j, StateUpdatedAt = t \<rparr>"

definition persistCountersLocked ::
  "'s app_state_repo \<Rightarrow> budget_counters \<Rightarrow> time \<Rightarrow> 's \<Rightarrow> unit result \<times> 's" where
  "persistCountersLocked repo c now = put_state repo ''task_counters'' (enc_counters c) now"

definition snapshotLocked ::
  "'s app_state_repo \<Rightarrow> budget_limits \<Rightarrow> time \<Rightarrow> 's \<Rightarrow> budget_snapshot result \<times> 's" where
  "snapshotLocked repo cfg now s =
     (case effectiveLimitsLocked repo cfg s of (Inl e, s1) \<Rightarrow> (Inl e, s1) | (Inr limits, s1) \<Rightarrow>
     (case loadCountersLocked repo s1 of (Inl e, s2) \<Rightarrow> (Inl e, s2) | (Inr counters, s2) \<Rightarrow>
     (case loadBlockLocked repo s2 of (Inl e, s3) \<Rightarrow> (Inl e, s3) | (Inr block, s3) \<Rightarrow>
        let rolled = RolloverCounters now counters limits;
            snap = \<lparr> Counters = rolled, Limits = limits, Block = block,
                     Reason = EvaluateBudget now rolled limits block \<rparr>
        in if rolled \<noteq> counters
           then (case persistCountersLocked repo rolled now s3 of
                   (Inl e, s4) \<Rightarrow> (Inl e, s4) | (Inr _, s4) \<Rightarrow> (Inr snap, s4))
           else (Inr snap, s3))))"

definition SnapshotReason ::
  "'s app_state_repo \<Rightarrow> budget_limits \<Rightarrow> time \<Rightarrow> 's \<Rightarrow> budget_reason result \<times> 's" where
  "SnapshotReason repo cfg now s =
     (case snapshotLocked repo cfg now s of
        (Inl e, s1) \<Rightarrow> (Inl e, s1) | (Inr snap, s1) \<Rightarrow> (Inr (Reason snap), s1))"

definition bump :: "budget_counters \<Rightarrow> budget_counters" where
  "bump c = c\<lparr> DailyCount := wrap64 (DailyCount c + 1), WeeklyCount := wrap64 (WeeklyCount c + 1) \<rparr>"

definition CheckAndIncrement ::
  "'s app_state_repo \<Rightarrow> budget_limits \<Rightarrow> time \<Rightarrow> 's \<Rightarrow> (budget_reason \<times> budget_snapshot) result \<times> 's" where
  "CheckAndIncrement repo cfg now s =
     (case snapshotLocked repo cfg now s of
        (Inl e, s1) \<Rightarrow> (Inl e, s1)
      | (Inr snap, s1) \<Rightarrow>
          if Reason snap \<noteq> BudgetReasonAllowed then (Inr (Reason snap, snap), s1)
          else let snap' = snap\<lparr> Counters := bump (Counters snap) \<rparr>
               in case persistCountersLocked repo (Counters snap') now s1 of
                    (Inl e, s2) \<Rightarrow> (Inl e, s2)
                  | (Inr _, s2) \<Rightarrow> (Inr (BudgetReasonAllowed, snap'), s2))"

definition CheckAndIncrementReason ::
  "'s app_state_repo \<Rightarrow> budget_limits \<Rightarrow> time \<Rightarrow> 's \<Rightarrow> budget_reason result \<times> 's" where
  "CheckAndIncrementReason repo cfg now s =
     (case CheckAndIncrement repo cfg now s of
        (Inl e, s1) \<Rightarrow> (Inl e, s1) | (Inr (reason, _), s1) \<Rightarrow> (Inr reason, s1))"

definition RecordRateLimitBlock ::
  "'s app_state_repo \<Rightarrow> int \<Rightarrow> string \<Rightarrow> time \<Rightarrow> 's \<Rightarrow> unit result \<times> 's" where
  "RecordRateLimitBlock repo resetsAtUnix ty observedAt =
     put_state repo ''rate_limit_block'' (enc_block resetsAtUnix ty (unix_sec observedAt)) observedAt"

definition SetLimits ::
  "'s app_state_repo \<Rightarrow> budget_limits \<Rightarrow> int \<Rightarrow> int \<Rightarrow> time \<Rightarrow> 's \<Rightarrow> budget_limits result \<times> 's" where
  "SetLimits repo cfg dailyMax weeklyMax now s =
     (if dailyMax < 0 \<or> weeklyMax < 0 then (Inl (EMsg ''limits must be >= 0''), s)
      else if 0 < dailyMax \<and> 0 < weeklyMax \<and> weeklyMax < dailyMax
      then (Inl (EMsg (''daily_max ('' @ int_str dailyMax @ '') must be <= weekly_max ('' @ int_str weeklyMax @ '')'')), s)
      else case put_state repo ''limits_override'' (enc_override dailyMax weeklyMax) now s of
             (Inl e, s1) \<Rightarrow> (Inl e, s1)
           | (Inr _, s1) \<Rightarrow> effectiveLimitsLocked repo cfg s1)"

section \<open>Round trips\<close>

definition int64_counters :: "budget_counters \<Rightarrow> bool" where
  "int64_counters c = (int64_ok (DailyCount c) \<and> int64_ok (WeeklyCount c))"

lemma dec_enc_counters: "int64_counters c \<Longrightarrow> dec_counters (enc_counters c) = Some c"
  by (simp add: dec_counters_def enc_counters_def int64_counters_def dec_field_def fold_eq_def
      to_lower_def to_lower_char_def)

lemma dec_enc_block: "int64_ok u \<Longrightarrow> int64_ok ob \<Longrightarrow> dec_block (enc_block u ty ob) = Some (u, ty)"
  by (simp add: dec_block_def enc_block_def dec_field_def fold_eq_def to_lower_def to_lower_char_def)

lemma dec_enc_override:
  "int64_ok d \<Longrightarrow> int64_ok w \<Longrightarrow> dec_override (enc_override d w) = Some (d, w)"
  by (simp add: dec_override_def enc_override_def dec_field_def fold_eq_def to_lower_def to_lower_char_def)

lemma dec_members_int: "int64_ok v \<Longrightarrow> int64_ok (fst (dec_members dec_int js v))"
proof (induction js arbitrary: v)
  case (Cons j js)
  then have "int64_ok (fst (dec_int j v))" by (cases j) simp_all
  then show ?case using Cons.IH by (simp split: prod.split) (metis fst_conv)
qed simp

lemma counters_of_json_int64: "int64_counters (counters_of_json j)"
proof (cases "struct_members j")
  case None
  then show ?thesis
    by (simp add: counters_of_json_def dec_counters_def int64_counters_def zero_counters_def int64_ok_def)
next
  case (Some kvs)
  have "int64_ok (fst (dec_field f dec_int kvs 0))" for f
    unfolding dec_field_def by (rule dec_members_int) (simp add: int64_ok_def)
  then show ?thesis using Some
    by (auto simp: counters_of_json_def dec_counters_def int64_counters_def zero_counters_def int64_ok_def
        Let_def split: prod.splits) (metis fst_conv)+
qed

section \<open>The view of the budget\<close>

definition at_key :: "string \<Rightarrow> 'a \<Rightarrow> (json \<Rightarrow> 'a) \<Rightarrow> (string \<Rightarrow> json option) \<Rightarrow> 'a" where
  "at_key k dflt f v = (case v k of None \<Rightarrow> dflt | Some j \<Rightarrow> f j)"

definition limits_of :: "budget_limits \<Rightarrow> (string \<Rightarrow> json option) \<Rightarrow> budget_limits" where
  "limits_of cfg = at_key ''limits_override'' cfg (override_limits cfg)"

definition counters_of :: "(string \<Rightarrow> json option) \<Rightarrow> budget_counters" where
  "counters_of = at_key ''task_counters'' zero_counters counters_of_json"

definition block_of :: "(string \<Rightarrow> json option) \<Rightarrow> rate_limit_block" where
  "block_of = at_key ''rate_limit_block'' no_block block_of_json"

lemmas budget_views = limits_of_def counters_of_def block_of_def at_key_def

lemma int64_counters_of: "int64_counters (counters_of v)"
  by (simp add: counters_of_def at_key_def counters_of_json_int64 split: option.split)
     (simp add: int64_counters_def zero_counters_def int64_ok_def)

lemma int64_rollover: "int64_counters c \<Longrightarrow> int64_counters (RolloverCounters now c l)"
  by (simp add: int64_counters_def RolloverCounters_fields int64_ok_def)

lemma int64_bump: "int64_counters (bump c)"
  by (simp add: int64_counters_def bump_def)

lemma views_put_counters:
  "limits_of cfg (v(''task_counters'' \<mapsto> j)) = limits_of cfg v"
  "block_of (v(''task_counters'' \<mapsto> j)) = block_of v"
  "int64_counters c \<Longrightarrow> counters_of (v(''task_counters'' \<mapsto> enc_counters c)) = c"
  by (simp_all add: budget_views counters_of_json_def dec_enc_counters)

lemma views_put_block:
  "limits_of cfg (v(''rate_limit_block'' \<mapsto> j)) = limits_of cfg v"
  "counters_of (v(''rate_limit_block'' \<mapsto> j)) = counters_of v"
  by (simp_all add: budget_views)

lemma views_put_override:
  "block_of (v(''limits_override'' \<mapsto> j)) = block_of v"
  "counters_of (v(''limits_override'' \<mapsto> j)) = counters_of v"
  by (simp_all add: budget_views)

text \<open>The abstract gate: what CheckAndIncrement computes from the stored values.\<close>

definition rolled_at :: "budget_limits \<Rightarrow> time \<Rightarrow> (string \<Rightarrow> json option) \<Rightarrow> budget_counters" where
  "rolled_at cfg now v = RolloverCounters now (counters_of v) (limits_of cfg v)"

definition reason_at :: "budget_limits \<Rightarrow> time \<Rightarrow> (string \<Rightarrow> json option) \<Rightarrow> budget_reason" where
  "reason_at cfg now v = EvaluateBudget now (rolled_at cfg now v) (limits_of cfg v) (block_of v)"

definition same_budget_config :: "(string \<Rightarrow> json option) \<Rightarrow> (string \<Rightarrow> json option) \<Rightarrow> bool" where
  "same_budget_config v v' = (\<forall>k. k \<noteq> ''task_counters'' \<longrightarrow> v' k = v k)"

lemma same_budget_configD:
  "same_budget_config v v' \<Longrightarrow> limits_of cfg v' = limits_of cfg v"
  "same_budget_config v v' \<Longrightarrow> block_of v' = block_of v"
  by (simp_all add: same_budget_config_def budget_views)

lemma same_budget_config_refl [simp]: "same_budget_config v v"
  by (simp add: same_budget_config_def)

lemma int64_rolled: "int64_counters (rolled_at cfg now v)"
  by (simp add: rolled_at_def int64_rollover int64_counters_of)

context app_state_repository
begin

lemma load_state_cases:
  assumes "load_state repo k dflt f s = (r, s')"
  shows "view s' = view s" "r = Inr x \<Longrightarrow> x = at_key k dflt f (view s)"
proof -
  obtain g s1 where g: "Get repo k s = (g, s1)" by fastforce
  show "view s' = view s"
    using assms g Get_keeps[OF g] by (auto simp: load_state_def split: sum.splits)
  show "x = at_key k dflt f (view s)" if "r = Inr x"
  proof (cases g)
    case (Inl e)
    then show ?thesis using assms g that Get_missing[of k s e s1]
      by (auto simp: load_state_def at_key_def split: if_splits)
  next
    case (Inr a)
    then show ?thesis using assms g that Get_found[of k s a s1]
      by (auto simp: load_state_def at_key_def)
  qed
qed

lemma persist_cases:
  assumes "persistCountersLocked repo c now s = (r, s')" "int64_counters c"
  shows "same_budget_config (view s) (view s')"
    "counters_of (view s') = c \<or> \<not> is_ok r \<and> counters_of (view s') = counters_of (view s)"
proof -
  have "view s' = (view s)(''task_counters'' \<mapsto> enc_counters c) \<or> \<not> is_ok r \<and> view s' = view s"
    using assms(1) Set_ok Set_err unfolding persistCountersLocked_def put_state_def
    by (cases r) fastforce+
  then show "same_budget_config (view s) (view s')"
    "counters_of (view s') = c \<or> \<not> is_ok r \<and> counters_of (view s') = counters_of (view s)"
    using views_put_counters(3)[OF assms(2), of "view s"] by (auto simp: same_budget_config_def)
qed

lemma snapshot_cases:
  assumes "snapshotLocked repo cfg now s = (r, s')"
  shows "same_budget_config (view s) (view s')"
    "counters_of (view s') = rolled_at cfg now (view s) \<or>
       \<not> is_ok r \<and> counters_of (view s') = counters_of (view s)"
    "r = Inr snap \<Longrightarrow> snap = \<lparr> Counters = rolled_at cfg now (view s), Limits = limits_of cfg (view s),
       Block = block_of (view s), Reason = reason_at cfg now (view s) \<rparr>"
proof -
  let ?v = "view s" and ?rolled = "rolled_at cfg now (view s)"
  obtain rl s1 where l: "effectiveLimitsLocked repo cfg s = (rl, s1)" by fastforce
  obtain rc s2 where c: "loadCountersLocked repo s1 = (rc, s2)" by fastforce
  obtain rb s3 where b: "loadBlockLocked repo s2 = (rb, s3)" by fastforce
  have v1: "view s1 = ?v" "\<And>x. rl = Inr x \<Longrightarrow> x = limits_of cfg ?v"
    using load_state_cases[OF l[unfolded effectiveLimitsLocked_def]] by (auto simp: limits_of_def)
  have v2: "view s2 = ?v" "\<And>x. rc = Inr x \<Longrightarrow> x = counters_of ?v"
    using load_state_cases[OF c[unfolded loadCountersLocked_def]] v1 by (auto simp: counters_of_def)
  have v3: "view s3 = ?v" "\<And>x. rb = Inr x \<Longrightarrow> x = block_of ?v"
    using load_state_cases[OF b[unfolded loadBlockLocked_def]] v2 by (auto simp: block_of_def)
  have "same_budget_config ?v (view s') \<and>
    (counters_of (view s') = ?rolled \<or> \<not> is_ok r \<and> counters_of (view s') = counters_of ?v) \<and>
    (r = Inr snap \<longrightarrow> snap = \<lparr> Counters = ?rolled, Limits = limits_of cfg ?v, Block = block_of ?v,
       Reason = reason_at cfg now ?v \<rparr>)"
  proof (cases "is_ok rl \<and> is_ok rc \<and> is_ok rb")
    case False
    then have "view s' = ?v \<and> \<not> is_ok r" using assms l c b v1 v2 v3
      by (cases rl; cases rc; cases rb) (auto simp: snapshotLocked_def)
    then show ?thesis by auto
  next
    case True
    then have ok: "rl = Inr (limits_of cfg ?v)" "rc = Inr (counters_of ?v)" "rb = Inr (block_of ?v)"
      using v1 v2 v3 by (cases rl; cases rc; cases rb; simp)+
    let ?snap = "\<lparr> Counters = ?rolled, Limits = limits_of cfg ?v, Block = block_of ?v,
       Reason = reason_at cfg now ?v \<rparr>"
    have run: "(r, s') = (if ?rolled \<noteq> counters_of ?v
           then (case persistCountersLocked repo ?rolled now s3 of
                   (Inl e, s4) \<Rightarrow> (Inl e, s4) | (Inr _, s4) \<Rightarrow> (Inr ?snap, s4))
           else (Inr ?snap, s3))"
      using assms[unfolded snapshotLocked_def l c b ok prod.case sum.case Let_def]
      unfolding rolled_at_def reason_at_def by (rule sym)
    show ?thesis
    proof (cases "?rolled = counters_of ?v")
      case True
      then show ?thesis using run v3 by auto
    next
      case False
      obtain rp s4 where p: "persistCountersLocked repo ?rolled now s3 = (rp, s4)" by fastforce
      show ?thesis using run False p persist_cases[OF p int64_rolled] v3
        by (cases rp) auto
    qed
  qed
  then show "same_budget_config ?v (view s')"
    "counters_of (view s') = ?rolled \<or> \<not> is_ok r \<and> counters_of (view s') = counters_of ?v"
    "r = Inr snap \<Longrightarrow> snap = \<lparr> Counters = ?rolled, Limits = limits_of cfg ?v, Block = block_of ?v,
       Reason = reason_at cfg now ?v \<rparr>" by auto
qed

lemma check_cases:
  assumes "CheckAndIncrement repo cfg now s = (r, s')"
  shows "same_budget_config (view s) (view s')"
    "counters_of (view s') \<in> {counters_of (view s), rolled_at cfg now (view s)} \<or>
       reason_at cfg now (view s) = BudgetReasonAllowed \<and>
       counters_of (view s') = bump (rolled_at cfg now (view s))"
    "r = Inr (reason, snap) \<Longrightarrow> reason = reason_at cfg now (view s) \<and>
       counters_of (view s') = (if reason = BudgetReasonAllowed
         then bump (rolled_at cfg now (view s)) else rolled_at cfg now (view s))"
proof -
  let ?v = "view s"
  obtain r1 s1 where s1: "snapshotLocked repo cfg now s = (r1, s1)" by fastforce
  note c = snapshot_cases[OF s1]
  have "same_budget_config ?v (view s') \<and>
    (counters_of (view s') \<in> {counters_of ?v, rolled_at cfg now ?v} \<or>
       reason_at cfg now ?v = BudgetReasonAllowed \<and> counters_of (view s') = bump (rolled_at cfg now ?v)) \<and>
    (r = Inr (reason, snap) \<longrightarrow> reason = reason_at cfg now ?v \<and>
       counters_of (view s') = (if reason = BudgetReasonAllowed
         then bump (rolled_at cfg now ?v) else rolled_at cfg now ?v))"
  proof (cases r1)
    case (Inl e)
    then show ?thesis using assms s1 c by (auto simp: CheckAndIncrement_def)
  next
    case (Inr sn)
    then have sn: "Counters sn = rolled_at cfg now ?v" "Reason sn = reason_at cfg now ?v"
      "counters_of (view s1) = rolled_at cfg now ?v" using c by auto
    show ?thesis
    proof (cases "reason_at cfg now ?v = BudgetReasonAllowed")
      case False
      then show ?thesis using assms s1 c Inr sn by (auto simp: CheckAndIncrement_def)
    next
      case True
      obtain rp s2 where p: "persistCountersLocked repo (bump (rolled_at cfg now ?v)) now s1 = (rp, s2)"
        by fastforce
      note pc = persist_cases[OF p int64_bump]
      have "same_budget_config ?v (view s2)"
        using c(1) pc(1) by (auto simp: same_budget_config_def)
      then show ?thesis using assms s1 Inr sn True p pc
        by (cases rp) (auto simp: CheckAndIncrement_def Let_def)
    qed
  qed
  then show "same_budget_config ?v (view s')"
    "counters_of (view s') \<in> {counters_of ?v, rolled_at cfg now ?v} \<or>
       reason_at cfg now ?v = BudgetReasonAllowed \<and> counters_of (view s') = bump (rolled_at cfg now ?v)"
    "r = Inr (reason, snap) \<Longrightarrow> reason = reason_at cfg now ?v \<and>
       counters_of (view s') = (if reason = BudgetReasonAllowed
         then bump (rolled_at cfg now ?v) else rolled_at cfg now ?v)" by auto
qed

end

end
