(* ===== verification/Budget_Laws.thy ===== *)
theory Budget_Laws
  imports Budget_Usecase
begin

text \<open>What the budget promises over a history of calls, whatever statements of the
  store fail: the slots granted under one daily (weekly) key never exceed the cap,
  a recorded rate-limit block refuses every call before its reset, and over a
  working store CheckAndIncrement is exactly the abstract gate. Proved for any
  AppStateRepository and stated for the GORM one.\<close>

section \<open>Histories\<close>

datatype budget_op =
    OpSnapshot time
  | OpCheck time
  | OpBlock int string time
  | OpSetLimits int int time

text \<open>The decision a call reports: None when it is not a check.\<close>

fun run_budget_op ::
  "'s app_state_repo \<Rightarrow> budget_limits \<Rightarrow> budget_op \<Rightarrow> 's \<Rightarrow> budget_reason result option \<times> 's" where
  "run_budget_op repo cfg (OpSnapshot now) s = (None, snd (SnapshotReason repo cfg now s))"
| "run_budget_op repo cfg (OpCheck now) s =
     (let (r, s1) = CheckAndIncrementReason repo cfg now s in (Some r, s1))"
| "run_budget_op repo cfg (OpBlock u ty t) s = (None, snd (RecordRateLimitBlock repo u ty t s))"
| "run_budget_op repo cfg (OpSetLimits d w t) s = (None, snd (SetLimits repo cfg d w t s))"

fun run_budget_ops ::
  "'s app_state_repo \<Rightarrow> budget_limits \<Rightarrow> budget_op list \<Rightarrow> 's \<Rightarrow> budget_reason result option list \<times> 's" where
  "run_budget_ops repo cfg [] s = ([], s)"
| "run_budget_ops repo cfg (op # calls) s =
     (let (r, s1) = run_budget_op repo cfg op s; (rs, s2) = run_budget_ops repo cfg calls s1
      in (r # rs, s2))"

definition granted :: "budget_reason result option list \<Rightarrow> nat" where
  "granted rs = length (filter (\<lambda>r. r = Some (Inr BudgetReasonAllowed)) rs)"

section \<open>Daily and weekly buckets\<close>

datatype budget_scope = DailyScope | WeeklyScope

fun scope_key :: "budget_scope \<Rightarrow> time \<Rightarrow> budget_limits \<Rightarrow> string" where
  "scope_key DailyScope now l = DateKey now (ResetTZ l)"
| "scope_key WeeklyScope now l = WeekKey now (ResetTZ l) (WeekStartsOn l)"

fun scope_max :: "budget_scope \<Rightarrow> budget_limits \<Rightarrow> int" where
  "scope_max DailyScope l = DailyMax l"
| "scope_max WeeklyScope l = WeeklyMax l"

fun scope_stored_key :: "budget_scope \<Rightarrow> budget_counters \<Rightarrow> string" where
  "scope_stored_key DailyScope c = DailyKey c"
| "scope_stored_key WeeklyScope c = WeeklyKey c"

fun scope_count :: "budget_scope \<Rightarrow> budget_counters \<Rightarrow> int" where
  "scope_count DailyScope c = DailyCount c"
| "scope_count WeeklyScope c = WeeklyCount c"

text \<open>The slots used under a key.\<close>

definition used :: "budget_scope \<Rightarrow> string \<Rightarrow> (string \<Rightarrow> json option) \<Rightarrow> int" where
  "used sc k v = (let c = counters_of v in if scope_stored_key sc c = k then scope_count sc c else 0)"

text \<open>Calls of one bucket; overrides stay within the cap (0 falls back to the
  configuration).\<close>

fun op_in_bucket :: "budget_scope \<Rightarrow> budget_limits \<Rightarrow> string \<Rightarrow> int \<Rightarrow> budget_op \<Rightarrow> bool" where
  "op_in_bucket sc cfg k m (OpSnapshot now) = (scope_key sc now cfg = k)"
| "op_in_bucket sc cfg k m (OpCheck now) = (scope_key sc now cfg = k)"
| "op_in_bucket sc cfg k m (OpBlock u ty t) = True"
| "op_in_bucket DailyScope cfg k m (OpSetLimits d w t) = (d \<le> m \<and> int64_ok d \<and> int64_ok w)"
| "op_in_bucket WeeklyScope cfg k m (OpSetLimits d w t) = (w \<le> m \<and> int64_ok d \<and> int64_ok w)"

definition capped :: "budget_scope \<Rightarrow> budget_limits \<Rightarrow> int \<Rightarrow> (string \<Rightarrow> json option) \<Rightarrow> bool" where
  "capped sc cfg m v = (0 < scope_max sc (limits_of cfg v) \<and> scope_max sc (limits_of cfg v) \<le> m)"

lemma limits_of_tz [simp]:
  "ResetTZ (limits_of cfg v) = ResetTZ cfg" "WeekStartsOn (limits_of cfg v) = WeekStartsOn cfg"
  by (simp_all add: limits_of_def at_key_def override_limits_def Let_def split: option.split prod.split)

lemma scope_key_limits [simp]: "scope_key sc now (limits_of cfg v) = scope_key sc now cfg"
  by (cases sc) simp_all

lemma rolled_scope:
  "scope_stored_key sc (rolled_at cfg now v) = scope_key sc now cfg"
  "scope_count sc (rolled_at cfg now v) = used sc (scope_key sc now cfg) v"
  by (cases sc; simp add: rolled_at_def RolloverCounters_fields used_def Let_def)+

lemma bump_scope:
  "scope_stored_key sc (bump c) = scope_stored_key sc c"
  "scope_count sc (bump c) = wrap64 (scope_count sc c + 1)"
  by (cases sc; simp add: bump_def)+

lemma allowed_below_cap:
  assumes "reason_at cfg now v = BudgetReasonAllowed" "capped sc cfg m v"
  shows "used sc (scope_key sc now cfg) v < m"
  using assms rolled_scope(2)[of sc cfg now v]
  by (cases sc) (auto simp: reason_at_def EvaluateBudget_allowed_iff capped_def)

lemma used_int64: "int64_ok (used sc k v)"
  using int64_counters_of[of v]
  by (cases sc) (auto simp: used_def int64_counters_def int64_ok_def Let_def)

lemma used_bump:
  assumes "reason_at cfg now v = BudgetReasonAllowed" "capped sc cfg m v" "int64_ok m"
    and "counters_of v' = bump (rolled_at cfg now v)"
  shows "used sc (scope_key sc now cfg) v' = used sc (scope_key sc now cfg) v + 1"
proof -
  let ?u = "used sc (scope_key sc now cfg) v"
  have "?u < m" using allowed_below_cap assms(1,2) by blast
  then have "int64_ok (?u + 1)" using used_int64[of sc "scope_key sc now cfg" v] assms(3)
    by (simp add: int64_ok_def)
  then show ?thesis unfolding used_def Let_def assms(4) bump_scope rolled_scope
    by (simp add: wrap64_id used_def Let_def)
qed

lemma used_rolled:
  "counters_of v' = rolled_at cfg now v \<Longrightarrow> used sc (scope_key sc now cfg) v' = used sc (scope_key sc now cfg) v"
  by (simp add: used_def[of sc _ v'] rolled_scope Let_def)

lemma used_cong: "counters_of v' = counters_of v \<Longrightarrow> used sc k v' = used sc k v"
  by (simp add: used_def)

lemma capped_cong: "same_budget_config v v' \<Longrightarrow> capped sc cfg m v' = capped sc cfg m v"
  by (simp add: capped_def same_budget_configD)

context app_state_repository
begin

lemma put_state_cases:
  assumes "put_state repo k j t s = (r, s')"
  shows "view s' = (view s)(k \<mapsto> j) \<or> \<not> is_ok r \<and> view s' = view s"
  using assms Set_ok Set_err unfolding put_state_def by (cases r) fastforce+

lemma set_limits_cases:
  assumes "SetLimits repo cfg d w t s = (r, s')"
  shows "view s' = view s \<or> 0 \<le> d \<and> 0 \<le> w \<and> view s' = (view s)(''limits_override'' \<mapsto> enc_override d w)"
proof (cases "d < 0 \<or> w < 0 \<or> (0 < d \<and> 0 < w \<and> w < d)")
  case True
  then show ?thesis using assms by (auto simp: SetLimits_def)
next
  case False
  obtain rp s1 where p: "put_state repo ''limits_override'' (enc_override d w) t s = (rp, s1)" by fastforce
  have "view s' = view s1"
    using assms False p load_state_cases(1)[of "''limits_override''" cfg "override_limits cfg" s1]
    by (auto simp: SetLimits_def effectiveLimitsLocked_def split: sum.splits)
  then show ?thesis using put_state_cases[OF p] False by auto
qed

lemma capped_override:
  assumes "capped sc cfg m v" "0 < scope_max sc cfg" "scope_max sc cfg \<le> m" "0 \<le> d" "0 \<le> w"
    and "op_in_bucket sc cfg k m (OpSetLimits d w t)"
  shows "capped sc cfg m (v(''limits_override'' \<mapsto> enc_override d w))"
  using assms by (cases sc) (auto simp: capped_def budget_views override_limits_def dec_enc_override Let_def)

lemma snapshot_reason_state: "snd (SnapshotReason repo cfg now s) = snd (snapshotLocked repo cfg now s)"
  by (simp add: SnapshotReason_def split: prod.split sum.split)

lemma check_reason:
  assumes "CheckAndIncrementReason repo cfg now s = (r, s')"
  shows "\<exists>r0. CheckAndIncrement repo cfg now s = (r0, s') \<and>
    (\<forall>x. r = Inr x \<longrightarrow> (\<exists>snap. r0 = Inr (x, snap)))"
  using assms unfolding CheckAndIncrementReason_def by (auto split: prod.splits sum.splits)

text \<open>One call: the cap stays, the used slots do not shrink, a grant uses one.\<close>

lemma budget_op_step:
  assumes op: "op_in_bucket sc cfg k m op" and cap: "capped sc cfg m (view s)"
    and cfg: "0 < scope_max sc cfg" "scope_max sc cfg \<le> m" "int64_ok m"
    and run: "run_budget_op repo cfg op s = (r, s')"
  shows "capped sc cfg m (view s')" "used sc k (view s) \<le> used sc k (view s')"
    "r = Some (Inr BudgetReasonAllowed) \<Longrightarrow>
       used sc k (view s) < m \<and> used sc k (view s') = used sc k (view s) + 1"
proof -
  have "capped sc cfg m (view s') \<and> used sc k (view s) \<le> used sc k (view s') \<and>
    (r = Some (Inr BudgetReasonAllowed) \<longrightarrow>
       used sc k (view s) < m \<and> used sc k (view s') = used sc k (view s) + 1)"
  proof (cases op)
    case (OpSnapshot now)
    obtain r1 s1 where s1: "snapshotLocked repo cfg now s = (r1, s1)" by fastforce
    then have "s' = s1" "r = None" using run OpSnapshot by (simp_all add: snapshot_reason_state)
    moreover have "k = scope_key sc now cfg" using op OpSnapshot by simp
    then have "used sc k (view s1) = used sc k (view s)"
      using snapshot_cases(2)[OF s1] used_rolled[of "view s1" cfg now "view s" sc]
        used_cong[of "view s1" "view s" sc k] by metis
    ultimately show ?thesis using capped_cong[OF snapshot_cases(1)[OF s1]] cap by simp
  next
    case (OpCheck now)
    obtain rc s1 where c: "CheckAndIncrementReason repo cfg now s = (rc, s1)" by fastforce
    have rs: "r = Some rc" "s' = s1" using run OpCheck c by auto
    have k: "k = scope_key sc now cfg" using op OpCheck by simp
    obtain r0 where r0: "CheckAndIncrement repo cfg now s = (r0, s1)"
      "\<forall>x. rc = Inr x \<longrightarrow> (\<exists>snap. r0 = Inr (x, snap))" using check_reason[OF c] by (elim exE conjE)
    note cc = check_cases[OF r0(1)]
    have cap': "capped sc cfg m (view s')" using capped_cong[OF cc(1)] cap rs by simp
    have up: "used sc k (view s1) \<in> {used sc k (view s), used sc k (view s) + 1}"
      using cc(2) used_bump[OF _ cap cfg(3)] used_rolled used_cong unfolding k by blast
    have "used sc k (view s) < m \<and> used sc k (view s1) = used sc k (view s) + 1"
      if al: "rc = Inr BudgetReasonAllowed"
    proof -
      obtain snap where "r0 = Inr (BudgetReasonAllowed, snap)" using r0(2) al by blast
      then have "reason_at cfg now (view s) = BudgetReasonAllowed"
        "counters_of (view s1) = bump (rolled_at cfg now (view s))" using cc(3) by auto
      then show ?thesis using allowed_below_cap[OF _ cap] used_bump[OF _ cap cfg(3)] k by blast
    qed
    then show ?thesis using cap' up rs by auto
  next
    case (OpBlock u ty t)
    obtain rp s1 where p: "RecordRateLimitBlock repo u ty t s = (rp, s1)" by fastforce
    then have "s' = s1" "r = None" using run OpBlock by simp_all
    moreover have "view s1 = view s \<or> view s1 = (view s)(''rate_limit_block'' \<mapsto> enc_block u ty (unix_sec t))"
      using put_state_cases[OF p[unfolded RecordRateLimitBlock_def]] by auto
    then have "capped sc cfg m (view s1) = capped sc cfg m (view s)"
      "counters_of (view s1) = counters_of (view s)"
      by (auto simp: capped_def views_put_block)
    ultimately show ?thesis using cap used_cong[of "view s1" "view s" sc k] by simp
  next
    case (OpSetLimits d w t)
    obtain rp s1 where p: "SetLimits repo cfg d w t s = (rp, s1)" by fastforce
    then have rs: "s' = s1" "r = None" using run OpSetLimits by simp_all
    note sl = set_limits_cases[OF p]
    have "counters_of (view s1) = counters_of (view s)" using sl views_put_override by auto
    moreover have "capped sc cfg m (view s1)"
      using sl cap capped_override[OF cap cfg(1,2)] op OpSetLimits by auto
    ultimately show ?thesis using rs used_cong[of "view s1" "view s" sc k] by simp
  qed
  then show "capped sc cfg m (view s')" "used sc k (view s) \<le> used sc k (view s')"
    "r = Some (Inr BudgetReasonAllowed) \<Longrightarrow>
       used sc k (view s) < m \<and> used sc k (view s') = used sc k (view s) + 1" by auto
qed

lemma granted_within_cap:
  assumes "\<forall>op \<in> set calls. op_in_bucket sc cfg k m op" "capped sc cfg m (view s)"
    and cfg: "0 < scope_max sc cfg" "scope_max sc cfg \<le> m" "int64_ok m"
    and "run_budget_ops repo cfg calls s = (rs, s')"
  shows "int (granted rs) \<le> max 0 (m - used sc k (view s))"
  using assms(1,2,6)
proof (induction calls arbitrary: s rs s')
  case Nil
  then show ?case by (simp add: granted_def)
next
  case (Cons op calls)
  obtain r s1 where r: "run_budget_op repo cfg op s = (r, s1)" by fastforce
  obtain rs1 s2 where rs1: "run_budget_ops repo cfg calls s1 = (rs1, s2)" by fastforce
  have rs: "rs = r # rs1" using Cons.prems(3) r rs1 by simp
  have op: "op_in_bucket sc cfg k m op" using Cons.prems(1) by simp
  note st = budget_op_step[OF op Cons.prems(2) cfg r]
  have IH: "int (granted rs1) \<le> max 0 (m - used sc k (view s1))"
    using Cons.IH[OF _ st(1) rs1] Cons.prems(1) by simp
  show ?case
  proof (cases "r = Some (Inr BudgetReasonAllowed)")
    case True
    then have "used sc k (view s) < m" "used sc k (view s1) = used sc k (view s) + 1" using st(3) by auto
    then show ?thesis using IH rs True by (simp add: granted_def)
  next
    case False
    then have "granted rs = granted rs1" using rs by (simp add: granted_def)
    then show ?thesis using IH st(2) by linarith
  qed
qed

text \<open>A recorded block, as later calls see it.\<close>

lemma recorded_block_view:
  assumes "RecordRateLimitBlock repo u ty t s = (Inr (), s')" "int64_ok u" "int64_ok (unix_sec t)"
  shows "block_of (view s') = (if u = 0 then no_block
    else \<lparr> BlockedUntil = u * Second, RateLimitType = ty \<rparr>)"
  using put_state_cases[OF assms(1)[unfolded RecordRateLimitBlock_def]] assms(2,3)
  by (auto simp: budget_views block_of_json_def dec_enc_block)

lemma blocked_refuses:
  assumes "Active (block_of (view s)) now" "CheckAndIncrement repo cfg now s = (Inr (reason, snap), s')"
  shows "reason = BudgetReasonRateLimited"
  using check_cases(3)[OF assms(2), of reason snap] assms(1)
  by (simp add: reason_at_def EvaluateBudget_def)

end

text \<open>Only another block replaces a block.\<close>

fun is_block_op :: "budget_op \<Rightarrow> bool" where
  "is_block_op (OpBlock u ty t) = True"
| "is_block_op _ = False"

context app_state_repository
begin

lemma non_block_op_keeps:
  assumes "run_budget_op repo cfg call s = (r, s')" "\<not> is_block_op call"
  shows "block_of (view s') = block_of (view s)"
proof (cases call)
  case (OpSnapshot now)
  obtain r1 s1 where s1: "snapshotLocked repo cfg now s = (r1, s1)" by fastforce
  then have "s' = s1" using assms OpSnapshot by (simp add: snapshot_reason_state)
  then show ?thesis using same_budget_configD(2)[OF snapshot_cases(1)[OF s1]] by simp
next
  case (OpCheck now)
  obtain rc s1 where c: "CheckAndIncrementReason repo cfg now s = (rc, s1)" by fastforce
  obtain r0 where r0: "CheckAndIncrement repo cfg now s = (r0, s1)" using check_reason[OF c] by blast
  then show ?thesis using assms(1) OpCheck c same_budget_configD(2)[OF check_cases(1)[OF r0]] by simp
next
  case (OpSetLimits d w t)
  obtain rp s1 where p: "SetLimits repo cfg d w t s = (rp, s1)" by fastforce
  then show ?thesis using assms(1) OpSetLimits set_limits_cases[OF p] views_put_override by auto
qed (use assms in simp)

lemma non_block_ops_keep:
  "run_budget_ops repo cfg calls s = (rs, s') \<Longrightarrow> \<forall>call \<in> set calls. \<not> is_block_op call \<Longrightarrow>
   block_of (view s') = block_of (view s)"
proof (induction calls arbitrary: s rs)
  case (Cons call calls)
  obtain r s1 where r: "run_budget_op repo cfg call s = (r, s1)" by fastforce
  obtain rs1 s2 where rs1: "run_budget_ops repo cfg calls s1 = (rs1, s2)" by fastforce
  have "s' = s2" using Cons.prems(1) r rs1 by simp
  then show ?case using Cons.IH[OF rs1[folded \<open>s' = s2\<close>]] Cons.prems(2)
      non_block_op_keeps[OF r] by simp
qed simp

lemma block_honoured:
  assumes "RecordRateLimitBlock repo u ty t s = (Inr (), s1)" "int64_ok u" "int64_ok (unix_sec t)"
    and "u \<noteq> 0" "u * Second \<noteq> zero_time" "now < u * Second"
    and "run_budget_ops repo cfg calls s1 = (rs, s2)" "\<forall>call \<in> set calls. \<not> is_block_op call"
    and "CheckAndIncrement repo cfg now s2 = (Inr (reason, snap), s3)"
  shows "reason = BudgetReasonRateLimited"
proof -
  have "block_of (view s2) = \<lparr> BlockedUntil = u * Second, RateLimitType = ty \<rparr>"
    using recorded_block_view[OF assms(1-3)] non_block_ops_keep[OF assms(7,8)] assms(4) by simp
  then have "Active (block_of (view s2)) now" using assms(5,6) by (simp add: Active_def is_zero_def)
  then show ?thesis using blocked_refuses assms(9) by blast
qed

lemma zero_block_clears:
  assumes "RecordRateLimitBlock repo 0 ty t s = (Inr (), s1)" "int64_ok (unix_sec t)"
  shows "block_of (view s1) = no_block"
  using recorded_block_view[OF assms(1) _ assms(2)] by (simp add: int64_ok_def)

end

section \<open>Over a working store\<close>

context working_app_state_repository
begin

lemma load_works:
  assumes "works s"
  shows "\<exists>s'. works s' \<and> view s' = view s \<and> load_state repo k dflt f s = (Inr (at_key k dflt f (view s)), s')"
proof -
  obtain s' where s': "works s'" "case view s k of
         None \<Rightarrow> Get repo k s = (Inl ErrNotFound, s')
       | Some j \<Rightarrow> (\<exists>a. Get repo k s = (Inr a, s') \<and> ValueJSON a = j)"
    using Get_works[OF assms, of k] by blast
  have l: "load_state repo k dflt f s = (Inr (at_key k dflt f (view s)), s')"
    using s'(2) by (auto simp: load_state_def at_key_def split: option.splits)
  show ?thesis using s'(1) load_state_cases(1)[OF l] l by (intro exI[of _ s'] conjI)
qed

lemma snapshot_works:
  assumes "works s"
  shows "\<exists>s'. works s' \<and> same_budget_config (view s) (view s') \<and>
    counters_of (view s') = rolled_at cfg now (view s) \<and>
    snapshotLocked repo cfg now s = (Inr \<lparr> Counters = rolled_at cfg now (view s),
      Limits = limits_of cfg (view s), Block = block_of (view s), Reason = reason_at cfg now (view s) \<rparr>, s')"
proof -
  obtain s1 where s1: "works s1" "view s1 = view s"
    "effectiveLimitsLocked repo cfg s = (Inr (limits_of cfg (view s)), s1)"
    using load_works[OF assms, of "''limits_override''" cfg "override_limits cfg"]
    unfolding effectiveLimitsLocked_def limits_of_def by (elim exE conjE)
  obtain s2 where s2: "works s2" "view s2 = view s"
    "loadCountersLocked repo s1 = (Inr (counters_of (view s)), s2)"
    using load_works[OF s1(1), of "''task_counters''" zero_counters counters_of_json]
    unfolding loadCountersLocked_def counters_of_def s1(2) by (elim exE conjE)
  obtain s3 where s3: "works s3" "view s3 = view s" "loadBlockLocked repo s2 = (Inr (block_of (view s)), s3)"
    using load_works[OF s2(1), of "''rate_limit_block''" no_block block_of_json]
    unfolding loadBlockLocked_def block_of_def s2(2) by (elim exE conjE)
  obtain s4 where s4: "works s4" "persistCountersLocked repo (rolled_at cfg now (view s)) now s3 = (Inr (), s4)"
    using Set_works[OF s3(1)] unfolding persistCountersLocked_def put_state_def by blast
  have run: "\<exists>s'. works s' \<and> snapshotLocked repo cfg now s = (Inr \<lparr> Counters = rolled_at cfg now (view s),
      Limits = limits_of cfg (view s), Block = block_of (view s), Reason = reason_at cfg now (view s) \<rparr>, s')"
    using s1(3) s2(3) s3(1,3) s4
    by (cases "rolled_at cfg now (view s) = counters_of (view s)")
       (simp_all add: snapshotLocked_def Let_def rolled_at_def reason_at_def)
  then obtain s' where s': "works s'" "snapshotLocked repo cfg now s = (Inr \<lparr> Counters = rolled_at cfg now (view s),
      Limits = limits_of cfg (view s), Block = block_of (view s), Reason = reason_at cfg now (view s) \<rparr>, s')"
    by blast
  show ?thesis using s' snapshot_cases(1,2)[OF s'(2)] by auto
qed

lemma check_works:
  assumes "works s"
  shows "\<exists>snap s'. works s' \<and> same_budget_config (view s) (view s') \<and>
    CheckAndIncrement repo cfg now s = (Inr (reason_at cfg now (view s), snap), s') \<and>
    counters_of (view s') = (if reason_at cfg now (view s) = BudgetReasonAllowed
      then bump (rolled_at cfg now (view s)) else rolled_at cfg now (view s))"
proof -
  obtain s1 where s1: "works s1" "snapshotLocked repo cfg now s = (Inr \<lparr> Counters = rolled_at cfg now (view s),
      Limits = limits_of cfg (view s), Block = block_of (view s), Reason = reason_at cfg now (view s) \<rparr>, s1)"
    using snapshot_works[OF assms] by blast
  obtain s2 where s2: "works s2" "persistCountersLocked repo (bump (rolled_at cfg now (view s))) now s1 = (Inr (), s2)"
    using Set_works[OF s1(1)] unfolding persistCountersLocked_def put_state_def by blast
  have "\<exists>snap s'. works s' \<and> CheckAndIncrement repo cfg now s = (Inr (reason_at cfg now (view s), snap), s')"
    using s1 s2 by (cases "reason_at cfg now (view s) = BudgetReasonAllowed")
      (simp_all add: CheckAndIncrement_def Let_def)
  then obtain snap s' where c: "works s'"
    "CheckAndIncrement repo cfg now s = (Inr (reason_at cfg now (view s), snap), s')" by blast
  show ?thesis using c check_cases(1)[OF c(2)] check_cases(3)[OF c(2) refl] by auto
qed

end

section \<open>Properties of the budget on the GORM repository\<close>

text \<open>C4: whatever statements of the store fail, and whatever overrides (within
  m) and rate-limit blocks are recorded in between, the calls of
  CheckAndIncrement under one daily (weekly) key grant at most m slots less those
  already used, where m bounds the configured and overriding caps.\<close>

lemma budget_cap_holds:
  assumes "\<forall>call \<in> set calls. op_in_bucket sc cfg k m call" "capped sc cfg m (app_view d)"
    and "0 < scope_max sc cfg" "scope_max sc cfg \<le> m" "int64_ok m"
    and "run_budget_ops gorm_app_repo cfg calls d = (rs, d')"
  shows "int (granted rs) \<le> max 0 (m - used sc k (app_view d))"
  using assms by (rule gorm_app.granted_within_cap)

definition sample_limits :: budget_limits where
  "sample_limits = \<lparr> DailyMax = 1, WeeklyMax = 5, WeekStartsOn = 1, ResetTZ = None \<rparr>"

lemma budget_cap_witness:
  "int (granted (fst (run_budget_ops gorm_app_repo sample_limits [OpCheck 0, OpSnapshot 5, OpCheck 7]
      (migrated_db (\<lambda>_. 0))))) \<le> 1"
proof -
  let ?d = "migrated_db (\<lambda>_. 0)" and ?calls = "[OpCheck 0, OpSnapshot 5, OpCheck 7]"
  have keys: "DateKey 5 None = DateKey 0 None" "DateKey 7 None = DateKey 0 None"
    by (simp_all add: DateKey_def local_day_def local_sec_def unix_sec_def tz_of_def UTC_def)
  have v: "app_view ?d ''task_counters'' = None" "app_view ?d ''limits_override'' = None"
    by (simp_all add: app_view_def migrated_db_def)
  have u: "used DailyScope k (app_view ?d) = 0" for k
    by (simp add: used_def counters_of_def at_key_def v zero_counters_def)
  have cap: "capped DailyScope sample_limits 1 (app_view ?d)"
    by (simp add: capped_def limits_of_def at_key_def v sample_limits_def)
  have "int (granted (fst (run_budget_ops gorm_app_repo sample_limits ?calls ?d)))
      \<le> max 0 (1 - used DailyScope (DateKey 0 None) (app_view ?d))"
    using cap keys
    by (intro budget_cap_holds[where calls = ?calls and cfg = sample_limits and
          d' = "snd (run_budget_ops gorm_app_repo sample_limits ?calls ?d)"])
       (simp_all add: sample_limits_def int64_ok_def)
  then show ?thesis by (simp add: u)
qed

text \<open>C26: over a store whose statements work, CheckAndIncrement computes exactly
  the abstract gate: it rolls the counters over, reports the decision of
  EvaluateBudget on them, and stores them incremented when allowed and rolled over
  when refused; nothing else in the store changes.\<close>

lemma check_and_increment_refines:
  assumes "db_works d"
  shows "\<exists>snap d'. db_works d' \<and> same_budget_config (app_view d) (app_view d') \<and>
    CheckAndIncrement gorm_app_repo cfg now d = (Inr (reason_at cfg now (app_view d), snap), d') \<and>
    counters_of (app_view d') = (if reason_at cfg now (app_view d) = BudgetReasonAllowed
      then bump (rolled_at cfg now (app_view d)) else rolled_at cfg now (app_view d))"
  using assms by (rule gorm_app_works.check_works)

lemma check_and_increment_witness:
  "reason_at sample_limits 0 (app_view (migrated_db (\<lambda>_. 0))) = BudgetReasonAllowed \<and>
   (\<exists>snap d'. CheckAndIncrement gorm_app_repo sample_limits 0 (migrated_db (\<lambda>_. 0)) =
      (Inr (BudgetReasonAllowed, snap), d') \<and> DailyCount (counters_of (app_view d')) = 1)"
proof -
  let ?d = "migrated_db (\<lambda>_. 0)"
  have v: "app_view ?d ''task_counters'' = None" "app_view ?d ''limits_override'' = None"
    "app_view ?d ''rate_limit_block'' = None"
    by (simp_all add: app_view_def migrated_db_def)
  have c: "rolled_at sample_limits 0 (app_view ?d) = RolloverCounters 0 zero_counters sample_limits"
    "limits_of sample_limits (app_view ?d) = sample_limits" "block_of (app_view ?d) = no_block"
    by (simp_all add: rolled_at_def budget_views v)
  have n: "DailyCount (RolloverCounters 0 zero_counters sample_limits) = 0"
    "WeeklyCount (RolloverCounters 0 zero_counters sample_limits) = 0"
    by (simp_all add: RolloverCounters_fields zero_counters_def)
  have m: "DailyMax sample_limits = 1" "WeeklyMax sample_limits = 5" by (simp_all add: sample_limits_def)
  have a: "reason_at sample_limits 0 (app_view ?d) = BudgetReasonAllowed"
    by (simp add: reason_at_def c EvaluateBudget_allowed_iff n m)
  show ?thesis using check_and_increment_refines[of ?d sample_limits 0] a
    by (auto simp: c bump_def n wrap64_def)
qed



text \<open>Recording a block with reset time 0 clears any block in force: the
  signal of a result event, which carries no reset time, switches the back-off off
  instead of on.\<close>

lemma rate_limit_without_reset_clears:
  assumes "RecordRateLimitBlock gorm_app_repo 0 ty t d = (Inr (), d1)" "int64_ok (unix_sec t)"
  shows "block_of (app_view d1) = no_block"
  using assms by (rule gorm_app.zero_block_clears)

lemma rate_limit_without_reset_witness:
  "block_of (app_view (snd (RecordRateLimitBlock gorm_app_repo 0 ''unknown'' 0 (migrated_db (\<lambda>_. 0))))) = no_block"
proof -
  let ?d = "migrated_db (\<lambda>_. 0)"
  obtain d1 where d1: "RecordRateLimitBlock gorm_app_repo 0 ''unknown'' 0 ?d = (Inr (), d1)"
    using gorm_app_works.Set_works[of ?d] unfolding RecordRateLimitBlock_def put_state_def by auto
  show ?thesis using rate_limit_without_reset_clears[OF d1] by (simp add: d1 unix_sec_def int64_ok_def)
qed

end
