(* ===== verification/Cost_Warn.thy ===== *)
theory Cost_Warn
  imports Slack_Client Usage_Usecase Budget_Laws
begin

text \<open>EvaluateCostWarn of internal/usecase/budget_usecase.go: after a task the cost of
  the day and of the week is compared with the configured amounts, and a Slack warning
  goes out when 80 or 100 percent is reached; four flags, stored under the keys of the
  day and the week, remember what was sent. The lemmas bound the warnings of a bucket
  and show where the flags do not do what the comment promises.\<close>

section \<open>The flags\<close>

record cost_warn_state =
  WarnDailyKey :: string
  DailyWarned80 :: bool
  DailyWarned100 :: bool
  WarnWeeklyKey :: string
  WeeklyWarned80 :: bool
  WeeklyWarned100 :: bool

definition zero_warn :: cost_warn_state where
  "zero_warn = \<lparr> WarnDailyKey = '''', DailyWarned80 = False, DailyWarned100 = False,
     WarnWeeklyKey = '''', WeeklyWarned80 = False, WeeklyWarned100 = False \<rparr>"

definition enc_warn :: "cost_warn_state \<Rightarrow> json" where
  "enc_warn s = JObj [(''daily_key'', JStr (WarnDailyKey s)),
     (''daily_warned_80'', JBool (DailyWarned80 s)), (''daily_warned_100'', JBool (DailyWarned100 s)),
     (''weekly_key'', JStr (WarnWeeklyKey s)),
     (''weekly_warned_80'', JBool (WeeklyWarned80 s)), (''weekly_warned_100'', JBool (WeeklyWarned100 s))]"

definition dec_warn :: "json \<Rightarrow> cost_warn_state option" where
  "dec_warn j =
     (case struct_members j of
        None \<Rightarrow> None
      | Some kvs \<Rightarrow>
          let (dk, o1) = dec_field ''daily_key'' dec_str kvs '''';
              (d8, o2) = dec_field ''daily_warned_80'' dec_bool kvs False;
              (d1, o3) = dec_field ''daily_warned_100'' dec_bool kvs False;
              (wk, o4) = dec_field ''weekly_key'' dec_str kvs '''';
              (w8, o5) = dec_field ''weekly_warned_80'' dec_bool kvs False;
              (w1, o6) = dec_field ''weekly_warned_100'' dec_bool kvs False
          in if o1 \<and> o2 \<and> o3 \<and> o4 \<and> o5 \<and> o6
             then Some \<lparr> WarnDailyKey = dk, DailyWarned80 = d8, DailyWarned100 = d1,
                         WarnWeeklyKey = wk, WeeklyWarned80 = w8, WeeklyWarned100 = w1 \<rparr>
             else None)"

definition warn_of_json :: "json \<Rightarrow> cost_warn_state" where
  "warn_of_json j = (case dec_warn j of None \<Rightarrow> zero_warn | Some s \<Rightarrow> s)"

definition loadCostWarnStateLocked :: "'s app_state_repo \<Rightarrow> 's \<Rightarrow> cost_warn_state result \<times> 's" where
  "loadCostWarnStateLocked repo = load_state repo ''cost_warn_state'' zero_warn warn_of_json"

definition persistCostWarnStateLocked :: "'s app_state_repo \<Rightarrow> cost_warn_state \<Rightarrow> time \<Rightarrow> 's \<Rightarrow> unit result \<times> 's" where
  "persistCostWarnStateLocked repo s now = put_state repo ''cost_warn_state'' (enc_warn s) now"

section \<open>EvaluateCostWarn\<close>

text \<open>The flags are dropped when their bucket is over.\<close>

definition rollover_warn :: "string \<Rightarrow> string \<Rightarrow> cost_warn_state \<Rightarrow> cost_warn_state" where
  "rollover_warn dailyKey weeklyKey s =
     (let s1 = (if WarnDailyKey s \<noteq> dailyKey
                then s\<lparr> WarnDailyKey := dailyKey, DailyWarned80 := False, DailyWarned100 := False \<rparr> else s)
      in if WarnWeeklyKey s1 \<noteq> weeklyKey
         then s1\<lparr> WarnWeeklyKey := weeklyKey, WeeklyWarned80 := False, WeeklyWarned100 := False \<rparr> else s1)"

record cost_warner =
  WarnAppRepo :: "world app_state_repo"
  WarnUsage :: "world usage_repo"
  WarnNotify :: "string \<Rightarrow> rat \<Rightarrow> rat \<Rightarrow> rat \<Rightarrow> go_error option prog"
  WarnLimits :: budget_limits
  WarnDailyMax :: rat
  WarnWeeklyMax :: rat

text \<open>The flags are stored before the message goes out; neither failure is returned.\<close>

definition send_warning :: "cost_warner \<Rightarrow> string \<Rightarrow> rat \<Rightarrow> rat \<Rightarrow> rat \<Rightarrow> cost_warn_state \<Rightarrow> time \<Rightarrow> unit prog" where
  "send_warning c scope pct cost cap s now = do {
     _ \<leftarrow> call (persistCostWarnStateLocked (WarnAppRepo c) s now);
     _ \<leftarrow> WarnNotify c scope pct cost cap;
     ret ()
   }"

definition evaluate_daily :: "cost_warner \<Rightarrow> string \<Rightarrow> time \<Rightarrow> cost_warn_state \<Rightarrow> cost_warn_state prog" where
  "evaluate_daily c dailyKey now s =
     (if WarnDailyMax c \<le> 0 then ret s
      else do {
        r \<leftarrow> call (RepoSumDailyCost (WarnUsage c) dailyKey);
        (case r of
           Inl _ \<Rightarrow> ret s
         | Inr cost \<Rightarrow> do {
             let pct = percent_used cost (WarnDailyMax c);
             if 100 \<le> pct \<and> \<not> DailyWarned100 s then do {
               let s1 = s\<lparr> DailyWarned100 := True \<rparr>;
               send_warning c ''daily'' pct cost (WarnDailyMax c) s1 now;
               ret s1
             }
             else if 80 \<le> pct \<and> \<not> DailyWarned80 s then do {
               let s1 = s\<lparr> DailyWarned80 := True \<rparr>;
               send_warning c ''daily'' pct cost (WarnDailyMax c) s1 now;
               ret s1
             }
             else ret s
           })
      })"

definition evaluate_weekly :: "cost_warner \<Rightarrow> string \<Rightarrow> time \<Rightarrow> cost_warn_state \<Rightarrow> cost_warn_state prog" where
  "evaluate_weekly c weeklyKey now s =
     (if WarnWeeklyMax c \<le> 0 then ret s
      else do {
        r \<leftarrow> call (RepoSumWeeklyCost (WarnUsage c) weeklyKey);
        (case r of
           Inl _ \<Rightarrow> ret s
         | Inr cost \<Rightarrow> do {
             let pct = percent_used cost (WarnWeeklyMax c);
             if 100 \<le> pct \<and> \<not> WeeklyWarned100 s then do {
               let s1 = s\<lparr> WeeklyWarned100 := True \<rparr>;
               send_warning c ''weekly'' pct cost (WarnWeeklyMax c) s1 now;
               ret s1
             }
             else if 80 \<le> pct \<and> \<not> WeeklyWarned80 s then do {
               let s1 = s\<lparr> WeeklyWarned80 := True \<rparr>;
               send_warning c ''weekly'' pct cost (WarnWeeklyMax c) s1 now;
               ret s1
             }
             else ret s
           })
      })"

definition EvaluateCostWarn :: "cost_warner option \<Rightarrow> time \<Rightarrow> unit result prog" where
  "EvaluateCostWarn deps now =
     (case deps of
        None \<Rightarrow> ret (Inr ())
      | Some c \<Rightarrow> do {
          l \<leftarrow> call (effectiveLimitsLocked (WarnAppRepo c) (WarnLimits c));
          (case l of
             Inl e \<Rightarrow> ret (Inl (EWrap ''evaluate cost warn: load limits'' e))
           | Inr limits \<Rightarrow> do {
               st \<leftarrow> call (loadCostWarnStateLocked (WarnAppRepo c));
               (case st of
                  Inl e \<Rightarrow> ret (Inl (EWrap ''evaluate cost warn: load state'' e))
                | Inr warnState \<Rightarrow> do {
                    let dailyKey = DateKey now (ResetTZ limits);
                    let weeklyKey = WeekKey now (ResetTZ limits) (WeekStartsOn limits);
                    s1 \<leftarrow> evaluate_daily c dailyKey now (rollover_warn dailyKey weeklyKey warnState);
                    s2 \<leftarrow> evaluate_weekly c weeklyKey now s1;
                    call (persistCostWarnStateLocked (WarnAppRepo c) s2 now)
                  })
             })
        })"

section \<open>One evaluation over a working database\<close>

definition wired_warner :: "cost_warner \<Rightarrow> bool" where
  "wired_warner c = (WarnAppRepo c = gorm_app_repo \<and> WarnUsage c = gorm_usage_repo \<and>
     WarnNotify c = NotifyCostWarning)"

definition is_post :: "effect \<Rightarrow> bool" where
  "is_post e = (case e of SlackPost _ \<Rightarrow> True | _ \<Rightarrow> False)"

definition posts :: "world \<Rightarrow> nat" where "posts w = length (filter is_post (trace w))"

definition unset :: "cost_warn_state \<Rightarrow> nat" where
  "unset s = of_bool (\<not> DailyWarned80 s) + of_bool (\<not> DailyWarned100 s) +
     of_bool (\<not> WeeklyWarned80 s) + of_bool (\<not> WeeklyWarned100 s)"

definition stored_warn :: "world \<Rightarrow> cost_warn_state" where
  "stored_warn w = at_key ''cost_warn_state'' zero_warn warn_of_json (app_view w)"

definition at_keys :: "string \<Rightarrow> string \<Rightarrow> cost_warn_state \<Rightarrow> bool" where
  "at_keys dk wk s = (WarnDailyKey s = dk \<and> WarnWeeklyKey s = wk)"

lemma warn_of_enc [simp]: "warn_of_json (enc_warn s) = s"
  by (simp add: warn_of_json_def dec_warn_def enc_warn_def dec_field_def fold_eq_def
      to_lower_def to_lower_char_def)

lemma unset_le: "unset s \<le> 4"
  by (simp add: unset_def of_bool_def)

lemma rollover_at_keys [simp]: "at_keys dk wk (rollover_warn dk wk s)"
  by (simp add: rollover_warn_def at_keys_def Let_def)

lemma rollover_same: "at_keys dk wk s \<Longrightarrow> rollover_warn dk wk s = s"
  by (simp add: rollover_warn_def at_keys_def)

lemma posts_simps [simp]:
  "posts (w\<lparr> ops := n \<rparr>) = posts w" "posts (w\<lparr> app_rows := as \<rparr>) = posts w"
  by (simp_all add: posts_def)

lemma load_run:
  assumes "db_works w"
  shows "load_state gorm_app_repo k dflt f w = (Inr (at_key k dflt f (app_view w)), w\<lparr> ops := Suc (ops w) \<rparr>)"
  using assms by (auto simp: load_state_def gorm_app_repo_def repo_Get_def db_works_exec at_key_def app_view_def
      split: option.split)

lemma put_run:
  assumes "db_works (w :: world)" "put_state gorm_app_repo k j t w = (r, w')"
  shows "r = Inr () \<and> db_works w' \<and> posts w' = posts w \<and> app_view w' = (app_view w)(k \<mapsto> j) \<and>
    done_from w' = done_from w \<and> task_rows w' = task_rows w"
proof -
  define g where "g = \<lparr> aKey = k, aValueJSON = j, aUpdatedAt = clock w (ops w) \<rparr>"
  have g: "w' = w\<lparr> ops := Suc (ops w), app_rows := upsert_app g (app_rows w) \<rparr>" "r = Inr ()"
    using assms by (auto simp: put_state_def gorm_app_repo_def repo_Set_def db_works_exec g_def)
  then have "app_view w' = (app_view w)(k \<mapsto> j)"
    by (simp add: fun_eq_iff app_view_def find_upsert_app g_def)
  then show ?thesis using g assms(1) by (simp add: db_works_def)
qed

lemma notify_run:
  assumes "run_state (NotifyCostWarning sc p q cap) w = (e, w')" "db_works w"
  shows "db_works w' \<and> app_view w' = app_view w \<and> task_rows w' = task_rows w \<and> done_from w' = done_from w \<and>
    posts w' = posts w + (if cancelled w then 0 else 1)"
  using assms
  by (auto simp: NotifyCostWarning_def postMessage_def ctx_done_def ask_def emit_def tick_def posts_def is_post_def
      db_works_def app_view_def fun_eq_iff)

lemma sum_daily_run:
  assumes "SumDailyCost k w = (r, w')"
  shows "w' = w \<or> w' = w\<lparr> ops := Suc (ops w) \<rparr>"
  using assms
  by (auto simp: SumDailyCost_def SqlSumDailyCost_def exec_def Let_def split: sum.splits prod.splits db_outcome.splits)

lemma sum_weekly_run:
  assumes "SumWeeklyCost k w = (r, w')"
  shows "w' = w \<or> w' = w\<lparr> ops := Suc (ops w) \<rparr>"
  using assms
  by (auto simp: SumWeeklyCost_def SqlSumWeeklyCost_def exec_def Let_def split: sum.splits prod.splits db_outcome.splits)

lemma send_run:
  assumes "wired_warner c" "db_works w" "run_state (send_warning c sc p q cap s now) w = (u, w')"
  shows "db_works w' \<and> posts w \<le> posts w' \<and> posts w' \<le> Suc (posts w) \<and> task_rows w' = task_rows w"
proof -
  obtain r w1 where p: "put_state gorm_app_repo ''cost_warn_state'' (enc_warn s) now w = (r, w1)" by fastforce
  obtain e where n: "run_state (NotifyCostWarning sc p q cap) w1 = (e, w')"
    using assms(1,3) p by (auto simp: send_warning_def persistCostWarnStateLocked_def wired_warner_def split: prod.splits)
  show ?thesis using put_run[OF assms(2) p] notify_run[OF n] by (auto split: if_splits)
qed

lemma send_ret:
  assumes "wired_warner c" "db_works w" "run_state (do { send_warning c sc p q cap s now; ret s }) w = (s', w')"
  shows "s' = s \<and> db_works w' \<and> posts w \<le> posts w' \<and> posts w' \<le> Suc (posts w) \<and> task_rows w' = task_rows w"
  using assms(3) send_run[OF assms(1,2), of sc p q cap s now] by (auto split: prod.splits)

text \<open>Every message that goes out sets a flag that was not set.\<close>

lemma evaluate_daily_run:
  assumes "wired_warner c" "db_works w" "run_state (evaluate_daily c dk now s) w = (s', w')"
  shows "db_works w' \<and> posts w \<le> posts w' \<and> posts w' + unset s' \<le> posts w + unset s \<and> at_keys k k' s' = at_keys k k' s \<and>
    task_rows w' = task_rows w"
proof (cases "WarnDailyMax c \<le> 0")
  case True
  then show ?thesis using assms by (simp add: evaluate_daily_def)
next
  case False
  obtain r w1 where r: "SumDailyCost dk w = (r, w1)" by fastforce
  then have w1: "db_works w1" "posts w1 = posts w" "task_rows w1 = task_rows w"
    using sum_daily_run[OF r] assms(2) by auto
  show ?thesis
  proof (cases r)
    case (Inl e)
    then show ?thesis using assms False r w1 by (auto simp: evaluate_daily_def wired_warner_def gorm_usage_repo_def)
  next
    case (Inr cost)
    let ?p = "percent_used cost (WarnDailyMax c)"
    have run: "run_state (if 100 \<le> ?p \<and> \<not> DailyWarned100 s
        then do { send_warning c ''daily'' ?p cost (WarnDailyMax c) (s\<lparr> DailyWarned100 := True \<rparr>) now;
                  ret (s\<lparr> DailyWarned100 := True \<rparr>) }
        else if 80 \<le> ?p \<and> \<not> DailyWarned80 s
        then do { send_warning c ''daily'' ?p cost (WarnDailyMax c) (s\<lparr> DailyWarned80 := True \<rparr>) now;
                  ret (s\<lparr> DailyWarned80 := True \<rparr>) }
        else ret s) w1 = (s', w')"
      using assms(1,3) False r Inr unfolding evaluate_daily_def Let_def
      by (simp add: wired_warner_def gorm_usage_repo_def)
    consider (full) "100 \<le> ?p \<and> \<not> DailyWarned100 s"
      | (near) "\<not> (100 \<le> ?p \<and> \<not> DailyWarned100 s)" "80 \<le> ?p \<and> \<not> DailyWarned80 s"
      | (none) "\<not> (100 \<le> ?p \<and> \<not> DailyWarned100 s)" "\<not> (80 \<le> ?p \<and> \<not> DailyWarned80 s)" by blast
    then show ?thesis
    proof cases
      case full
      from send_ret[OF assms(1) w1(1) run[unfolded if_P[OF full]]] show ?thesis
        using w1 full by (simp add: unset_def at_keys_def)
    next
      case near
      from send_ret[OF assms(1) w1(1) run[unfolded if_not_P[OF near(1)] if_P[OF near(2)]]] show ?thesis
        using w1 near(2) by (simp add: unset_def at_keys_def)
    next
      case none
      have "s' = s" "w' = w1" using run[unfolded if_not_P[OF none(1)] if_not_P[OF none(2)]] by simp_all
      then show ?thesis using w1 by simp
    qed
  qed
qed

lemma evaluate_weekly_run:
  assumes "wired_warner c" "db_works w" "run_state (evaluate_weekly c wk now s) w = (s', w')"
  shows "db_works w' \<and> posts w \<le> posts w' \<and> posts w' + unset s' \<le> posts w + unset s \<and> at_keys k k' s' = at_keys k k' s \<and>
    task_rows w' = task_rows w"
proof (cases "WarnWeeklyMax c \<le> 0")
  case True
  then show ?thesis using assms by (simp add: evaluate_weekly_def)
next
  case False
  obtain r w1 where r: "SumWeeklyCost wk w = (r, w1)" by fastforce
  then have w1: "db_works w1" "posts w1 = posts w" "task_rows w1 = task_rows w"
    using sum_weekly_run[OF r] assms(2) by auto
  show ?thesis
  proof (cases r)
    case (Inl e)
    then show ?thesis using assms False r w1 by (auto simp: evaluate_weekly_def wired_warner_def gorm_usage_repo_def)
  next
    case (Inr cost)
    let ?p = "percent_used cost (WarnWeeklyMax c)"
    have run: "run_state (if 100 \<le> ?p \<and> \<not> WeeklyWarned100 s
        then do { send_warning c ''weekly'' ?p cost (WarnWeeklyMax c) (s\<lparr> WeeklyWarned100 := True \<rparr>) now;
                  ret (s\<lparr> WeeklyWarned100 := True \<rparr>) }
        else if 80 \<le> ?p \<and> \<not> WeeklyWarned80 s
        then do { send_warning c ''weekly'' ?p cost (WarnWeeklyMax c) (s\<lparr> WeeklyWarned80 := True \<rparr>) now;
                  ret (s\<lparr> WeeklyWarned80 := True \<rparr>) }
        else ret s) w1 = (s', w')"
      using assms(1,3) False r Inr unfolding evaluate_weekly_def Let_def
      by (simp add: wired_warner_def gorm_usage_repo_def)
    consider (full) "100 \<le> ?p \<and> \<not> WeeklyWarned100 s"
      | (near) "\<not> (100 \<le> ?p \<and> \<not> WeeklyWarned100 s)" "80 \<le> ?p \<and> \<not> WeeklyWarned80 s"
      | (none) "\<not> (100 \<le> ?p \<and> \<not> WeeklyWarned100 s)" "\<not> (80 \<le> ?p \<and> \<not> WeeklyWarned80 s)" by blast
    then show ?thesis
    proof cases
      case full
      from send_ret[OF assms(1) w1(1) run[unfolded if_P[OF full]]] show ?thesis
        using w1 full by (simp add: unset_def at_keys_def)
    next
      case near
      from send_ret[OF assms(1) w1(1) run[unfolded if_not_P[OF near(1)] if_P[OF near(2)]]] show ?thesis
        using w1 near(2) by (simp add: unset_def at_keys_def)
    next
      case none
      have "s' = s" "w' = w1" using run[unfolded if_not_P[OF none(1)] if_not_P[OF none(2)]] by simp_all
      then show ?thesis using w1 by simp
    qed
  qed
qed

lemma evaluate_run:
  assumes c: "wired_warner c" and w: "db_works w"
    and run: "run_state (EvaluateCostWarn (Some c) now) w = (r, w')"
  defines "dk \<equiv> DateKey now (ResetTZ (WarnLimits c))"
    and "wk \<equiv> WeekKey now (ResetTZ (WarnLimits c)) (WeekStartsOn (WarnLimits c))"
  shows "db_works w' \<and> posts w \<le> posts w' \<and> posts w' + unset (stored_warn w') \<le> posts w + unset (rollover_warn dk wk (stored_warn w)) \<and>
    at_keys dk wk (stored_warn w') \<and> task_rows w' = task_rows w"
proof -
  let ?w1 = "w\<lparr> ops := Suc (ops w) \<rparr>" and ?w2 = "w\<lparr> ops := Suc (Suc (ops w)) \<rparr>"
  let ?s0 = "rollover_warn dk wk (stored_warn w)"
  have l: "effectiveLimitsLocked gorm_app_repo (WarnLimits c) w = (Inr (limits_of (WarnLimits c) (app_view w)), ?w1)"
    unfolding effectiveLimitsLocked_def limits_of_def by (rule load_run) (rule w)
  have st: "loadCostWarnStateLocked gorm_app_repo ?w1 = (Inr (stored_warn w), ?w2)"
    unfolding loadCostWarnStateLocked_def stored_warn_def using load_run[of ?w1] w by simp
  obtain s1 w3 where d: "run_state (evaluate_daily c dk now ?s0) ?w2 = (s1, w3)" by fastforce
  obtain s2 w4 where k: "run_state (evaluate_weekly c wk now s1) w3 = (s2, w4)" by fastforce
  have p: "put_state gorm_app_repo ''cost_warn_state'' (enc_warn s2) now w4 = (r, w')"
    using run c l st d k
    by (simp add: EvaluateCostWarn_def wired_warner_def Let_def dk_def wk_def persistCostWarnStateLocked_def)
  have w2: "db_works ?w2" using w by (simp add: db_works_def)
  note D = evaluate_daily_run[OF c w2 d, of dk wk]
  then have w3: "db_works w3" by simp
  note K = evaluate_weekly_run[OF c w3 k, of dk wk]
  then have w4: "db_works w4" by simp
  note P = put_run[OF w4 p]
  have "stored_warn w' = s2" using P by (simp add: stored_warn_def at_key_def)
  then show ?thesis using D K P by simp
qed

section \<open>The warnings of one day and week\<close>

text \<open>What happens while the keys stay the same: evaluations, and anything else that
  leaves the stored flags alone. The number counts the messages of the evaluations.\<close>

inductive warn_history :: "cost_warner \<Rightarrow> string \<Rightarrow> string \<Rightarrow> nat \<Rightarrow> world \<Rightarrow> world \<Rightarrow> bool"
  for c dk wk where
  start: "warn_history c dk wk 0 w w"
| evaluate: "warn_history c dk wk n w v \<Longrightarrow> DateKey now (ResetTZ (WarnLimits c)) = dk \<Longrightarrow>
    WeekKey now (ResetTZ (WarnLimits c)) (WeekStartsOn (WarnLimits c)) = wk \<Longrightarrow>
    run_state (EvaluateCostWarn (Some c) now) v = (r, v') \<Longrightarrow>
    warn_history c dk wk (n + (posts v' - posts v)) w v'"
| other: "warn_history c dk wk n w v \<Longrightarrow> db_works v' \<Longrightarrow>
    app_view v' ''cost_warn_state'' = app_view v ''cost_warn_state'' \<Longrightarrow> warn_history c dk wk n w v'"


definition sample_warner :: cost_warner where
  "sample_warner = \<lparr> WarnAppRepo = gorm_app_repo, WarnUsage = gorm_usage_repo, WarnNotify = NotifyCostWarning,
     WarnLimits = sunday_limits, WarnDailyMax = 2, WarnWeeklyMax = 0 \<rparr>"


section \<open>A cap reached at once is announced twice\<close>

definition cap_message :: "cost_warner \<Rightarrow> rat \<Rightarrow> effect" where
  "cap_message c cost = SlackPost [section_block (cost_warning_text ''daily''
     (percent_used cost (WarnDailyMax c)) cost (WarnDailyMax c))]"

lemma put_trace:
  "db_works w \<Longrightarrow> put_state gorm_app_repo k j t (w :: world) = (r, w') \<Longrightarrow> trace w' = trace w"
  by (auto simp: put_state_def gorm_app_repo_def repo_Set_def db_works_exec)

lemma send_live:
  assumes "wired_warner c" "db_works w" "done_from w = None"
  obtains w' where "run_state (send_warning c sc p q cap s now) w = ((), w')" "db_works w'" "done_from w' = None"
    "trace w' = trace w @ [SlackPost [section_block (cost_warning_text sc p q cap)]]" "task_rows w' = task_rows w"
proof -
  obtain r w1 where p: "put_state gorm_app_repo ''cost_warn_state'' (enc_warn s) now w = (r, w1)" by fastforce
  note P = put_run[OF assms(2) p] put_trace[OF assms(2) p]
  let ?m = "SlackPost [section_block (cost_warning_text sc p q cap)]"
  have n: "run_state (NotifyCostWarning sc p q cap) w1 = (reply_error (http_answer w1 (ops w1)),
      (tick w1)\<lparr> trace := trace w1 @ [?m] \<rparr>)"
    using P assms(3) by (simp add: NotifyCostWarning_def postMessage_def ctx_done_def cancelled_def ask_def emit_def tick_def)
  show ?thesis
    by (rule that[of "(tick w1)\<lparr> trace := trace w1 @ [?m] \<rparr>"])
      (use assms P p n in \<open>simp_all add: send_warning_def persistCostWarnStateLocked_def wired_warner_def tick_def db_works_def\<close>)
qed

lemma daily_cap_sent:
  assumes c: "wired_warner c" "0 < WarnDailyMax c" and w: "db_works w" "done_from w = None"
    and k: "dayKeyToRange dk = Inr (start, stop)" "cost = cost_between start stop w"
    and p: "100 \<le> percent_used cost (WarnDailyMax c)" and s: "\<not> (DailyWarned80 s \<and> DailyWarned100 s)"
  obtains w' where "run_state (evaluate_daily c dk now s) w =
      (if DailyWarned100 s then s\<lparr> DailyWarned80 := True \<rparr> else s\<lparr> DailyWarned100 := True \<rparr>, w')"
    "db_works w'" "done_from w' = None" "trace w' = trace w @ [cap_message c cost]" "task_rows w' = task_rows w"
proof -
  let ?w1 = "w\<lparr> ops := Suc (ops w) \<rparr>"
  let ?s1 = "if DailyWarned100 s then s\<lparr> DailyWarned80 := True \<rparr> else s\<lparr> DailyWarned100 := True \<rparr>"
  have cost: "cost_between start stop ?w1 = cost" using k(2) by (simp add: cost_between_def)
  have r: "SumDailyCost dk w = (Inr cost, ?w1)"
    using w(1) cost by (simp add: SumDailyCost_def k(1) db_works_exec SqlSumDailyCost_def)
  have w1: "db_works ?w1" "done_from ?w1 = None" using w by (simp_all add: db_works_def)
  have p8: "80 \<le> percent_used cost (WarnDailyMax c)" using p by simp
  obtain w' where sw: "run_state (send_warning c ''daily'' (percent_used cost (WarnDailyMax c)) cost
      (WarnDailyMax c) ?s1 now) ?w1 = ((), w')" "db_works w'" "done_from w' = None"
    "trace w' = trace ?w1 @ [cap_message c cost]" "task_rows w' = task_rows ?w1"
    using send_live[OF c(1) w1] unfolding cap_message_def by metis
  have "run_state (evaluate_daily c dk now s) w = (?s1, w')"
    using c r s p p8 sw unfolding evaluate_daily_def Let_def
    by (cases "DailyWarned100 s") (simp_all add: wired_warner_def gorm_usage_repo_def not_le)
  then show ?thesis by (rule that) (use sw in \<open>simp_all\<close>)
qed

text \<open>One evaluation of a day over its cap that has not been announced twice.\<close>

lemma evaluate_cap_sent:
  assumes c: "wired_warner c" "0 < WarnDailyMax c" "WarnWeeklyMax c \<le> 0"
    and w: "db_works w" "done_from w = None"
    and n: "DateKey now (ResetTZ (WarnLimits c)) = dk"
      "WeekKey now (ResetTZ (WarnLimits c)) (WeekStartsOn (WarnLimits c)) = wk"
    and k: "dayKeyToRange dk = Inr (start, stop)" "cost = cost_between start stop w"
    and p: "100 \<le> percent_used cost (WarnDailyMax c)"
    and s: "s = rollover_warn dk wk (stored_warn w)" "\<not> (DailyWarned80 s \<and> DailyWarned100 s)"
  obtains r w' where "run_state (EvaluateCostWarn (Some c) now) w = (r, w')" "db_works w'" "done_from w' = None"
    "trace w' = trace w @ [cap_message c cost]" "task_rows w' = task_rows w"
    "stored_warn w' = (if DailyWarned100 s then s\<lparr> DailyWarned80 := True \<rparr> else s\<lparr> DailyWarned100 := True \<rparr>)"
proof -
  let ?w1 = "w\<lparr> ops := Suc (ops w) \<rparr>" and ?w2 = "w\<lparr> ops := Suc (Suc (ops w)) \<rparr>"
  let ?s1 = "if DailyWarned100 s then s\<lparr> DailyWarned80 := True \<rparr> else s\<lparr> DailyWarned100 := True \<rparr>"
  have l: "effectiveLimitsLocked gorm_app_repo (WarnLimits c) w = (Inr (limits_of (WarnLimits c) (app_view w)), ?w1)"
    unfolding effectiveLimitsLocked_def limits_of_def by (rule load_run) (rule w)
  have st: "loadCostWarnStateLocked gorm_app_repo ?w1 = (Inr (stored_warn w), ?w2)"
    unfolding loadCostWarnStateLocked_def stored_warn_def using load_run[of ?w1] w by simp
  have w2: "db_works ?w2" "done_from ?w2 = None" using w by (simp_all add: db_works_def)
  have k2: "cost = cost_between start stop ?w2" using k(2) by (simp add: cost_between_def)
  obtain w3 where d: "run_state (evaluate_daily c dk now s) ?w2 = (?s1, w3)" "db_works w3" "done_from w3 = None"
    "trace w3 = trace ?w2 @ [cap_message c cost]" "task_rows w3 = task_rows ?w2"
    using daily_cap_sent[OF c(1,2) w2 k(1) k2 p s(2)] by metis
  obtain r w' where p: "put_state gorm_app_repo ''cost_warn_state'' (enc_warn ?s1) now w3 = (r, w')" by fastforce
  note P = put_run[OF d(2) p] put_trace[OF d(2) p]
  have "run_state (EvaluateCostWarn (Some c) now) w = (r, w')"
    using c l st d(1) p n s(1)
    by (simp add: EvaluateCostWarn_def wired_warner_def Let_def persistCostWarnStateLocked_def evaluate_weekly_def)
  moreover have "stored_warn w' = ?s1" using P by (simp add: stored_warn_def at_key_def)
  ultimately show ?thesis using d P by (intro that) simp_all
qed

text \<open>A day whose cost passes the cap before any warning was sent is announced twice:
  the next evaluation sends the same message again, because the flag of the lower
  threshold is still unset when the cap was reached in one step. (The comment promises
  that repeated calls in the same bucket never send again.)\<close>

theorem cap_warning_sent_twice:
  assumes "wired_warner c" "0 < WarnDailyMax c" "WarnWeeklyMax c \<le> 0" "db_works w" "done_from w = None"
    and "DateKey now (ResetTZ (WarnLimits c)) = dk" "DateKey later (ResetTZ (WarnLimits c)) = dk"
      "WeekKey now (ResetTZ (WarnLimits c)) (WeekStartsOn (WarnLimits c)) = wk"
      "WeekKey later (ResetTZ (WarnLimits c)) (WeekStartsOn (WarnLimits c)) = wk"
    and "dayKeyToRange dk = Inr (start, stop)"
      "100 \<le> percent_used (cost_between start stop w) (WarnDailyMax c)"
    and "stored_warn w = zero_warn"
    and "run_state (do { _ \<leftarrow> EvaluateCostWarn (Some c) now; EvaluateCostWarn (Some c) later }) w = (r, w')"
  shows "trace w' = trace w @ [cap_message c (cost_between start stop w), cap_message c (cost_between start stop w)]"
proof -
  let ?cost = "cost_between start stop w" and ?s = "rollover_warn dk wk (stored_warn w)"
  have s: "\<not> DailyWarned80 ?s" "\<not> DailyWarned100 ?s"
    using assms(12) by (simp_all add: rollover_warn_def zero_warn_def Let_def)
  obtain r1 w1 where e1: "run_state (EvaluateCostWarn (Some c) now) w = (r1, w1)" "db_works w1" "done_from w1 = None"
    "trace w1 = trace w @ [cap_message c ?cost]" "task_rows w1 = task_rows w"
    "stored_warn w1 = ?s\<lparr> DailyWarned100 := True \<rparr>"
    using evaluate_cap_sent[OF assms(1-6,8,10) refl assms(11) refl] s by auto
  let ?s1 = "?s\<lparr> DailyWarned100 := True \<rparr>"
  have "at_keys dk wk ?s1" using rollover_at_keys[of dk wk "stored_warn w"] by (simp add: at_keys_def)
  then have s1: "?s1 = rollover_warn dk wk (stored_warn w1)" by (simp add: e1(6) rollover_same)
  have n1: "\<not> (DailyWarned80 ?s1 \<and> DailyWarned100 ?s1)" using s by simp
  have cost: "?cost = cost_between start stop w1" using e1(5) by (simp add: cost_between_def)
  obtain r2 w2 where e2: "run_state (EvaluateCostWarn (Some c) later) w1 = (r2, w2)"
    "trace w2 = trace w1 @ [cap_message c ?cost]"
    using evaluate_cap_sent[OF assms(1-3) e1(2,3) assms(7,9,10) cost assms(11) s1 n1] by metis
  show ?thesis using assms(13) e1 e2 by simp
qed

lemma cap_warning_witness:
  "\<exists>r w'. run_state (do { _ \<leftarrow> EvaluateCostWarn (Some sample_warner) 5; EvaluateCostWarn (Some sample_warner) 5 })
      (calm_world usage_sample) = (r, w') \<and>
     trace w' = [cap_message sample_warner 3, cap_message sample_warner 3]"
proof -
  let ?w = "calm_world usage_sample"
  have w: "db_works ?w" "done_from ?w = None" by (simp_all add: usage_sample_def migrated_db_def db_works_def)
  have d: "local_day UTC 5 = 0" by (simp add: local_day_UTC)
  have "format_date 0 = ''1970-01-01''" by code_simp
  then have k: "DateKey 5 (ResetTZ (WarnLimits sample_warner)) = ''1970-01-01''"
    by (simp add: sample_warner_def sunday_limits_def DateKey_def tz_of_def d)
  have rng: "dayKeyToRange ''1970-01-01'' = Inr (day_time 0, day_time 1)" by code_simp
  have cost: "cost_between (day_time 0) (day_time 1) ?w = 3"
    by (simp add: cost_between_def usage_sample_def in_range_def row_done_def usage_time_def is_zero_def
        zero_time_def toGORMTask_def zero_task_def Let_def day_time_eq)
  have pct: "100 \<le> percent_used (cost_between (day_time 0) (day_time 1) ?w) (WarnDailyMax sample_warner)"
    by (simp add: cost percent_used_def go_round_def sample_warner_def)
  have st: "stored_warn ?w = zero_warn"
    by (simp add: stored_warn_def at_key_def app_view_def usage_sample_def migrated_db_def)
  have c: "wired_warner sample_warner" "0 < WarnDailyMax sample_warner" "WarnWeeklyMax sample_warner \<le> 0"
    by (simp_all add: wired_warner_def sample_warner_def)
  obtain r w' where run: "run_state (do { _ \<leftarrow> EvaluateCostWarn (Some sample_warner) 5;
      EvaluateCostWarn (Some sample_warner) 5 }) ?w = (r, w')" by fastforce
  from cap_warning_sent_twice[OF c w k k refl refl rng pct st run] show ?thesis
    using run by (simp add: cost)
qed

end
