(* ===== verification/Config.thy ===== *)
theory Config
  imports Window Go_Fmt "HOL-Library.Signed_Division"
begin

text \<open>internal/config: the configuration records of config.go and the validation of
  validate.go, in its order, with the defaults it writes back into the repositories.
  Durations are nanoseconds. The time zone database and the cron parser are
  parameters. The lemmas say what a validated configuration guarantees.\<close>

section \<open>Records\<close>

record checks_config =
  CheckSecurity :: bool
  CheckPerf :: bool
  Commands :: "string list"
  CheckTimeout :: int

record repo_config =
  RepoName :: string
  DefaultBranch :: string
  RepoLabels :: "string list"
  Reviewers :: "string list"
  Checks :: checks_config

record sub_cap =
  CapDaily :: int
  CapWeekly :: int

record maintenance_config =
  MaintName :: string
  Cron :: string
  MaintRepo :: string
  MaintPromptTemplate :: string
  MaintLabels :: "string list"
  BudgetSubCap :: sub_cap

record window_config =
  WinDays :: "string list"
  WinStart :: string
  WinEnd :: string
  WinTZ :: string

record limits_config =
  DailyMaxTasks :: int
  WeeklyMaxTasks :: int
  CfgWeekStartsOn :: string
  CfgResetTZ :: string
  DailyMaxCostUSD :: rat
  WeeklyMaxCostUSD :: rat

record concurrency_config =
  MaxParallelTasks :: int
  LeaseTimeout :: int
  ReclaimInterval :: int

record ci_fix_config =
  CIFixOn :: bool
  MaxAttempts :: int
  CIPollInterval :: int
  CIPollTimeout :: int
  CommentOnExhaustion :: bool

record db_settings =
  DSN :: string
  MaxOpenConns :: int
  MaxIdleConns :: int
  ConnMaxLifetime :: int
  ConnMaxIdleTime :: int

record slack_config =
  ChannelID :: string
  MentionUserID :: string

text \<open>Config, with RuntimeConfig, SchedulerConfig and GitHubConfig spread out.\<close>

record config =
  HTTPBindAddr :: string
  DBSettings :: db_settings
  LogLevel :: string
  TickInterval :: int
  CfgWorktreeRoot :: string
  CfgPromptsDir :: string
  RetentionDays :: int
  GitHubPollInterval :: int
  ActiveWindows :: "window_config list"
  MaintenanceTasks :: "maintenance_config list"
  Concurrency :: concurrency_config
  CIFix :: ci_fix_config
  LimitsCfg :: limits_config
  Repos :: "repo_config list"
  SlackCfg :: slack_config

section \<open>Validation\<close>

text \<open>A duration as time.Duration prints it, used in two messages only.\<close>

type_synonym duration_text = "int \<Rightarrow> string"

definition refuse :: "string \<Rightarrow> 'a result" where
  "refuse m = Inl (EMsg m)"

definition window_of :: "window_config \<Rightarrow> active_window" where
  "window_of wc = new_window (WinDays wc) (WinStart wc) (WinEnd wc) (WinTZ wc)"

definition idx :: "string \<Rightarrow> nat \<Rightarrow> string" where
  "idx m i = m @ ''['' @ int_str (int i) @ '']''"

fun parse_windows :: "(string \<Rightarrow> location option) \<Rightarrow> string \<Rightarrow> nat \<Rightarrow> window_config list \<Rightarrow>
    active_window list result" where
  "parse_windows tzdb m i [] = Inr []"
| "parse_windows tzdb m i (wc # wcs) =
     (case Validate tzdb (window_of wc) of
        Inl e \<Rightarrow> Inl (EWrap (idx m i) e)
      | Inr w \<Rightarrow> bind_res (parse_windows tzdb m (Suc i) wcs) (\<lambda>ws. Inr (w # ws)))"

definition validateWindows :: "(string \<Rightarrow> location option) \<Rightarrow> config \<Rightarrow> unit result" where
  "validateWindows tzdb c =
     bind_res (parse_windows tzdb ''scheduler.active_windows'' 0 (ActiveWindows c)) (\<lambda>_. Inr ())"

definition ActiveWindowsOf :: "(string \<Rightarrow> location option) \<Rightarrow> config \<Rightarrow> active_window list result" where
  "ActiveWindowsOf tzdb c = parse_windows tzdb ''active_windows'' 0 (ActiveWindows c)"

text \<open>strings.SplitN(name, slash, 2): the parts around the first slash.\<close>

definition owner_repo :: "string \<Rightarrow> bool" where
  "owner_repo name =
     (let a = takeWhile (\<lambda>c. c \<noteq> CHR ''/'') name; b = dropWhile (\<lambda>c. c \<noteq> CHR ''/'') name
      in b \<noteq> [] \<and> a \<noteq> [] \<and> tl b \<noteq> [])"

fun first_blank :: "nat \<Rightarrow> string list \<Rightarrow> nat option" where
  "first_blank j [] = None"
| "first_blank j (c # cs) = (if trim_space c = '''' then Some j else first_blank (Suc j) cs)"

definition default_timeout :: int where "default_timeout = 300 * Second"

text \<open>A repository with its defaults filled in.\<close>

definition repo_defaults :: "repo_config \<Rightarrow> repo_config" where
  "repo_defaults r =
     (let r1 = (if DefaultBranch r = '''' then r\<lparr> DefaultBranch := ''main'' \<rparr> else r)
      in if Commands (Checks r) \<noteq> [] \<and> CheckTimeout (Checks r) \<le> 0
         then r1\<lparr> Checks := (Checks r1)\<lparr> CheckTimeout := default_timeout \<rparr> \<rparr> else r1)"

fun validate_repos :: "nat \<Rightarrow> string list \<Rightarrow> repo_config list \<Rightarrow> repo_config list result" where
  "validate_repos i seen [] = Inr []"
| "validate_repos i seen (r # rs) =
     (let name = trim_space (RepoName r) in
      if name = '''' then refuse (idx ''github.repos'' i @ '': name is required'')
      else if \<not> owner_repo name
      then refuse (idx ''github.repos'' i @ '': name '' @ go_quote name @ '' must be in owner/repo format'')
      else if name \<in> set seen
      then refuse (idx ''github.repos'' i @ '': duplicate repo '' @ go_quote name)
      else (case first_blank 0 (Commands (Checks r)) of
              Some j \<Rightarrow> refuse (idx ''github.repos'' i @ ''.checks.'' @ idx ''commands'' j @
                                '': command cannot be empty'')
            | None \<Rightarrow> bind_res (validate_repos (Suc i) (name # seen) rs)
                        (\<lambda>rs'. Inr (repo_defaults r # rs'))))"

definition weekStartMap :: "(string \<times> int) list" where
  "weekStartMap = [(''sun'', 0), (''mon'', 1), (''tue'', 2), (''wed'', 3), (''thu'', 4),
     (''fri'', 5), (''sat'', 6)]"

definition validateLimits :: "(string \<Rightarrow> location option) \<Rightarrow> limits_config \<Rightarrow> unit result" where
  "validateLimits tzdb l =
     (if DailyMaxTasks l < 0 then refuse ''limits.daily_max_tasks must be >= 0''
      else if WeeklyMaxTasks l < 0 then refuse ''limits.weekly_max_tasks must be >= 0''
      else if CfgWeekStartsOn l \<noteq> '''' \<and> map_of weekStartMap (to_lower (CfgWeekStartsOn l)) = None
      then refuse (''limits.week_starts_on '' @ go_quote (CfgWeekStartsOn l) @
                   '' must be mon|tue|wed|thu|fri|sat|sun'')
      else if CfgResetTZ l \<noteq> '''' \<and> tzdb (CfgResetTZ l) = None
      then Inl (EWrap (''limits.reset_tz '' @ go_quote (CfgResetTZ l))
                      (EMsg (''unknown time zone '' @ CfgResetTZ l)))
      else if 0 < DailyMaxTasks l \<and> 0 < WeeklyMaxTasks l \<and> WeeklyMaxTasks l < DailyMaxTasks l
      then refuse (''limits.daily_max_tasks ('' @ int_str (DailyMaxTasks l) @
                   '') must be <= weekly_max_tasks ('' @ int_str (WeeklyMaxTasks l) @ '')'')
      else if DailyMaxCostUSD l < 0 then refuse ''limits.daily_max_cost_usd must be >= 0''
      else if WeeklyMaxCostUSD l < 0 then refuse ''limits.weekly_max_cost_usd must be >= 0''
      else Inr ())"

text \<open>Caps, week start and zone with the derived defaults; the arithmetic is
  that of Go: 64 bits, division toward zero.\<close>

definition ResolvedLimits ::
  "(string \<Rightarrow> location option) \<Rightarrow> limits_config \<Rightarrow> (int \<times> int \<times> int \<times> location) result" where
  "ResolvedLimits tzdb l =
     (let d = DailyMaxTasks l; w = WeeklyMaxTasks l;
          (dailyMax, weeklyMax) =
            (if d = 0 \<and> 0 < w then (wrap64 (w + 6) sdiv 7, w)
             else if w = 0 \<and> 0 < d then (d, wrap64 (d * 7)) else (d, w));
          startName = (if to_lower (CfgWeekStartsOn l) = '''' then ''mon'' else to_lower (CfgWeekStartsOn l));
          tzName = (if CfgResetTZ l = '''' then ''UTC'' else CfgResetTZ l)
      in case map_of weekStartMap startName of
           None \<Rightarrow> refuse (''invalid week_starts_on '' @ go_quote (CfgWeekStartsOn l))
         | Some wd \<Rightarrow>
             (case tzdb tzName of
                None \<Rightarrow> Inl (EWrap (''load tz '' @ go_quote tzName) (EMsg (''unknown time zone '' @ tzName)))
              | Some zone \<Rightarrow> Inr (dailyMax, weeklyMax, wd, zone)))"

text \<open>The cron parser: the error for a five-field specification, if any.\<close>

fun validate_maintenance ::
  "(string \<Rightarrow> go_error option) \<Rightarrow> string list \<Rightarrow> nat \<Rightarrow> string list \<Rightarrow> maintenance_config list \<Rightarrow> unit result" where
  "validate_maintenance cron_err repoSet i seen [] = Inr ()"
| "validate_maintenance cron_err repoSet i seen (mt # mts) =
     (let name = trim_space (MaintName mt); repo = trim_space (MaintRepo mt);
          pos = idx ''scheduler.maintenance_tasks'' i; nm = pos @ '' '' @ go_quote name
      in if name = '''' then refuse (pos @ '': name is required'')
      else if name \<in> set seen then refuse (pos @ '': duplicate name '' @ go_quote name)
      else if Cron mt = '''' then refuse (nm @ '': cron is required'')
      else if cron_err (Cron mt) \<noteq> None
      then Inl (EWrap (nm @ '': invalid cron spec '' @ go_quote (Cron mt)) (the (cron_err (Cron mt))))
      else if repo = '''' then refuse (nm @ '': repo is required'')
      else if repo \<notin> set repoSet
      then refuse (nm @ '': repo '' @ go_quote repo @ '' not in github.repos allowlist'')
      else if MaintPromptTemplate mt = '''' then refuse (nm @ '': prompt_template is required'')
      else if CapDaily (BudgetSubCap mt) < 0 then refuse (nm @ '': budget_sub_cap.daily must be >= 0'')
      else if CapWeekly (BudgetSubCap mt) < 0 then refuse (nm @ '': budget_sub_cap.weekly must be >= 0'')
      else validate_maintenance cron_err repoSet (Suc i) (name # seen) mts)"

definition validateConcurrency :: "duration_text \<Rightarrow> concurrency_config \<Rightarrow> unit result" where
  "validateConcurrency dt c =
     (if MaxParallelTasks c < 1 then refuse ''concurrency.max_parallel_tasks must be >= 1''
      else if 10 < MaxParallelTasks c then refuse (''concurrency.max_parallel_tasks > 10 is unsupported (PRD '' @ [CHR 0xC2, CHR 0xA7] @
                                            ''5 US-8 caps spike at 3)'')
      else if LeaseTimeout c \<le> 0 then refuse ''concurrency.lease_timeout must be positive''
      else if ReclaimInterval c \<le> 0 then refuse ''concurrency.reclaim_interval must be positive''
      else if LeaseTimeout c \<le> ReclaimInterval c
      then refuse (''concurrency.reclaim_interval ('' @ dt (ReclaimInterval c) @
                   '') must be less than lease_timeout ('' @ dt (LeaseTimeout c) @ '')'')
      else Inr ())"

definition validateCIFix :: "duration_text \<Rightarrow> ci_fix_config \<Rightarrow> unit result" where
  "validateCIFix dt c =
     (if \<not> CIFixOn c then Inr ()
      else if MaxAttempts c < 1 then refuse ''ci_fix.max_attempts must be >= 1 when enabled''
      else if 5 < MaxAttempts c then refuse ''ci_fix.max_attempts > 5 is unsupported (PRD recommends <=2)''
      else if CIPollInterval c \<le> 0 then refuse ''ci_fix.poll_interval must be positive when enabled''
      else if CIPollTimeout c \<le> 0 then refuse ''ci_fix.poll_timeout must be positive when enabled''
      else if CIPollTimeout c \<le> CIPollInterval c
      then refuse (''ci_fix.poll_interval ('' @ dt (CIPollInterval c) @
                   '') must be less than poll_timeout ('' @ dt (CIPollTimeout c) @ '')'')
      else Inr ())"

text \<open>Validate: the configuration with the repository defaults written in.\<close>

definition ValidateConfig ::
  "(string \<Rightarrow> location option) \<Rightarrow> (string \<Rightarrow> go_error option) \<Rightarrow> duration_text \<Rightarrow> config \<Rightarrow> config result" where
  "ValidateConfig tzdb cron_err dt c =
     bind_res (validateWindows tzdb c) (\<lambda>_.
     bind_res (validate_repos 0 [] (Repos c)) (\<lambda>rs.
       if TickInterval c \<le> 0 then refuse ''runtime.tick_interval must be positive''
       else if GitHubPollInterval c \<le> 0 then refuse ''github.poll_interval must be positive''
       else bind_res (validateLimits tzdb (LimitsCfg c)) (\<lambda>_.
            bind_res (validate_maintenance cron_err (map RepoName rs) 0 [] (MaintenanceTasks c)) (\<lambda>_.
            bind_res (validateConcurrency dt (Concurrency c)) (\<lambda>_.
            bind_res (validateCIFix dt (CIFix c)) (\<lambda>_. Inr (c\<lparr> Repos := rs \<rparr>)))))))"

section \<open>What a validated configuration guarantees\<close>

lemma refuse_neq [simp]: "refuse m \<noteq> Inr a" "Inr a \<noteq> refuse m"
  by (simp_all add: refuse_def)

lemma parse_windows_Inr:
  "parse_windows tzdb m i wcs = Inr ws \<Longrightarrow>
     list_all2 (\<lambda>wc w. Validate tzdb (window_of wc) = Inr w) wcs ws"
proof (induction wcs arbitrary: i ws)
  case (Cons wc wcs)
  then show ?case by (auto simp: bind_res_Inr_iff split: sum.splits)
qed simp

lemma parse_windows_message:
  "parse_windows tzdb m i wcs = Inr ws \<Longrightarrow> parse_windows tzdb m' j wcs = Inr ws"
proof (induction wcs arbitrary: i j ws)
  case (Cons wc wcs)
  then show ?case by (auto simp: bind_res_Inr_iff split: sum.splits)
qed simp

definition repo_ok :: "repo_config \<Rightarrow> bool" where
  "repo_ok r = (owner_repo (trim_space (RepoName r)) \<and> DefaultBranch r \<noteq> '''' \<and>
     list_all (\<lambda>c. trim_space c \<noteq> '''') (Commands (Checks r)) \<and>
     (Commands (Checks r) = [] \<or> 0 < CheckTimeout (Checks r)))"

lemma first_blank_None: "first_blank j cs = None \<longleftrightarrow> list_all (\<lambda>c. trim_space c \<noteq> '''') cs"
  by (induction j cs rule: first_blank.induct) auto

lemma repo_defaults_ok:
  assumes "owner_repo (trim_space (RepoName r))" "list_all (\<lambda>c. trim_space c \<noteq> '''') (Commands (Checks r))"
  shows "repo_ok (repo_defaults r)" "RepoName (repo_defaults r) = RepoName r"
  using assms by (auto simp: repo_defaults_def repo_ok_def Let_def default_timeout_def)

lemma validate_repos_ok:
  "validate_repos i seen rs = Inr rs' \<Longrightarrow>
     map RepoName rs' = map RepoName rs \<and> list_all repo_ok rs' \<and>
     distinct (map (trim_space \<circ> RepoName) rs) \<and>
     set (map (trim_space \<circ> RepoName) rs) \<inter> set seen = {}"
proof (induction rs arbitrary: i seen rs')
  case (Cons r rs)
  let ?n = "trim_space (RepoName r)"
  have c: "owner_repo ?n" "?n \<notin> set seen" "first_blank 0 (Commands (Checks r)) = None"
    using Cons.prems by (auto simp: Let_def split: if_splits option.splits)
  then obtain rs1 where r1: "validate_repos (Suc i) (?n # seen) rs = Inr rs1" "rs' = repo_defaults r # rs1"
    using Cons.prems by (auto simp: Let_def bind_res_Inr_iff split: if_splits)
  show ?case using Cons.IH[OF r1(1)] r1(2) c repo_defaults_ok[of r] by (auto simp: first_blank_None)
qed simp

lemma ValidateConfig_Inr:
  assumes "ValidateConfig tzdb cron_err dt c = Inr c'"
  obtains ws rs where "parse_windows tzdb ''scheduler.active_windows'' 0 (ActiveWindows c) = Inr ws"
    "validate_repos 0 [] (Repos c) = Inr rs" "c' = c\<lparr> Repos := rs \<rparr>"
    "0 < TickInterval c" "0 < GitHubPollInterval c" "validateLimits tzdb (LimitsCfg c) = Inr ()"
    "validate_maintenance cron_err (map RepoName rs) 0 [] (MaintenanceTasks c) = Inr ()"
    "validateConcurrency dt (Concurrency c) = Inr ()" "validateCIFix dt (CIFix c) = Inr ()"
  using assms unfolding ValidateConfig_def validateWindows_def
  by (auto simp: bind_res_Inr_iff split: if_splits)

lemma validateConcurrency_Inr:
  "validateConcurrency dt c = Inr () \<longleftrightarrow>
     1 \<le> MaxParallelTasks c \<and> MaxParallelTasks c \<le> 10 \<and> 0 < ReclaimInterval c \<and>
     ReclaimInterval c < LeaseTimeout c"
  by (auto simp: validateConcurrency_def)

lemma validateCIFix_Inr:
  "validateCIFix dt c = Inr () \<longleftrightarrow>
     (CIFixOn c \<longrightarrow> 1 \<le> MaxAttempts c \<and> MaxAttempts c \<le> 5 \<and> 0 < CIPollInterval c \<and>
       CIPollInterval c < CIPollTimeout c)"
  by (auto simp: validateCIFix_def)

lemma validateLimits_Inr:
  "validateLimits tzdb l = Inr () \<Longrightarrow>
     0 \<le> DailyMaxTasks l \<and> 0 \<le> WeeklyMaxTasks l \<and>
     (0 < DailyMaxTasks l \<longrightarrow> 0 < WeeklyMaxTasks l \<longrightarrow> DailyMaxTasks l \<le> WeeklyMaxTasks l) \<and>
     (CfgWeekStartsOn l \<noteq> '''' \<longrightarrow> map_of weekStartMap (to_lower (CfgWeekStartsOn l)) \<noteq> None) \<and>
     (CfgResetTZ l \<noteq> '''' \<longrightarrow> tzdb (CfgResetTZ l) \<noteq> None)"
  by (auto simp: validateLimits_def split: if_splits)

lemma to_lower_Nil [simp]: "to_lower s = [] \<longleftrightarrow> s = []"
  by (simp add: to_lower_def)

lemma weekStart_range: "map_of weekStartMap s = Some d \<Longrightarrow> 0 \<le> d \<and> d < 7"
  by (auto simp: weekStartMap_def split: if_splits)

lemma resolved_caps:
  assumes "0 \<le> d" "0 \<le> w" "0 < d \<longrightarrow> 0 < w \<longrightarrow> d \<le> w" "d < 2 ^ 60" "w < 2 ^ 62"
    and "(dm, wm) = (if d = 0 \<and> 0 < w then (wrap64 (w + 6) sdiv 7, w)
             else if w = 0 \<and> 0 < d then (d, wrap64 (d * 7)) else (d, w))"
  shows "if d = 0 \<and> w = 0 then dm = 0 \<and> wm = 0 else 0 < dm \<and> dm \<le> wm \<and> (d = dm \<or> d = 0) \<and> (w = wm \<or> w = 0)"
proof -
  have a: "wrap64 (w + 6) = w + 6" "wrap64 (d * 7) = d * 7"
    using assms by (simp_all add: wrap64_id int64_ok_def)
  consider "d = 0" "w = 0" | "d = 0" "0 < w" | "0 < d" "w = 0" | "0 < d" "0 < w" using assms by linarith
  then show ?thesis
  proof cases
    case 2
    have "wrap64 (w + 6) sdiv 7 = (w + 6) div 7" using 2 a by (simp add: signed_divide_int_def)
    moreover have "1 \<le> (w + 6) div 7" "(w + 6) div 7 \<le> w" using 2 by linarith+
    ultimately show ?thesis using assms(6) 2 by auto
  qed (use assms a in auto)
qed

section \<open>Properties\<close>

text \<open>C30: an accepted configuration has repositories with distinct owner/name names, a
  default branch and runnable checks with a positive timeout, windows that the program
  parses again at start-up, between one and ten parallel tasks, a reclaim interval
  shorter than the lease, and, where CI fixing is on, one to five attempts polled more
  often than they time out.\<close>

theorem validated_config_guarantees:
  assumes "ValidateConfig tzdb cron_err dt c = Inr c'"
  shows "map RepoName (Repos c') = map RepoName (Repos c) \<and> list_all repo_ok (Repos c') \<and>
    distinct (map (trim_space \<circ> RepoName) (Repos c')) \<and>
    (\<exists>ws. ActiveWindowsOf tzdb c' = Inr ws \<and>
       list_all2 (\<lambda>wc w. Validate tzdb (window_of wc) = Inr w) (ActiveWindows c) ws) \<and>
    1 \<le> MaxParallelTasks (Concurrency c') \<and> MaxParallelTasks (Concurrency c') \<le> 10 \<and>
    0 < ReclaimInterval (Concurrency c') \<and>
    ReclaimInterval (Concurrency c') < LeaseTimeout (Concurrency c') \<and>
    (\<not> CIFixOn (CIFix c') \<or>
       1 \<le> MaxAttempts (CIFix c') \<and> MaxAttempts (CIFix c') \<le> 5 \<and> 0 < CIPollInterval (CIFix c') \<and>
       CIPollInterval (CIFix c') < CIPollTimeout (CIFix c'))"
proof -
  obtain ws rs where w: "parse_windows tzdb ''scheduler.active_windows'' 0 (ActiveWindows c) = Inr ws"
    and r: "validate_repos 0 [] (Repos c) = Inr rs" and c': "c' = c\<lparr> Repos := rs \<rparr>"
    and k: "validateConcurrency dt (Concurrency c) = Inr ()" and f: "validateCIFix dt (CIFix c) = Inr ()"
    using ValidateConfig_Inr[OF assms] by metis
  note rr = validate_repos_ok[OF r]
  have "map (trim_space \<circ> RepoName) rs = map (trim_space \<circ> RepoName) (Repos c)"
    using rr by (metis map_map)
  moreover have "ActiveWindowsOf tzdb c' = Inr ws"
    using parse_windows_message[OF w] c' by (simp add: ActiveWindowsOf_def)
  ultimately show ?thesis
    using rr parse_windows_Inr[OF w] k f c' validateConcurrency_Inr[of dt "Concurrency c"]
      validateCIFix_Inr[of dt "CIFix c"] by auto
qed

text \<open>Limits that pass validation resolve to caps the budget gate understands: both
  zero (no limit) when both are unset, and otherwise a positive daily cap of at most the
  weekly one, each equal to the configured value where there is one; the week start is a
  weekday. (The bounds exclude configured values whose sevenfold wraps 64 bits.)\<close>

theorem validated_limits_resolve:
  assumes "validateLimits tzdb l = Inr ()" "tzdb ''UTC'' \<noteq> None"
    and "DailyMaxTasks l < 2 ^ 60" "WeeklyMaxTasks l < 2 ^ 62"
  shows "\<exists>dm wm wd zone. ResolvedLimits tzdb l = Inr (dm, wm, wd, zone) \<and> 0 \<le> wd \<and> wd < 7 \<and>
    (if DailyMaxTasks l = 0 \<and> WeeklyMaxTasks l = 0 then dm = 0 \<and> wm = 0
     else 0 < dm \<and> dm \<le> wm \<and> (DailyMaxTasks l = dm \<or> DailyMaxTasks l = 0) \<and>
          (WeeklyMaxTasks l = wm \<or> WeeklyMaxTasks l = 0))"
proof -
  note v = validateLimits_Inr[OF assms(1)]
  let ?start = "if to_lower (CfgWeekStartsOn l) = '''' then ''mon'' else to_lower (CfgWeekStartsOn l)"
  let ?tz = "if CfgResetTZ l = '''' then ''UTC'' else CfgResetTZ l"
  have "map_of weekStartMap ''mon'' \<noteq> None" by (simp add: weekStartMap_def)
  then have "map_of weekStartMap ?start \<noteq> None" using v by (cases "CfgWeekStartsOn l = []") simp_all
  then obtain wd where wd: "map_of weekStartMap ?start = Some wd" by blast
  have "tzdb ?tz \<noteq> None" using v assms(2) by auto
  then obtain zone where zone: "tzdb ?tz = Some zone" by blast
  let ?p = "if DailyMaxTasks l = 0 \<and> 0 < WeeklyMaxTasks l
      then (wrap64 (WeeklyMaxTasks l + 6) sdiv 7, WeeklyMaxTasks l)
    else if WeeklyMaxTasks l = 0 \<and> 0 < DailyMaxTasks l
      then (DailyMaxTasks l, wrap64 (DailyMaxTasks l * 7)) else (DailyMaxTasks l, WeeklyMaxTasks l)"
  obtain dm wm where p: "(dm, wm) = ?p" by (metis surj_pair)
  have "ResolvedLimits tzdb l = Inr (dm, wm, wd, zone)"
    unfolding ResolvedLimits_def Let_def p[symmetric] prod.case wd zone option.case by simp
  then show ?thesis using resolved_caps[OF _ _ _ assms(3,4) p] v weekStart_range[OF wd] by blast
qed

text \<open>A configuration that is accepted: one repository whose default branch is left to
  the program, one window, one nightly task.\<close>

definition sample_config :: config where
  "sample_config = \<lparr> HTTPBindAddr = ''127.0.0.1:8787'',
     DBSettings = \<lparr> DSN = ''u@tcp(h)/d?parseTime=true'', MaxOpenConns = 0, MaxIdleConns = 0,
       ConnMaxLifetime = 0, ConnMaxIdleTime = 0 \<rparr>, LogLevel = ''info'', TickInterval = 30, CfgWorktreeRoot = ''.worktrees'', CfgPromptsDir = ''prompts'',
     RetentionDays = 7, GitHubPollInterval = 60,
     ActiveWindows = [\<lparr> WinDays = [''Mon''], WinStart = ''09:00'', WinEnd = ''18:30'', WinTZ = ''UTC'' \<rparr>],
     MaintenanceTasks = [\<lparr> MaintName = ''nightly'', Cron = ''0 3 * * *'', MaintRepo = ''acme/app'',
       MaintPromptTemplate = ''deps'', MaintLabels = [], BudgetSubCap = \<lparr> CapDaily = 1, CapWeekly = 0 \<rparr> \<rparr>],
     Concurrency = \<lparr> MaxParallelTasks = 3, LeaseTimeout = 3600, ReclaimInterval = 600 \<rparr>,
     CIFix = \<lparr> CIFixOn = True, MaxAttempts = 2, CIPollInterval = 60, CIPollTimeout = 1800,
       CommentOnExhaustion = True \<rparr>,
     LimitsCfg = \<lparr> DailyMaxTasks = 5, WeeklyMaxTasks = 0, CfgWeekStartsOn = ''Mon'', CfgResetTZ = '''',
       DailyMaxCostUSD = 0, WeeklyMaxCostUSD = 0 \<rparr>,
     Repos = [\<lparr> RepoName = ''acme/app'', DefaultBranch = '''', RepoLabels = [], Reviewers = [],
       Checks = \<lparr> CheckSecurity = False, CheckPerf = False, Commands = [''make test''], CheckTimeout = 0 \<rparr> \<rparr>],
     SlackCfg = \<lparr> ChannelID = ''C1'', MentionUserID = '''' \<rparr> \<rparr>"

lemma validated_config_witness:
  "\<exists>c'. ValidateConfig (\<lambda>_. Some UTC) (\<lambda>_. None) (\<lambda>_. '''') sample_config = Inr c' \<and>
     list_all repo_ok (Repos c') \<and> MaxParallelTasks (Concurrency c') \<le> 10"
proof -
  have "is_ok (ValidateConfig (\<lambda>_. Some UTC) (\<lambda>_. None) (\<lambda>_. '''') sample_config)" by code_simp
  then obtain c' where "ValidateConfig (\<lambda>_. Some UTC) (\<lambda>_. None) (\<lambda>_. '''') sample_config = Inr c'"
    by (cases "ValidateConfig (\<lambda>_. Some UTC) (\<lambda>_. None) (\<lambda>_. '''') sample_config") auto
  with validated_config_guarantees[OF this] show ?thesis by blast
qed

lemma validated_limits_witness:
  "\<exists>dm wm wd zone. ResolvedLimits (\<lambda>_. Some UTC) (LimitsCfg sample_config) = Inr (dm, wm, wd, zone) \<and>
     dm = 5 \<and> 5 \<le> wm"
proof -
  have v: "validateLimits (\<lambda>_. Some UTC) (LimitsCfg sample_config) = Inr ()" by code_simp
  have f: "DailyMaxTasks (LimitsCfg sample_config) = 5" "WeeklyMaxTasks (LimitsCfg sample_config) = 0"
    by (simp_all add: sample_config_def)
  from validated_limits_resolve[OF v] show ?thesis unfolding f by auto
qed

end
