(* ===== verification/Quality_Gate.thy ===== *)
theory Quality_Gate
  imports World Config
begin

text \<open>internal/qualitygate: the commands a repository demands before a pull request,
  run one after the other in the worktree until one fails, and the adapter that looks
  them up. A command is a run of the shell; the outside says how it ended and what it
  wrote.\<close>

record gate_result =
  Passed :: bool
  FailedCommand :: string
  GateExitCode :: int
  OutputTail :: string

definition gate_passed :: gate_result where
  "gate_passed = \<lparr> Passed = True, FailedCommand = '''', GateExitCode = 0, OutputTail = '''' \<rparr>"

definition trim_newlines :: "string \<Rightarrow> string" where
  "trim_newlines s = rev (dropWhile (\<lambda>c. c = CHR 0x0A) (rev s))"

definition tailLines :: "string \<Rightarrow> int \<Rightarrow> string" where
  "tailLines s n =
     (if n \<le> 0 then ''''
      else let lines = split_byte (CHR 0x0A) (trim_newlines s)
           in if int (length lines) \<le> n then join_str [CHR 0x0A] lines
              else join_str [CHR 0x0A] (drop (length lines - nat n) lines))"

text \<open>ShellRunner.Run: the exit code and the error that came with it.\<close>

definition check_code :: "check_exit \<Rightarrow> int \<times> go_error option" where
  "check_code e =
     (case e of
        CheckSpawnFails m \<Rightarrow> (-1, Some (EWrap ''spawn'' (EMsg m)))
      | CheckWaited WaitOK \<Rightarrow> (0, None)
      | CheckWaited (WaitExit code _) \<Rightarrow> (code, None)
      | CheckWaited (WaitOther m) \<Rightarrow> (-1, Some (EMsg m))
      | CheckKilled er \<Rightarrow> (-1, Some (EWrap ''timeout'' er)))"

definition ShellRunner_Run :: "string \<Rightarrow> string \<Rightarrow> (string \<times> int \<times> go_error option) prog" where
  "ShellRunner_Run dir cmdline = do {
     (out, e) \<leftarrow> ask check_reply;
     let (code, er) = check_code e;
     emit (ShellRun dir [''sh'', ''-c'', cmdline] (code = 0 \<and> er = None));
     ret (out, code, er)
   }"

text \<open>Gate.Run: blank commands are skipped, the first failure ends the run.\<close>

fun gate_run :: "int \<Rightarrow> string \<Rightarrow> string list \<Rightarrow> gate_result prog" where
  "gate_run tailSize dir [] = ret gate_passed"
| "gate_run tailSize dir (c # cs) =
     (let cmdline = trim_space c in
      if cmdline = '''' then gate_run tailSize dir cs
      else do {
        (out, code, er) \<leftarrow> ShellRunner_Run dir cmdline;
        if er \<noteq> None \<or> code \<noteq> 0
        then ret \<lparr> Passed = False, FailedCommand = cmdline, GateExitCode = code,
                   OutputTail = tailLines out tailSize \<rparr>
        else gate_run tailSize dir cs
      })"

text \<open>The adapter, over a gate with the default tail of fifty lines.\<close>

definition repo_map :: "repo_config list \<Rightarrow> string \<Rightarrow> repo_config option" where
  "repo_map repos name = map_of (rev (map (\<lambda>r. (RepoName r, r)) repos)) name"

definition Lookup :: "repo_config list \<Rightarrow> string \<Rightarrow> (string list \<times> int) option" where
  "Lookup repos name =
     (case repo_map repos name of
        None \<Rightarrow> None
      | Some r \<Rightarrow>
          if Commands (Checks r) = [] then None
          else Some (Commands (Checks r),
                     if CheckTimeout (Checks r) \<le> 0 then default_timeout else CheckTimeout (Checks r)))"

definition adapter_Run :: "string \<Rightarrow> string list \<Rightarrow> int \<Rightarrow> gate_result prog" where
  "adapter_Run dir cmds timeout = gate_run 50 dir cmds"

section \<open>Lemmas\<close>

definition check_effects :: "effect set" where
  "check_effects = {ShellRun d [''sh'', ''-c'', c] b |d c b. True}"

lemma check_frame: "check_effects \<subseteq> F \<Longrightarrow> state_io_rel (frame F) (ShellRunner_Run dir c)"
  unfolding ShellRunner_Run_def by (intro keeps_intros) (auto simp: check_effects_def)

lemma gate_run_frame: "check_effects \<subseteq> F \<Longrightarrow> state_io_rel (frame F) (gate_run n dir cs)"
proof (induction n dir cs rule: gate_run.induct)
  case (2 n dir c cs)
  then show ?case by (auto simp: Let_def intro!: keeps_intros check_frame)
qed (simp add: keeps_intros)

lemma adapter_frame: "check_effects \<subseteq> F \<Longrightarrow> state_io_rel (frame F) (adapter_Run dir cs t)"
  unfolding adapter_Run_def by (rule gate_run_frame)

text \<open>The commands the trace shows after a run, and their outcomes.\<close>

definition check_commands :: "string list \<Rightarrow> string list" where
  "check_commands cs = filter (\<lambda>c. c \<noteq> '''') (map trim_space cs)"

definition check_run :: "string \<Rightarrow> bool \<Rightarrow> string \<Rightarrow> effect" where
  "check_run dir ok c = ShellRun dir [''sh'', ''-c'', c] ok"

lemma shell_runner_run:
  "run_state (ShellRunner_Run dir c) w =
     (let (out, e) = check_reply w (ops w); (code, er) = check_code e in
      ((out, code, er), (tick w)\<lparr> trace := trace w @ [check_run dir (code = 0 \<and> er = None) c] \<rparr>))"
  by (simp add: ShellRunner_Run_def ask_def emit_def tick_def check_run_def Let_def split: prod.split)

lemma gate_run_trace:
  "run_state (gate_run n dir cs) w = (r, w') \<Longrightarrow>
   (Passed r \<and> trace w' = trace w @ map (check_run dir True) (check_commands cs)) \<or>
   (\<not> Passed r \<and> (\<exists>pre suf. check_commands cs = pre @ FailedCommand r # suf \<and>
      trace w' = trace w @ map (check_run dir True) pre @ [check_run dir False (FailedCommand r)]))"
proof (induction n dir cs arbitrary: w rule: gate_run.induct)
  case (1 n dir)
  then show ?case by (auto simp: gate_passed_def check_commands_def)
next
  case (2 n dir c cs)
  let ?c = "trim_space c"
  show ?case
  proof (cases "?c = []")
    case True
    then show ?thesis using "2.IH"(1)[OF refl True, of w] "2.prems" by (simp add: check_commands_def)
  next
    case False
    obtain out e where a: "check_reply w (ops w) = (out, e)" by fastforce
    obtain code er where b: "check_code e = (code, er)" by fastforce
    let ?w1 = "(tick w)\<lparr> trace := trace w @ [check_run dir (code = 0 \<and> er = None) ?c] \<rparr>"
    have s: "run_state (ShellRunner_Run dir ?c) w = ((out, code, er), ?w1)"
      by (simp add: shell_runner_run a b)
    have cc: "check_commands (c # cs) = ?c # check_commands cs" using False by (simp add: check_commands_def)
    show ?thesis
    proof (cases "er \<noteq> None \<or> code \<noteq> 0")
      case True
      then have r: "r = \<lparr> Passed = False, FailedCommand = ?c, GateExitCode = code,
          OutputTail = tailLines out n \<rparr>" "w' = ?w1"
        using "2.prems" False s by (auto simp: Let_def)
      have "check_commands (c # cs) = [] @ FailedCommand r # check_commands cs" using cc r by simp
      moreover have "trace w' = trace w @ map (check_run dir True) [] @ [check_run dir False (FailedCommand r)]"
        using r True by (auto simp: check_run_def)
      ultimately show ?thesis using r by (intro disjI2) auto
    next
      case ok: False
      then have g: "run_state (gate_run n dir cs) ?w1 = (r, w')"
        using "2.prems" False s ok by (simp add: Let_def)
      have t: "trace ?w1 = trace w @ [check_run dir True ?c]" using ok by simp
      from "2.IH"(2)[OF refl False ok g]
      consider "Passed r" "trace w' = trace ?w1 @ map (check_run dir True) (check_commands cs)"
        | pre suf where "\<not> Passed r" "check_commands cs = pre @ FailedCommand r # suf"
          "trace w' = trace ?w1 @ map (check_run dir True) pre @ [check_run dir False (FailedCommand r)]"
        by blast
      then show ?thesis
      proof cases
        case 1
        then show ?thesis using t cc by simp
      next
        case 2
        then have "check_commands (c # cs) = (?c # pre) @ FailedCommand r # suf"
          "trace w' = trace w @ map (check_run dir True) (?c # pre) @ [check_run dir False (FailedCommand r)]"
          using t cc by simp_all
        then show ?thesis using 2(1) by blast
      qed
    qed
  qed
qed

section \<open>Properties\<close>

text \<open>C31: the gate runs the repository's commands, trimmed and without the blank ones,
  in their order in the worktree; it passes exactly when all of them were run and
  succeeded, and otherwise it stops at the first that failed, reports it, and runs none
  after it.\<close>

theorem gate_runs_in_order:
  "case run_state (adapter_Run dir cmds timeout) w of
     (r, w') \<Rightarrow>
       (Passed r \<and> trace w' = trace w @ map (check_run dir True) (check_commands cmds)) \<or>
       (\<not> Passed r \<and> (\<exists>pre suf. check_commands cmds = pre @ FailedCommand r # suf \<and>
          trace w' = trace w @ map (check_run dir True) pre @ [check_run dir False (FailedCommand r)]))"
  using gate_run_trace[of 50 dir cmds w] by (simp add: adapter_Run_def split: prod.split)

end
