(* ===== verification/Metrics.thy ===== *)
theory Metrics
  imports World
begin

text \<open>internal/metrics/metrics.go: what the worker records. An observation is an effect
  of the trace; the registry and the scrape are the library's.\<close>

text \<open>The observed duration: zero for a task without a start or that ends before it.\<close>

definition task_duration :: "time \<Rightarrow> time \<Rightarrow> int" where
  "task_duration startedAt finishedAt =
     (if \<not> is_zero startedAt \<and> \<not> finishedAt < startedAt then finishedAt - startedAt else 0)"

definition RecordTaskFinished :: "string \<Rightarrow> string \<Rightarrow> string \<Rightarrow> time \<Rightarrow> time \<Rightarrow> unit prog" where
  "RecordTaskFinished repo taskType status startedAt finishedAt =
     emit (TaskMetric repo status taskType (task_duration startedAt finishedAt))"

definition RecordBudgetBlock :: "budget_reason \<Rightarrow> unit prog" where
  "RecordBudgetBlock reason =
     (if reason = BudgetReasonAllowed then ret () else emit (BudgetBlockMetric reason))"

definition RecordWindowClose :: "unit prog" where
  "RecordWindowClose = emit WindowCloseMetric"

definition metric_effects :: "effect set" where
  "metric_effects = {TaskMetric a b c d |a b c d. True} \<union> range BudgetBlockMetric \<union> {WindowCloseMetric}"

lemma metric_frames [keeps_intros]:
  assumes "metric_effects \<subseteq> F"
  shows "state_io_rel (frame F) (RecordTaskFinished repo ty st a b)"
    "state_io_rel (frame F) (RecordBudgetBlock r)" "state_io_rel (frame F) RecordWindowClose"
  unfolding RecordTaskFinished_def RecordBudgetBlock_def RecordWindowClose_def
  by (intro keeps_intros, use assms in \<open>auto simp: metric_effects_def\<close>)+

end
