(* ===== verification/Worker_Laws.thy ===== *)
theory Worker_Laws
  imports Worker Cost_Warn Pr_Creator Quality_Gate Metrics
begin

text \<open>What a run of a task guarantees. The dependencies of the worker satisfy the laws of
  the locale worker_deps; inside it every run is shown to end in one of three ways, and
  what happened before is followed gate by gate: Claude runs at most once and only
  after both gates granted it, checks and pull request come after it and in this order,
  other tasks are untouched, and a task that is done has passed its checks. The wired
  configuration of main.go is an instance.\<close>

section \<open>Milestones\<close>

text \<open>The effects that matter for the order of a run: the Claude process, the checks of
  the repository, the git and gh commands of the pull request.\<close>

fun is_claude :: "effect \<Rightarrow> bool" where
  "is_claude (ClaudeRun _ _) = True"
| "is_claude _ = False"

fun is_check :: "effect \<Rightarrow> bool" where
  "is_check (ShellRun _ argv _) = (argv \<noteq> [] \<and> hd argv = ''sh'')"
| "is_check _ = False"

fun is_pr :: "effect \<Rightarrow> bool" where
  "is_pr (ShellRun _ argv _) = (argv \<noteq> [] \<and>
     (hd argv = ''gh'' \<or> hd argv = ''git'' \<and> take 1 (tl argv) \<noteq> [''worktree'']))"
| "is_pr _ = False"

definition milestone :: "effect \<Rightarrow> bool" where
  "milestone e = (is_claude e \<or> is_check e \<or> is_pr e)"

text \<open>What a run did between two worlds: the environment is the same, and the milestones
  of the new effects are those listed.\<close>

definition reached :: "world \<Rightarrow> effect list \<Rightarrow> world \<Rightarrow> bool" where
  "reached w ms w' = (same_env w w' \<and> (\<exists>es. trace w' = trace w @ es \<and> filter milestone es = ms))"

definition silent :: "effect set" where "silent = {e. \<not> milestone e}"

lemma reached_refl [simp]: "reached w [] w"
  by (simp add: reached_def)

lemma reached_trans:
  assumes "reached a ms b" "reached b ns c"
  shows "reached a (ms @ ns) c"
proof -
  obtain es fs where "trace b = trace a @ es" "filter milestone es = ms"
    "trace c = trace b @ fs" "filter milestone fs = ns"
    using assms by (auto simp: reached_def)
  then have "trace c = trace a @ (es @ fs) \<and> filter milestone (es @ fs) = ms @ ns" by simp
  then show ?thesis using assms same_env_trans unfolding reached_def by blast
qed

lemma reached_silent: "grows silent w w' \<Longrightarrow> reached w [] w'"
  by (auto simp: grows_def reached_def silent_def filter_empty_conv)

lemma reached_step: "reached a ms b \<Longrightarrow> grows silent b c \<Longrightarrow> reached a ms c"
  using reached_trans[of a ms b "[]" c] reached_silent by simp

lemma reached_set:
  assumes "grows F w w'"
  obtains ms where "reached w ms w'" "set ms \<subseteq> F \<inter> Collect milestone"
proof -
  obtain es where "trace w' = trace w @ es" "set es \<subseteq> F" using assms by (auto simp: grows_def)
  then show thesis using assms by (intro that[of "filter milestone es"]) (auto simp: reached_def grows_def)
qed

lemma reached_unique: "reached w ms w' \<Longrightarrow> reached w ns w' \<Longrightarrow> ms = ns"
  by (auto simp: reached_def)

section \<open>What a dependency may change\<close>

text \<open>Nothing but events, states and silent effects; the schema's constraints stay.\<close>

definition kept :: "effect set \<Rightarrow> world \<Rightarrow> world \<Rightarrow> bool" where
  "kept F w w' = (grows F w w' \<and> task_rows w' = task_rows w \<and> (wf_db w \<longrightarrow> wf_db w'))"

lemma kept_reflp [simp]: "reflp (kept F)"
  by (simp add: reflp_def kept_def)

lemma kept_transp [simp]: "transp (kept F)"
  using grows_trans by (auto simp: transp_def kept_def)

lemma frame_kept: "frame F w w' \<Longrightarrow> kept F w w'"
  by (simp add: frame_def kept_def wf_db_def)

lemma keeps_frame_kept: "state_io_rel (frame F) m \<Longrightarrow> state_io_rel (kept F) m"
  unfolding state_io_rel_def using frame_kept by blast

lemma kept_bind [keeps_intros]:
  "state_io_rel (kept F) m \<Longrightarrow> (\<And>a. state_io_rel (kept F) (f a)) \<Longrightarrow>
   state_io_rel (kept F) (State_Monad.bind m f)"
  by (rule keeps_bind) simp_all

lemma kept_return [keeps_intros]: "state_io_rel (kept F) (ret a)"
  by (rule keeps_return) simp

lemma kept_when_some [keeps_intros]:
  "(\<And>a. x = Some a \<Longrightarrow> state_io_rel (kept F) (f a)) \<Longrightarrow> state_io_rel (kept F) (when_some x f)"
  by (rule keeps_when_some) simp_all

lemma kept_call: "(\<And>w. kept F w (snd (f w))) \<Longrightarrow> state_io_rel (kept F) (call f)"
  by (auto simp: state_io_rel_def)

lemmas kept_prims [keeps_intros] =
  keeps_frame_kept[OF frame_ask] keeps_frame_kept[OF frame_now] keeps_frame_kept[OF frame_ctx_done]
  keeps_frame_kept[OF frame_emit] keeps_frame_kept[OF frame_shell(1)] keeps_frame_kept[OF frame_shell(2)]

text \<open>Steps that leave the settings and counters of app_states alone, too.\<close>

definition still :: "world \<Rightarrow> world \<Rightarrow> bool" where
  "still w w' = (kept silent w w' \<and> app_rows w' = app_rows w)"

lemma still_reflp [simp]: "reflp still"
  by (simp add: reflp_def still_def kept_def)

lemma still_transp [simp]: "transp still"
  using transpD[OF kept_transp] by (auto simp: transp_def still_def)

lemma still_kept: "state_io_rel still m \<Longrightarrow> state_io_rel (kept silent) m"
  by (simp add: state_io_rel_def still_def)

lemma still_snd: "state_io_rel still m \<Longrightarrow> app_rows (snd (run_state m w)) = app_rows w"
  by (metis prod.collapse state_io_relD still_def)

lemma keeps_frame_still: "state_io_rel (frame silent) m \<Longrightarrow> state_io_rel still m"
  unfolding state_io_rel_def still_def using frame_kept by (auto simp: frame_def)

lemma still_bind [keeps_intros]:
  "state_io_rel still m \<Longrightarrow> (\<And>a. state_io_rel still (f a)) \<Longrightarrow> state_io_rel still (State_Monad.bind m f)"
  by (rule keeps_bind) simp_all

lemma still_return [keeps_intros]: "state_io_rel still (ret a)"
  by (rule keeps_return) simp

lemma still_when_some [keeps_intros]:
  "(\<And>a. x = Some a \<Longrightarrow> state_io_rel still (f a)) \<Longrightarrow> state_io_rel still (when_some x f)"
  by (rule keeps_when_some) simp_all

lemma still_call: "(\<And>w. still w (snd (f w))) \<Longrightarrow> state_io_rel still (call f)"
  by (auto simp: state_io_rel_def)

lemmas still_prims [keeps_intros] =
  keeps_frame_still[OF frame_ask] keeps_frame_still[OF frame_now] keeps_frame_still[OF frame_ctx_done]
  keeps_frame_still[OF frame_emit] keeps_frame_still[OF frame_shell(1)] keeps_frame_still[OF frame_shell(2)]

section \<open>The contract of the dependencies\<close>

text \<open>A task whose row is there, with the columns the constraints look at.\<close>

definition storable :: "world \<Rightarrow> task \<Rightarrow> bool" where
  "storable w t = (\<exists>u. task_view w (ID t) = Some u \<and> TaskType u = TaskType t \<and>
     ParentTaskID u = ParentTaskID t \<and> HeadSHA u = HeadSHA t)"

locale worker_deps = task_repository "TaskRepo cfg" task_view wf_db for cfg :: worker_config +
  assumes update_grows: "grows silent w (snd (Update (TaskRepo cfg) t w))"
    and update_app: "app_rows (snd (Update (TaskRepo cfg) t w)) = app_rows w"
    and ci_grows: "grows silent w (snd (UpdateCIStatus (TaskRepo cfg) i st sha tp w))"
    and update_succeeds: "wf_db w \<Longrightarrow> db_works w \<Longrightarrow> storable w t \<Longrightarrow>
      fst (Update (TaskRepo cfg) t w) = Inr ()"
    and event_still: "EventRepo cfg = Some er \<Longrightarrow> still w (snd (CreateEvent er ev w))"
    and state_still: "AppStateRepo cfg = Some ar \<Longrightarrow> still w (snd (Get ar k w))"
    and slack_still: "Slack cfg = Some sl \<Longrightarrow> state_io_rel still (SlackStarted sl t)"
      "Slack cfg = Some sl \<Longrightarrow> state_io_rel still (SlackDone sl t)"
      "Slack cfg = Some sl \<Longrightarrow> state_io_rel still (SlackFailed sl t msg)"
      "Slack cfg = Some sl \<Longrightarrow> state_io_rel still (SlackCancelled sl t)"
    and budget_kept: "Budget cfg = Some b \<Longrightarrow> state_io_rel (kept silent) (EnfCheckAndIncrementReason b now)"
      "Budget cfg = Some b \<Longrightarrow> state_io_rel (kept silent) (EnfRecordRateLimitBlock b resets ty now)"
    and warn_kept: "CostWarn cfg = Some f \<Longrightarrow> state_io_rel (kept silent) (f now)"
    and metrics_still: "Metrics cfg = Some m \<Longrightarrow> state_io_rel still (MetTaskFinished m a1 a2 a3 t1 t2)"
      "Metrics cfg = Some m \<Longrightarrow> state_io_rel still (MetBudgetBlock m reason)"
      "Metrics cfg = Some m \<Longrightarrow> state_io_rel still (MetWindowClose m)"
    and gate_kept: "QualityGate cfg = Some q \<Longrightarrow>
      state_io_rel (kept (silent \<union> Collect is_check)) (GateRun q path cmds timeout)"
    and gate_passes: "QualityGate cfg = Some q \<Longrightarrow> run_state (GateRun q path cmds timeout) w = (g, w') \<Longrightarrow>
      GatePassed g \<Longrightarrow> reached w (map (check_run path True) (check_commands cmds)) w'"
    and pr_kept: "PRCreator cfg = Some create \<Longrightarrow> state_io_rel (kept (silent \<union> Collect is_pr)) (create t)"
    and pr_created: "PRCreator cfg = Some create \<Longrightarrow> run_state (create t) w = (Inr (url, num), w') \<Longrightarrow>
      \<exists>pre args. reached w (pre @ [ShellRun '''' (''gh'' # args) True]) w'"
begin

lemma helper_still [keeps_intros]:
  "state_io_rel still (recordEvent cfg i k p)"
  "state_io_rel still (recordFinished cfg t)"
  "state_io_rel still (removeWorktree path)"
  "state_io_rel still (writeLog cfg i c)"
  "state_io_rel still (isFullMode cfg)"
  "state_io_rel still (createWorktree cfg t path branch)"
proof -
  show e: "state_io_rel still (recordEvent cfg i k p)" for i k p
    unfolding recordEvent_def by (intro keeps_intros still_call event_still)
  show "state_io_rel still (recordFinished cfg t)"
    unfolding recordFinished_def by (intro keeps_intros metrics_still)
  show "state_io_rel still (removeWorktree path)"
    unfolding removeWorktree_def by (intro keeps_intros) (simp add: silent_def milestone_def)
  show "state_io_rel still (writeLog cfg i c)"
    unfolding writeLog_def by (intro keeps_intros) (simp add: silent_def milestone_def)
  show "state_io_rel still (isFullMode cfg)"
  proof (cases "AppStateRepo cfg")
    case (Some ar)
    have "state_io_rel still (State (\<lambda>w. (float_text w, w)))"
      by (rule state_io_relI) (auto simp: still_def kept_def)
    then show ?thesis using Some unfolding isFullMode_def
      by (auto intro!: keeps_intros still_call state_still)
  qed (simp add: isFullMode_def keeps_intros)
  show "state_io_rel still (createWorktree cfg t path branch)"
    unfolding createWorktree_def Let_def by (intro keeps_intros) (simp add: silent_def milestone_def)
qed

lemmas helper_kept [keeps_intros] = helper_still[THEN still_kept]

lemmas slack_kept [keeps_intros] = slack_still[THEN still_kept]

lemmas metrics_kept [keeps_intros] = metrics_still[THEN still_kept]

lemma slack_send_kept [keeps_intros]:
  "(\<And>s. Slack cfg = Some s \<Longrightarrow> state_io_rel (kept silent) (f s)) \<Longrightarrow>
   state_io_rel (kept silent) (slack_send cfg f)"
  unfolding slack_send_def by (intro keeps_intros)

lemma rate_limit_kept [keeps_intros]: "state_io_rel (kept silent) (maybeRecordRateLimit cfg t e)"
  unfolding maybeRecordRateLimit_def by (intro keeps_intros budget_kept)

end

section \<open>How a run ends\<close>

datatype ending = Failed task string | Cancelled task | Finished task

fun ending_task :: "ending \<Rightarrow> task" where
  "ending_task (Failed t _) = t"
| "ending_task (Cancelled t) = t"
| "ending_task (Finished t) = t"

fun ending_prog :: "worker_config \<Rightarrow> ending \<Rightarrow> unit result prog" where
  "ending_prog cfg (Failed t m) = fail cfg t m"
| "ending_prog cfg (Cancelled t) = cancel cfg t"
| "ending_prog cfg (Finished t) = finish_task cfg t"

text \<open>From a world, a program runs like one of the endings from a world where the
  condition holds.\<close>

definition ends :: "worker_config \<Rightarrow> unit result prog \<Rightarrow> world \<Rightarrow> (ending \<Rightarrow> world \<Rightarrow> bool) \<Rightarrow> bool" where
  "ends cfg m w Q = (\<exists>e v. Q e v \<and> run_state m w = run_state (ending_prog cfg e) v)"

lemma ends_bind:
  "run_state m w = (a, w1) \<Longrightarrow> ends cfg (f a) w1 Q \<Longrightarrow> ends cfg (State_Monad.bind m f) w Q"
  by (simp add: ends_def)

lemma ends_step:
  "ends cfg (f (fst (run_state m w))) (snd (run_state m w)) Q \<Longrightarrow> ends cfg (State_Monad.bind m f) w Q"
  by (cases "run_state m w") (simp add: ends_def)

lemma ends_fail: "Q (Failed t m) w \<Longrightarrow> ends cfg (fail cfg t m) w Q"
  unfolding ends_def by (intro exI[of _ "Failed t m"] exI[of _ w]) simp

lemma ends_cancel: "Q (Cancelled t) w \<Longrightarrow> ends cfg (cancel cfg t) w Q"
  unfolding ends_def by (intro exI[of _ "Cancelled t"] exI[of _ w]) simp

lemma ends_finish: "Q (Finished t) w \<Longrightarrow> ends cfg (finish_task cfg t) w Q"
  unfolding ends_def by (intro exI[of _ "Finished t"] exI[of _ w]) simp

section \<open>What holds on the way\<close>

definition same_keys :: "task \<Rightarrow> task \<Rightarrow> bool" where
  "same_keys t0 t = (ID t = ID t0 \<and> TaskType t = TaskType t0 \<and> ParentTaskID t = ParentTaskID t0 \<and>
     HeadSHA t = HeadSHA t0 \<and> RepoFullName t = RepoFullName t0)"

text \<open>The table stays well formed, the task's row can still be saved, every other row is
  untouched.\<close>

definition rows_ok :: "task \<Rightarrow> world \<Rightarrow> world \<Rightarrow> bool" where
  "rows_ok t0 w0 w = (wf_db w0 \<and> storable w0 t0 \<longrightarrow>
     wf_db w \<and> storable w t0 \<and> (\<forall>j. j \<noteq> ID t0 \<longrightarrow> task_view w j = task_view w0 j))"

definition passage :: "task \<Rightarrow> world \<Rightarrow> effect list \<Rightarrow> world \<Rightarrow> bool" where
  "passage t0 w0 ms w = (reached w0 ms w \<and> rows_ok t0 w0 w)"

text \<open>Between the start of the run and an instant before the budget is asked: no milestone,
  and app_states is as it was at the start.\<close>

definition waiting :: "world \<Rightarrow> world \<Rightarrow> bool" where
  "waiting w0 w = (reached w0 [] w \<and> app_rows w = app_rows w0)"

text \<open>The window was open when Claude was spawned (or the full mode was read as on), and
  the budget gate, asked before, had granted a slot.\<close>

definition budget_granted :: "worker_config \<Rightarrow> world \<Rightarrow> nat \<Rightarrow> bool" where
  "budget_granted cfg w0 n = (case Budget cfg of
     None \<Rightarrow> True
   | Some b \<Rightarrow> (\<exists>v m. waiting w0 v \<and> ops w0 \<le> m \<and> m < n \<and>
       fst (run_state (EnfCheckAndIncrementReason b (clock w0 m)) v) = Inr BudgetReasonAllowed))"

definition cleared :: "worker_config \<Rightarrow> world \<Rightarrow> bool" where
  "cleared cfg w0 = (\<exists>u n. waiting w0 u \<and> ops w0 \<le> n \<and>
     AllowNow (clock w0 n) (fst (run_state (isFullMode cfg) u)) (Windows cfg) \<and>
     budget_granted cfg w0 n)"

definition ordered :: "effect list \<Rightarrow> bool" where
  "ordered ms = (\<exists>cl ch pr. ms = cl @ ch @ pr \<and> list_all is_claude cl \<and> length cl \<le> 1 \<and>
     list_all is_check ch \<and> list_all is_pr pr \<and> (cl = [] \<longrightarrow> ch @ pr = []))"

definition required_checks :: "worker_config \<Rightarrow> string \<Rightarrow> string list" where
  "required_checks cfg repo =
     (case QualityGate cfg of
        None \<Rightarrow> []
      | Some q \<Rightarrow> (case GateLookup q repo of None \<Rightarrow> [] | Some (cmds, _) \<Rightarrow> check_commands cmds))"

definition opened_pr :: "worker_config \<Rightarrow> effect list \<Rightarrow> bool" where
  "opened_pr cfg pr = (case PRCreator cfg of
      None \<Rightarrow> pr = []
    | Some _ \<Rightarrow> (\<exists>pre args. pr = pre @ [ShellRun '''' (''gh'' # args) True]))"

definition complete_run :: "worker_config \<Rightarrow> task \<Rightarrow> effect list \<Rightarrow> bool" where
  "complete_run cfg t ms = (\<exists>path args pr. opened_pr cfg pr \<and>
     ms = ClaudeRun path args # map (check_run path True) (required_checks cfg (RepoFullName t)) @ pr)"

definition exit_ok :: "worker_config \<Rightarrow> task \<Rightarrow> world \<Rightarrow> ending \<Rightarrow> world \<Rightarrow> bool" where
  "exit_ok cfg t0 w0 e v = (\<exists>ms. passage t0 w0 ms v \<and> ordered ms \<and>
     (filter is_claude ms = [] \<or> cleared cfg w0) \<and> same_keys t0 (ending_task e) \<and>
     (case e of Finished t \<Rightarrow> complete_run cfg t0 ms | _ \<Rightarrow> True))"

lemma same_keys_refl [simp]: "same_keys t t"
  by (simp add: same_keys_def)

lemma rows_ok_refl [simp]: "rows_ok t w w"
  by (simp add: rows_ok_def)

lemma passage_start [simp]: "passage t w [] w"
  by (simp add: passage_def)

lemma storable_rows: "task_rows w = task_rows w' \<Longrightarrow> storable w' t = storable w t"
  by (simp add: storable_def task_view_rows_eq[of w w'])

lemma rows_ok_kept: "rows_ok t0 w0 w \<Longrightarrow> kept F w w' \<Longrightarrow> rows_ok t0 w0 w'"
  using storable_rows[of w w' t0] task_view_rows_eq[of w w'] by (simp add: rows_ok_def kept_def)

lemma passage_kept: "passage t0 w0 ms w \<Longrightarrow> kept silent w w' \<Longrightarrow> passage t0 w0 ms w'"
  unfolding passage_def using rows_ok_kept reached_step by (blast dest: kept_def[THEN iffD1])

lemma passage_run:
  "passage t0 w0 ms w \<Longrightarrow> state_io_rel (kept silent) m \<Longrightarrow> run_state m w = (a, w1) \<Longrightarrow> passage t0 w0 ms w1"
  using passage_kept by (metis state_io_relD)

lemma passage_snd:
  "passage t0 w0 ms w \<Longrightarrow> state_io_rel (kept silent) m \<Longrightarrow> passage t0 w0 ms (snd (run_state m w))"
  using passage_run by (metis prod.collapse)

lemma passage_more:
  assumes "passage t0 w0 ms w" "kept F w w'" "reached w ns w'"
  shows "passage t0 w0 (ms @ ns) w'"
  using assms rows_ok_kept reached_trans unfolding passage_def by blast

lemma passage_clock: "passage t0 w0 ms w \<Longrightarrow> clock w = clock w0"
  by (simp add: passage_def reached_def same_env_def)

lemma exit_early:
  assumes "passage t0 w0 [] v" "same_keys t0 (ending_task e)" "\<forall>t. e \<noteq> Finished t"
  shows "exit_ok cfg t0 w0 e v"
  unfolding exit_ok_def using assms
  by (intro exI[of _ "[]"]) (cases e; force simp: ordered_def)

section \<open>Gate by gate\<close>

context worker_deps
begin

lemma passage_update:
  assumes "passage t0 w0 ms w" "same_keys t0 t" "Update (TaskRepo cfg) t w = (r, w')"
  shows "passage t0 w0 ms w'"
proof -
  have "reached w0 ms w'" using assms(1,3) update_grows[of w t] reached_step by (auto simp: passage_def)
  moreover have "rows_ok t0 w0 w'"
    unfolding rows_ok_def
  proof
    assume "wf_db w0 \<and> storable w0 t0"
    then have wf: "wf_db w" "storable w t0" and oth: "\<forall>j. j \<noteq> ID t0 \<longrightarrow> task_view w j = task_view w0 j"
      using assms(1) by (auto simp: passage_def rows_ok_def)
    have v: "task_view w (ID t) \<noteq> None" using wf(2) assms(2) by (auto simp: storable_def same_keys_def)
    consider "task_view w' = task_view w" "wf_db w'"
      | u where "task_view w' = (task_view w)(ID t \<mapsto> (norm_task t)\<lparr> UpdatedAt := u \<rparr>)" "wf_db w'"
      using Update_ok[OF wf(1) v, of w'] Update_err[OF wf(1) v, of _ w'] assms(3) by (cases r) fastforce+
    then show "wf_db w' \<and> storable w' t0 \<and> (\<forall>j. j \<noteq> ID t0 \<longrightarrow> task_view w' j = task_view w0 j)"
    proof cases
      case 1
      then show ?thesis using wf oth by (simp add: storable_def)
    next
      case 2
      then show ?thesis using oth assms(2) by (auto simp: storable_def same_keys_def norm_task_def)
    qed
  qed
  ultimately show ?thesis by (simp add: passage_def)
qed

lemma ordered_run:
  "list_all is_check ch \<Longrightarrow> list_all is_pr pr \<Longrightarrow> ordered (ClaudeRun path args # ch @ pr)"
  unfolding ordered_def by (intro exI[of _ "[ClaudeRun path args]"] exI[of _ ch] exI[of _ pr]) simp

lemma checks_all [simp]: "list_all is_check (map (check_run path b) cs)"
  by (simp add: list_all_iff check_run_def)

lemma removed_then_fail:
  assumes "passage t0 w0 ms w" "ordered ms" "filter is_claude ms = [] \<or> cleared cfg w0" "same_keys t0 t"
  shows "ends cfg (do { removeWorktree path; fail cfg t m }) w (exit_ok cfg t0 w0)"
  by (intro ends_step ends_fail, unfold exit_ok_def)
    (use assms passage_snd[OF assms(1) helper_kept(3)] in auto)

lemma pr_stage_ends:
  assumes p: "passage t0 w0 (ClaudeRun path args # map (check_run path True) (required_checks cfg (RepoFullName t0))) w"
    and g: "cleared cfg w0" and k: "same_keys t0 t"
  shows "ends cfg (pr_stage cfg t) w (exit_ok cfg t0 w0)"
proof (cases "PRCreator cfg")
  case None
  let ?ms = "ClaudeRun path args # map (check_run path True) (required_checks cfg (RepoFullName t0))"
  have "complete_run cfg t0 ?ms" unfolding complete_run_def opened_pr_def using None by auto
  moreover have "ordered ?ms" using ordered_run[of _ "[]"] by simp
  ultimately have "exit_ok cfg t0 w0 (Finished t) w" unfolding exit_ok_def using p g k by auto
  then show ?thesis using None by (simp add: pr_stage_def ends_finish)
next
  case (Some create)
  let ?ms = "ClaudeRun path args # map (check_run path True) (required_checks cfg (RepoFullName t0))"
  obtain r w1 where r: "run_state (create t) w = (r, w1)" by fastforce
  have kept: "kept (silent \<union> Collect is_pr) w w1" using pr_kept[OF Some] r by (rule state_io_relD)
  then obtain ns where ns: "reached w ns w1" "set ns \<subseteq> (silent \<union> Collect is_pr) \<inter> Collect milestone"
    unfolding kept_def using reached_set by blast
  then have prs: "list_all is_pr ns" by (auto simp: silent_def list_all_iff)
  have p1: "passage t0 w0 (?ms @ ns) w1" using passage_more[OF p kept ns(1)] .
  have o: "ordered (?ms @ ns)" using ordered_run[OF checks_all prs] by simp
  show ?thesis
  proof (cases r)
    case (Inl e)
    have "ends cfg (do { removeWorktree (WorktreePath t); fail cfg t (''create PR: '' @ err_text e) }) w1
        (exit_ok cfg t0 w0)"
      using removed_then_fail[OF p1 o disjI2[OF g] k] .
    then show ?thesis using Some Inl unfolding pr_stage_def by (auto intro!: ends_bind[OF r])
  next
    case (Inr un)
    obtain url num where un: "un = (url, num)" by fastforce
    let ?t = "t\<lparr> PRURL := url, PRNumber := num \<rparr>"
    obtain pre a where "reached w (pre @ [ShellRun '''' (''gh'' # a) True]) w1"
      using pr_created[OF Some] r Inr un by blast
    then have pr: "ns = pre @ [ShellRun '''' (''gh'' # a) True]" using ns(1) reached_unique by blast
    note p2 = passage_snd[OF p1 helper_kept(1)]
    have "complete_run cfg t0 (?ms @ ns)"
      unfolding complete_run_def opened_pr_def using Some pr by auto
    then have "exit_ok cfg t0 w0 (Finished ?t) (snd (run_state (recordEvent cfg i kd pl) w1))" for i kd pl
      unfolding exit_ok_def using p2 o g k by (auto simp: same_keys_def)
    then have "ends cfg (do { recordEvent cfg (ID ?t) EventKindPRCreated
        (JObj [(''pr_number'', JInt num), (''pr_url'', JStr url)]); finish_task cfg ?t }) w1 (exit_ok cfg t0 w0)"
      by (intro ends_step ends_finish)
    then show ?thesis using Some Inr un unfolding pr_stage_def Let_def by (auto intro!: ends_bind[OF r])
  qed
qed

end

text \<open>The Claude process: spawned with the window open at that instant, or an error.\<close>

lemma run_claude_cases:
  assumes "run_state (run_claude input) w = (out, w1)" "WindowGate input = Some g"
  obtains (spawned) args where "g (clock w (ops w)) (FullMode input)" "reached w [ClaudeRun (Worktree input) args] w1"
      "kept {ClaudeRun (Worktree input) args} w w1"
  | (refused) e where "run_error out = Some e" "reached w [] w1" "kept silent w w1"
proof -
  let ?c = "stream_ctx (tick w)" and ?t = "clock w (ops w)" and ?w2 = "tick (tick w)"
  define q where "q = (if cancelled (tick w) then StartFails ''context canceled'' else claude_reply (tick w) (ops (tick w)))"
  have k: "kept F w ?w2" "reached w [] ?w2" for F
    by (auto simp: kept_def grows_def same_env_def tick_def reached_def wf_db_def)
  have out: "out = Run ?t ?c input (\<lambda>_. q)"
    and w1: "w1 = (case (out, q) of (Spawned args _ _, Started _) \<Rightarrow>
        ?w2\<lparr> trace := trace ?w2 @ [ClaudeRun (Worktree input) args] \<rparr> | _ \<Rightarrow> ?w2)"
    using assms(1)
    by (cases "cancelled (tick w)"; auto simp: run_claude_def now_prog_def ask_def ctx_done_def emit_def q_def
        Let_def split: run_outcome.splits process.splits prod.splits)+
  show thesis
  proof (cases "g ?t (FullMode input)")
    case False
    then have "out = NotSpawned" using out assms(2) by (simp add: Run_def)
    then show ?thesis using k w1 by (intro refused[of ErrOutsideActiveWindow]) auto
  next
    case True
    obtain res e where sp: "out = Spawned (buildArgs (Prompt input) (SessionID input)) res e"
      and re: "run_process ?c q = (res, e)"
      using out assms(2) True by (auto simp: Run_def Let_def split: prod.splits)
    show ?thesis
    proof (cases q)
      case (Started o')
      let ?e = "ClaudeRun (Worktree input) (buildArgs (Prompt input) (SessionID input))"
      have w1': "w1 = ?w2\<lparr> trace := trace ?w2 @ [?e] \<rparr>" using w1 sp Started by simp
      have "reached w [?e] w1" "kept {?e} w w1"
        by (auto simp: w1' kept_def grows_def same_env_def tick_def reached_def wf_db_def milestone_def)
      then show ?thesis using True spawned by blast
    qed (use k w1 sp re in \<open>force simp: run_process_def intro: refused\<close>)+
  qed
qed

context worker_deps
begin

lemma gate_stage_ends:
  assumes p: "passage t0 w0 [ClaudeRun path args] w" and g: "cleared cfg w0" and k: "same_keys t0 t"
  shows "ends cfg (gate_stage cfg path t) w (exit_ok cfg t0 w0)"
proof -
  have repo: "RepoFullName t = RepoFullName t0" using k by (simp add: same_keys_def)
  have skip: "ends cfg (pr_stage cfg t) w (exit_ok cfg t0 w0)" if "required_checks cfg (RepoFullName t0) = []"
    using pr_stage_ends[of t0 w0 path args w t] p g k that by simp
  show ?thesis
  proof (cases "QualityGate cfg")
    case None
    then show ?thesis using skip by (simp add: gate_stage_def required_checks_def)
  next
    case (Some q)
    show ?thesis
    proof (cases "GateLookup q (RepoFullName t)")
      case None
      then show ?thesis using skip Some repo by (simp add: gate_stage_def required_checks_def)
    next
      case look: (Some ct)
      obtain cmds timeout where ct: "ct = (cmds, timeout)" by fastforce
      have req: "required_checks cfg (RepoFullName t0) = check_commands cmds"
        using Some look ct repo by (simp add: required_checks_def)
      obtain gr w1 where r: "run_state (GateRun q path cmds timeout) w = (gr, w1)" by fastforce
      have kept: "kept (silent \<union> Collect is_check) w w1" using gate_kept[OF Some] r by (rule state_io_relD)
      then obtain ns where ns: "reached w ns w1" "set ns \<subseteq> (silent \<union> Collect is_check) \<inter> Collect milestone"
        unfolding kept_def using reached_set by blast
      have p1: "passage t0 w0 ([ClaudeRun path args] @ ns) w1" using passage_more[OF p kept ns(1)] .
      show ?thesis
      proof (cases "cmds = []")
        case True
        then show ?thesis using skip req Some look ct by (simp add: gate_stage_def check_commands_def)
      next
        case cmds: False
        show ?thesis
        proof (cases "GatePassed gr")
          case True
          then have "ns = map (check_run path True) (check_commands cmds)"
            using gate_passes[OF Some r] ns(1) reached_unique by blast
          then have "ends cfg (pr_stage cfg t) w1 (exit_ok cfg t0 w0)"
            using pr_stage_ends[of t0 w0 path args w1 t] p1 g k req by simp
          then show ?thesis using Some look ct cmds True
            unfolding gate_stage_def by (auto intro!: ends_bind[OF r])
        next
          case False
          have "list_all is_check ns" using ns(2) by (auto simp: silent_def list_all_iff)
          then have "ordered ([ClaudeRun path args] @ ns)" using ordered_run[of ns "[]"] by simp
          then have "ends cfg (do { recordEvent cfg i kd pl; fail cfg t m }) w1 (exit_ok cfg t0 w0)" for i kd pl m
            using p1 g k passage_snd[OF p1 helper_kept(1)]
            by (intro ends_step ends_fail) (auto simp: exit_ok_def)
          then show ?thesis using Some look ct cmds False
            unfolding gate_stage_def by (auto intro!: ends_bind[OF r])
        qed
      qed
    qed
  qed
qed

lemma stopped_ends:
  assumes "passage t0 w0 ms w" "ordered ms" "filter is_claude ms = [] \<or> cleared cfg w0" "same_keys t0 t"
  shows "ends cfg (do { c \<leftarrow> ctx_done; if c then cancel cfg t else fail cfg t m }) w (exit_ok cfg t0 w0)"
proof (rule ends_step)
  let ?w = "snd (run_state ctx_done w)"
  have "passage t0 w0 ms ?w" using assms(1) by (rule passage_snd) (rule kept_prims)
  then have "exit_ok cfg t0 w0 (Cancelled t) ?w" "exit_ok cfg t0 w0 (Failed t m) ?w"
    using assms by (auto simp: exit_ok_def)
  then show "ends cfg (if fst (run_state ctx_done w) then cancel cfg t else fail cfg t m) ?w (exit_ok cfg t0 w0)"
    by (simp add: ends_cancel ends_fail)
qed

lemma same_keys_usage: "same_keys t0 t \<Longrightarrow> same_keys t0 (with_usage t r)"
  by (cases r) (simp_all add: same_keys_def with_usage_def applyRunUsage_def)

lemma claude_stage_ends:
  assumes p: "passage t0 w0 [] w" and b: "budget_granted cfg w0 (ops w)"
    and f: "waiting w0 u" "fst (run_state (isFullMode cfg) u) = full" and k: "same_keys t0 t"
  shows "ends cfg (claude_stage cfg path prompt full t) w (exit_ok cfg t0 w0)"
proof -
  let ?in = "\<lparr> Prompt = prompt, Worktree = path, SessionID = '''', FullMode = full,
              WindowGate = Some (\<lambda>t fm. AllowNow t fm (Windows cfg)) \<rparr>"
  obtain out w1 where r: "run_state (run_claude ?in) w = (out, w1)" by fastforce
  define logp where "logp = when_some (run_output out) (\<lambda>res.
       if TextOutput res = '''' then ret ()
       else do {
         writeLog cfg (ID t) (TextOutput res);
         recordEvent cfg (ID t) EventKindClaudeStdoutChunk
           (JObj [(''len'', JInt (int (length (TextOutput res))))])
       })"
  have logk: "state_io_rel (kept silent) logp"
    unfolding logp_def by (intro keeps_intros)
  define w2 where "w2 = snd (run_state logp w1)"
  obtain ms where p2: "passage t0 w0 ms w2" and ms: "ms = [] \<and> run_error out \<noteq> None \<or>
      (\<exists>args. ms = [ClaudeRun path args]) \<and> cleared cfg w0"
  proof (cases rule: run_claude_cases[OF r, of "\<lambda>t fm. AllowNow t fm (Windows cfg)"])
    case 1
    then show ?case by simp
  next
    case (2 args)
    then have "passage t0 w0 ([] @ [ClaudeRun path args]) w1" using passage_more[OF p 2(3,2)] by simp
    moreover have "cleared cfg w0"
      using 2(1) f b passage_clock[OF p] unfolding cleared_def
      by (intro exI[of _ u] exI[of _ "ops w"]) (use p in \<open>simp add: passage_def reached_def same_env_def\<close>)
    ultimately show ?thesis using passage_snd[OF _ logk]
      by (intro that[of "[ClaudeRun path args]"]) (auto simp: w2_def)
  next
    case (3 e)
    then show ?thesis using 3(1) that[of "[]"] passage_snd[OF passage_kept[OF p 3(3)] logk] unfolding w2_def by simp
  qed
  have o: "ordered ms" "filter is_claude ms = [] \<or> cleared cfg w0"
    using ms ordered_run[of "[]" "[]"] by (auto simp: ordered_def[of "[]"])
  have "ends cfg (case run_error out of
      Some e \<Rightarrow> do {
        maybeRecordRateLimit cfg t e;
        c \<leftarrow> ctx_done;
        if c then cancel cfg t
        else fail cfg t (''claude: '' @ err_text e @ [CHR 0x0A] @
               (case run_output out of None \<Rightarrow> [] | Some res \<Rightarrow> RunStderrTail res))
      }
    | None \<Rightarrow> gate_stage cfg path (with_usage t (run_output out))) w2 (exit_ok cfg t0 w0)"
  proof (cases "run_error out")
    case None
    then obtain args where "ms = [ClaudeRun path args]" "cleared cfg w0" using ms by auto
    then show ?thesis using None gate_stage_ends[OF _ _ same_keys_usage[OF k]] p2 by simp
  next
    case (Some e)
    then show ?thesis
      using stopped_ends[OF passage_snd[OF p2 rate_limit_kept] o k] by (simp add: ends_step)
  qed
  note E = this
  show ?thesis
    unfolding claude_stage_def Let_def
    by (rule ends_bind[OF r], fold logp_def, rule ends_step, fold w2_def, rule E)
qed

end

context worker_deps
begin

lemma early_ends:
  assumes "passage t0 w0 [] w" "same_keys t0 t"
  shows "ends cfg (cancel cfg t) w (exit_ok cfg t0 w0)" "ends cfg (fail cfg t m) w (exit_ok cfg t0 w0)"
  using assms by (auto intro!: ends_cancel ends_fail exit_early)

lemma run_now: "run_state now_prog w = (clock w (ops w), tick w)"
  by (simp add: now_prog_def ask_def)

lemma passage_now: "passage t0 w0 ms w \<Longrightarrow> passage t0 w0 ms (tick w)"
  using passage_snd[of t0 w0 ms w now_prog] kept_prims(2) by (simp add: run_now)

lemma budget_stage_ends:
  assumes p: "passage t0 w0 [] w" and q: "app_rows w = app_rows w0"
    and f: "waiting w0 u" "fst (run_state (isFullMode cfg) u) = full" and k: "same_keys t0 t"
  shows "ends cfg (budget_stage cfg path prompt full t) w (exit_ok cfg t0 w0)"
proof (cases "Budget cfg")
  case None
  then show ?thesis using claude_stage_ends[OF p _ f k] by (simp add: budget_stage_def budget_granted_def)
next
  case (Some b)
  let ?now = "clock w (ops w)"
  obtain r w2 where r: "run_state (EnfCheckAndIncrementReason b ?now) (tick w) = (r, w2)" by fastforce
  note p1 = passage_now[OF p]
  have p2: "passage t0 w0 [] w2" using passage_run[OF p1 budget_kept(1)[OF Some] r] .
  note rm = passage_snd[OF _ helper_kept(3)]
  have "ends cfg (case r of
      Inl e \<Rightarrow> do { removeWorktree (WorktreePath t); fail cfg t (''budget gate error: '' @ err_text e) }
    | Inr reason \<Rightarrow> if reason = BudgetReasonAllowed then claude_stage cfg path prompt full t
        else do {
          when_some (Metrics cfg) (\<lambda>m. MetBudgetBlock m reason);
          removeWorktree (WorktreePath t);
          cancel cfg t
        }) w2 (exit_ok cfg t0 w0)"
  proof (cases r)
    case (Inl e)
    then show ?thesis using early_ends(2)[OF rm[OF p2] k] by (simp add: ends_step)
  next
    case (Inr reason)
    show ?thesis
    proof (cases "reason = BudgetReasonAllowed")
      case True
      have "waiting w0 (tick w)" "clock w = clock w0" "ops w0 \<le> ops w"
        using p p1 q passage_clock[OF p]
        by (simp_all add: passage_def waiting_def tick_def reached_def same_env_def)
      moreover have "ops w < ops w2"
        using state_io_relD[OF budget_kept(1)[OF Some] r] by (simp add: kept_def grows_def same_env_def tick_def)
      ultimately have "budget_granted cfg w0 (ops w2)"
        using r True Inr Some unfolding budget_granted_def by (auto intro!: exI[of _ "tick w"] exI[of _ "ops w"])
      then show ?thesis using claude_stage_ends[OF p2 _ f k] True Inr by simp
    next
      case False
      have "state_io_rel (kept silent) (when_some (Metrics cfg) (\<lambda>m. MetBudgetBlock m reason))"
        by (intro keeps_intros metrics_kept)
      note m = passage_snd[OF p2 this]
      show ?thesis using False Inr early_ends(1)[OF rm[OF m] k] by (simp add: ends_step)
    qed
  qed
  note E = this
  show ?thesis unfolding budget_stage_def Some option.case
    by (rule ends_bind[OF run_now], rule ends_bind[OF r], rule E)
qed

lemma window_stage_ends:
  assumes p: "passage t0 w0 [] w" and q: "app_rows w = app_rows w0" and k: "same_keys t0 t"
  shows "ends cfg (window_stage cfg path t) w (exit_ok cfg t0 w0)"
proof -
  obtain pr w1 where pr: "run_state (ask template_reply) w = (pr, w1)" by fastforce
  have p1: "passage t0 w0 [] w1" using passage_run[OF p kept_prims(1) pr] .
  show ?thesis
  proof (cases pr)
    case (Inl e)
    then show ?thesis unfolding window_stage_def
      using early_ends(2)[OF p1 k] by (auto intro!: ends_bind[OF pr])
  next
    case (Inr prmt)
    obtain full w2 where full: "run_state (isFullMode cfg) w1 = (full, w2)" by fastforce
    have p2: "passage t0 w0 [] w2" using passage_run[OF p1 helper_kept(5) full] .
    note p3 = passage_now[OF p2]
    have q1: "app_rows w1 = app_rows w0" using state_io_relD[OF still_prims(1) pr] q by (simp add: still_def)
    have q2: "app_rows (tick w2) = app_rows w0"
      using state_io_relD[OF helper_still(5) full] q1 by (simp add: still_def tick_def)
    have w1: "waiting w0 w1" "fst (run_state (isFullMode cfg) w1) = full"
      using p1 q1 full by (simp_all add: passage_def waiting_def)
    have "state_io_rel (kept silent) (when_some (Metrics cfg) (\<lambda>m. MetWindowClose m))"
      by (intro keeps_intros metrics_kept)
    note m = passage_snd[OF passage_snd[OF p3 this] helper_kept(3)]
    have "ends cfg (if AllowNow (clock w2 (ops w2)) full (Windows cfg) then budget_stage cfg path prmt full t
        else do {
          when_some (Metrics cfg) (\<lambda>m. MetWindowClose m);
          removeWorktree (WorktreePath t);
          cancel cfg t
        }) (tick w2) (exit_ok cfg t0 w0)"
      using budget_stage_ends[OF p3 q2 w1 k] early_ends(1)[OF m k] by (simp add: ends_step)
    note E = this
    show ?thesis unfolding window_stage_def
      by (rule ends_bind[OF pr], unfold Inr sum.case, rule ends_bind[OF full], rule ends_bind[OF run_now], rule E)
  qed
qed

lemma worktree_stage_ends:
  assumes p: "passage t0 w0 [] w" and q: "app_rows w = app_rows w0" and k: "same_keys t0 t"
  shows "ends cfg (worktree_stage cfg t) w (exit_ok cfg t0 w0)"
proof -
  let ?path = "worktree_path cfg t" and ?t = "t\<lparr> WorktreePath := worktree_path cfg t \<rparr>"
  obtain e w1 where e: "run_state (createWorktree cfg t ?path (task_branch t)) w = (e, w1)" by fastforce
  have p1: "passage t0 w0 [] w1" using passage_run[OF p helper_kept(6) e] .
  show ?thesis
  proof (cases e)
    case (Some er)
    then show ?thesis unfolding worktree_stage_def Let_def
      using early_ends(2)[OF p1 k] by (auto intro!: ends_bind[OF e])
  next
    case None
    have k': "same_keys t0 ?t" using k by (simp add: same_keys_def)
    obtain r w2 where u: "Update (TaskRepo cfg) ?t w1 = (r, w2)" by fastforce
    have p2: "passage t0 w0 [] w2" using passage_update[OF p1 k' u] .
    have p3: "passage t0 w0 [] (snd (run_state ctx_done w2))" using p2 by (rule passage_snd) (rule kept_prims)
    have q3: "app_rows (snd (run_state ctx_done w2)) = app_rows w0"
      using update_app[of ?t w1] u state_io_relD[OF helper_still(6) e] q by (simp add: still_def ctx_done_def)
    have c: "run_state (call (Update (TaskRepo cfg) ?t)) w1 = (r, w2)" using u by simp
    have "ends cfg (do { c \<leftarrow> ctx_done; if c then cancel cfg ?t else window_stage cfg ?path ?t }) w2 (exit_ok cfg t0 w0)"
      using early_ends(1)[OF p3 k'] window_stage_ends[OF p3 q3 k'] by (simp add: ends_step)
    note E = this
    show ?thesis unfolding worktree_stage_def Let_def
      by (rule ends_bind[OF e], unfold None option.case, rule ends_bind[OF c], rule E)
  qed
qed

text \<open>A run ends early because the task could not be marked as running, or in one of the
  three endings, from a world where the exit conditions hold.\<close>

lemma run_task_ends:
  assumes r: "run_state (RunTask cfg t) w = (res, w')"
  shows "(\<exists>e. res = Inl (EWrap ''mark running'' e) \<and> passage t w [] w' \<and>
      fst (Update (TaskRepo cfg) (t\<lparr> Status := TaskStatusRunning, StartedAt := Some (clock w (ops w)) \<rparr>) (tick w)) = Inl e) \<or>
    (\<exists>e v. exit_ok cfg t w e v \<and> run_state (ending_prog cfg e) v = (res, w'))"
proof -
  let ?t = "t\<lparr> Status := TaskStatusRunning, StartedAt := Some (clock w (ops w)) \<rparr>"
  have k: "same_keys t ?t" by (simp add: same_keys_def)
  have p0: "passage t w [] (tick w)" by (rule passage_now) simp
  obtain u w1 where u: "Update (TaskRepo cfg) ?t (tick w) = (u, w1)" by fastforce
  have p1: "passage t w [] w1" using passage_update[OF p0 k u] .
  show ?thesis
  proof (cases u)
    case (Inl e)
    then have "res = Inl (EWrap ''mark running'' e)" "w' = w1"
      using r u by (simp_all add: RunTask_def run_now Let_def)
    then show ?thesis using p1 u Inl by simp
  next
    case (Inr x)
    define sl where "sl = when_some (Slack cfg) (\<lambda>s. do {
            _ \<leftarrow> SlackStarted s ?t;
            recordEvent cfg (ID ?t) EventKindSlackSent (JObj [(''kind'', JStr ''started'')])
          })"
    have sl: "state_io_rel still sl" unfolding sl_def by (intro keeps_intros slack_still)
    let ?ev = "recordEvent cfg (ID ?t) EventKindStarted
            (JObj [(''issue'', JInt (IssueNumber ?t)), (''repo'', JStr (RepoFullName ?t))])"
    let ?w3 = "snd (run_state sl (snd (run_state ?ev w1)))"
    have p3: "passage t w [] ?w3" by (rule passage_snd[OF passage_snd[OF p1 helper_kept(1)] still_kept[OF sl]])
    have q3: "app_rows ?w3 = app_rows w"
      using still_snd[OF sl] still_snd[OF helper_still(1)] update_app[of ?t "tick w"] u by (simp add: tick_def)
    have run: "run_state (worktree_stage cfg ?t) ?w3 = (res, w')"
      using r u Inr by (simp add: RunTask_def run_now Let_def sl_def split: prod.splits)
    obtain e v where "exit_ok cfg t w e v" "run_state (worktree_stage cfg ?t) ?w3 = run_state (ending_prog cfg e) v"
      using worktree_stage_ends[OF p3 q3 k] unfolding ends_def by blast
    then show ?thesis using run by metis
  qed
qed

end

section \<open>The end of a run\<close>

fun ending_status :: "ending \<Rightarrow> task_status" where
  "ending_status (Failed _ _) = TaskStatusFailed"
| "ending_status (Cancelled _) = TaskStatusCancelled"
| "ending_status (Finished _) = TaskStatusDone"

fun ending_result :: "ending \<Rightarrow> unit result" where
  "ending_result (Failed t m) = Inl (EMsg (''task '' @ ID t @ '' failed: '' @ m))"
| "ending_result _ = Inr ()"

text \<open>The row of a task that came to an end.\<close>

definition ended_row :: "ending \<Rightarrow> task \<Rightarrow> bool" where
  "ended_row e u = (Status u = ending_status e \<and> FinishedAt u \<noteq> None \<and>
     (case e of Failed _ m \<Rightarrow> StderrTail u = m | _ \<Rightarrow> True))"

definition settled :: "ending \<Rightarrow> world \<Rightarrow> world \<Rightarrow> bool" where
  "settled e v w = (db_works v \<and> wf_db v \<and> storable v (ending_task e) \<longrightarrow>
     (\<exists>u. task_view w (ID (ending_task e)) = Some u \<and> ended_row e u))"

lemma reached_works: "reached w ms w' \<Longrightarrow> db_works w \<Longrightarrow> db_works w'"
  by (auto simp: reached_def same_env_def db_works_def)

lemma settled_kept: "settled e v w \<Longrightarrow> kept F w w' \<Longrightarrow> settled e v w'"
  using task_view_rows_eq[of w w'] by (simp add: settled_def kept_def)

context worker_deps
begin

text \<open>The update that ends the task, seen from any task record with its new fields.\<close>

lemma final_update:
  assumes "Update (TaskRepo cfg) t v = (r, w)" "same_keys (ending_task e) t" "ended_row e t"
  shows "settled e v w"
  unfolding settled_def
proof
  assume a: "db_works v \<and> wf_db v \<and> storable v (ending_task e)"
  then have st: "storable v t" and vw: "task_view v (ID t) \<noteq> None"
    using assms(2) by (auto simp: storable_def same_keys_def)
  then have "r = Inr ()" using update_succeeds[of v t] a assms(1) by simp
  then obtain x where "task_view w = (task_view v)(ID t \<mapsto> (norm_task t)\<lparr> UpdatedAt := x \<rparr>)"
    using Update_ok[of v t w] a vw assms(1) by auto
  then have "task_view w (ID (ending_task e)) = Some ((norm_task t)\<lparr> UpdatedAt := x \<rparr>)"
    using assms(2) by (simp add: same_keys_def)
  moreover have "ended_row e ((norm_task t)\<lparr> UpdatedAt := x \<rparr>)"
    using assms(3) by (auto simp: ended_row_def norm_task_def split: ending.splits)
  ultimately show "\<exists>u. task_view w (ID (ending_task e)) = Some u \<and> ended_row e u" by blast
qed

lemma settled_snd: "settled e v w \<Longrightarrow> state_io_rel (kept silent) m \<Longrightarrow> settled e v (snd (run_state m w))"
  using settled_kept by (metis prod.collapse state_io_relD)

lemma settled_ci:
  assumes s: "settled e v w" and p: "passage (ending_task e) v ms w"
    and i: "i = ID (ending_task e)" and u: "UpdateCIStatus (TaskRepo cfg) i st sha tp w = (r, w')" and sh: "sha = HeadSHA (ending_task e)"
  shows "settled e v w' \<and> passage (ending_task e) v ms w'"
proof -
  have re: "reached v ms w'" using p u ci_grows[of w i st sha tp] reached_step by (auto simp: passage_def)
  let ?t = "ending_task e"
  have rows: "wf_db w' \<and> (task_view w' = task_view w \<or>
      (\<exists>x. task_view w' = (case task_view w i of None \<Rightarrow> task_view w
        | Some t \<Rightarrow> (task_view w)(i \<mapsto> t\<lparr> CIStatus := st, HeadSHA := sha,
            CILastPolledAt := (if is_zero tp then None else Some tp), UpdatedAt := x \<rparr>))))" if "wf_db w"
    using UpdateCIStatus_ok[OF that, of i st sha tp w'] UpdateCIStatus_err[OF that, of i st sha tp _ w'] u
    by (cases r) auto
  have "rows_ok ?t v w'"
    unfolding rows_ok_def
  proof
    assume a: "wf_db v \<and> storable v ?t"
    then have b: "wf_db w" "storable w ?t" "\<forall>j. j \<noteq> ID ?t \<longrightarrow> task_view w j = task_view v j"
      using p by (auto simp: passage_def rows_ok_def)
    then show "wf_db w' \<and> storable w' ?t \<and> (\<forall>j. j \<noteq> ID ?t \<longrightarrow> task_view w' j = task_view v j)"
      using rows[OF b(1)] i sh by (auto simp: storable_def split: option.splits)
  qed
  moreover have "settled e v w'"
    unfolding settled_def
  proof
    assume a: "db_works v \<and> wf_db v \<and> storable v ?t"
    then obtain t1 where t1: "task_view w i = Some t1" "ended_row e t1" using s i by (auto simp: settled_def)
    have "wf_db w" using a p by (auto simp: passage_def rows_ok_def)
    from rows[OF this] t1 i show "\<exists>u. task_view w' (ID ?t) = Some u \<and> ended_row e u"
      by (auto simp: ended_row_def split: ending.splits)
  qed
  ultimately show ?thesis using re by (simp add: passage_def)
qed

lemma fail_end:
  assumes "run_state (fail cfg t m) v = (res, w')"
  shows "res = ending_result (Failed t m) \<and> settled (Failed t m) v w' \<and> passage t v [] w'"
proof -
  let ?t = "t\<lparr> Status := TaskStatusFailed, FinishedAt := Some (clock v (ops v)), StderrTail := m \<rparr>"
  have k: "same_keys t ?t" by (simp add: same_keys_def)
  obtain r w1 where u: "Update (TaskRepo cfg) ?t (tick v) = (r, w1)" by fastforce
  define rest where "rest = do {
     recordEvent cfg (ID ?t) EventKindFailed (JObj [(''msg'', JStr m)]);
     recordFinished cfg ?t;
     slack_send cfg (\<lambda>s. SlackFailed s ?t m) }"
  have rest: "state_io_rel (kept silent) rest" unfolding rest_def by (intro keeps_intros slack_kept)
  have run: "res = ending_result (Failed t m)" "w' = snd (run_state rest w1)"
    using assms u by (auto simp: fail_def run_now Let_def rest_def split: prod.splits)
  have "settled (Failed t m) (tick v) w1"
    using final_update[OF u, of "Failed t m"] k by (simp add: ended_row_def)
  then have s: "settled (Failed t m) v w1"
    by (auto simp: settled_def storable_def tick_def db_works_def)
  have "passage t v [] w1" using passage_update[OF passage_now[OF passage_start] k u] .
  then show ?thesis using run settled_snd[OF s rest] passage_snd[OF _ rest] by simp
qed

lemma cancel_end:
  assumes "run_state (cancel cfg t) v = (res, w')"
  shows "res = ending_result (Cancelled t) \<and> settled (Cancelled t) v w' \<and> passage t v [] w'"
proof -
  let ?t = "t\<lparr> Status := TaskStatusCancelled, FinishedAt := Some (clock v (ops v)) \<rparr>"
  have k: "same_keys t ?t" by (simp add: same_keys_def)
  obtain r w1 where u: "Update (TaskRepo cfg) ?t (tick v) = (r, w1)" by fastforce
  define rest where "rest = do {
     recordEvent cfg (ID ?t) EventKindCancelled (JObj []);
     recordFinished cfg ?t;
     removeWorktree (WorktreePath ?t);
     slack_send cfg (\<lambda>s. SlackCancelled s ?t) }"
  have rest: "state_io_rel (kept silent) rest" unfolding rest_def by (intro keeps_intros slack_kept)
  have run: "res = ending_result (Cancelled t)" "w' = snd (run_state rest w1)"
    using assms u by (auto simp: cancel_def run_now Let_def rest_def split: prod.splits)
  have "settled (Cancelled t) (tick v) w1"
    using final_update[OF u, of "Cancelled t"] k by (simp add: ended_row_def)
  then have s: "settled (Cancelled t) v w1"
    by (auto simp: settled_def storable_def tick_def db_works_def)
  have "passage t v [] w1" using passage_update[OF passage_now[OF passage_start] k u] .
  then show ?thesis using run settled_snd[OF s rest] passage_snd[OF _ rest] by simp
qed

lemma finish_end:
  assumes "run_state (finish_task cfg t) v = (res, w')"
  shows "res = ending_result (Finished t) \<and> settled (Finished t) v w' \<and> passage t v [] w'"
proof -
  let ?now = "clock v (ops v)"
  let ?t = "t\<lparr> Status := TaskStatusDone, FinishedAt := Some ?now \<rparr>"
  have k: "same_keys t ?t" by (simp add: same_keys_def)
  obtain r w1 where u: "Update (TaskRepo cfg) ?t (tick v) = (r, w1)" by fastforce
  define rest where "rest = do {
     recordFinished cfg ?t;
     when_some (CostWarn cfg) (\<lambda>f. do { _ \<leftarrow> f ?now; ret () });
     slack_send cfg (\<lambda>s. SlackDone s ?t) }"
  have rest: "state_io_rel (kept silent) rest" unfolding rest_def by (intro keeps_intros slack_kept warn_kept)
  let ?w2 = "snd (run_state rest w1)"
  define K where "K = (if CIFixEnabled cfg \<and> 0 < PRNumber ?t \<and> TaskType ?t \<noteq> TaskTypeCIFix
      then do {
        polled \<leftarrow> now_prog;
        _ \<leftarrow> call (UpdateCIStatus (TaskRepo cfg) (ID ?t) CIStatusWatching (HeadSHA ?t) polled);
        ret (Inr ())
      }
      else do { removeWorktree (WorktreePath ?t); ret (Inr () :: unit result) })"
  have "run_state K ?w2 = (res, w')"
    using assms u unfolding finish_task_def Let_def
    by (auto simp: run_now rest_def K_def[symmetric, simplified] split: prod.splits)
  note run = this[unfolded K_def]
  have "settled (Finished t) (tick v) w1"
    using final_update[OF u, of "Finished t"] k by (simp add: ended_row_def)
  then have "settled (Finished t) v w1"
    by (auto simp: settled_def storable_def tick_def db_works_def)
  then have s: "settled (Finished t) v ?w2" by (rule settled_snd[OF _ rest])
  have "passage t v [] w1" using passage_update[OF passage_now[OF passage_start] k u] .
  then have p: "passage t v [] ?w2" by (rule passage_snd[OF _ rest])
  show ?thesis
  proof (cases "CIFixEnabled cfg \<and> 0 < PRNumber ?t \<and> TaskType ?t \<noteq> TaskTypeCIFix")
    case True
    have s3: "settled (Finished t) v (tick ?w2)"
      using settled_snd[OF s kept_prims(2)] by (simp add: run_now)
    obtain r2 where c: "UpdateCIStatus (TaskRepo cfg) (ID t) CIStatusWatching (HeadSHA t)
        (clock ?w2 (ops ?w2)) (tick ?w2) = (r2, w')" and res: "res = Inr ()"
      using run[unfolded if_P[OF True]] by (auto simp: run_now split: prod.splits)
    from settled_ci[OF s3 _ _ c, of "[]"] passage_now[OF p] res show ?thesis by simp
  next
    case False
    have "w' = snd (run_state (removeWorktree (WorktreePath ?t)) ?w2)" "res = Inr ()"
      using run[unfolded if_not_P[OF False]] by (auto split: prod.splits)
    then show ?thesis using settled_snd[OF s helper_kept(3)] passage_snd[OF p helper_kept(3)] by simp
  qed
qed

lemma ending_end:
  assumes "run_state (ending_prog cfg e) v = (res, w')"
  shows "res = ending_result e \<and> settled e v w' \<and> passage (ending_task e) v [] w'"
  using assms fail_end cancel_end finish_end by (cases e) auto

end

section \<open>The properties of a run\<close>

context worker_deps
begin

lemma rows_ok_trans: "rows_ok t a b \<Longrightarrow> rows_ok t' b c \<Longrightarrow> same_keys t t' \<Longrightarrow> rows_ok t a c"
  by (auto simp: rows_ok_def same_keys_def storable_def)

text \<open>How a run goes from its first to its last world: either it could not even be
  marked as running, or it ends in one of the endings.\<close>

lemma run_task_cases:
  assumes "run_state (RunTask cfg t) w = (res, w')"
  obtains (unmarked) e where "res = Inl (EWrap ''mark running'' e)" "passage t w [] w'"
      "fst (Update (TaskRepo cfg) (t\<lparr> Status := TaskStatusRunning, StartedAt := Some (clock w (ops w)) \<rparr>) (tick w)) = Inl e"
  | (ended) e v ms where "res = ending_result e" "settled e v w'" "passage t w ms v" "passage t w ms w'"
      "ordered ms" "filter is_claude ms = [] \<or> cleared cfg w" "same_keys t (ending_task e)"
      "case e of Finished t' \<Rightarrow> complete_run cfg t ms | _ \<Rightarrow> True"
proof -
  consider (a) e where "res = Inl (EWrap ''mark running'' e)" "passage t w [] w'"
      "fst (Update (TaskRepo cfg) (t\<lparr> Status := TaskStatusRunning, StartedAt := Some (clock w (ops w)) \<rparr>) (tick w)) = Inl e"
    | (b) e v where "exit_ok cfg t w e v" "run_state (ending_prog cfg e) v = (res, w')"
    using run_task_ends[OF assms] by blast
  then show thesis
  proof cases
    case a
    then show thesis by (rule unmarked)
  next
    case b
    from ending_end[OF b(2)]
    have fin: "res = ending_result e" "settled e v w'" "passage (ending_task e) v [] w'" by simp_all
    from b(1) obtain ms where ms: "passage t w ms v" "ordered ms" "filter is_claude ms = [] \<or> cleared cfg w"
      "same_keys t (ending_task e)" "case e of Finished t' \<Rightarrow> complete_run cfg t ms | _ \<Rightarrow> True"
      unfolding exit_ok_def by blast
    have "reached w (ms @ []) w'" "rows_ok t w w'"
      using ms(1,4) fin(3) reached_trans[of w ms v "[]" w'] rows_ok_trans[of t w v "ending_task e" w']
      by (simp_all add: passage_def)
    then have "passage t w ms w'" by (simp add: passage_def)
    from ended[OF fin(1,2) ms(1) this ms(2-5)] show thesis .
  qed
qed

lemma run_order:
  assumes "run_state (RunTask cfg t) w = (res, w')"
  shows "\<exists>ms. reached w ms w' \<and> ordered ms \<and> (if filter is_claude ms = [] then True else cleared cfg w)"
  using assms
proof (cases rule: run_task_cases)
  case (unmarked e)
  then show ?thesis by (intro exI[of _ "[]"]) (auto simp: passage_def ordered_def)
next
  case (ended e v ms)
  then show ?thesis by (intro exI[of _ ms]) (auto simp: passage_def)
qed

lemma run_frame:
  assumes "run_state (RunTask cfg t) w = (res, w')" "wf_db w" "storable w t"
  shows "wf_db w' \<and> (task_view w')(ID t := None) = (task_view w)(ID t := None)"
proof -
  obtain ms where "passage t w ms w'" using assms(1) by (cases rule: run_task_cases) blast+
  then show ?thesis using assms(2,3) by (auto simp: passage_def rows_ok_def)
qed

lemma run_outcome:
  assumes r: "run_state (RunTask cfg t) w = (res, w')" and w: "wf_db w" "storable w t" "db_works w"
  shows "\<exists>u ms. task_view w' (ID t) = Some u \<and> FinishedAt u \<noteq> None \<and> reached w ms w' \<and>
    (Status u = TaskStatusDone \<and> res = Inr () \<and> complete_run cfg t ms \<or>
     Status u = TaskStatusFailed \<and> res = Inl (EMsg (''task '' @ ID t @ '' failed: '' @ StderrTail u)) \<or>
     Status u = TaskStatusCancelled \<and> res = Inr ())"
  using r
proof (cases rule: run_task_cases)
  case (unmarked e)
  have "storable (tick w) (t\<lparr> Status := TaskStatusRunning, StartedAt := Some (clock w (ops w)) \<rparr>)"
    using w(2) storable_rows[of w "tick w" t] by (auto simp: storable_def tick_def)
  then show ?thesis using unmarked update_succeeds[of "tick w"] w by (simp add: tick_def db_works_def wf_db_def)
next
  case (ended e v ms)
  have "db_works v" using ended(3) w(3) reached_works by (auto simp: passage_def)
  moreover have "wf_db v" "storable v t" using ended(3) w(1,2) by (auto simp: passage_def rows_ok_def)
  moreover have i: "ID (ending_task e) = ID t" using ended(7) by (simp add: same_keys_def)
  ultimately obtain u where u: "task_view w' (ID t) = Some u" "ended_row e u"
    using ended(2,7) by (auto simp: settled_def storable_def same_keys_def)
  show ?thesis
    by (intro exI[of _ u] exI[of _ ms]) (use u ended i in \<open>cases e; auto simp: ended_row_def passage_def\<close>)
qed

end

end
