(* ===== verification/Wiring.thy ===== *)
theory Wiring
  imports Worker_Laws Config
begin

text \<open>cmd/claude-ops/main.go, the worker's part: the adapters and the configuration run()
  builds for the worker from the repositories, the Slack client, the pull request
  creator, the budget use case, the metrics and the quality gate. The configuration
  satisfies the contract of the worker, which gives the properties of a task's run.\<close>

section \<open>Adapters\<close>

definition schedulerSlackAdapter :: slack_notifier where
  "schedulerSlackAdapter = \<lparr> SlackStarted = NotifyStarted, SlackDone = NotifyDone,
     SlackFailed = NotifyFailed, SlackCancelled = NotifyCancelled \<rparr>"

definition schedulerPRAdapter :: "repo_config list \<Rightarrow> task \<Rightarrow> (string \<times> int) result prog" where
  "schedulerPRAdapter repos = CreatePR repos"

definition schedulerMetricsAdapter :: metrics_recorder where
  "schedulerMetricsAdapter = \<lparr> MetTaskFinished = RecordTaskFinished, MetBudgetBlock = RecordBudgetBlock,
     MetWindowClose = RecordWindowClose \<rparr>"

definition gate_adapter :: "repo_config list \<Rightarrow> quality_gate" where
  "gate_adapter repos = \<lparr> GateLookup = Lookup repos,
     GateRun = (\<lambda>dir cmds timeout. do {
       res \<leftarrow> adapter_Run dir cmds timeout;
       ret \<lparr> GatePassed = Passed res, GateFailedCommand = FailedCommand res, GateExit = GateExitCode res,
             GateOutput = OutputTail res \<rparr>
     }) \<rparr>"

definition budget_uc :: "budget_limits \<Rightarrow> budget_enforcer" where
  "budget_uc limits = \<lparr>
     EnfCheckAndIncrementReason = (\<lambda>now. call (CheckAndIncrementReason gorm_app_repo limits now)),
     EnfRecordRateLimitBlock = (\<lambda>resets ty observed. call (RecordRateLimitBlock gorm_app_repo resets ty observed)) \<rparr>"

text \<open>WithCostWarn is called when one of the cost limits is set.\<close>

definition cost_warn_deps :: "config \<Rightarrow> budget_limits \<Rightarrow> cost_warner option" where
  "cost_warn_deps cfg limits =
     (if 0 < DailyMaxCostUSD (LimitsCfg cfg) \<or> 0 < WeeklyMaxCostUSD (LimitsCfg cfg)
      then Some \<lparr> WarnAppRepo = gorm_app_repo, WarnUsage = gorm_usage_repo, WarnNotify = NotifyCostWarning,
             WarnLimits = limits, WarnDailyMax = DailyMaxCostUSD (LimitsCfg cfg),
             WarnWeeklyMax = WeeklyMaxCostUSD (LimitsCfg cfg) \<rparr>
      else None)"

definition workerCfg :: "config \<Rightarrow> budget_limits \<Rightarrow> active_window list \<Rightarrow> worker_config" where
  "workerCfg cfg limits windows = \<lparr> TaskRepo = gorm_task_repo True, EventRepo = Some gorm_event_repo,
     AppStateRepo = Some gorm_app_repo, Slack = Some schedulerSlackAdapter,
     PRCreator = Some (schedulerPRAdapter (Repos cfg)), Budget = Some (budget_uc limits),
     CostWarn = Some (EvaluateCostWarn (cost_warn_deps cfg limits)),
     Metrics = Some schedulerMetricsAdapter, QualityGate = Some (gate_adapter (Repos cfg)),
     Windows = windows, WorktreeRoot = CfgWorktreeRoot cfg, PromptsDir = CfgPromptsDir cfg,
     LogDir = ''data/logs'', CIFixEnabled = CIFixOn (CIFix cfg) \<rparr>"

section \<open>The contract holds\<close>

lemma grows_rows [simp]:
  "grows F d (d\<lparr> task_rows := rs \<rparr>)" "grows F d (d\<lparr> app_rows := as \<rparr>)" "grows F d (d\<lparr> event_rows := es \<rparr>)"
  "grows F d (d\<lparr> ops := Suc (ops d) \<rparr>)"
  by (simp_all add: grows_def same_env_def)

lemmas exec_grows = exec_rel[of "grows F" for F, OF frame_transp(2) frame_reflp(2) grows_rows(4)]

lemma kept_refl [simp]: "kept F d d"
  by (simp add: kept_def)

lemma kept_counter: "kept F d (d\<lparr> ops := Suc (ops d) \<rparr>)"
  by (simp add: kept_def wf_db_def)

lemmas exec_kept = exec_rel[of "kept F" for F, OF kept_transp kept_reflp kept_counter]

lemma save_grows: "grows F d (snd (sql_save_task r n d))"
  by (simp add: sql_save_task_def Let_def)

lemma ci_statement_grows: "grows F d (snd (UpdateTaskCIStatus st sha tp i n d))"
  by (simp add: UpdateTaskCIStatus_def)

lemma event_insert_kept: "kept F d (snd (sql_insert_event e n d))"
  by (auto simp: sql_insert_event_def kept_def wf_db_def list_ex_iff split: option.split)

lemma upsert_keys: "distinct (map aKey rs) \<Longrightarrow> distinct (map aKey (upsert_app g rs))"
proof -
  have "map aKey (map (\<lambda>r. if aKey r = aKey g then g else r) rs) = map aKey rs" by (induction rs) auto
  then have m: "\<exists>r \<in> set rs. aKey r = aKey g \<Longrightarrow> map aKey (upsert_app g rs) = map aKey rs"
    by (simp add: upsert_app_def list_ex_iff)
  show "distinct (map aKey rs) \<Longrightarrow> distinct (map aKey (upsert_app g rs))"
    by (cases "\<exists>r \<in> set rs. aKey r = aKey g") (simp only: m, auto simp: upsert_app_def list_ex_iff)
qed

lemma app_rows_kept: "kept F d (d\<lparr> app_rows := upsert_app g (app_rows d) \<rparr>)"
  by (simp add: kept_def wf_db_def upsert_keys)

lemma repo_kept:
  fixes w :: world
  shows "grows F w (snd (repo_Update t w))" "grows F w (snd (repo_UpdateCIStatus wired i st sha tp w))"
    "kept F w (snd (repo_CreateEvent e w))" "kept F w (snd (repo_Get k w))" "kept F w (snd (repo_Set a w))"
proof -
  show "grows F w (snd (repo_Update t w))"
    unfolding repo_Update_def snd_mapped by (rule exec_grows) (rule save_grows)
  show "grows F w (snd (repo_UpdateCIStatus wired i st sha tp w))"
  proof (cases wired)
    case True
    have "grows F w (snd (exec (UpdateTaskCIStatus st sha (if is_zero tp then None else Some tp) i) w))"
      by (rule exec_grows) (rule ci_statement_grows)
    then show ?thesis using True by (simp only: repo_UpdateCIStatus_def snd_mapped if_False not_True_eq_False)
  qed (simp add: repo_UpdateCIStatus_def)
  show "kept F w (snd (repo_CreateEvent e w))"
    unfolding repo_CreateEvent_def snd_mapped by (rule exec_kept) (rule event_insert_kept)
  show "kept F w (snd (repo_Get k w))"
    unfolding repo_Get_def snd_mapped by (rule exec_kept) simp
  show "kept F w (snd (repo_Set a w))"
    unfolding repo_Set_def snd_mapped by (rule exec_kept) (simp add: app_rows_kept)
qed

lemma repo_still:
  fixes w :: world
  shows "still w (snd (repo_CreateEvent e w))" "still w (snd (repo_Get k w))"
    "app_rows (snd (repo_Update t w)) = app_rows w"
proof -
  have R: "transp (\<lambda>d d' :: world. app_rows d' = app_rows d)" "reflp (\<lambda>d d' :: world. app_rows d' = app_rows d)"
    by (auto simp: transp_def reflp_def)
  have e: "app_rows (snd (repo_CreateEvent e w)) = app_rows w"
    unfolding repo_CreateEvent_def snd_mapped
    by (rule exec_rel[OF R]) (auto simp: sql_insert_event_def split: option.split)
  have g: "app_rows (snd (repo_Get k w)) = app_rows w"
    unfolding repo_Get_def snd_mapped by (rule exec_rel[OF R]) simp_all
  show "app_rows (snd (repo_Update t w)) = app_rows w"
    unfolding repo_Update_def snd_mapped by (rule exec_rel[OF R]) (simp_all add: sql_save_task_def Let_def)
  show "still w (snd (repo_CreateEvent e w))" "still w (snd (repo_Get k w))"
    using e g by (simp_all add: still_def repo_kept)
qed

section \<open>The row of a task can be saved\<close>

lemma dedup_keys: "dedup_key (toGORMTask t) =
    (if TaskType t = TaskTypeCIFix
     then Some ((case ParentTaskID t of None \<Rightarrow> '''' | Some p \<Rightarrow> p) @ ''|'' @ HeadSHA t) else None)"
  by (simp add: dedup_key_def toGORMTask_def Let_def)

lemma repo_update_succeeds:
  assumes wf: "wf_db w" and w: "db_works w" and s: "storable w t"
  shows "fst (repo_Update t (w :: world)) = Inr ()"
proof -
  obtain g where g: "row_at w (ID t) = Some g" "gTaskType g = TaskType t" "gParentTaskID g = ParentTaskID t"
    "gHeadSHA g = HeadSHA t"
    using s by (auto simp: storable_def task_view_Some toDomainTask_def Let_def)
  then have mem: "g \<in> set (task_rows w)" "gID g = ID t" using row_at_Some by blast+
  have wr: "wf_rows (task_rows w)" using wf by (simp add: wf_db_def)
  have ty: "check_task_type (TaskType t)"
    using wr mem g(2) by (auto simp: wf_rows_def list_all_iff)
  have key: "dedup_key (toGORMTask t) = dedup_key g" using g by (simp add: dedup_keys dedup_key_def)
  have "gID x = ID t" if "x \<in> set (task_rows w)" "dedup_clash (toGORMTask t) x" for x
  proof -
    have "dedup_clash g x" using that(2) unfolding dedup_clash_def key .
    then show ?thesis using wr mem that(1) unfolding wf_rows_def by metis
  qed
  then have no: "\<not> list_ex (\<lambda>x. gID x \<noteq> ID t \<and> dedup_clash (toGORMTask t) x) (task_rows w)"
    by (auto simp: list_ex_iff)
  have ex: "list_ex (\<lambda>x. gID x = ID t) (task_rows w)" using mem by (auto simp: list_ex_iff)
  have g0: "gID (toGORMTask t) = ID t" "gTaskType (toGORMTask t) = TaskType t"
    by (simp_all add: toGORMTask_def Let_def)
  show ?thesis using ty no ex
    by (simp add: repo_Update_def db_works_exec[OF w] sql_save_task_def Let_def g0)
qed

section \<open>The budget and the cost warnings keep the tasks\<close>

text \<open>Functions on the store, in sequence.\<close>

lemma fn_bind:
  "(\<And>s. kept F s (snd (f s))) \<Longrightarrow> (\<And>a s. kept F s (snd (g a s))) \<Longrightarrow>
   kept F w (snd (case f w of (Inl e, s1) \<Rightarrow> (h e, s1) | (Inr a, s1) \<Rightarrow> g a s1))"
  using kept_transp[of F] by (auto simp: transp_def split: prod.split sum.split) (metis snd_conv)+

lemma load_state_kept: "kept F w (snd (load_state gorm_app_repo k d f (w :: world)))"
  using repo_kept(4)[of F w k] by (simp add: load_state_def gorm_app_repo_def)

lemma put_state_kept: "kept F w (snd (put_state gorm_app_repo k j t (w :: world)))"
  using repo_kept(5)[of F w] by (simp add: put_state_def gorm_app_repo_def)

lemma budget_loads_kept:
  "kept F w (snd (effectiveLimitsLocked gorm_app_repo cfg (w :: world)))"
  "kept F w (snd (loadCountersLocked gorm_app_repo (w :: world)))"
  "kept F w (snd (loadBlockLocked gorm_app_repo (w :: world)))"
  "kept F w (snd (persistCountersLocked gorm_app_repo c now (w :: world)))"
  "kept F w (snd (loadCostWarnStateLocked gorm_app_repo (w :: world)))"
  "kept F w (snd (persistCostWarnStateLocked gorm_app_repo s now (w :: world)))"
  by (simp_all add: effectiveLimitsLocked_def loadCountersLocked_def loadBlockLocked_def persistCountersLocked_def
      loadCostWarnStateLocked_def persistCostWarnStateLocked_def load_state_kept put_state_kept)

lemma snapshot_kept: "kept F w (snd (snapshotLocked gorm_app_repo cfg now (w :: world)))"
  unfolding snapshotLocked_def Let_def
  by (intro fn_bind budget_loads_kept) (auto intro!: fn_bind budget_loads_kept)

lemma budget_calls_kept:
  "kept F w (snd (CheckAndIncrementReason gorm_app_repo cfg now (w :: world)))"
  "kept F w (snd (RecordRateLimitBlock gorm_app_repo u ty now (w :: world)))"
proof -
  have "kept F w (snd (CheckAndIncrement gorm_app_repo cfg now (w :: world)))" for w
    unfolding CheckAndIncrement_def Let_def
    by (intro fn_bind snapshot_kept) (auto intro!: fn_bind budget_loads_kept)
  then show "kept F w (snd (CheckAndIncrementReason gorm_app_repo cfg now (w :: world)))"
    unfolding CheckAndIncrementReason_def by (intro fn_bind) auto
  show "kept F w (snd (RecordRateLimitBlock gorm_app_repo u ty now (w :: world)))"
    by (simp add: RecordRateLimitBlock_def put_state_kept)
qed

lemma cost_sums_kept:
  "kept F w (snd (SumDailyCost k (w :: world)))" "kept F w (snd (SumWeeklyCost k (w :: world)))"
proof -
  have "kept F w (snd (exec (SqlSumDailyCost a b) (w :: world)))" for a b
    by (rule exec_kept) (simp add: SqlSumDailyCost_def)
  then show "kept F w (snd (SumDailyCost k (w :: world)))"
    by (simp add: SumDailyCost_def split: sum.split)
  have "kept F w (snd (exec (SqlSumWeeklyCost a b) (w :: world)))" for a b
    by (rule exec_kept) (simp add: SqlSumWeeklyCost_def)
  then show "kept F w (snd (SumWeeklyCost k (w :: world)))"
    by (simp add: SumWeeklyCost_def split: sum.split)
qed

lemma slack_silent: "slack_effects \<subseteq> silent" "metric_effects \<subseteq> silent"
  by (auto simp: slack_effects_def metric_effects_def silent_def milestone_def)

lemma cost_warn_kept: "state_io_rel (kept silent) (EvaluateCostWarn (cost_warn_deps cfg limits) now)"
proof -
  have send: "state_io_rel (kept silent) (send_warning c s p q u f n)"
    if "WarnAppRepo c = gorm_app_repo" "WarnNotify c = NotifyCostWarning" for c s p q u f n
    unfolding send_warning_def that
    by (intro keeps_intros kept_call budget_loads_kept keeps_frame_kept notify_frames slack_silent)
  show ?thesis
    unfolding EvaluateCostWarn_def cost_warn_deps_def evaluate_daily_def evaluate_weekly_def Let_def
    by (auto simp: gorm_usage_repo_def intro!: keeps_intros kept_call budget_loads_kept cost_sums_kept send)
qed

section \<open>The pull request\<close>

lemma pr_effects_allowed: "pr_effects t \<subseteq> silent \<union> Collect is_pr"
  by (auto simp: pr_effects_def silent_def milestone_def)

lemma frame_reached: "frame F w w' \<Longrightarrow> \<exists>ms. reached w ms w'"
  unfolding frame_def using reached_set by metis

lemma run_gh_ok:
  assumes "run_state (RunGh args) w = (Inr u, w')"
  shows "reached w [ShellRun '''' (''gh'' # args) True] w'"
proof (cases "cancelled w")
  case True
  then show ?thesis using assms by (simp add: RunGh_def shell_ctx_def ctx_done_def cmd_error_def)
next
  case False
  obtain out e where a: "shell_reply w (ops w) = (out, e)" by fastforce
  then have "e = None \<and> w' = (tick w)\<lparr> trace := trace w @ [ShellRun '''' (''gh'' # args) True] \<rparr>"
    using assms False
    by (cases e) (auto simp: RunGh_def shell_ctx_def ctx_done_def shell_def ask_def emit_def tick_def)
  then show ?thesis by (auto simp: reached_def same_env_def tick_def milestone_def)
qed

text \<open>A program that begins with steps of the git frame and ends with the gh command.\<close>

definition opens_pr :: "(string \<times> int) result prog \<Rightarrow> bool" where
  "opens_pr m = (\<forall>w u w'. run_state m w = (Inr u, w') \<longrightarrow>
     (\<exists>pre args. reached w (pre @ [ShellRun '''' (''gh'' # args) True]) w'))"

lemma opens_pr_step:
  assumes "state_io_rel (frame F) m" "\<And>a. opens_pr (f a)"
  shows "opens_pr (State_Monad.bind m f)"
  unfolding opens_pr_def
proof (intro allI impI)
  fix w u w' assume run: "run_state (State_Monad.bind m f) w = (Inr u, w')"
  obtain a v where a: "run_state m w = (a, v)" by fastforce
  have "run_state (f a) v = (Inr u, w')" using run a by simp
  then obtain pre args where "reached v (pre @ [ShellRun '''' (''gh'' # args) True]) w'"
    using assms(2)[of a] unfolding opens_pr_def by blast
  moreover obtain ms where "reached w ms v" using frame_reached state_io_relD[OF assms(1) a] by blast
  ultimately have "reached w ((ms @ pre) @ [ShellRun '''' (''gh'' # args) True]) w'"
    using reached_trans by fastforce
  then show "\<exists>pre args. reached w (pre @ [ShellRun '''' (''gh'' # args) True]) w'" by blast
qed

lemma opens_pr_fail: "opens_pr (ret (Inl e))"
  by (simp add: opens_pr_def)

lemma opens_pr_gh:
  "opens_pr (do { u \<leftarrow> RunGh args; ret (case u of Inl er \<Rightarrow> Inl (g er) | Inr url \<Rightarrow> Inr (h url)) })"
  unfolding opens_pr_def
proof (intro allI impI)
  fix w u w'
  assume run: "run_state (do { u \<leftarrow> RunGh args;
      ret (case u of Inl er \<Rightarrow> Inl (g er) | Inr url \<Rightarrow> Inr (h url)) }) w = (Inr u, w')"
  obtain a v where a: "run_state (RunGh args) w = (a, v)" by fastforce
  with run obtain x where "a = Inr x" "v = w'" by (cases a) auto
  then have "reached w ([] @ [ShellRun '''' (''gh'' # args) True]) w'" using run_gh_ok a by simp
  then show "\<exists>pre args. reached w (pre @ [ShellRun '''' (''gh'' # args) True]) w'" by blast
qed

lemma create_pr_opens: "opens_pr (CreatePR repos t)"
proof -
  have g: "state_io_rel (frame (pr_effects t)) (runGitInDir (WorktreePath t) args)" for args
    by (rule git_frame) simp
  have p: "state_io_rel (frame (pr_effects t)) (push_branch t r)" for r
    unfolding push_branch_def by (intro keeps_intros g)
  show ?thesis
    unfolding CreatePR_def
    by (cases "find_repo repos (RepoFullName t)")
      (auto intro!: opens_pr_step[OF g] opens_pr_step[OF p] opens_pr_fail opens_pr_gh split: option.split)
qed

section \<open>The quality gate\<close>

lemma check_effects_allowed: "check_effects \<subseteq> silent \<union> Collect is_check"
  by (auto simp: check_effects_def)

lemma check_run_milestone [simp]: "milestone (check_run dir b c)"
  by (simp add: milestone_def check_run_def)

lemma adapter_passes:
  assumes "run_state (adapter_Run dir cmds timeout) w = (r, w')" "Passed r"
  shows "reached w (map (check_run dir True) (check_commands cmds)) w'"
proof -
  have "frame check_effects w w'" using adapter_frame[OF subset_refl] assms(1) by (rule state_io_relD)
  then have "same_env w w'" by (simp add: frame_def grows_def)
  moreover have "trace w' = trace w @ map (check_run dir True) (check_commands cmds)"
    using gate_run_trace[of 50 dir cmds w r w'] assms by (simp add: adapter_Run_def)
  moreover have "filter milestone (map (check_run dir True) (check_commands cmds)) =
      map (check_run dir True) (check_commands cmds)"
    by (simp add: filter_id_conv)
  ultimately show ?thesis by (simp add: reached_def)
qed

section \<open>The wired worker\<close>

interpretation wired: worker_deps "workerCfg cfg limits windows" for cfg limits windows
proof (rule worker_deps.intro)
  show "task_repository (TaskRepo (workerCfg cfg limits windows)) task_view wf_db"
    using gorm_task.task_repository_axioms[of True] by (simp add: workerCfg_def)
  note defs = workerCfg_def gorm_task_repo_def gorm_event_repo_def gorm_app_repo_def schedulerSlackAdapter_def
    budget_uc_def schedulerMetricsAdapter_def gate_adapter_def schedulerPRAdapter_def
  note silent_calls = notify_frames[OF slack_silent(1), THEN keeps_frame_still]
    metric_frames[OF slack_silent(2), THEN keeps_frame_still]
  show "worker_deps_axioms (workerCfg cfg limits windows)"
  proof (rule worker_deps_axioms.intro)
    fix w w' :: world and q path cmds timeout g
    assume q: "QualityGate (workerCfg cfg limits windows) = Some q"
    then have run: "GateRun q path cmds timeout = do {
       res \<leftarrow> adapter_Run path cmds timeout;
       ret \<lparr> GatePassed = Passed res, GateFailedCommand = FailedCommand res, GateExit = GateExitCode res,
             GateOutput = OutputTail res \<rparr> }" by (auto simp: defs)
    show "state_io_rel (kept (silent \<union> Collect is_check)) (GateRun q path cmds timeout)"
      unfolding run by (intro keeps_intros keeps_frame_kept adapter_frame check_effects_allowed)
    assume "run_state (GateRun q path cmds timeout) w = (g, w')" "GatePassed g"
    then show "reached w (map (check_run path True) (check_commands cmds)) w'"
      unfolding run using adapter_passes by (auto split: prod.splits)
  next
    fix w w' :: world and create t url num
    assume c: "PRCreator (workerCfg cfg limits windows) = Some create"
    then have d: "create = CreatePR (Repos cfg)" by (simp add: defs)
    show "state_io_rel (kept (silent \<union> Collect is_pr)) (create t)"
      unfolding d by (intro keeps_frame_kept create_pr_frame pr_effects_allowed)
    assume "run_state (create t) w = (Inr (url, num), w')"
    then show "\<exists>pre args. reached w (pre @ [ShellRun '''' (''gh'' # args) True]) w'"
      unfolding d using create_pr_opens unfolding opens_pr_def by blast
  qed (auto simp: defs repo_kept repo_still repo_update_succeeds cost_warn_kept silent_calls
      intro!: kept_call budget_calls_kept[unfolded gorm_app_repo_def])
qed

section \<open>Properties of a task's run\<close>

text \<open>C3: however the outside answers and whichever statements fail, a run starts the
  Claude process at most once, then runs checks of the repository and then git and gh
  commands, and none of these without Claude having been started. When Claude was started,
  a slot of the budget had been granted before (by the counters as the run found them) and
  at the instant of the start the clock was in an active window or full mode was read
  as on.\<close>

theorem claude_runs_once_and_gated:
  "case run_state (RunTask (workerCfg cfg limits windows) t) w of (res, w') \<Rightarrow>
     \<exists>ms. reached w ms w' \<and> ordered ms \<and>
       (filter is_claude ms = [] \<or>
        (\<exists>u v n m. waiting w u \<and> waiting w v \<and> ops w \<le> m \<and> m < n \<and>
          fst (CheckAndIncrementReason gorm_app_repo limits (clock w m) v) = Inr BudgetReasonAllowed \<and>
          AllowNow (clock w n) (fst (run_state (isFullMode (workerCfg cfg limits windows)) u)) windows))"
proof -
  obtain res w' where r: "run_state (RunTask (workerCfg cfg limits windows) t) w = (res, w')" by fastforce
  obtain ms where ms: "reached w ms w'" "ordered ms"
    "if filter is_claude ms = [] then True else cleared (workerCfg cfg limits windows) w"
    using wired.run_order[OF r] by blast
  have "filter is_claude ms = [] \<or>
        (\<exists>u v n m. waiting w u \<and> waiting w v \<and> ops w \<le> m \<and> m < n \<and>
          fst (CheckAndIncrementReason gorm_app_repo limits (clock w m) v) = Inr BudgetReasonAllowed \<and>
          AllowNow (clock w n) (fst (run_state (isFullMode (workerCfg cfg limits windows)) u)) windows)"
  proof (cases "filter is_claude ms = []")
    case False
    then have "cleared (workerCfg cfg limits windows) w" using ms(3) by simp
    then show ?thesis
      unfolding cleared_def budget_granted_def
      by (auto simp: workerCfg_def[of cfg limits windows] budget_uc_def)
  qed simp
  then show ?thesis using ms(1,2) r by auto
qed

text \<open>A run keeps the constraints of the database and changes no row of tasks but
  its own.\<close>

theorem run_touches_only_its_task:
  assumes "wf_db w" "storable w t"
  shows "case run_state (RunTask (workerCfg cfg limits windows) t) w of (res, w') \<Rightarrow>
    wf_db w' \<and> (task_view w')(ID t := None) = (task_view w)(ID t := None)"
  using wired.run_frame[OF _ assms] by (cases "run_state (RunTask (workerCfg cfg limits windows) t) w") simp


definition queued_sample :: task where
  "queued_sample = zero_task\<lparr> ID := ''t1'', RepoFullName := ''acme/app'', TaskType := TaskTypeFeature, Status := TaskStatusQueued,
     CreatedAt := 5, UpdatedAt := 5 \<rparr>"

definition run_sample :: world where
  "run_sample = calm_world ((migrated_db (\<lambda>n. int n))\<lparr> task_rows := [toGORMTask queued_sample] \<rparr>)"

lemma run_sample_ok: "wf_db run_sample" "storable run_sample queued_sample" "db_works run_sample"
proof -
  show "wf_db run_sample"
    by (simp add: run_sample_def wf_db_def wf_rows_def migrated_db_def queued_sample_def toGORMTask_def Let_def
        zero_task_def dedup_clash_def)
  show "db_works run_sample" by (simp add: run_sample_def db_works_def migrated_db_def)
  show "storable run_sample queued_sample"
    by (simp add: storable_def task_view_Some row_at_def run_sample_def queued_sample_def toGORMTask_def
        toDomainTask_def Let_def zero_task_def)
qed

lemma run_touches_only_witness:
  "case run_state (RunTask (workerCfg sample_config sample_limits []) queued_sample) run_sample of (res, w') \<Rightarrow>
     wf_db w' \<and> (task_view w')(''t1'' := None) = (task_view run_sample)(''t1'' := None)"
  using run_touches_only_its_task[OF run_sample_ok(1,2), of sample_config sample_limits "[]"]
  by (simp add: queued_sample_def)


end
