(* ===== verification/Mode_Usecase.thy ===== *)
theory Mode_Usecase
  imports Scheduler Wiring
begin

text \<open>internal/usecase/mode_usecase.go: storing and reading the full mode, with the text of
  a time in JSON (RFC 3339 with fractions). The readers of the key elsewhere in the
  program (scheduler, worker, task use case, metrics) are shown to agree with what was
  stored.\<close>

section \<open>RFC 3339\<close>

definition second_of :: "location \<Rightarrow> time \<Rightarrow> int" where
  "second_of tz t = local_sec tz t mod 60"

definition strip_zeros :: "string \<Rightarrow> string" where
  "strip_zeros s = rev (dropWhile (\<lambda>c. c = CHR ''0'') (rev s))"

definition frac_text :: "int \<Rightarrow> string" where
  "frac_text ns = (if ns = 0 then '''' else CHR ''.'' # strip_zeros (zero_pad 9 ns))"

definition zone_text :: "int \<Rightarrow> string" where
  "zone_text off =
     (if off = 0 then ''Z''
      else let z = \<bar>off\<bar> div 60 in
        (if off < 0 \<and> z \<noteq> 0 then ''-'' else ''+'') @ zero_pad 2 (z div 60) @ '':'' @ zero_pad 2 (z mod 60))"

definition rfc3339_nano :: "location \<Rightarrow> time \<Rightarrow> string" where
  "rfc3339_nano tz t = format_date (local_day tz t) @ ''T'' @
     zero_pad 2 (hour_of tz t) @ '':'' @ zero_pad 2 (minute_of tz t) @ '':'' @ zero_pad 2 (second_of tz t) @
     frac_text (t mod Second) @ zone_text (tz (unix_sec t))"

text \<open>Time.MarshalJSON: years of four digits and offsets below a day.\<close>

definition marshal_time :: "location \<Rightarrow> time \<Rightarrow> json result" where
  "marshal_time tz t =
     (let y = year_of_day (local_day tz t) in
      if y < 0 \<or> 9999 < y then Inl (EMsg ''Time.MarshalJSON: year outside of range [0,9999]'')
      else if 24 \<le> \<bar>tz (unix_sec t)\<bar> div 3600
      then Inl (EMsg ''Time.MarshalJSON: timezone hour outside of range [0,23]'')
      else Inr (JStr (rfc3339_nano tz t)))"

text \<open>Time.UnmarshalJSON: the date, the letter T, hours, minutes and seconds of two digits,
  an optional fraction (its first nine digits count), Z or an offset, and nothing after.\<close>

definition two_digits :: "string \<Rightarrow> int option" where
  "two_digits s = (if length s = 2 \<and> list_all is_digit s then Some (int (digits_val s)) else None)"

definition parse_frac :: "string \<Rightarrow> (int \<times> string) option" where
  "parse_frac s =
     (case s of
        c # rest \<Rightarrow>
          if c = CHR ''.'' then
            (let ds = takeWhile is_digit rest in
             if ds = [] then None
             else Some (int (digits_val (take 9 (ds @ ''00000000''))), dropWhile is_digit rest))
          else Some (0, s)
      | [] \<Rightarrow> Some (0, s))"

definition parse_zone :: "string \<Rightarrow> int option" where
  "parse_zone s =
     (if s = ''Z'' then Some 0
      else if length s = 6 \<and> (s ! 0 = CHR ''+'' \<or> s ! 0 = CHR ''-'') \<and> s ! 3 = CHR '':''
      then (case (two_digits (take 2 (drop 1 s)), two_digits (drop 4 s)) of
              (Some h, Some m) \<Rightarrow>
                if 24 \<le> h \<or> 60 \<le> m then None
                else Some ((if s ! 0 = CHR ''-'' then -1 else 1) * (h * 3600 + m * 60))
            | _ \<Rightarrow> None)
      else None)"

definition parse_rfc3339 :: "string \<Rightarrow> time option" where
  "parse_rfc3339 s =
     (if length s < 20 \<or> s ! 10 \<noteq> CHR ''T'' \<or> s ! 13 \<noteq> CHR '':'' \<or> s ! 16 \<noteq> CHR '':'' then None
      else case (parse_date (take 10 s), two_digits (take 2 (drop 11 s)), two_digits (take 2 (drop 14 s)),
                 two_digits (take 2 (drop 17 s)), parse_frac (drop 19 s)) of
        (Some day, Some h, Some m, Some sec, Some (ns, z)) \<Rightarrow>
          (case parse_zone z of
             None \<Rightarrow> None
           | Some off \<Rightarrow>
               if 24 \<le> h \<or> 60 \<le> m \<or> 60 \<le> sec then None
               else Some ((day * 86400 + h * 3600 + m * 60 + sec - off) * Second + ns))
      | _ \<Rightarrow> None)"

section \<open>The use case\<close>

record full_mode_state =
  FmEnabled :: bool
  FmSince :: "time option"

definition enc_full_mode :: "location \<Rightarrow> full_mode_state \<Rightarrow> json result" where
  "enc_full_mode tz fs =
     (case FmSince fs of
        None \<Rightarrow> Inr (JObj [(''enabled'', JBool (FmEnabled fs))])
      | Some t \<Rightarrow> (case marshal_time tz t of
                     Inl e \<Rightarrow> Inl e
                   | Inr j \<Rightarrow> Inr (JObj [(''enabled'', JBool (FmEnabled fs)), (''since'', j)])))"

fun dec_time_ptr :: "time option decoder" where
  "dec_time_ptr JNull v = (None, True)"
| "dec_time_ptr (JStr s) v = (case parse_rfc3339 s of None \<Rightarrow> (v, False) | Some t \<Rightarrow> (Some t, True))"
| "dec_time_ptr _ v = (v, False)"

definition dec_full_mode :: "json \<Rightarrow> full_mode_state option" where
  "dec_full_mode j =
     (case struct_members j of
        None \<Rightarrow> None
      | Some kvs \<Rightarrow>
          let (b, ok1) = dec_field ''enabled'' dec_bool kvs False;
              (sc, ok2) = dec_field ''since'' dec_time_ptr kvs None
          in if ok1 \<and> ok2 then Some \<lparr> FmEnabled = b, FmSince = sc \<rparr> else None)"

definition GetFullMode :: "world app_state_repo \<Rightarrow> full_mode_state result prog" where
  "GetFullMode repo = do {
     r \<leftarrow> call (Get repo ''full_mode'');
     ret (case r of
        Inl e \<Rightarrow> if e = ErrNotFound then Inr \<lparr> FmEnabled = False, FmSince = None \<rparr>
                 else Inl (EWrap ''get full_mode'' e)
      | Inr st \<Rightarrow> (case dec_full_mode (ValueJSON st) of
                     None \<Rightarrow> Inr \<lparr> FmEnabled = False, FmSince = None \<rparr>
                   | Some fs \<Rightarrow> Inr fs))
   }"

definition SetFullMode :: "world app_state_repo \<Rightarrow> location \<Rightarrow> bool \<Rightarrow> full_mode_state result prog" where
  "SetFullMode repo tz enabled = do {
     now \<leftarrow> now_prog;
     let fs = \<lparr> FmEnabled = enabled, FmSince = (if enabled then Some now else None) \<rparr>;
     (case enc_full_mode tz fs of
        Inl e \<Rightarrow> ret (Inl (EWrap ''marshal full_mode'' e))
      | Inr j \<Rightarrow> do {
          r \<leftarrow> call (put_state repo ''full_mode'' j now);
          ret (case r of Inl e \<Rightarrow> Inl (EWrap ''set full_mode'' e) | Inr _ \<Rightarrow> Inr fs)
        })
   }"

text \<open>The reading of the task use case and of the metrics adapter of main.go: the field
  enabled alone.\<close>

definition enabled_field :: "json \<Rightarrow> bool" where
  "enabled_field j =
     (case struct_members j of
        None \<Rightarrow> False
      | Some kvs \<Rightarrow> let (b, ok) = dec_field ''enabled'' dec_bool kvs False in ok \<and> b)"

definition IsFullMode :: "world app_state_repo option \<Rightarrow> bool prog" where
  "IsFullMode repo =
     (case repo of
        None \<Rightarrow> ret False
      | Some a \<Rightarrow> do {
          r \<leftarrow> call (Get a ''full_mode'');
          ret (case r of Inl _ \<Rightarrow> False | Inr st \<Rightarrow> enabled_field (ValueJSON st))
        })"

definition task_isFullMode :: "world app_state_repo option \<Rightarrow> bool result prog" where
  "task_isFullMode repo =
     (case repo of
        None \<Rightarrow> ret (Inr False)
      | Some a \<Rightarrow> do {
          r \<leftarrow> call (Get a ''full_mode'');
          ret (case r of
             Inl e \<Rightarrow> if e = ErrNotFound then Inr False else Inl e
           | Inr st \<Rightarrow> Inr (enabled_field (ValueJSON st)))
        })"

section \<open>The stored time reads back\<close>

lemma two_digits_pad: "0 \<le> i \<Longrightarrow> i < 100 \<Longrightarrow> two_digits (zero_pad 2 i) = Some i"
  using zero_pad_digits[of i 2] by (auto simp: two_digits_def list_all_iff zero_pad_length)

lemma strip_zeros_split: "\<exists>k. s = strip_zeros s @ replicate k (CHR ''0'')"
proof -
  have "takeWhile (\<lambda>c. c = CHR ''0'') (rev s) = replicate (length (takeWhile (\<lambda>c. c = CHR ''0'') (rev s))) (CHR ''0'')"
    by (rule replicate_eqI) (auto dest: set_takeWhileD)
  then have "rev s = replicate (length (takeWhile (\<lambda>c. c = CHR ''0'') (rev s))) (CHR ''0'') @
      dropWhile (\<lambda>c. c = CHR ''0'') (rev s)"
    by (metis takeWhile_dropWhile_id)
  then have "s = strip_zeros s @ replicate (length (takeWhile (\<lambda>c. c = CHR ''0'') (rev s))) (CHR ''0'')"
    unfolding strip_zeros_def by (metis rev_append rev_replicate rev_rev_ident)
  then show ?thesis by blast
qed

lemma zone_text_head: "\<exists>c z. zone_text off = c # z \<and> \<not> is_digit c \<and> c \<noteq> CHR ''.''"
  by (auto simp: zone_text_def Let_def is_digit_def)

lemma parse_frac_text:
  assumes "0 \<le> ns" "ns < Second"
  shows "parse_frac (frac_text ns @ zone_text off) = Some (ns, zone_text off)"
proof -
  obtain c z where z: "zone_text off = c # z" "\<not> is_digit c" "c \<noteq> CHR ''.''" using zone_text_head by blast
  show ?thesis
  proof (cases "ns = 0")
    case True
    then show ?thesis using z by (simp add: frac_text_def parse_frac_def)
  next
    case False
    let ?p = "zero_pad 9 ns" and ?ds = "strip_zeros (zero_pad 9 ns)"
    obtain k where k: "?p = ?ds @ replicate k (CHR ''0'')" using strip_zeros_split by blast
    have l: "length ?p = 9" using assms by (simp add: zero_pad_length)
    have d: "\<forall>x \<in> set ?p. is_digit x" using assms(1) by (rule zero_pad_digits)
    have dg: "\<forall>x \<in> set ?ds. is_digit x" using d k by (metis UnCI set_append)
    have ne: "?ds \<noteq> []"
    proof
      assume "?ds = []"
      then have "?p = replicate 9 (CHR ''0'')" using k l by (metis append_Nil length_replicate)
      then have "digits_val ?p = digits_val (replicate 9 (CHR ''0''))" by simp
      also have "\<dots> = 0" by code_simp
      finally show False using assms(1) False by simp
    qed
    have "take 9 (?ds @ ''00000000'') = ?p"
    proof -
      have "length ?ds + k = 9" using k l by (metis length_append length_replicate)
      moreover have "0 < length ?ds" using ne by simp
      ultimately have n: "9 - length ?ds = k" "length ?ds \<le> 9" "k \<le> 8" by linarith+
      have "''00000000'' = replicate k (CHR ''0'') @ replicate (8 - k) (CHR ''0'')"
        using n(3) by (simp add: replicate_add[symmetric] eval_nat_numeral)
      then have "take 9 (?ds @ ''00000000'') = ?ds @ replicate k (CHR ''0'')"
        using n by (simp only: take_append) simp
      then show ?thesis using k by simp
    qed
    then show ?thesis
      using z dg ne False assms(1) by (simp add: frac_text_def parse_frac_def takeWhile_append2 dropWhile_append2)
  qed
qed

lemma parse_zone_text:
  assumes "off mod 60 = 0" "\<bar>off\<bar> < 86400"
  shows "parse_zone (zone_text off) = Some off"
proof (cases "off = 0")
  case False
  define z where "z = \<bar>off\<bar> div 60"
  have "60 dvd \<bar>off\<bar>" using assms(1) by (simp add: mod_0_imp_dvd)
  then have z: "\<bar>off\<bar> = z * 60" by (simp add: z_def)
  have "0 \<le> z" by (simp add: z_def pos_imp_zdiv_nonneg_iff)
  moreover have "z \<noteq> 0" using z False by (metis abs_eq_0 mult_zero_left)
  ultimately have z0: "z \<noteq> 0" "0 \<le> z" by blast+
  have r: "0 \<le> z div 60" "z div 60 < 24" "0 \<le> z mod 60" "z mod 60 < 60"
    proof -
    show "0 \<le> z div 60" using z0(2) by (simp add: pos_imp_zdiv_nonneg_iff)
    show "z div 60 < 24" using z assms(2) div_facts(1)[of 60 z] by linarith
  qed simp_all
  define h m where "h = zero_pad 2 (z div 60)" "m = zero_pad 2 (z mod 60)"
  have l: "length h = 2" "length m = 2" using r by (simp_all add: h_m_def zero_pad_length)
  have d: "two_digits h = Some (z div 60)" "two_digits m = Some (z mod 60)"
    using r by (simp_all add: h_m_def two_digits_pad)
  have v: "z div 60 * 3600 + z mod 60 * 60 = \<bar>off\<bar>"
    using z div_mult_mod_eq[of z 60] by linarith
  have t: "zone_text off = (if off < 0 then ''-'' else ''+'') @ h @ '':'' @ m"
    using False z0 by (simp add: zone_text_def Let_def z_def[symmetric] h_m_def)
  have p: "length (zone_text off) = 6" "zone_text off ! 0 = (if off < 0 then CHR ''-'' else CHR ''+'')"
    "zone_text off ! 3 = CHR '':''" "take 2 (drop 1 (zone_text off)) = h" "drop 4 (zone_text off) = m"
    "zone_text off \<noteq> ''Z''"
    using l by (simp_all add: t nth_append)
  show ?thesis
    unfolding parse_zone_def p(1,4,5) d using p(2,3,6) r v by auto
qed (simp add: zone_text_def parse_zone_def)

lemma parse_rfc3339_nano:
  assumes "0 \<le> year_of_day (local_day tz t)" "year_of_day (local_day tz t) \<le> 9999"
    and "tz (unix_sec t) mod 60 = 0" "\<bar>tz (unix_sec t)\<bar> < 86400"
  shows "parse_rfc3339 (rfc3339_nano tz t) = Some t"
proof -
  let ?off = "tz (unix_sec t)" and ?s = "local_sec tz t" and ?ns = "t mod Second"
  have ns: "0 \<le> ?ns" "?ns < Second" by simp_all
  define D H M S where "D = format_date (local_day tz t)" "H = zero_pad 2 (hour_of tz t)"
    "M = zero_pad 2 (minute_of tz t)" "S = zero_pad 2 (second_of tz t)"
  define Z where "Z = frac_text ?ns @ zone_text ?off"
  have b: "0 \<le> hour_of tz t" "hour_of tz t < 24" "0 \<le> minute_of tz t" "minute_of tz t < 60"
    "0 \<le> second_of tz t" "second_of tz t < 60"
    by (simp_all add: hour_of_def minute_of_def second_of_def)
  have day: "parse_date D = Some (local_day tz t)" using assms(1,2) by (simp add: D_H_M_S_def parse_format_date)
  then have lD: "length D = 10" by (simp add: parse_date_def Let_def split: if_splits)
  have l: "length H = 2" "length M = 2" "length S = 2" using b by (simp_all add: D_H_M_S_def zero_pad_length)
  have d: "two_digits H = Some (hour_of tz t)" "two_digits M = Some (minute_of tz t)"
    "two_digits S = Some (second_of tz t)"
    using b by (simp_all add: D_H_M_S_def two_digits_pad)
  have f: "rfc3339_nano tz t = D @ ''T'' @ H @ '':'' @ M @ '':'' @ S @ Z"
    by (simp add: rfc3339_nano_def D_H_M_S_def Z_def)
  have p: "take 10 (rfc3339_nano tz t) = D" "rfc3339_nano tz t ! 10 = CHR ''T''"
    "take 2 (drop 11 (rfc3339_nano tz t)) = H" "rfc3339_nano tz t ! 13 = CHR '':''"
    "take 2 (drop 14 (rfc3339_nano tz t)) = M" "rfc3339_nano tz t ! 16 = CHR '':''"
    "take 2 (drop 17 (rfc3339_nano tz t)) = S" "drop 19 (rfc3339_nano tz t) = Z"
    using lD l by (simp_all add: f nth_append)
  have len: "\<not> length (rfc3339_nano tz t) < 20"
    using lD l zone_text_head[of ?off] by (auto simp: f Z_def)
  have hm: "hour_of tz t * 3600 + minute_of tz t * 60 + second_of tz t = ?s mod 86400"
  proof -
    have "?s mod 86400 mod 60 = second_of tz t" unfolding second_of_def by (rule mod_mod_cancel) simp
    moreover have "?s mod 86400 = (?s mod 86400 div 60) * 60 + ?s mod 86400 mod 60" by simp
    ultimately show ?thesis using hour_minute[of tz t] by linarith
  qed
  have "local_day tz t * 86400 + ?s mod 86400 = ?s" by (simp add: local_day_def)
  then have u: "local_day tz t * 86400 + hour_of tz t * 3600 + minute_of tz t * 60 + second_of tz t - ?off = unix_sec t"
    using hm by (simp add: local_sec_def)
  have "unix_sec t * Second + ?ns = t" by (simp add: unix_sec_def)
  then show ?thesis
    unfolding parse_rfc3339_def p day d Z_def parse_frac_text[OF ns] using len b u
    by (simp add: parse_zone_text[OF assms(3,4)])
qed

section \<open>The readers agree\<close>

lemma dec_enc_full_mode:
  assumes "enc_full_mode tz fs = Inr j"
    and "case FmSince fs of None \<Rightarrow> True | Some t \<Rightarrow> tz (unix_sec t) mod 60 = 0 \<and> \<bar>tz (unix_sec t)\<bar> < 86400"
  shows "dec_full_mode j = Some fs" "enabled_field j = FmEnabled fs"
proof -
  have "\<exists>kvs. j = JObj ((''enabled'', JBool (FmEnabled fs)) # kvs) \<and>
      kvs = (case FmSince fs of None \<Rightarrow> [] | Some t \<Rightarrow> [(''since'', JStr (rfc3339_nano tz t))])"
    using assms(1)
    by (auto simp: enc_full_mode_def marshal_time_def Let_def split: option.splits if_splits sum.splits)
  moreover have "parse_rfc3339 (rfc3339_nano tz t) = Some t" if "FmSince fs = Some t" for t
    using assms that
    by (intro parse_rfc3339_nano)
       (auto simp: enc_full_mode_def marshal_time_def Let_def split: if_splits sum.splits)
  ultimately show "dec_full_mode j = Some fs" "enabled_field j = FmEnabled fs"
    by (auto simp: dec_full_mode_def enabled_field_def dec_field_def fold_eq_simps to_lower_char_def
        split: option.splits)
qed

lemma full_mode_text:
  assumes "enc_full_mode tz fs = Inr j" "FmSince fs = None \<longleftrightarrow> \<not> FmEnabled fs"
  shows "containsTrue (json_text ft j) = FmEnabled fs"
proof (cases "FmEnabled fs")
  case True
  then obtain t where t: "FmSince fs = Some t" using assms(2) by auto
  then obtain jt where "json_text ft j = (''{'' @ quote ''enabled'' @ '': '') @ ''true'' @
      ('', '' @ quote ''since'' @ '': '' @ json_text ft jt @ ''}'')"
    using assms(1) True
    by (auto simp: enc_full_mode_def bool_text_def split: sum.splits)
  then have "sublist ''true'' (json_text ft j)" unfolding sublist_def by blast
  then show ?thesis using True containsTrue_iff by simp
next
  case False
  then have e: "json_text ft j = ''{'' @ quote ''enabled'' @ '': false}''"
    using assms by (auto simp: enc_full_mode_def bool_text_def)
  have "containsTrue (''{'' @ quote ''enabled'' @ '': false}'') = False" by code_simp
  then show ?thesis unfolding e using False by blast
qed

lemma get_after_set:
  assumes "db_works w" "run_state (SetFullMode gorm_app_repo tz b) w = (Inr fs, w')"
  obtains j a v where "enc_full_mode tz fs = Inr j" "FmEnabled fs = b" "FmSince fs = (if b then Some (clock w (ops w)) else None)"
    "repo_Get ''full_mode'' w' = (Inr a, v)" "ValueJSON a = j"
proof -
  let ?fs = "\<lparr> FmEnabled = b, FmSince = (if b then Some (clock w (ops w)) else None) \<rparr>"
  have w1: "db_works (tick w)" using assms(1) by (simp add: db_works_def tick_def)
  have now: "run_state now_prog w = (clock w (ops w), tick w)" by (simp add: now_prog_def ask_def)
  obtain j where j: "enc_full_mode tz ?fs = Inr j"
    using assms(2) now by (cases "enc_full_mode tz ?fs") (auto simp: SetFullMode_def Let_def)
  obtain v where v: "db_works v" "put_state gorm_app_repo ''full_mode'' j (clock w (ops w)) (tick w) = (Inr (), v)"
    using gorm_app_works.Set_works[OF w1] unfolding put_state_def by blast
  have e: "fs = ?fs" "w' = v" using assms(2) now j v(2) by (auto simp: SetFullMode_def Let_def)
  have "app_view v = (app_view (tick w))(''full_mode'' \<mapsto> j)"
    using gorm_app.Set_ok v(2) unfolding put_state_def by fastforce
  then obtain a x where a: "Get gorm_app_repo ''full_mode'' v = (Inr a, x)" "ValueJSON a = j"
    using gorm_app_works.Get_works[OF v(1), of "''full_mode''"] by auto
  show thesis
    by (rule that[of j a x]) (use e j a in \<open>auto simp: gorm_app_repo_def\<close>)
qed

text \<open>C19: full mode, once stored, reads back the same everywhere: the API gets the stored
  state with its time, and the scheduler and the worker (which look for the word true in
  the text of the stored document), the task use case and the metrics (which decode the
  field) all read what was set. The zone has an offset of whole minutes.\<close>

theorem full_mode_round_trip:
  assumes "db_works w" "run_state (SetFullMode gorm_app_repo tz b) w = (Inr fs, w')"
    and "\<forall>u. tz u mod 60 = 0 \<and> \<bar>tz u\<bar> < 86400"
    and "SchedAppState scfg = Some gorm_app_repo"
  shows "fst (run_state (GetFullMode gorm_app_repo) w') = Inr fs \<and> FmEnabled fs = b \<and>
    fst (run_state (sched_isFullMode scfg) w') = b \<and> fst (run_state (isFullMode (workerCfg cfg limits windows)) w') = b \<and>
    fst (run_state (task_isFullMode (Some gorm_app_repo)) w') = Inr b \<and>
    fst (run_state (IsFullMode (Some gorm_app_repo)) w') = b"
proof -
  obtain j a v where j: "enc_full_mode tz fs = Inr j" "FmEnabled fs = b"
    "FmSince fs = (if b then Some (clock w (ops w)) else None)"
    and g: "repo_Get ''full_mode'' w' = (Inr a, v)" "ValueJSON a = j"
    using get_after_set[OF assms(1,2)] by blast
  have d: "dec_full_mode j = Some fs" "enabled_field j = b"
    using dec_enc_full_mode[OF j(1)] assms(3) j(2) by (auto split: option.split)
  have t: "containsTrue (json_text ft j) = b" for ft
    using full_mode_text[OF j(1)] j(2,3) by simp
  have G: "Get gorm_app_repo ''full_mode'' w' = (Inr a, v)" using g by (simp add: gorm_app_repo_def)
  show ?thesis
    by (simp add: GetFullMode_def sched_isFullMode_def isFullMode_def task_isFullMode_def IsFullMode_def
        workerCfg_def assms(4) G g(2) d t j(2))
qed

definition mode_sample :: world where "mode_sample = calm_world (migrated_db (\<lambda>n. 7))"

lemma full_mode_witness:
  "\<exists>fs w'. run_state (SetFullMode gorm_app_repo UTC False) mode_sample = (Inr fs, w') \<and>
     fst (run_state (sched_isFullMode sample_sched) w') = False"
proof -
  have w: "db_works mode_sample" by (simp add: mode_sample_def db_works_def migrated_db_def)
  have "is_ok (fst (run_state (SetFullMode gorm_app_repo UTC False) mode_sample))"
    by code_simp
  then obtain fs w' where r: "run_state (SetFullMode gorm_app_repo UTC False) mode_sample = (Inr fs, w')"
    by (metis is_ok_def obj_sumE prod.collapse old.sum.simps(5))
  have "SchedAppState sample_sched = Some gorm_app_repo" by (simp add: sample_sched_def)
  from full_mode_round_trip[OF w r _ this] r
  show ?thesis by (auto simp: UTC_def)
qed

end
