(* ===== verification/Enqueue.thy ===== *)
theory Enqueue
  imports Mode_Usecase Config
begin

text \<open>How tasks come into being and are stopped: internal/usecase/task_usecase.go,
  internal/usecase/maintenance_usecase.go with the fire handler of
  internal/scheduler/maintenance.go, and the poller internal/github/poller.go. The GitHub
  issues API is an argument of the poller.\<close>

section \<open>The task use case\<close>

record task_usecase =
  UcTaskRepo :: "world task_repo"
  UcEventRepo :: "world event_repo"
  UcAppState :: "world app_state_repo option"
  UcCancel :: "string \<Rightarrow> unit result prog"
  UcRepos :: "repo_config list"
  UcWindowGate :: "(time \<Rightarrow> bool \<Rightarrow> bool) option"

record enqueue_request =
  ReqRepo :: string
  ReqIssueNumber :: int
  ReqIssueTitle :: string
  ReqSource :: string

record task_detail =
  DetTask :: task
  DetEvents :: "task_event list"

definition isAllowedRepo :: "repo_config list \<Rightarrow> string \<Rightarrow> bool" where
  "isAllowedRepo repos name = list_ex (\<lambda>r. RepoName r = name) repos"

text \<open>The two timestamps are two readings of the clock.\<close>

definition new_issue_task :: "string \<Rightarrow> int \<Rightarrow> string \<Rightarrow> task_type \<Rightarrow> task prog" where
  "new_issue_task repo num title ty = do {
     i \<leftarrow> ask uuids;
     created \<leftarrow> now_prog;
     updated \<leftarrow> now_prog;
     ret (zero_task\<lparr> ID := i, RepoFullName := repo, IssueNumber := num, IssueTitle := title, TaskType := ty,
            Status := TaskStatusQueued, CreatedAt := created, UpdatedAt := updated \<rparr>)
   }"

definition EnqueueFromIssue :: "task_usecase \<Rightarrow> enqueue_request \<Rightarrow> task result prog" where
  "EnqueueFromIssue uc req =
     (if \<not> isAllowedRepo (UcRepos uc) (ReqRepo req)
      then ret (Inl (EWrap (''repo '' @ go_quote (ReqRepo req)) ErrNotFound))
      else do {
        fm \<leftarrow> task_isFullMode (UcAppState uc);
        (case fm of
           Inl e \<Rightarrow> ret (Inl (EWrap ''check full mode'' e))
         | Inr fullMode \<Rightarrow> do {
             closed \<leftarrow> (case UcWindowGate uc of
                None \<Rightarrow> ret False
              | Some gate \<Rightarrow> if fullMode then ret False else do { now \<leftarrow> now_prog; ret (\<not> gate now False) });
             if closed then ret (Inl ErrOutsideActiveWindow)
             else do {
               ex \<leftarrow> call (ExistsByRepoAndIssue (UcTaskRepo uc) (ReqRepo req) (ReqIssueNumber req));
               (case ex of
                  Inl e \<Rightarrow> ret (Inl (EWrap ''check duplicate'' e))
                | Inr exists \<Rightarrow>
                    if exists then ret (Inl ErrAlreadyRunning)
                    else do {
                      t \<leftarrow> new_issue_task (ReqRepo req) (ReqIssueNumber req) (ReqIssueTitle req) TaskTypeFeature;
                      r \<leftarrow> call (Create (UcTaskRepo uc) t);
                      ret (case r of Inl e \<Rightarrow> Inl (EWrap ''create task'' e) | Inr _ \<Rightarrow> Inr t)
                    })
             }
           })
      })"

record fix_task_input =
  FixParent :: "task option"
  FixHeadSHA :: string
  FixFailedStep :: string
  FixPrompt :: string

definition EnqueueFixTask :: "task_usecase \<Rightarrow> fix_task_input \<Rightarrow> task result prog" where
  "EnqueueFixTask uc inp =
     (case FixParent inp of
        None \<Rightarrow> ret (Inl (EMsg ''EnqueueFixTask: parent required''))
      | Some p \<Rightarrow> do {
          now \<leftarrow> now_prog;
          i \<leftarrow> ask uuids;
          let t = zero_task\<lparr> ID := i, RepoFullName := RepoFullName p, IssueNumber := IssueNumber p,
                IssueTitle := IssueTitle p, TaskType := TaskTypeCIFix, Status := TaskStatusQueued,
                Source := Source p, PromptTemplate := FixPrompt inp, WorktreePath := WorktreePath p,
                ParentTaskID := Some (ID p), FixAttemptCount := wrap64 (FixAttemptCount p + 1),
                HeadSHA := FixHeadSHA inp, CreatedAt := now, UpdatedAt := now \<rparr>;
          r \<leftarrow> call (Create (UcTaskRepo uc) t);
          ret (case r of Inl e \<Rightarrow> Inl (EWrap ''create fix task'' e) | Inr _ \<Rightarrow> Inr t)
        })"

definition GetTask :: "task_usecase \<Rightarrow> string \<Rightarrow> task_detail result prog" where
  "GetTask uc i = do {
     r \<leftarrow> call (GetByID (UcTaskRepo uc) i);
     (case r of
        Inl e \<Rightarrow> ret (Inl (EWrap ''get task'' e))
      | Inr t \<Rightarrow> do {
          ev \<leftarrow> call (ListByTaskID (UcEventRepo uc) i 50);
          ret (case ev of Inl e \<Rightarrow> Inl (EWrap ''list events'' e)
               | Inr evs \<Rightarrow> Inr \<lparr> DetTask = t, DetEvents = evs \<rparr>)
        })
   }"

definition uc_ListTasks :: "task_usecase \<Rightarrow> task_filter \<Rightarrow> task list result prog" where
  "uc_ListTasks uc f = do {
     r \<leftarrow> call (ListTasks (UcTaskRepo uc) f);
     ret (case r of Inl e \<Rightarrow> Inl (EWrap ''list tasks'' e) | Inr ts \<Rightarrow> Inr ts)
   }"

definition StopTask :: "task_usecase \<Rightarrow> string \<Rightarrow> unit result prog" where
  "StopTask uc i = do {
     r \<leftarrow> call (GetByID (UcTaskRepo uc) i);
     (case r of
        Inl e \<Rightarrow> ret (Inl (EWrap ''get task'' e))
      | Inr t \<Rightarrow>
          if Status t \<noteq> TaskStatusRunning \<and> Status t \<noteq> TaskStatusQueued then ret (Inl ErrTaskNotCancellable)
          else if Status t = TaskStatusRunning then do {
            c \<leftarrow> UcCancel uc i;
            ret (case c of Inl e \<Rightarrow> Inl (EWrap ''cancel task'' e) | Inr _ \<Rightarrow> Inr ())
          }
          else do {
            now \<leftarrow> now_prog;
            u \<leftarrow> call (Update (UcTaskRepo uc) (t\<lparr> Status := TaskStatusCancelled, FinishedAt := Some now \<rparr>));
            ret (case u of Inl e \<Rightarrow> Inl (EWrap ''update task'' e) | Inr _ \<Rightarrow> Inr ())
          })
   }"

text \<open>windowsGateAdapter of cmd/claude-ops/main.go: the flag is ignored.\<close>

definition windowsGateAdapter :: "active_window list \<Rightarrow> time \<Rightarrow> bool \<Rightarrow> bool" where
  "windowsGateAdapter ws now fullMode = list_ex (\<lambda>w. Contains w now) ws"

section \<open>Maintenance\<close>

definition maintenance_key :: "string \<Rightarrow> string" where
  "maintenance_key name = ''maintenance_counters:'' @ name"

definition loadSubCap :: "'s app_state_repo \<Rightarrow> string \<Rightarrow> 's \<Rightarrow> budget_counters result \<times> 's" where
  "loadSubCap repo key = load_state repo key zero_counters counters_of_json"

definition persistSubCap :: "'s app_state_repo \<Rightarrow> string \<Rightarrow> budget_counters \<Rightarrow> time \<Rightarrow> 's \<Rightarrow> unit result \<times> 's" where
  "persistSubCap repo key c now = put_state repo key (enc_counters c) now"

record maintenance_usecase =
  MuTaskRepo :: "world task_repo"
  MuAppState :: "world app_state_repo"
  MuBudget :: "time \<Rightarrow> budget_reason result prog"
  MuLimits :: budget_limits

definition checkAndIncrementSubCap :: "maintenance_usecase \<Rightarrow> maintenance_config \<Rightarrow> time \<Rightarrow> unit result prog" where
  "checkAndIncrementSubCap uc mt now =
     (if CapDaily (BudgetSubCap mt) = 0 \<and> CapWeekly (BudgetSubCap mt) = 0 then ret (Inr ())
      else do {
        let key = maintenance_key (MaintName mt);
        r \<leftarrow> call (loadSubCap (MuAppState uc) key);
        (case r of
           Inl e \<Rightarrow> ret (Inl (EWrap (''load sub-cap for '' @ go_quote (MaintName mt)) e))
         | Inr c0 \<Rightarrow> do {
             let c = RolloverCounters now c0 (MuLimits uc);
             let cap = BudgetSubCap mt;
             if 0 < CapDaily cap \<and> CapDaily cap \<le> DailyCount c
             then ret (Inl (ESuffix ErrSubCapReached ('': '' @ go_quote (MaintName mt) @ '' daily limit '' @
                      int_str (CapDaily cap) @ '' reached'')))
             else if 0 < CapWeekly cap \<and> CapWeekly cap \<le> WeeklyCount c
             then ret (Inl (ESuffix ErrSubCapReached ('': '' @ go_quote (MaintName mt) @ '' weekly limit '' @
                      int_str (CapWeekly cap) @ '' reached'')))
             else call (persistSubCap (MuAppState uc) key (bump c) now)
           })
      })"

definition EnqueueMaintenance :: "maintenance_usecase \<Rightarrow> maintenance_config \<Rightarrow> task result prog" where
  "EnqueueMaintenance uc mt = do {
     now \<leftarrow> now_prog;
     b \<leftarrow> MuBudget uc now;
     (case b of
        Inl e \<Rightarrow> ret (Inl (EWrap ''check global budget'' e))
      | Inr reason \<Rightarrow>
          if reason \<noteq> BudgetReasonAllowed
          then ret (Inl (EMsg (''global budget blocked: '' @ budget_reason_str reason)))
          else do {
            s \<leftarrow> checkAndIncrementSubCap uc mt now;
            (case s of
               Inl e \<Rightarrow> ret (Inl e)
             | Inr _ \<Rightarrow> do {
                 i \<leftarrow> ask uuids;
                 let t = zero_task\<lparr> ID := i, RepoFullName := MaintRepo mt, IssueNumber := 0,
                       IssueTitle := ''Maintenance: '' @ MaintName mt, TaskType := TaskTypeFeature,
                       Status := TaskStatusQueued, Source := TaskSourceMaintenance, MaintenanceName := MaintName mt,
                       PromptTemplate := MaintPromptTemplate mt, CreatedAt := now, UpdatedAt := now \<rparr>;
                 r \<leftarrow> call (Create (MuTaskRepo uc) t);
                 ret (case r of Inl e \<Rightarrow> Inl (EWrap ''create maintenance task'' e) | Inr _ \<Rightarrow> Inr t)
               })
          })
   }"

text \<open>The handler of a cron job: full mode does not open the window for it. The outcome is
  only logged.\<close>

definition maintenance_fire :: "active_window list \<Rightarrow> maintenance_usecase \<Rightarrow> maintenance_config \<Rightarrow> unit prog" where
  "maintenance_fire windows uc mt = do {
     now \<leftarrow> now_prog;
     if \<not> AllowNow now False windows then ret ()
     else do { _ \<leftarrow> EnqueueMaintenance uc mt; ret () }
   }"

text \<open>Start: the jobs that are registered, those whose cron text parses.\<close>

definition registered_jobs :: "(string \<Rightarrow> bool) \<Rightarrow> maintenance_config list \<Rightarrow> maintenance_config list" where
  "registered_jobs cron_ok tasks = filter (\<lambda>mt. cron_ok (Cron mt)) tasks"

section \<open>The poller\<close>

record gh_issue =
  GhNumber :: int
  GhTitle :: string
  GhIsPullRequest :: bool
  GhLabels :: "string list"

definition hasAllLabels :: "gh_issue \<Rightarrow> string list \<Rightarrow> bool" where
  "hasAllLabels i required = list_all (\<lambda>r. r \<in> set (GhLabels i)) required"

fun label_type :: "string list \<Rightarrow> task_type" where
  "label_type [] = TaskTypeFeature"
| "label_type (l # ls) =
     (if l = ''security'' then TaskTypeSecurity
      else if l = ''perf'' \<or> l = ''performance'' then TaskTypePerf
      else label_type ls)"

definition detectTaskType :: "gh_issue \<Rightarrow> task_type" where
  "detectTaskType i = label_type (GhLabels i)"

text \<open>One issue: errors are logged and the next issue follows.\<close>

definition poll_issue :: "world task_repo \<Rightarrow> repo_config \<Rightarrow> gh_issue \<Rightarrow> unit prog" where
  "poll_issue repo rc i =
     (if GhIsPullRequest i \<or> \<not> hasAllLabels i (RepoLabels rc) then ret ()
      else do {
        ex \<leftarrow> call (ExistsByRepoAndIssue repo (RepoName rc) (GhNumber i));
        (case ex of
           Inl _ \<Rightarrow> ret ()
         | Inr exists \<Rightarrow>
             if exists then ret ()
             else do {
               t \<leftarrow> new_issue_task (RepoName rc) (GhNumber i) (GhTitle i) (detectTaskType i);
               _ \<leftarrow> call (Create repo t);
               ret ()
             })
      })"

primrec poll_issues :: "world task_repo \<Rightarrow> repo_config \<Rightarrow> gh_issue list \<Rightarrow> unit prog" where
  "poll_issues repo rc [] = ret ()"
| "poll_issues repo rc (i # is) = do { poll_issue repo rc i; poll_issues repo rc is }"

text \<open>ListByRepo of the GitHub client: owner, name and labels; the open issues of the first
  page of fifty.\<close>

type_synonym issues_service = "string \<Rightarrow> string \<Rightarrow> string list \<Rightarrow> gh_issue list result prog"

definition split_repo :: "string \<Rightarrow> (string \<times> string) option" where
  "split_repo name =
     (if CHR ''/'' \<in> set name
      then Some (takeWhile (\<lambda>c. c \<noteq> CHR ''/'') name, tl (dropWhile (\<lambda>c. c \<noteq> CHR ''/'') name))
      else None)"

definition pollRepo :: "issues_service \<Rightarrow> world task_repo \<Rightarrow> repo_config \<Rightarrow> unit result prog" where
  "pollRepo list_issues repo rc =
     (case split_repo (RepoName rc) of
        None \<Rightarrow> ret (Inl (EMsg (''invalid repo name '' @ go_quote (RepoName rc))))
      | Some (owner, name) \<Rightarrow> do {
          r \<leftarrow> list_issues owner name (RepoLabels rc);
          (case r of
             Inl e \<Rightarrow> ret (Inl (EWrap (''list issues '' @ RepoName rc) e))
           | Inr issues \<Rightarrow> do { poll_issues repo rc issues; ret (Inr ()) })
        })"

primrec Poll :: "issues_service \<Rightarrow> world task_repo \<Rightarrow> repo_config list \<Rightarrow> go_error option prog" where
  "Poll list_issues repo [] = ret None"
| "Poll list_issues repo (rc # rcs) = do { _ \<leftarrow> pollRepo list_issues repo rc; Poll list_issues repo rcs }"

section \<open>What an enqueue does to the tasks\<close>

definition active_task :: "world \<Rightarrow> string \<Rightarrow> int \<Rightarrow> bool" where
  "active_task w repo num = (\<exists>i t. task_view w i = Some t \<and> RepoFullName t = repo \<and> IssueNumber t = num \<and>
     (Status t = TaskStatusQueued \<or> Status t = TaskStatusRunning))"

text \<open>The row of a new task was put into the table, and nothing else happened to it.\<close>

definition added :: "world \<Rightarrow> task \<Rightarrow> world \<Rightarrow> bool" where
  "added w t w' = (task_view w (ID t) = None \<and> (\<exists>u. stored_as t u \<and> task_view w' = (task_view w)(ID t \<mapsto> u)))"

lemma view_tick [simp]: "task_view (tick w) = task_view w" "wf_db (tick w) = wf_db w" "clock (tick w) = clock w"
  "uuids (tick w) = uuids w"
  by (simp_all add: tick_def)

lemma run_new_issue_task:
  "run_state (new_issue_task repo num title ty) w =
     (zero_task\<lparr> ID := uuids w (ops w), RepoFullName := repo, IssueNumber := num, IssueTitle := title,
        TaskType := ty, Status := TaskStatusQueued, CreatedAt := clock w (Suc (ops w)),
        UpdatedAt := clock w (Suc (Suc (ops w))) \<rparr>, tick (tick (tick w)))"
  by (simp add: new_issue_task_def now_prog_def ask_def tick_def)

lemma exists_active:
  "wf_db w \<Longrightarrow> ExistsByRepoAndIssue (gorm_task_repo True) repo num w = (Inr b, w') \<Longrightarrow> b = active_task w repo num"
  using gorm_task.Exists_ok[of w True repo num b w'] by (simp add: active_task_def)

text \<open>The check for a duplicate and the insertion, shared by the use case and the poller.\<close>

definition enqueue_once :: "string \<Rightarrow> int \<Rightarrow> string \<Rightarrow> task_type \<Rightarrow> world \<Rightarrow> task result result \<times> world" where
  "enqueue_once repo num title ty w =
     (case ExistsByRepoAndIssue (gorm_task_repo True) repo num w of
        (Inl e, w1) \<Rightarrow> (Inl e, w1)
      | (Inr True, w1) \<Rightarrow> (Inl ErrAlreadyRunning, w1)
      | (Inr False, w1) \<Rightarrow>
          (case run_state (new_issue_task repo num title ty) w1 of (t, w2) \<Rightarrow>
             (case Create (gorm_task_repo True) t w2 of
                (Inl e, w3) \<Rightarrow> (Inr (Inl e), w3) | (Inr _, w3) \<Rightarrow> (Inr (Inr t), w3))))"

lemma enqueue_once_spec:
  assumes "wf_db w" "enqueue_once repo num title ty w = (r, w')"
  shows "case r of
      Inl e \<Rightarrow> task_view w' = task_view w
    | Inr (Inl e) \<Rightarrow> \<not> active_task w repo num \<and> (task_view w' = task_view w \<or> (\<exists>t. added w t w'))
    | Inr (Inr t) \<Rightarrow> \<not> active_task w repo num \<and> added w t w' \<and> RepoFullName t = repo \<and> IssueNumber t = num \<and>
        IssueTitle t = title \<and> TaskType t = ty \<and> Status t = TaskStatusQueued"
proof -
  obtain x w1 where x: "ExistsByRepoAndIssue (gorm_task_repo True) repo num w = (x, w1)" by fastforce
  have k: "wf_db w1" "task_view w1 = task_view w" using gorm_task.Exists_keeps[OF assms(1) x] by simp_all
  show ?thesis
  proof (cases x)
    case (Inl e)
    then show ?thesis using assms(2) x k by (auto simp: enqueue_once_def)
  next
    case (Inr b)
    note ex = exists_active[OF assms(1) x[unfolded Inr]]
    show ?thesis
    proof (cases b)
      case True
      then show ?thesis using assms(2) x k Inr by (auto simp: enqueue_once_def)
    next
      case False
      obtain t w2 where t: "run_state (new_issue_task repo num title ty) w1 = (t, w2)" by fastforce
      have v: "wf_db w2" "task_view w2 = task_view w" "RepoFullName t = repo" "IssueNumber t = num"
        "IssueTitle t = title" "TaskType t = ty" "Status t = TaskStatusQueued"
        using t k by (auto simp: run_new_issue_task)
      obtain c w3 where c: "Create (gorm_task_repo True) t w2 = (c, w3)" by fastforce
      have e: "r = Inr (case c of Inl e \<Rightarrow> Inl e | Inr _ \<Rightarrow> Inr t)" "w' = w3"
        using assms(2) x Inr False t c by (auto simp: enqueue_once_def split: sum.splits)
      show ?thesis
      proof (cases c)
        case (Inl er)
        then show ?thesis using gorm_task.Create_err[OF v(1) c[unfolded Inl]] e v ex False
          by (auto simp: added_def)
      next
        case (Inr u)
        then show ?thesis using gorm_task.Create_ok[OF v(1)] c e v ex False by (auto simp: added_def)
      qed
    qed
  qed
qed

lemma run_poll_issue:
  "run_state (poll_issue (gorm_task_repo True) rc i) w =
     ((), if GhIsPullRequest i \<or> \<not> hasAllLabels i (RepoLabels rc) then w
          else snd (enqueue_once (RepoName rc) (GhNumber i) (GhTitle i) (detectTaskType i) w))"
  unfolding poll_issue_def enqueue_once_def
  by (simp split: prod.split sum.split bool.split)

text \<open>What the window allows an enqueue request.\<close>

definition request_allowed :: "task_usecase \<Rightarrow> world \<Rightarrow> bool" where
  "request_allowed uc w = (fst (run_state (task_isFullMode (UcAppState uc)) w) = Inr True \<or>
     (case UcWindowGate uc of None \<Rightarrow> True | Some gate \<Rightarrow> \<exists>n. ops w \<le> n \<and> gate (clock w n) False))"

lemma task_mode_keeps:
  assumes "UcAppState uc = Some gorm_app_repo \<or> UcAppState uc = None" "run_state (task_isFullMode (UcAppState uc)) w = (r, w')"
  shows "task_rows w' = task_rows w \<and> (wf_db w \<longrightarrow> wf_db w') \<and> clock w' = clock w \<and> ops w \<le> ops w'"
proof -
  have "kept UNIV w (snd (repo_Get ''full_mode'' w))" by (rule repo_kept(4))
  then show ?thesis using assms
    by (cases "repo_Get ''full_mode'' w")
      (auto simp: task_isFullMode_def gorm_app_repo_def kept_def grows_def same_env_def)
qed

lemma enqueue_from_issue_cases:
  assumes "run_state (EnqueueFromIssue uc req) w = (r, w')" "UcTaskRepo uc = gorm_task_repo True"
    and "UcAppState uc = Some gorm_app_repo \<or> UcAppState uc = None" "wf_db w"
  obtains (refused) e where "r = Inl e" "task_view w' = task_view w"
  | (asked) v x where "isAllowedRepo (UcRepos uc) (ReqRepo req)" "request_allowed uc w" "wf_db v" "task_view v = task_view w"
      "enqueue_once (ReqRepo req) (ReqIssueNumber req) (ReqIssueTitle req) TaskTypeFeature v = (x, w')"
      "(\<exists>e. r = Inl e \<and> (\<forall>t. x \<noteq> Inr (Inr t))) \<or> (\<exists>t. r = Inr t \<and> x = Inr (Inr t))"
proof (cases "isAllowedRepo (UcRepos uc) (ReqRepo req)")
  case False
  then show thesis using assms(1) by (intro refused) (auto simp: EnqueueFromIssue_def)
next
  case True
  obtain fm w1 where fm: "run_state (task_isFullMode (UcAppState uc)) w = (fm, w1)" by fastforce
  note k = task_mode_keeps[OF assms(3) fm]
  have v1: "task_view w1 = task_view w" "wf_db w1" using k assms(4) task_view_rows_eq by auto
  show thesis
  proof (cases fm)
    case (Inl e)
    then show thesis using assms(1) True fm v1 by (intro refused) (auto simp: EnqueueFromIssue_def)
  next
    case (Inr full)
    let ?gate = "case UcWindowGate uc of None \<Rightarrow> ret False
              | Some gate \<Rightarrow> if full then ret False else do { now \<leftarrow> now_prog; ret (\<not> gate now False) }"
    obtain cl w2 where cl: "run_state ?gate w1 = (cl, w2)" by fastforce
    have w2: "w2 = w1 \<or> w2 = tick w1" "\<not> cl \<Longrightarrow> request_allowed uc w"
      using cl k fm Inr by (auto simp: request_allowed_def now_prog_def ask_def split: option.splits if_splits)
    then have v2: "task_view w2 = task_view w" "wf_db w2" using v1 by auto
    have run: "run_state (if cl then ret (Inl ErrOutsideActiveWindow)
             else do {
               ex \<leftarrow> call (ExistsByRepoAndIssue (UcTaskRepo uc) (ReqRepo req) (ReqIssueNumber req));
               (case ex of
                  Inl e \<Rightarrow> ret (Inl (EWrap ''check duplicate'' e))
                | Inr exists \<Rightarrow>
                    if exists then ret (Inl ErrAlreadyRunning)
                    else do {
                      t \<leftarrow> new_issue_task (ReqRepo req) (ReqIssueNumber req) (ReqIssueTitle req) TaskTypeFeature;
                      r \<leftarrow> call (Create (UcTaskRepo uc) t);
                      ret (case r of Inl e \<Rightarrow> Inl (EWrap ''create task'' e) | Inr _ \<Rightarrow> Inr t)
                    })
             }) w2 = (r, w')"
      using assms(1) True fm Inr cl unfolding EnqueueFromIssue_def by simp
    show thesis
    proof (cases cl)
      case True
      then show thesis using run v2 by (intro refused) auto
    next
      case False
      obtain x w3 where x: "enqueue_once (ReqRepo req) (ReqIssueNumber req) (ReqIssueTitle req) TaskTypeFeature w2 = (x, w3)"
        by fastforce
      have "w3 = w' \<and> ((\<exists>e. r = Inl e \<and> (\<forall>t. x \<noteq> Inr (Inr t))) \<or> (\<exists>t. r = Inr t \<and> x = Inr (Inr t)))"
        using run False x assms(2) unfolding enqueue_once_def
        by (auto split: prod.splits sum.splits bool.splits)
      then show thesis using asked[OF True w2(2)[OF False] v2(2,1), of x] x by simp
    qed
  qed
qed

lemma exists_works:
  assumes "db_works w" "wf_db w"
  shows "ExistsByRepoAndIssue (gorm_task_repo True) repo num (w :: world) = (Inr (active_task w repo num), tick w)"
proof -
  obtain r w' where r: "ExistsByRepoAndIssue (gorm_task_repo True) repo num w = (r, w')" by fastforce
  then have "w' = tick w \<and> is_ok r"
    using assms(1) by (auto simp: gorm_task_repo_def repo_ExistsByRepoAndIssue_def db_works_exec tick_def is_ok_def)
  then show ?thesis using r exists_active[OF assms(2)] by (cases r) auto
qed

lemma create_works:
  assumes "db_works w" "task_view w (ID t) = None" "check_task_type (TaskType t)" "TaskType t \<noteq> TaskTypeCIFix"
  shows "\<exists>w'. Create (gorm_task_repo True) t (w :: world) = (Inr (), w')"
proof -
  have "\<not> list_ex (\<lambda>x. gID x = ID t) (task_rows w)"
    using assms(2) unfolding list_ex_iff by (metis imageI task_view_None)
  moreover have "\<not> list_ex (dedup_clash (toGORMTask t)) (task_rows w)"
    using assms(4) by (simp add: dedup_clash_def dedup_keys list_ex_iff)
  ultimately show ?thesis
    using assms(1,3) by (simp add: gorm_task_repo_def repo_Create_def db_works_exec sql_insert_task_def Let_def)
qed

lemma label_type_ok: "check_task_type (label_type ls)" "label_type ls \<noteq> TaskTypeCIFix"
  by (induction ls) auto

section \<open>Properties\<close>


text \<open>C34: polling an open issue with the repository's labels enqueues it, with its number,
  title and the type its labels name, exactly when no queued or running task exists for
  it. (A task that is done, failed or cancelled does not count: while its issue is open the
  next poll enqueues it again.)\<close>

theorem poll_enqueues_open_issues:
  assumes "wf_db w" "db_works w" "task_view w (uuids w (Suc (ops w))) = None"
  shows "case run_state (poll_issue (gorm_task_repo True) rc i) w of (_, w') \<Rightarrow>
    if GhIsPullRequest i \<or> \<not> hasAllLabels i (RepoLabels rc) \<or> active_task w (RepoName rc) (GhNumber i)
    then task_view w' = task_view w
    else \<exists>t. added w t w' \<and> RepoFullName t = RepoName rc \<and> IssueNumber t = GhNumber i \<and>
           IssueTitle t = GhTitle i \<and> TaskType t = detectTaskType i \<and> Status t = TaskStatusQueued"
proof -
  let ?e = "enqueue_once (RepoName rc) (GhNumber i) (GhTitle i) (detectTaskType i) w"
  have ex: "ExistsByRepoAndIssue (gorm_task_repo True) (RepoName rc) (GhNumber i) w =
      (Inr (active_task w (RepoName rc) (GhNumber i)), tick w)"
    by (rule exists_works[OF assms(2,1)])
  have "\<exists>t. fst ?e = Inr (Inr t)" if "\<not> active_task w (RepoName rc) (GhNumber i)"
  proof -
    obtain t w2 where t: "run_state (new_issue_task (RepoName rc) (GhNumber i) (GhTitle i) (detectTaskType i)) (tick w) = (t, w2)"
      by fastforce
    then have v: "task_view w2 (ID t) = None" "TaskType t = detectTaskType i" "db_works w2"
      using assms(2,3) by (auto simp: run_new_issue_task tick_def db_works_def)
    obtain w3 where "Create (gorm_task_repo True) t w2 = (Inr (), w3)"
      using create_works[OF v(3,1)] label_type_ok v(2) by (auto simp: detectTaskType_def)
    then show ?thesis using that ex t by (simp add: enqueue_once_def)
  qed
  note new = this
  have old: "snd ?e = tick w" if "active_task w (RepoName rc) (GhNumber i)"
    using that ex by (simp add: enqueue_once_def)
  show ?thesis
  proof (cases "GhIsPullRequest i \<or> \<not> hasAllLabels i (RepoLabels rc) \<or> active_task w (RepoName rc) (GhNumber i)")
    case True
    then show ?thesis using old by (auto simp: run_poll_issue)
  next
    case False
    then obtain t where t: "fst ?e = Inr (Inr t)" using new by blast
    have "enqueue_once (RepoName rc) (GhNumber i) (GhTitle i) (detectTaskType i) w = (Inr (Inr t), snd ?e)"
      using t by (metis prod.collapse)
    from enqueue_once_spec[OF assms(1) this] show ?thesis
      using False by (simp add: run_poll_issue) (intro exI[of _ t], simp)
  qed
qed

definition enqueue_sample :: world where
  "enqueue_sample = calm_world ((migrated_db (\<lambda>n. int n))\<lparr> task_rows :=
     [toGORMTask (queued_sample\<lparr> Status := TaskStatusDone, IssueNumber := 7 \<rparr>)] \<rparr>)"

lemma enqueue_sample_ok: "wf_db enqueue_sample" "db_works enqueue_sample"
  by (simp_all add: enqueue_sample_def wf_db_def wf_rows_def migrated_db_def queued_sample_def toGORMTask_def Let_def
      zero_task_def dedup_clash_def db_works_def)

definition sample_repo :: repo_config where
  "sample_repo = \<lparr> RepoName = ''acme/app'', DefaultBranch = ''main'', RepoLabels = [''ai''], Reviewers = [],
     Checks = \<lparr> CheckSecurity = False, CheckPerf = False, Commands = [], CheckTimeout = 0 \<rparr> \<rparr>"

definition sample_issue :: gh_issue where
  "sample_issue = \<lparr> GhNumber = 7, GhTitle = ''slow'', GhIsPullRequest = False, GhLabels = [''ai'', ''perf''] \<rparr>"

lemma poll_witness:
  "case run_state (poll_issue (gorm_task_repo True) sample_repo sample_issue) enqueue_sample of (_, w') \<Rightarrow>
     \<exists>t. added enqueue_sample t w' \<and> IssueNumber t = 7 \<and> TaskType t = TaskTypePerf"
proof -
  have v: "task_view enqueue_sample i = (if i = ''t1'' then Some (toDomainTask (toGORMTask
      (queued_sample\<lparr> Status := TaskStatusDone, IssueNumber := 7 \<rparr>))) else None)" for i
    by (simp add: enqueue_sample_def task_view_def row_at_def queued_sample_def)
  have u: "task_view enqueue_sample (uuids enqueue_sample (Suc (ops enqueue_sample))) = None"
    unfolding v by (simp add: enqueue_sample_def calm_world_def)
  have a: "\<not> active_task enqueue_sample (RepoName sample_repo) (GhNumber sample_issue)"
    by (simp add: active_task_def v toGORMTask_def Let_def)
  have l: "\<not> GhIsPullRequest sample_issue" "hasAllLabels sample_issue (RepoLabels sample_repo)"
    "detectTaskType sample_issue = TaskTypePerf" "GhNumber sample_issue = 7"
    by (simp_all add: sample_issue_def sample_repo_def hasAllLabels_def detectTaskType_def)
  show ?thesis
    using poll_enqueues_open_issues[OF enqueue_sample_ok u, of sample_issue sample_repo] a l by auto
qed

definition sample_usecase :: task_usecase where
  "sample_usecase = \<lparr> UcTaskRepo = gorm_task_repo True, UcEventRepo = gorm_event_repo, UcAppState = Some gorm_app_repo,
     UcCancel = (\<lambda>i. ret (Inl ErrNotFound)), UcRepos = [sample_repo], UcWindowGate = None \<rparr>"


end
