(* ===== verification/Ci_Watcher.thy ===== *)
theory Ci_Watcher
  imports Ci_Text Enqueue
begin

text \<open>internal/ci/watcher.go and prompt.go: polling the checks of a task's pull request
  and enqueueing a ci-fix task when they fail. The gh command, Slack, the enqueuer and the
  prompt template are the watcher's dependencies; the zero id of its events is kept.\<close>

section \<open>Dependencies\<close>

record prompt_data =
  PdPRNumber :: int
  PdFailedStep :: string
  PdLogTail :: string
  PdPreviousAttempts :: int
  PdHeadSHA :: string

record ci_slack =
  NotifyCIPassed :: "task \<Rightarrow> unit prog"
  NotifyCIFixEnqueued :: "task \<Rightarrow> int \<Rightarrow> int \<Rightarrow> unit prog"
  NotifyCIExhausted :: "task \<Rightarrow> int \<Rightarrow> unit prog"
  NotifyCIStuck :: "task \<Rightarrow> unit prog"
  NotifyCITimeout :: "task \<Rightarrow> unit prog"

record watcher_config =
  WatchEnabled :: bool
  WatchMaxAttempts :: int
  WatchPollInterval :: int
  WatchPollTimeout :: int
  WatchComment :: bool

record watcher =
  WatchCfg :: watcher_config
  WatchRepo :: "world task_repo option"
  WatchEvents :: "world event_repo option"
  WatchEnqueue :: "fix_task_input \<Rightarrow> task result prog"
  WatchGh :: "(string list \<Rightarrow> string result prog) option"
  WatchSlack :: "ci_slack option"
  WatchPrompts :: "(prompt_data \<Rightarrow> string result) option"

text \<open>FilePromptRenderer: the template read at the start, an argument here; a nil renderer
  gives the empty prompt.\<close>

definition RenderCIFix :: "(prompt_data \<Rightarrow> string result) option \<Rightarrow> prompt_data \<Rightarrow> string result" where
  "RenderCIFix tmpl d =
     (case tmpl of None \<Rightarrow> Inr '''' | Some f \<Rightarrow> (case f d of Inl e \<Rightarrow> Inl (EWrap ''render ci-fix'' e) | Inr s \<Rightarrow> Inr s))"

section \<open>Helpers\<close>

definition LogTailLines :: int where "LogTailLines = 200"

definition ci_recordEvent :: "watcher \<Rightarrow> string \<Rightarrow> event_kind \<Rightarrow> json \<Rightarrow> unit prog" where
  "ci_recordEvent w taskID kind payload = when_some (WatchEvents w) (\<lambda>repo. do {
     t \<leftarrow> now_prog;
     _ \<leftarrow> call (CreateEvent repo \<lparr> EventID = '''', EventTaskID = taskID, Kind = kind,
            PayloadJSON = Some payload, EventCreatedAt = t \<rparr>);
     ret ()
   })"

datatype ci_note = NotePassed | NoteStuck | NoteTimeout | NoteExhausted

definition ci_notify :: "watcher \<Rightarrow> ci_note \<Rightarrow> task \<Rightarrow> int \<Rightarrow> unit prog" where
  "ci_notify w kind t attempts = when_some (WatchSlack w) (\<lambda>s.
     case kind of
       NotePassed \<Rightarrow> NotifyCIPassed s t
     | NoteStuck \<Rightarrow> NotifyCIStuck s t
     | NoteTimeout \<Rightarrow> NotifyCITimeout s t
     | NoteExhausted \<Rightarrow> NotifyCIExhausted s t attempts)"

record pr_view =
  HeadRefOid :: string
  PrState :: string

definition dec_pr_view :: "json \<Rightarrow> pr_view option" where
  "dec_pr_view j =
     (case struct_members j of
        None \<Rightarrow> None
      | Some kvs \<Rightarrow>
          let (h, o1) = dec_field ''headRefOid'' dec_str kvs '''';
              (s, o2) = dec_field ''state'' dec_str kvs ''''
          in if o1 \<and> o2 then Some \<lparr> HeadRefOid = h, PrState = s \<rparr> else None)"

definition dec_check_run :: "json \<Rightarrow> check_run_info \<Rightarrow> check_run_info \<times> bool" where
  "dec_check_run j v =
     (case struct_members j of
        None \<Rightarrow> (v, False)
      | Some kvs \<Rightarrow>
          let (n, o1) = dec_field ''name'' dec_str kvs '''';
              (s, o2) = dec_field ''status'' dec_str kvs '''';
              (c, o3) = dec_field ''conclusion'' dec_str kvs '''';
              (u, o4) = dec_field ''detailsUrl'' dec_str kvs '''';
              (r, o5) = dec_field ''workflowRun'' dec_int kvs 0
          in (\<lparr> CheckName = n, CheckStatus = s, Conclusion = conclusion_of c, DetailsURL = u, WorkflowRun = r \<rparr>,
              o1 \<and> o2 \<and> o3 \<and> o4 \<and> o5))"

definition zero_check :: check_run_info where
  "zero_check = \<lparr> CheckName = '''', CheckStatus = '''', Conclusion = ConclusionEmpty, DetailsURL = '''', WorkflowRun = 0 \<rparr>"

definition dec_checks :: "json \<Rightarrow> check_run_info list option" where
  "dec_checks j = (case dec_list dec_check_run zero_check j [] of (cs, ok) \<Rightarrow> if ok then Some cs else None)"

definition invalid_json :: go_error where "invalid_json = EMsg ''invalid JSON''"

definition decode_out :: "(json \<Rightarrow> 'a option) \<Rightarrow> string \<Rightarrow> 'a result" where
  "decode_out d out =
     (case json_of_string out of
        None \<Rightarrow> Inl invalid_json
      | Some j \<Rightarrow> (case d j of None \<Rightarrow> Inl invalid_json | Some x \<Rightarrow> Inr x))"

definition run_gh :: "watcher \<Rightarrow> string list \<Rightarrow> string result prog" where
  "run_gh w args = (case WatchGh w of None \<Rightarrow> ret (Inl (EMsg ''gh runner not wired'')) | Some gh \<Rightarrow> gh args)"

definition fetchPRView :: "watcher \<Rightarrow> task \<Rightarrow> pr_view result prog" where
  "fetchPRView w t = do {
     r \<leftarrow> run_gh w [''pr'', ''view'', int_str (PRNumber t), ''--repo'', RepoFullName t, ''--json'', ''headRefOid,state''];
     ret (case r of Inl e \<Rightarrow> Inl e | Inr out \<Rightarrow> decode_out dec_pr_view out)
   }"

definition fetchChecks :: "watcher \<Rightarrow> task \<Rightarrow> check_run_info list result prog" where
  "fetchChecks w t = do {
     r \<leftarrow> run_gh w [''pr'', ''checks'', int_str (PRNumber t), ''--repo'', RepoFullName t, ''--json'',
            ''name,status,conclusion,detailsUrl,workflowRun''];
     ret (case r of Inl e \<Rightarrow> Inl e
          | Inr out \<Rightarrow> (case decode_out dec_checks out of Inl e \<Rightarrow> Inl (EWrap ''decode checks'' e) | Inr cs \<Rightarrow> Inr cs))
   }"

definition collectFailureContext :: "watcher \<Rightarrow> task \<Rightarrow> check_run_info list \<Rightarrow> (string \<times> string) prog" where
  "collectFailureContext w t failed =
     (case failed of
        [] \<Rightarrow> ret ('''', '''')
      | first # _ \<Rightarrow>
          (case WatchGh w of
             None \<Rightarrow> ret (CheckName first, '''')
           | Some gh \<Rightarrow>
               if WorkflowRun first = 0 then ret (CheckName first, '''')
               else do {
                 r \<leftarrow> gh [''run'', ''view'', int_str (WorkflowRun first), ''--repo'', RepoFullName t, ''--log-failed''];
                 ret (case r of
                        Inl _ \<Rightarrow> (CheckName first, '''')
                      | Inr raw \<Rightarrow> (CheckName first, MaskSecrets (TruncateLogTail raw LogTailLines)))
               }))"

section \<open>A poll of one task\<close>

text \<open>A targeted update of the CI columns whose error is dropped.\<close>

definition set_ci :: "world task_repo \<Rightarrow> string \<Rightarrow> ci_status \<Rightarrow> string \<Rightarrow> unit prog" where
  "set_ci repo i st sha = do {
     now \<leftarrow> now_prog;
     _ \<leftarrow> call (UpdateCIStatus repo i st sha now);
     ret ()
   }"

definition exhausted_comment :: "task \<Rightarrow> string" where
  "exhausted_comment t = ''CI still failing after '' @ int_str (FixAttemptCount t) @
     '' auto-fix attempts '' @ em_dash @ '' needs human review.''"

definition handleFailure :: "watcher \<Rightarrow> world task_repo \<Rightarrow> task \<Rightarrow> string \<Rightarrow> check_run_info list \<Rightarrow> unit result prog" where
  "handleFailure w repo t headSHA failed = do {
     ci_recordEvent w (ID t) EventKindCIFailureDetected
       (JObj [(''failed_checks'', JInt (int (length failed))), (''head_sha'', JStr headSHA)]);
     existing \<leftarrow> call (FindFixChild repo (ID t) headSHA);
     if (case existing of Inr (Some _) \<Rightarrow> True | _ \<Rightarrow> False) then ret (Inr ())
     else if WatchMaxAttempts (WatchCfg w) \<le> FixAttemptCount t then do {
       set_ci repo (ID t) CIStatusExhausted headSHA;
       ci_recordEvent w (ID t) EventKindCIFixExhausted (JObj [(''attempts'', JInt (FixAttemptCount t))]);
       ci_notify w NoteExhausted t (FixAttemptCount t);
       when_some (WatchGh w) (\<lambda>gh.
         if WatchComment (WatchCfg w) \<and> 0 < PRNumber t
         then do { _ \<leftarrow> gh [''pr'', ''comment'', int_str (PRNumber t), ''--repo'', RepoFullName t, ''--body'',
                     exhausted_comment t]; ret () }
         else ret ());
       ret (Inr ())
     }
     else do {
       (failedStep, logTail) \<leftarrow> collectFailureContext w t failed;
       let prompt = (case WatchPrompts w of
           None \<Rightarrow> Inr ''''
         | Some tmpl \<Rightarrow> RenderCIFix (Some tmpl) \<lparr> PdPRNumber = PRNumber t, PdFailedStep = failedStep, PdLogTail = logTail,
             PdPreviousAttempts = FixAttemptCount t, PdHeadSHA = headSHA \<rparr>);
       (case prompt of
          Inl e \<Rightarrow> ret (Inl (EWrap ''render prompt'' e))
        | Inr p \<Rightarrow> do {
            r \<leftarrow> WatchEnqueue w \<lparr> FixParent = Some t, FixHeadSHA = headSHA, FixFailedStep = failedStep, FixPrompt = p \<rparr>;
            (case r of
               Inl e \<Rightarrow> ret (Inl (EWrap ''enqueue fix task'' e))
             | Inr child \<Rightarrow> do {
                 ci_recordEvent w (ID t) EventKindCIFixEnqueued
                   (JObj [(''attempt'', JInt (FixAttemptCount child)), (''child_task_id'', JStr (ID child)),
                          (''max_attempts'', JInt (WatchMaxAttempts (WatchCfg w)))]);
                 set_ci repo (ID t) CIStatusWatching headSHA;
                 when_some (WatchSlack w) (\<lambda>s.
                   NotifyCIFixEnqueued s t (FixAttemptCount child) (WatchMaxAttempts (WatchCfg w)));
                 ret (Inr ())
               })
          })
     }
   }"

text \<open>What the checks decide.\<close>

definition checks_stage :: "watcher \<Rightarrow> world task_repo \<Rightarrow> task \<Rightarrow> pr_view \<Rightarrow> check_run_info list \<Rightarrow> unit result prog" where
  "checks_stage w repo t view checks = do {
     ci_recordEvent w (ID t) EventKindCICheckPolled
       (JObj [(''checks'', JInt (int (length checks))), (''head_sha'', JStr (HeadRefOid view))]);
     (case AggregateConclusion checks of (status, failedRuns) \<Rightarrow>
        if status = '''' then do {
          now \<leftarrow> now_prog;
          call (UpdateCIStatus repo (ID t) CIStatusWatching (HeadRefOid view) now)
        }
        else if status = ''passed'' then do {
          set_ci repo (ID t) CIStatusPassed (HeadRefOid view);
          ci_notify w NotePassed t 0;
          ret (Inr ())
        }
        else if status = ''stuck'' then do {
          set_ci repo (ID t) CIStatusStuck (HeadRefOid view);
          ci_notify w NoteStuck t 0;
          ret (Inr ())
        }
        else if status = ''failed'' then handleFailure w repo t (HeadRefOid view) failedRuns
        else ret (Inr ()))
   }"

definition pr_open_stage :: "watcher \<Rightarrow> world task_repo \<Rightarrow> task \<Rightarrow> unit result prog" where
  "pr_open_stage w repo t = do {
     v \<leftarrow> fetchPRView w t;
     (case v of
        Inl e \<Rightarrow> ret (Inl (EWrap ''gh pr view'' e))
      | Inr view \<Rightarrow>
          if PrState view \<noteq> '''' \<and> PrState view \<noteq> ''OPEN'' then do {
            set_ci repo (ID t) CIStatusClosed (HeadRefOid view);
            ret (Inr ())
          }
          else do {
            cs \<leftarrow> fetchChecks w t;
            (case cs of
               Inl e \<Rightarrow> ret (Inl (EWrap ''gh pr checks'' e))
             | Inr checks \<Rightarrow> checks_stage w repo t view checks)
          })
   }"

text \<open>The clock is read for the timeout only when the first two conditions hold.\<close>

definition timed_out :: "watcher \<Rightarrow> task \<Rightarrow> bool prog" where
  "timed_out w t =
     (if \<not> is_zero (UpdatedAt t) \<and> 0 < WatchPollTimeout (WatchCfg w)
      then do { now \<leftarrow> now_prog; ret (WatchPollTimeout (WatchCfg w) < now - UpdatedAt t) }
      else ret False)"

definition loaded_stage :: "watcher \<Rightarrow> world task_repo \<Rightarrow> string \<Rightarrow> task \<Rightarrow> unit result prog" where
  "loaded_stage w repo i t =
     (if PRNumber t = 0 then do { set_ci repo i CIStatusEmpty (HeadSHA t); ret (Inr ()) }
      else do {
        late \<leftarrow> timed_out w t;
        if late then do {
          set_ci repo i CIStatusTimeout (HeadSHA t);
          ci_notify w NoteTimeout t 0;
          ret (Inr ())
        }
        else pr_open_stage w repo t
      })"

definition processTask :: "watcher \<Rightarrow> world task_repo \<Rightarrow> string \<Rightarrow> unit result prog" where
  "processTask w repo i = do {
     r \<leftarrow> call (GetByID repo i);
     (case r of Inl e \<Rightarrow> ret (Inl (EWrap ''load task'' e)) | Inr t \<Rightarrow> loaded_stage w repo i t)
   }"

primrec process_all :: "watcher \<Rightarrow> world task_repo \<Rightarrow> string list \<Rightarrow> unit prog" where
  "process_all w repo [] = ret ()"
| "process_all w repo (i # is) = do { _ \<leftarrow> processTask w repo i; process_all w repo is }"

definition ci_tick :: "watcher \<Rightarrow> world task_repo \<Rightarrow> unit prog" where
  "ci_tick w repo = do {
     r \<leftarrow> call (ListWatchingIDs repo);
     (case r of Inl _ \<Rightarrow> ret () | Inr ids \<Rightarrow> process_all w repo ids)
   }"

primrec ci_loop :: "watcher \<Rightarrow> world task_repo \<Rightarrow> sched_event list \<Rightarrow> unit prog" where
  "ci_loop w repo [] = ret ()"
| "ci_loop w repo (ev # evs) =
     (if ev = TickerFired then do { ci_tick w repo; ci_loop w repo evs } else ret ())"

definition StartWatcher :: "watcher \<Rightarrow> sched_event list \<Rightarrow> unit prog" where
  "StartWatcher w evs =
     (case WatchRepo w of
        None \<Rightarrow> ret ()
      | Some repo \<Rightarrow>
          if \<not> WatchEnabled (WatchCfg w) \<or> WatchPollInterval (WatchCfg w) \<le> 0 then ret ()
          else ci_loop w repo evs)"

section \<open>The wired watcher\<close>

text \<open>ciFixEnqueuerAdapter and ciSlackAdapter of cmd/claude-ops/main.go (the latter only
  logs), and the watcher run() builds.\<close>

definition ciFixEnqueuerAdapter :: "task_usecase \<Rightarrow> fix_task_input \<Rightarrow> task result prog" where
  "ciFixEnqueuerAdapter uc inp = EnqueueFixTask uc inp"

definition ciSlackAdapter :: ci_slack where
  "ciSlackAdapter = \<lparr> NotifyCIPassed = (\<lambda>t. ret ()), NotifyCIFixEnqueued = (\<lambda>t a m. ret ()),
     NotifyCIExhausted = (\<lambda>t a. ret ()), NotifyCIStuck = (\<lambda>t. ret ()), NotifyCITimeout = (\<lambda>t. ret ()) \<rparr>"

definition wired_watcher :: "config \<Rightarrow> task_usecase \<Rightarrow> (prompt_data \<Rightarrow> string result) \<Rightarrow> watcher" where
  "wired_watcher cfg uc tmpl = \<lparr>
     WatchCfg = \<lparr> WatchEnabled = True, WatchMaxAttempts = MaxAttempts (CIFix cfg),
       WatchPollInterval = CIPollInterval (CIFix cfg), WatchPollTimeout = CIPollTimeout (CIFix cfg),
       WatchComment = CommentOnExhaustion (CIFix cfg) \<rparr>,
     WatchRepo = Some (gorm_task_repo True), WatchEvents = Some gorm_event_repo,
     WatchEnqueue = ciFixEnqueuerAdapter uc, WatchGh = Some RunGh, WatchSlack = Some ciSlackAdapter,
     WatchPrompts = Some tmpl \<rparr>"

section \<open>What a poll may change\<close>

text \<open>The columns of the watcher; exhausted only at the limit of the attempts.\<close>

definition ci_change :: "int \<Rightarrow> task \<Rightarrow> task \<Rightarrow> bool" where
  "ci_change m u u' = ((\<exists>st sha tp x. u' = u\<lparr> CIStatus := st, HeadSHA := sha, CILastPolledAt := tp, UpdatedAt := x \<rparr>) \<and>
     (CIStatus u' = CIStatusExhausted \<longrightarrow> CIStatus u = CIStatusExhausted \<or> m \<le> FixAttemptCount u))"

definition ci_new :: "int \<Rightarrow> task \<Rightarrow> bool" where
  "ci_new m u = (TaskType u = TaskTypeCIFix \<and> Status u = TaskStatusQueued \<and>
     (CIStatus u = CIStatusExhausted \<longrightarrow> m \<le> FixAttemptCount u))"

definition ci_view :: "int \<Rightarrow> (string \<Rightarrow> task option) \<Rightarrow> (string \<Rightarrow> task option) \<Rightarrow> bool" where
  "ci_view m v v' = (\<forall>i. case v i of
     Some u \<Rightarrow> (\<exists>u'. v' i = Some u' \<and> ci_change m u u')
   | None \<Rightarrow> (\<forall>u'. v' i = Some u' \<longrightarrow> ci_new m u'))"

lemma ci_change_refl: "ci_change m u u"
  unfolding ci_change_def by (intro conjI exI[of _ "CIStatus u"] exI[of _ "HeadSHA u"] exI[of _ "CILastPolledAt u"]
      exI[of _ "UpdatedAt u"]) simp_all

lemma ci_change_trans:
  assumes "ci_change m u v" "ci_change m v x"
  shows "ci_change m u x"
proof -
  obtain a1 b1 c1 d1 where v: "v = u\<lparr> CIStatus := a1, HeadSHA := b1, CILastPolledAt := c1, UpdatedAt := d1 \<rparr>"
    using assms(1) unfolding ci_change_def by blast
  obtain a2 b2 c2 d2 where x: "x = v\<lparr> CIStatus := a2, HeadSHA := b2, CILastPolledAt := c2, UpdatedAt := d2 \<rparr>"
    using assms(2) unfolding ci_change_def by blast
  have "x = u\<lparr> CIStatus := a2, HeadSHA := b2, CILastPolledAt := c2, UpdatedAt := d2 \<rparr>" unfolding x v by simp
  moreover have "FixAttemptCount v = FixAttemptCount u" unfolding v by simp
  ultimately show ?thesis using assms unfolding ci_change_def by metis
qed

lemma ci_change_count: "ci_change m u v \<Longrightarrow> FixAttemptCount v = FixAttemptCount u"
  by (auto simp: ci_change_def)

lemma ci_new_change: "ci_new m u \<Longrightarrow> ci_change m u v \<Longrightarrow> ci_new m v"
  by (auto simp: ci_new_def ci_change_def)

lemma ci_view_refl [simp]: "ci_view m v v"
  by (auto simp: ci_view_def ci_change_refl split: option.split)

lemma ci_view_Some: "ci_view m a b \<Longrightarrow> a i = Some u \<Longrightarrow> \<exists>u'. b i = Some u' \<and> ci_change m u u'"
  unfolding ci_view_def by (drule spec[of _ i]) simp

lemma ci_view_None: "ci_view m a b \<Longrightarrow> a i = None \<Longrightarrow> b i = Some u' \<Longrightarrow> ci_new m u'"
  unfolding ci_view_def by (drule spec[of _ i]) simp

lemma ci_viewI:
  "(\<And>i u. a i = Some u \<Longrightarrow> \<exists>u'. b i = Some u' \<and> ci_change m u u') \<Longrightarrow>
   (\<And>i u'. a i = None \<Longrightarrow> b i = Some u' \<Longrightarrow> ci_new m u') \<Longrightarrow> ci_view m a b"
  unfolding ci_view_def by (simp split: option.split)

lemma ci_view_trans:
  assumes "ci_view m a b" "ci_view m b c"
  shows "ci_view m a c"
proof (rule ci_viewI)
  fix i u assume "a i = Some u"
  then obtain v where v: "b i = Some v" "ci_change m u v" using ci_view_Some[OF assms(1)] by blast
  then obtain x where "c i = Some x" "ci_change m v x" using ci_view_Some[OF assms(2)] by blast
  then show "\<exists>x. c i = Some x \<and> ci_change m u x" using ci_change_trans[OF v(2)] by blast
next
  fix i x assume a: "a i = None" and c: "c i = Some x"
  show "ci_new m x"
  proof (cases "b i")
    case None
    then show ?thesis using ci_view_None[OF assms(2) _ c] by blast
  next
    case (Some v)
    then show ?thesis using ci_view_None[OF assms(1) a Some] ci_view_Some[OF assms(2) Some] c ci_new_change by auto
  qed
qed

lemma ci_view_upd: "v i = Some u \<Longrightarrow> ci_change m u u' \<Longrightarrow> ci_view m v (v(i \<mapsto> u'))"
  by (rule ci_viewI) (auto simp: ci_change_refl split: if_splits)

text \<open>Outside a set of ids no task changes, and a task that appears is not watched.\<close>

definition untouched :: "string set \<Rightarrow> (string \<Rightarrow> task option) \<Rightarrow> (string \<Rightarrow> task option) \<Rightarrow> bool" where
  "untouched S v v' = (\<forall>i. i \<notin> S \<longrightarrow> (case v i of
     Some u \<Rightarrow> v' i = Some u
   | None \<Rightarrow> (\<forall>u. v' i = Some u \<longrightarrow> CIStatus u \<noteq> CIStatusWatching)))"

lemma untouched_refl [simp]: "untouched S v v"
  by (simp add: untouched_def split: option.split)

lemma untouched_trans:
  assumes "untouched S a b" "untouched S b c"
  shows "untouched S a c"
  unfolding untouched_def
proof (intro allI impI)
  fix i assume "i \<notin> S"
  then show "case a i of Some u \<Rightarrow> c i = Some u | None \<Rightarrow> (\<forall>u. c i = Some u \<longrightarrow> CIStatus u \<noteq> CIStatusWatching)"
    using assms unfolding untouched_def by (cases "a i"; cases "b i") (force split: option.splits)+
qed

lemma untouched_mono: "untouched S a b \<Longrightarrow> S \<subseteq> T \<Longrightarrow> untouched T a b"
  unfolding untouched_def by blast

lemma untouched_upd: "i \<in> S \<or> v i = None \<and> CIStatus u \<noteq> CIStatusWatching \<Longrightarrow> untouched S v (v(i \<mapsto> u))"
  by (auto simp: untouched_def split: option.split)

text \<open>A program that keeps the environment, the constraints, the row of the task it loaded, and
  changes that task only, as a poll may.\<close>

definition row_is :: "task \<Rightarrow> world \<Rightarrow> bool" where
  "row_is t w = (\<exists>u. task_view w (ID t) = Some u \<and> FixAttemptCount u = FixAttemptCount t)"

definition polls :: "int \<Rightarrow> task \<Rightarrow> world \<Rightarrow> world \<Rightarrow> bool" where
  "polls m t w w' = (same_env w w' \<and> (wf_db w \<and> row_is t w \<longrightarrow>
     wf_db w' \<and> ci_view m (task_view w) (task_view w') \<and> untouched {ID t} (task_view w) (task_view w')))"

lemma polls_row: "polls m t w w' \<Longrightarrow> wf_db w \<Longrightarrow> row_is t w \<Longrightarrow> row_is t w'"
  unfolding polls_def row_is_def using ci_view_Some ci_change_count by metis

lemma polls_reflp [simp]: "reflp (polls m t)"
  by (simp add: reflp_def polls_def same_env_def)

lemma polls_transp [simp]: "transp (polls m t)"
proof (rule transpI)
  fix a b c assume ab: "polls m t a b" and bc: "polls m t b c"
  show "polls m t a c"
    unfolding polls_def
  proof (intro conjI impI)
    show "same_env a c" using ab bc same_env_trans by (auto simp: polls_def)
    assume w: "wf_db a \<and> row_is t a"
    then have b: "wf_db b" "row_is t b" "ci_view m (task_view a) (task_view b)" "untouched {ID t} (task_view a) (task_view b)"
      using ab polls_row by (auto simp: polls_def)
    then have c: "wf_db c" "ci_view m (task_view b) (task_view c)" "untouched {ID t} (task_view b) (task_view c)"
      using bc by (auto simp: polls_def)
    show "wf_db c" by (rule c(1))
    show "ci_view m (task_view a) (task_view c)" by (rule ci_view_trans[OF b(3) c(2)])
    show "untouched {ID t} (task_view a) (task_view c)" by (rule untouched_trans[OF b(4) c(3)])
  qed
qed

lemma polls_bind [keeps_intros]:
  "state_io_rel (polls m t) p \<Longrightarrow> (\<And>a. state_io_rel (polls m t) (f a)) \<Longrightarrow>
   state_io_rel (polls m t) (State_Monad.bind p f)"
  by (rule keeps_bind) simp_all

lemma polls_return [keeps_intros]: "state_io_rel (polls m t) (ret a)"
  by (rule keeps_return) simp

lemma polls_when_some [keeps_intros]:
  "(\<And>a. x = Some a \<Longrightarrow> state_io_rel (polls m t) (f a)) \<Longrightarrow> state_io_rel (polls m t) (when_some x f)"
  by (rule keeps_when_some) simp_all

lemma kept_polls: "kept F w w' \<Longrightarrow> polls m t w w'"
  using task_view_rows_eq[of w' w] by (auto simp: kept_def grows_def polls_def)

lemma keeps_kept_polls: "state_io_rel (kept F) p \<Longrightarrow> state_io_rel (polls m t) p"
  unfolding state_io_rel_def using kept_polls by blast

lemma polls_now [keeps_intros]: "state_io_rel (polls m t) now_prog"
  by (rule keeps_kept_polls[OF kept_prims(2)])

lemma polls_call: "(\<And>w. polls m t w (snd (f w))) \<Longrightarrow> state_io_rel (polls m t) (call f)"
  by (auto simp: state_io_rel_def)

lemma polls_update_ci:
  assumes "st \<noteq> CIStatusExhausted \<or> m \<le> FixAttemptCount t"
  shows "polls m t w (snd (UpdateCIStatus (gorm_task_repo True) (ID t) st sha tp w))"
  unfolding polls_def
proof (intro conjI[of "same_env _ _"] impI)
  show "same_env w (snd (UpdateCIStatus (gorm_task_repo True) (ID t) st sha tp w))"
    using repo_kept(2)[of UNIV w True "ID t" st sha tp] by (simp add: gorm_task_repo_def grows_def)
  assume w: "wf_db w \<and> row_is t w"
  obtain r w' where r: "UpdateCIStatus (gorm_task_repo True) (ID t) st sha tp w = (r, w')" by fastforce
  obtain u where u: "task_view w (ID t) = Some u" "FixAttemptCount u = FixAttemptCount t"
    using w by (auto simp: row_is_def)
  have "wf_db w' \<and> (task_view w' = task_view w \<or> (\<exists>x. task_view w' = (task_view w)(ID t \<mapsto> u\<lparr> CIStatus := st,
      HeadSHA := sha, CILastPolledAt := (if is_zero tp then None else Some tp), UpdatedAt := x \<rparr>)))"
    using gorm_task.UpdateCIStatus_ok[of w True "ID t" st sha tp w'] gorm_task.UpdateCIStatus_err[of w True "ID t" st sha tp _ w']
      r w u(1) by (cases r) auto
  moreover have "ci_change m u (u\<lparr> CIStatus := st, HeadSHA := sha, CILastPolledAt := p, UpdatedAt := x \<rparr>)" for p x
    unfolding ci_change_def using assms u(2) by auto
  ultimately show "wf_db (snd (UpdateCIStatus (gorm_task_repo True) (ID t) st sha tp w)) \<and>
      ci_view m (task_view w) (task_view (snd (UpdateCIStatus (gorm_task_repo True) (ID t) st sha tp w))) \<and>
      untouched {ID t} (task_view w) (task_view (snd (UpdateCIStatus (gorm_task_repo True) (ID t) st sha tp w)))"
    using r ci_view_upd[of "task_view w" "ID t", OF u(1)] untouched_upd[of "ID t" "{ID t}"] by force
qed

section \<open>The stages of a poll\<close>

lemma polls_set_ci:
  assumes "st \<noteq> CIStatusExhausted \<or> m \<le> FixAttemptCount t"
  shows "state_io_rel (polls m t) (set_ci (gorm_task_repo True) (ID t) st sha)"
  unfolding set_ci_def by (intro keeps_intros polls_call polls_update_ci assms)

lemma polls_event:
  assumes "WatchEvents w = Some gorm_event_repo"
  shows "state_io_rel (polls m t) (ci_recordEvent w i k j)"
  unfolding ci_recordEvent_def assms
  by (intro keeps_intros polls_call) (auto simp: gorm_event_repo_def intro: kept_polls[OF repo_kept(3)[of UNIV]])

lemma polls_gh: "state_io_rel (polls m t) (RunGh args)"
  by (rule keeps_kept_polls[OF keeps_frame_kept[OF gh_frame[of t UNIV]]]) simp

lemma polls_read:
  assumes "\<And>w. wf_db w \<Longrightarrow> wf_db (snd (f w)) \<and> task_view (snd (f w)) = task_view w" "\<And>w. same_env w (snd (f w))"
  shows "state_io_rel (polls m t) (call f)"
  by (rule polls_call) (auto simp: polls_def dest: assms(1) intro: assms(2))

lemma get_steps: "snd (repo_GetByID i d) = d\<lparr> ops := Suc (ops d) \<rparr>"
proof -
  obtain r d' where r: "repo_GetByID i d = (r, d')" by fastforce
  show ?thesis by (rule repo_GetByID_cases[OF r]) (simp_all add: r)
qed

lemma find_env: "same_env w (snd (FindFixChild (gorm_task_repo True) p sha w))" for w :: world
proof -
  obtain x w1 where x: "exec (FindFixChildTaskID (null_string p) sha) w = (x, w1)" by fastforce
  then have w1: "w1 = w\<lparr> ops := Suc (ops w) \<rparr>"
    by (cases rule: exec_query) (simp_all add: FindFixChildTaskID_def split: option.split)
  have "\<exists>n \<ge> ops w. snd (repo_FindFixChild True p sha w) = w\<lparr> ops := n \<rparr>"
    using get_steps[of _ w1]
    by (auto simp: repo_FindFixChild_def x w1 split_beta' split: sum.splits intro: le_SucI)
  then show ?thesis by (auto simp: same_env_def gorm_task_repo_def)
qed

lemma polls_find: "state_io_rel (polls m t) (call (FindFixChild (gorm_task_repo True) p sha))"
  by (rule polls_read) (metis gorm_task.FindFixChild_keeps prod.collapse, rule find_env)

lemma created_view:
  assumes "wf_db w" "Create (gorm_task_repo True) t w = (r, w')" "TaskType t = TaskTypeCIFix"
    "Status t = TaskStatusQueued" "CIStatus t = CIStatusEmpty"
  shows "wf_db w' \<and> ci_view m (task_view w) (task_view w') \<and> untouched S (task_view w) (task_view w')"
proof -
  note c = gorm_task.Create_view[OF assms(1,2)]
  have "ci_new m u" if "stored_as t u" for u
    using that assms(3-5) by (auto simp: stored_as_def ci_new_def norm_task_def)
  moreover have "ci_view m v (v(i \<mapsto> u))" if "v i = None" "ci_new m u" for v :: "string \<Rightarrow> task option" and i u
    using that by (intro ci_viewI) (auto simp: ci_change_refl split: if_splits)
  moreover have "CIStatus u \<noteq> CIStatusWatching" if "stored_as t u" for u
    using that assms(5) by (auto simp: stored_as_def norm_task_def)
  ultimately show ?thesis using c untouched_upd[of _ S "task_view w"] by (metis ci_view_refl untouched_refl)
qed

lemma create_env: "same_env w (snd (Create (gorm_task_repo True) t w))" for w :: world
proof -
  have "grows UNIV w (snd (repo_Create t w))"
    unfolding repo_Create_def snd_mapped by (rule exec_grows) (auto simp: sql_insert_task_def Let_def)
  then show ?thesis by (simp add: gorm_task_repo_def grows_def)
qed

lemma polls_fix:
  assumes "UcTaskRepo uc = gorm_task_repo True"
  shows "state_io_rel (polls m t) (EnqueueFixTask uc inp)"
proof (cases "FixParent inp")
  case None
  then show ?thesis by (simp add: EnqueueFixTask_def polls_return)
next
  case (Some p)
  have u: "state_io_rel (polls m t) (ask uuids)" by (rule keeps_kept_polls[OF keeps_frame_kept[OF frame_ask[where F = UNIV]]])
  show ?thesis
    unfolding EnqueueFixTask_def Some option.case Let_def assms
  proof (intro keeps_intros u polls_call)
    fix now i and w :: world
    let ?t = "zero_task\<lparr> ID := i, RepoFullName := RepoFullName p, IssueNumber := IssueNumber p,
                IssueTitle := IssueTitle p, TaskType := TaskTypeCIFix, Status := TaskStatusQueued,
                Source := Source p, PromptTemplate := FixPrompt inp, WorktreePath := WorktreePath p,
                ParentTaskID := Some (ID p), FixAttemptCount := wrap64 (FixAttemptCount p + 1),
                HeadSHA := FixHeadSHA inp, CreatedAt := now, UpdatedAt := now \<rparr>"
    obtain r w' where r: "Create (gorm_task_repo True) ?t w = (r, w')" by fastforce
    have "wf_db w \<Longrightarrow> wf_db w' \<and> ci_view m (task_view w) (task_view w') \<and> untouched {ID t} (task_view w) (task_view w')"
      by (rule created_view[OF _ r]) (simp_all add: zero_task_def)
    then show "polls m t w (snd (Create (gorm_task_repo True) ?t w))" using r create_env[of w ?t] by (simp add: polls_def)
  qed
qed

lemma wired_watcher_simps [simp]:
  "WatchEvents (wired_watcher cfg uc tmpl) = Some gorm_event_repo"
  "WatchGh (wired_watcher cfg uc tmpl) = Some RunGh"
  "WatchEnqueue (wired_watcher cfg uc tmpl) = EnqueueFixTask uc"
  "WatchSlack (wired_watcher cfg uc tmpl) = Some ciSlackAdapter"
  "WatchMaxAttempts (WatchCfg (wired_watcher cfg uc tmpl)) = MaxAttempts (CIFix cfg)"
  by (simp_all add: wired_watcher_def ciFixEnqueuerAdapter_def fun_eq_iff)

lemma polls_notify: "state_io_rel (polls m t) (ci_notify (wired_watcher cfg uc tmpl) k u a)"
  unfolding ci_notify_def by (intro keeps_intros) (auto simp: ciSlackAdapter_def polls_return split: ci_note.split)

text \<open>The limit is compared with the attempts of the loaded task, so every stage stays
  within the relation for the limit of the configuration.\<close>

lemma polls_failure:
  assumes "UcTaskRepo uc = gorm_task_repo True"
  shows "state_io_rel (polls (MaxAttempts (CIFix cfg)) t)
    (handleFailure (wired_watcher cfg uc tmpl) (gorm_task_repo True) t sha failed)"
proof -
  let ?m = "MaxAttempts (CIFix cfg)" and ?w = "wired_watcher cfg uc tmpl"
  have ctx: "state_io_rel (polls ?m t) (collectFailureContext ?w t failed)"
    unfolding collectFailureContext_def by (auto intro!: keeps_intros polls_gh split: list.split)
  have watching: "state_io_rel (polls ?m t) (set_ci (gorm_task_repo True) (ID t) CIStatusWatching sha)"
    by (rule polls_set_ci) simp
  have slack: "state_io_rel (polls ?m t) (NotifyCIFixEnqueued ciSlackAdapter t a b)" for a b
    by (simp add: ciSlackAdapter_def polls_return)
  show ?thesis
  proof (cases "?m \<le> FixAttemptCount t")
    case True
    then have "state_io_rel (polls ?m t) (set_ci (gorm_task_repo True) (ID t) CIStatusExhausted sha)"
      by (intro polls_set_ci) simp
    then show ?thesis
      unfolding handleFailure_def wired_watcher_simps if_P[OF True] when_some_def option.case
      by (intro keeps_intros polls_event polls_find polls_gh polls_notify) simp_all
  next
    case False
    show ?thesis
      unfolding handleFailure_def wired_watcher_simps if_not_P[OF False] when_some_def option.case Let_def
      by (intro keeps_intros polls_event polls_find polls_fix assms ctx watching slack) simp_all
  qed
qed

lemma polls_checks:
  assumes "UcTaskRepo uc = gorm_task_repo True"
  shows "state_io_rel (polls (MaxAttempts (CIFix cfg)) t)
    (checks_stage (wired_watcher cfg uc tmpl) (gorm_task_repo True) t view checks)"
proof -
  have s: "state_io_rel (polls m t) (set_ci (gorm_task_repo True) (ID t) st sha)" if "st \<noteq> CIStatusExhausted" for m st sha
    using that by (intro polls_set_ci) simp
  show ?thesis
    unfolding checks_stage_def
    by (intro keeps_intros polls_event polls_notify polls_failure assms s polls_call polls_update_ci) simp_all
qed

lemma polls_open:
  assumes "UcTaskRepo uc = gorm_task_repo True"
  shows "state_io_rel (polls (MaxAttempts (CIFix cfg)) t)
    (pr_open_stage (wired_watcher cfg uc tmpl) (gorm_task_repo True) t)"
proof -
  have "state_io_rel (polls m t) (set_ci (gorm_task_repo True) (ID t) CIStatusClosed sha)" for m sha
    by (intro polls_set_ci) simp
  moreover have "state_io_rel (polls m t) (fetchPRView (wired_watcher cfg uc tmpl) t)"
    "state_io_rel (polls m t) (fetchChecks (wired_watcher cfg uc tmpl) t)" for m
    unfolding fetchPRView_def fetchChecks_def run_gh_def by (simp_all, (intro keeps_intros polls_gh)+)
  ultimately show ?thesis
    unfolding pr_open_stage_def by (intro keeps_intros polls_checks assms)
qed

section \<open>A poll of all watched tasks\<close>

definition ci_run :: "int \<Rightarrow> string set \<Rightarrow> world \<Rightarrow> world \<Rightarrow> bool" where
  "ci_run m S w w' = (same_env w w' \<and> (wf_db w \<longrightarrow>
     wf_db w' \<and> ci_view m (task_view w) (task_view w') \<and> untouched S (task_view w) (task_view w')))"

lemma ci_run_reflp [simp]: "reflp (ci_run m S)"
  by (simp add: reflp_def ci_run_def same_env_def)

lemma ci_run_transp [simp]: "transp (ci_run m S)"
  unfolding transp_def ci_run_def using ci_view_trans untouched_trans same_env_trans by blast

lemma ci_run_process:
  assumes "UcTaskRepo uc = gorm_task_repo True" "i \<in> S"
  shows "state_io_rel (ci_run (MaxAttempts (CIFix cfg)) S)
    (processTask (wired_watcher cfg uc tmpl) (gorm_task_repo True) i)"
proof (rule state_io_relI)
  let ?m = "MaxAttempts (CIFix cfg)" and ?W = "wired_watcher cfg uc tmpl"
  fix x w w' assume run: "run_state (processTask ?W (gorm_task_repo True) i) w = (x, w')"
  obtain r w1 where r: "GetByID (gorm_task_repo True) i w = (r, w1)" by fastforce
  have w1: "same_env w w1" "wf_db w1 = wf_db w" "task_view w1 = task_view w"
    using get_steps[of i w] r by (auto simp: gorm_task_repo_def same_env_def wf_db_def task_view_def row_at_def)
  show "ci_run ?m S w w'"
  proof (cases r)
    case (Inl e)
    then show ?thesis using run r w1 by (simp add: processTask_def ci_run_def)
  next
    case (Inr t)
    have s: "state_io_rel (polls ?m t) (set_ci (gorm_task_repo True) j st sha)" if "st \<noteq> CIStatusExhausted" "j = ID t" for st sha j
      using that by (auto intro!: polls_set_ci)
    have "state_io_rel (polls ?m t) (timed_out ?W t)"
      unfolding timed_out_def by (intro keeps_intros)
    then have l: "state_io_rel (polls ?m t) (loaded_stage ?W (gorm_task_repo True) (ID t) t)"
      unfolding loaded_stage_def by (intro keeps_intros polls_open polls_notify assms s) simp_all
    have run1: "run_state (loaded_stage ?W (gorm_task_repo True) i t) w1 = (x, w')"
      using run r Inr by (simp add: processTask_def)
    have g: "repo_GetByID i w = (Inr t, w1)" using r Inr by (simp add: gorm_task_repo_def)
    then have "ID t = i" by (cases rule: repo_GetByID_cases) (auto simp: row_at_def dest: find_gID)
    then have p: "polls ?m t w1 w'" using state_io_relD[OF l] run1 by simp
    show ?thesis
      unfolding ci_run_def
    proof (intro conjI[of "same_env _ _"] impI)
      show "same_env w w'" using p w1(1) same_env_trans by (auto simp: polls_def)
      assume wf: "wf_db w"
      then have "row_is t w1"
        using gorm_task.GetByID_found[OF wf r[unfolded Inr]] \<open>ID t = i\<close> w1(3) by (simp add: row_is_def)
      then show "wf_db w' \<and> ci_view ?m (task_view w) (task_view w') \<and> untouched S (task_view w) (task_view w')"
        using p w1 wf \<open>ID t = i\<close> assms(2) untouched_mono[of "{i}" _ _ S] by (auto simp: polls_def)
    qed
  qed
qed

lemma ci_run_all:
  "UcTaskRepo uc = gorm_task_repo True \<Longrightarrow> set is \<subseteq> S \<Longrightarrow> state_io_rel (ci_run (MaxAttempts (CIFix cfg)) S)
    (process_all (wired_watcher cfg uc tmpl) (gorm_task_repo True) is)"
  by (induction "is") (auto intro!: keeps_bind keeps_return ci_run_process)

text \<open>Only watched tasks are listed, so a poll leaves every other task alone.\<close>

definition ci_step :: "int \<Rightarrow> world \<Rightarrow> world \<Rightarrow> bool" where
  "ci_step m w w' = (same_env w w' \<and> (wf_db w \<longrightarrow> wf_db w' \<and> ci_view m (task_view w) (task_view w') \<and>
     untouched {i. \<exists>u. task_view w i = Some u \<and> CIStatus u = CIStatusWatching} (task_view w) (task_view w')))"

lemma ci_step_reflp [simp]: "reflp (ci_step m)"
  by (simp add: reflp_def ci_step_def same_env_def)

lemma ci_step_transp [simp]: "transp (ci_step m)"
proof (rule transpI)
  fix a b c assume ab: "ci_step m a b" and bc: "ci_step m b c"
  let ?S = "\<lambda>w. {i. \<exists>u. task_view w i = Some u \<and> CIStatus u = CIStatusWatching}"
  show "ci_step m a c"
    unfolding ci_step_def
  proof (intro conjI[of "same_env _ _"] impI)
    show "same_env a c" using ab bc same_env_trans by (auto simp: ci_step_def)
    assume wf: "wf_db a"
    then have u: "untouched (?S a) (task_view a) (task_view b)" "untouched (?S b) (task_view b) (task_view c)"
      using ab bc by (auto simp: ci_step_def)
    have "?S b \<subseteq> ?S a" using u(1) unfolding untouched_def by (force split: option.splits)
    then have "untouched (?S a) (task_view a) (task_view c)" using untouched_trans[OF u(1)] untouched_mono[OF u(2)] by blast
    then show "wf_db c \<and> ci_view m (task_view a) (task_view c) \<and> untouched (?S a) (task_view a) (task_view c)"
      using ab bc wf ci_view_trans by (auto simp: ci_step_def)
  qed
qed

lemma watching_listed:
  fixes w :: world
  assumes "ListWatchingIDs (gorm_task_repo True) w = (r, w1)"
  shows "w1 = w\<lparr> ops := Suc (ops w) \<rparr>"
    "wf_db w \<Longrightarrow> r = Inr is \<Longrightarrow> set is \<subseteq> {i. \<exists>u. task_view w i = Some u \<and> CIStatus u = CIStatusWatching}"
proof -
  obtain x where x: "exec ListWatchingTaskIDs w = (x, w1)" "\<And>is. r = Inr is \<Longrightarrow> x = Inr is"
    using assms by (auto simp: gorm_task_repo_def repo_ListWatchingIDs_def split: prod.splits sum.splits)
  have q: "snd (ListWatchingTaskIDs n e) = e" for n and e :: world by (simp add: ListWatchingTaskIDs_def)
  show "w1 = w\<lparr> ops := Suc (ops w) \<rparr>" by (rule exec_query[OF x(1) q]) simp_all
  assume wf: "wf_db w" and r: "r = Inr is"
  show "set is \<subseteq> {i. \<exists>u. task_view w i = Some u \<and> CIStatus u = CIStatusWatching}"
  proof (rule exec_query[OF x(1) q])
    assume answer: "x = fst (ListWatchingTaskIDs (clock w (ops w)) (w\<lparr> ops := Suc (ops w) \<rparr>))"
    show ?thesis
    proof
      fix i assume "i \<in> set is"
      then obtain g where g: "g \<in> set (task_rows w)" "gID g = i" "gCIStatus g = CIStatusWatching"
        using answer x(2)[OF r] by (auto simp: ListWatchingTaskIDs_def Let_def)
      then have "task_view w i = Some (toDomainTask g)" using row_at_mem[OF wf g(1)] by (simp add: task_view_Some)
      then show "i \<in> {i. \<exists>u. task_view w i = Some u \<and> CIStatus u = CIStatusWatching}" using g(3) by simp
    qed
  qed (use x(2)[OF r] in simp)
qed

lemma ci_step_tick:
  assumes "UcTaskRepo uc = gorm_task_repo True"
  shows "state_io_rel (ci_step (MaxAttempts (CIFix cfg))) (ci_tick (wired_watcher cfg uc tmpl) (gorm_task_repo True))"
proof (rule state_io_relI)
  let ?m = "MaxAttempts (CIFix cfg)" and ?W = "wired_watcher cfg uc tmpl"
  fix x w w' assume run: "run_state (ci_tick ?W (gorm_task_repo True)) w = (x, w')"
  obtain r w1 where r: "ListWatchingIDs (gorm_task_repo True) w = (r, w1)" by fastforce
  note l = watching_listed[OF r]
  have w1: "same_env w w1" "wf_db w1 = wf_db w" "task_view w1 = task_view w"
    unfolding l(1) by (auto simp: same_env_def wf_db_def task_view_def row_at_def)
  show "ci_step ?m w w'"
  proof (cases r)
    case (Inl e)
    then show ?thesis using run r w1 by (simp add: ci_tick_def ci_step_def)
  next
    case (Inr "is")
    then have run1: "run_state (process_all ?W (gorm_task_repo True) is) w1 = (x, w')" using run r by (simp add: ci_tick_def)
    have c: "ci_run ?m (set is) w1 w'" by (rule state_io_relD[OF ci_run_all[OF assms subset_refl] run1])
    show ?thesis
      unfolding ci_step_def
    proof (intro conjI[of "same_env _ _"] impI)
      show "same_env w w'" using c w1(1) same_env_trans by (auto simp: ci_run_def)
      assume wf: "wf_db w"
      show "wf_db w' \<and> ci_view ?m (task_view w) (task_view w') \<and>
          untouched {i. \<exists>u. task_view w i = Some u \<and> CIStatus u = CIStatusWatching} (task_view w) (task_view w')"
        using c w1 wf untouched_mono[OF _ l(2)[OF wf Inr]] by (auto simp: ci_run_def)
    qed
  qed
qed

lemma ci_step_start:
  assumes "UcTaskRepo uc = gorm_task_repo True"
  shows "state_io_rel (ci_step (MaxAttempts (CIFix cfg))) (StartWatcher (wired_watcher cfg uc tmpl) evs)"
proof -
  have "state_io_rel (ci_step (MaxAttempts (CIFix cfg))) (ci_loop (wired_watcher cfg uc tmpl) (gorm_task_repo True) evs)"
    by (induction evs) (auto intro!: keeps_bind keeps_return ci_step_tick assms)
  then show ?thesis
    by (auto simp: StartWatcher_def keeps_return wired_watcher_def split: option.split)
qed

text \<open>C9: whatever gh, Slack, the template and the database answer and for however many
  polls, the CI watcher keeps the constraints of the database; of a task that was stored it
  changes nothing but the CI columns and the time of the update, and marks it exhausted only
  when its count of attempts has reached the limit; the tasks it adds are queued ci-fix tasks.\<close>

theorem watcher_changes_only_ci:
  assumes "wf_db w" "UcTaskRepo uc = gorm_task_repo True"
  shows "case run_state (StartWatcher (wired_watcher cfg uc tmpl) evs) w of (_, w') \<Rightarrow>
    wf_db w' \<and> (\<forall>i. case task_view w i of
        Some u \<Rightarrow> (\<exists>st sha p x. task_view w' i = Some (u\<lparr> CIStatus := st, HeadSHA := sha, CILastPolledAt := p, UpdatedAt := x \<rparr>) \<and>
          (st = CIStatusExhausted \<longrightarrow> CIStatus u = CIStatusExhausted \<or> MaxAttempts (CIFix cfg) \<le> FixAttemptCount u))
      | None \<Rightarrow> (\<forall>u'. task_view w' i = Some u' \<longrightarrow> TaskType u' = TaskTypeCIFix \<and> Status u' = TaskStatusQueued))"
proof -
  obtain w' where r: "run_state (StartWatcher (wired_watcher cfg uc tmpl) evs) w = ((), w')"
    by (cases "run_state (StartWatcher (wired_watcher cfg uc tmpl) evs) w") simp
  have s: "wf_db w'" "ci_view (MaxAttempts (CIFix cfg)) (task_view w) (task_view w')"
    using state_io_relD[OF ci_step_start[OF assms(2)] r] assms(1) by (simp_all add: ci_step_def)
  have "case task_view w i of
        Some u \<Rightarrow> (\<exists>st sha p x. task_view w' i = Some (u\<lparr> CIStatus := st, HeadSHA := sha, CILastPolledAt := p, UpdatedAt := x \<rparr>) \<and>
          (st = CIStatusExhausted \<longrightarrow> CIStatus u = CIStatusExhausted \<or> MaxAttempts (CIFix cfg) \<le> FixAttemptCount u))
      | None \<Rightarrow> (\<forall>u'. task_view w' i = Some u' \<longrightarrow> TaskType u' = TaskTypeCIFix \<and> Status u' = TaskStatusQueued)" for i
  proof (cases "task_view w i")
    case None
    then show ?thesis using ci_view_None[OF s(2) None] by (auto simp: ci_new_def)
  next
    case (Some u)
    obtain u' where u: "task_view w' i = Some u'" "ci_change (MaxAttempts (CIFix cfg)) u u'"
      using ci_view_Some[OF s(2) Some] by blast
    then obtain st sha tp x where e: "u' = u\<lparr> CIStatus := st, HeadSHA := sha, CILastPolledAt := tp, UpdatedAt := x \<rparr>"
      unfolding ci_change_def by blast
    have "st = CIStatusExhausted \<longrightarrow> CIStatus u = CIStatusExhausted \<or> MaxAttempts (CIFix cfg) \<le> FixAttemptCount u"
      using u(2) unfolding ci_change_def e by simp
    then show ?thesis using Some u(1) unfolding e by (simp only: option.case) blast
  qed
  then show ?thesis using r s(1) by simp
qed

text \<open>C37: the limit of auto-fix attempts never stops the watcher at a task of an issue:
  its own count of attempts stays zero (the count is kept on the ci-fix child), so with a
  limit of at least one no such task is ever marked exhausted, however many of its fixes
  have failed.\<close>

theorem attempt_limit_never_reached:
  assumes "wf_db w" "UcTaskRepo uc = gorm_task_repo True" "1 \<le> MaxAttempts (CIFix cfg)"
    "\<And>i u. task_view w i = Some u \<Longrightarrow> TaskType u \<noteq> TaskTypeCIFix \<Longrightarrow>
       FixAttemptCount u = 0 \<and> CIStatus u \<noteq> CIStatusExhausted"
  shows "case run_state (StartWatcher (wired_watcher cfg uc tmpl) evs) w of (_, w') \<Rightarrow>
    \<forall>i u. task_view w' i = Some u \<longrightarrow> TaskType u \<noteq> TaskTypeCIFix \<longrightarrow>
      FixAttemptCount u = 0 \<and> CIStatus u \<noteq> CIStatusExhausted"
proof -
  obtain w' where r: "run_state (StartWatcher (wired_watcher cfg uc tmpl) evs) w = ((), w')"
    by (cases "run_state (StartWatcher (wired_watcher cfg uc tmpl) evs) w") simp
  have s: "ci_view (MaxAttempts (CIFix cfg)) (task_view w) (task_view w')"
    using state_io_relD[OF ci_step_start[OF assms(2)] r] assms(1) by (simp add: ci_step_def)
  have "FixAttemptCount u = 0 \<and> CIStatus u \<noteq> CIStatusExhausted"
    if u: "task_view w' i = Some u" "TaskType u \<noteq> TaskTypeCIFix" for i u
  proof (cases "task_view w i")
    case None
    then show ?thesis using ci_view_None[OF s None u(1)] u(2) by (simp add: ci_new_def)
  next
    case (Some v)
    then have c: "ci_change (MaxAttempts (CIFix cfg)) v u" using ci_view_Some[OF s Some] u(1) by auto
    then have "TaskType v = TaskType u" "FixAttemptCount u = FixAttemptCount v" by (auto simp: ci_change_def)
    then show ?thesis using assms(3) assms(4)[OF Some] u(2) c by (auto simp: ci_change_def)
  qed
  then show ?thesis using r by auto
qed

definition watched_sample :: world where
  "watched_sample = calm_world ((migrated_db (\<lambda>n. int n))\<lparr> task_rows :=
     [toGORMTask (queued_sample\<lparr> Status := TaskStatusDone, IssueNumber := 7, PRNumber := 12, CIStatus := CIStatusWatching \<rparr>)] \<rparr>)"

lemma watched_sample_ok: "wf_db watched_sample" "task_view watched_sample i = Some u \<Longrightarrow>
    FixAttemptCount u = 0 \<and> CIStatus u = CIStatusWatching \<and> i = ''t1''"
  by (auto simp: watched_sample_def wf_db_def wf_rows_def migrated_db_def queued_sample_def toGORMTask_def Let_def
      zero_task_def dedup_clash_def task_view_Some row_at_def toDomainTask_def split: if_splits)

lemma watcher_witness:
  "case run_state (StartWatcher (wired_watcher sample_config sample_usecase (\<lambda>d. Inr '''')) [TickerFired]) watched_sample of
     (_, w') \<Rightarrow> wf_db w'"
  using watcher_changes_only_ci[OF watched_sample_ok(1), of sample_usecase sample_config "\<lambda>d. Inr ''''" "[TickerFired]"]
  by (auto simp: sample_usecase_def split: prod.splits)

lemma attempt_limit_witness:
  "case run_state (StartWatcher (wired_watcher sample_config sample_usecase (\<lambda>d. Inr '''')) [TickerFired]) watched_sample of
     (_, w') \<Rightarrow> \<forall>i u. task_view w' i = Some u \<longrightarrow> TaskType u \<noteq> TaskTypeCIFix \<longrightarrow> CIStatus u \<noteq> CIStatusExhausted"
proof -
  have "FixAttemptCount u = 0 \<and> CIStatus u \<noteq> CIStatusExhausted" if "task_view watched_sample i = Some u" for i u
    using watched_sample_ok(2)[OF that] by simp
  then show ?thesis
    using attempt_limit_never_reached[OF watched_sample_ok(1), of sample_usecase sample_config "\<lambda>d. Inr ''''" "[TickerFired]"]
    by (auto simp: sample_usecase_def sample_config_def split: prod.splits)
qed

end
