(* ===== verification/Gc_Runner.thy ===== *)
theory Gc_Runner
  imports Wiring
begin

text \<open>internal/gc/runner.go: reconciling the tasks that were running when the service
  stopped, and removing the worktrees of tasks that ended long ago. A program runs alone here;
  the Slack hook is gcSlackAdapter of cmd/claude-ops/main.go.\<close>

section \<open>State and operations\<close>

record gc_runner =
  GcRetentionDays :: int
  GcInterval :: int
  GcTasks :: "world task_repo"
  GcGit :: "string list \<Rightarrow> (string \<times> go_error option) prog"
  GcSlack :: "(task \<Rightarrow> go_error option prog) option"

definition ExecGit :: "string list \<Rightarrow> (string \<times> go_error option) prog" where
  "ExecGit args = shell_ctx '''' (''git'' # args)"

definition NewGcRunner :: "int \<Rightarrow> int \<Rightarrow> world task_repo \<Rightarrow> (string list \<Rightarrow> (string \<times> go_error option) prog) option \<Rightarrow>
    (task \<Rightarrow> go_error option prog) option \<Rightarrow> gc_runner" where
  "NewGcRunner days interval tasks git slack = \<lparr> GcRetentionDays = days,
     GcInterval = (if interval \<le> 0 then 24 * 3600 * Second else interval), GcTasks = tasks,
     GcGit = (case git of None \<Rightarrow> ExecGit | Some g \<Rightarrow> g), GcSlack = slack \<rparr>"

definition isDirty :: "gc_runner \<Rightarrow> string \<Rightarrow> bool prog" where
  "isDirty r worktree =
     (if worktree = '''' then ret False
      else do {
        absent \<leftarrow> ask file_absent;
        if absent then ret False
        else do {
          (out, e) \<leftarrow> GcGit r [''-C'', worktree, ''status'', ''--porcelain''];
          ret (e = None \<and> out \<noteq> '''')
        }
      })"

definition orphan_note :: string where
  "orphan_note = ''service restarted while task was running; worktree has unsaved changes '' @ em_dash @
     '' manual review required''"

definition reconcileOrphan :: "gc_runner \<Rightarrow> task \<Rightarrow> unit prog" where
  "reconcileOrphan r task = do {
     dirty \<leftarrow> isDirty r (WorktreePath task);
     if dirty then do {
       let t = task\<lparr> Status := TaskStatusOrphaned, StderrTail := orphan_note \<rparr>;
       u \<leftarrow> call (Update (GcTasks r) t);
       (case u of
          Inl _ \<Rightarrow> ret ()
        | Inr _ \<Rightarrow> when_some (GcSlack r) (\<lambda>notify. do { _ \<leftarrow> notify t; ret () }))
     }
     else do {
       _ \<leftarrow> call (Update (GcTasks r) (task\<lparr> Status := TaskStatusFailed, StderrTail := ''service_restart'' \<rparr>));
       ret ()
     }
   }"

primrec reconcile_all :: "gc_runner \<Rightarrow> task list \<Rightarrow> unit prog" where
  "reconcile_all r [] = ret ()"
| "reconcile_all r (t # ts) = do { reconcileOrphan r t; reconcile_all r ts }"

definition RecoverOrphans :: "gc_runner \<Rightarrow> unit prog" where
  "RecoverOrphans r = do {
     x \<leftarrow> call (GetRunning (GcTasks r));
     (case x of Inl _ \<Rightarrow> ret () | Inr running \<Rightarrow> reconcile_all r running)
   }"

text \<open>os.RemoveAll of the cleaned path.\<close>

definition remove_all :: "string \<Rightarrow> go_error option prog" where
  "remove_all path = do { e \<leftarrow> ask remove_error; emit (RemovedAll (path_clean path)); ret e }"

definition gc_clear :: "gc_runner \<Rightarrow> task \<Rightarrow> unit prog" where
  "gc_clear r task = do { _ \<leftarrow> call (Update (GcTasks r) (task\<lparr> WorktreePath := '''' \<rparr>)); ret () }"

definition gc_removeWorktree :: "gc_runner \<Rightarrow> task \<Rightarrow> unit prog" where
  "gc_removeWorktree r task = do {
     absent \<leftarrow> ask file_absent;
     if absent then gc_clear r task
     else do {
       (out, e) \<leftarrow> GcGit r [''worktree'', ''remove'', ''--force'', WorktreePath task];
       (case e of
          None \<Rightarrow> gc_clear r task
        | Some _ \<Rightarrow> do {
            rm \<leftarrow> remove_all (WorktreePath task);
            (case rm of None \<Rightarrow> gc_clear r task | Some _ \<Rightarrow> ret ())
          })
     }
   }"

definition expired :: "time \<Rightarrow> task \<Rightarrow> bool" where
  "expired cutoff t = (WorktreePath t \<noteq> '''' \<and> (case FinishedAt t of None \<Rightarrow> False | Some f \<Rightarrow> f \<le> cutoff))"

primrec sweep_tasks :: "gc_runner \<Rightarrow> time \<Rightarrow> task list \<Rightarrow> unit prog" where
  "sweep_tasks r cutoff [] = ret ()"
| "sweep_tasks r cutoff (t # ts) =
     (if expired cutoff t then do { gc_removeWorktree r t; sweep_tasks r cutoff ts } else sweep_tasks r cutoff ts)"

definition sweep_filter :: "task_status \<Rightarrow> task_filter" where
  "sweep_filter st = zero_filter\<lparr> FilterStatus := Some (status_str st), Limit := 500 \<rparr>"

primrec sweep_statuses :: "gc_runner \<Rightarrow> time \<Rightarrow> task_status list \<Rightarrow> unit prog" where
  "sweep_statuses r cutoff [] = ret ()"
| "sweep_statuses r cutoff (st # sts) = do {
     x \<leftarrow> call (ListTasks (GcTasks r) (sweep_filter st));
     (case x of Inl _ \<Rightarrow> ret () | Inr ts \<Rightarrow> sweep_tasks r cutoff ts);
     sweep_statuses r cutoff sts
   }"

text \<open>The days are counted back in the zone of the process.\<close>

definition SweepWorktrees :: "gc_runner \<Rightarrow> location \<Rightarrow> unit prog" where
  "SweepWorktrees r zone =
     (if GcRetentionDays r \<le> 0 then ret ()
      else do {
        now \<leftarrow> now_prog;
        sweep_statuses r (add_date zone now 0 (- GcRetentionDays r)) [TaskStatusFailed, TaskStatusCancelled]
      })"

definition RunOnBoot :: "gc_runner \<Rightarrow> location \<Rightarrow> unit prog" where
  "RunOnBoot r zone = do { RecoverOrphans r; SweepWorktrees r zone }"

text \<open>Start: one sweep for every tick received before the context ends.\<close>

primrec StartGc :: "gc_runner \<Rightarrow> location \<Rightarrow> bool list \<Rightarrow> unit prog" where
  "StartGc r zone [] = ret ()"
| "StartGc r zone (tick_received # evs) =
     (if tick_received then do { SweepWorktrees r zone; StartGc r zone evs } else ret ())"

definition gcSlackAdapter :: "task \<Rightarrow> go_error option prog" where
  "gcSlackAdapter t = NotifyOrphaned t"

definition gcRunner :: "int \<Rightarrow> gc_runner" where
  "gcRunner days = NewGcRunner days (24 * 3600 * Second) (gorm_task_repo True) (Some ExecGit) (Some gcSlackAdapter)"

section \<open>Recovery\<close>

definition reconciled :: "task \<Rightarrow> task \<Rightarrow> bool" where
  "reconciled t u = (\<exists>st msg x. st \<in> {TaskStatusOrphaned, TaskStatusFailed} \<and>
     u = (norm_task (t\<lparr> Status := st, StderrTail := msg \<rparr>))\<lparr> UpdatedAt := x \<rparr>)"

lemma gcRunner_simps [simp]:
  "GcTasks (gcRunner d) = gorm_task_repo True" "GcGit (gcRunner d) = ExecGit" "GcSlack (gcRunner d) = Some gcSlackAdapter"
  "GcRetentionDays (gcRunner d) = d"
  by (simp_all add: gcRunner_def NewGcRunner_def)

lemma git_kept: "state_io_rel (kept UNIV) (ExecGit args)"
  unfolding ExecGit_def by (intro keeps_frame_kept frame_shell) simp

lemma dirty_kept: "state_io_rel (kept UNIV) (isDirty (gcRunner d) path)"
  unfolding isDirty_def gcRunner_simps by (intro keeps_intros git_kept)

lemma kept_facts:
  assumes "kept F w w'"
  shows "wf_db w \<Longrightarrow> wf_db w'" "task_view w' = task_view w" "db_works w \<Longrightarrow> db_works w'" "clock w' = clock w"
  using assms task_view_rows_eq[of w' w] by (auto simp: kept_def grows_def same_env_def db_works_def)

lemma update_works:
  fixes w :: world
  assumes "wf_db w" "db_works w" "task_view w (ID t) = Some u" "TaskType u = TaskType t"
    "ParentTaskID u = ParentTaskID t" "HeadSHA u = HeadSHA t"
  obtains x w' where "Update (gorm_task_repo True) t w = (Inr (), w')" "wf_db w'" "db_works w'"
    "task_view w' = (task_view w)(ID t \<mapsto> (norm_task t)\<lparr> UpdatedAt := x \<rparr>)"
proof -
  have s: "storable w t" using assms(3-6) by (simp add: storable_def)
  obtain w' where w': "Update (gorm_task_repo True) t w = (Inr (), w')"
    using repo_update_succeeds[OF assms(1,2) s] by (cases "repo_Update t w") (simp add: gorm_task_repo_def)
  have "grows UNIV w (snd (repo_Update t w))" by (rule repo_kept(1))
  then have "db_works w'" using assms(2) w' by (auto simp: grows_def same_env_def db_works_def gorm_task_repo_def)
  then show thesis using gorm_task.Update_ok[OF assms(1) _ w'] assms(3) w' that by auto
qed

lemma reconcile_one:
  assumes "run_state (reconcileOrphan (gcRunner d) t) w = (x, w')" "wf_db w" "db_works w" "task_view w (ID t) = Some t"
  shows "wf_db w' \<and> db_works w' \<and> (\<exists>u. reconciled t u \<and> task_view w' = (task_view w)(ID t \<mapsto> u))"
proof -
  obtain dirty w1 where dr: "run_state (isDirty (gcRunner d) (WorktreePath t)) w = (dirty, w1)" by fastforce
  note k = kept_facts[OF state_io_relD[OF dirty_kept dr]]
  let ?t = "if dirty then t\<lparr> Status := TaskStatusOrphaned, StderrTail := orphan_note \<rparr>
       else t\<lparr> Status := TaskStatusFailed, StderrTail := ''service_restart'' \<rparr>"
  have v: "task_view w1 (ID ?t) = Some t" using k(2) assms(4) by simp
  obtain y w2 where u: "Update (gorm_task_repo True) ?t w1 = (Inr (), w2)" "wf_db w2" "db_works w2"
    "task_view w2 = (task_view w1)(ID ?t \<mapsto> (norm_task ?t)\<lparr> UpdatedAt := y \<rparr>)"
    by (rule update_works[OF k(1)[OF assms(2)] k(3)[OF assms(3)] v]) auto
  have r: "reconciled t ((norm_task ?t)\<lparr> UpdatedAt := y \<rparr>)" unfolding reconciled_def by auto
  show ?thesis
  proof (cases dirty)
    case False
    then show ?thesis using assms(1) dr u r k(2) by (auto simp: reconcileOrphan_def Let_def)
  next
    case True
    have "state_io_rel (kept UNIV) (NotifyOrphaned ?t)" by (intro keeps_frame_kept notify_frames) simp
    moreover obtain z w3 where z: "run_state (NotifyOrphaned ?t) w2 = (z, w3)" by fastforce
    ultimately have "kept UNIV w2 w3" by (rule state_io_relD)
    moreover have "w3 = w'" using assms(1) dr u(1) True z by (auto simp: reconcileOrphan_def when_some_def gcSlackAdapter_def Let_def)
    ultimately show ?thesis using kept_facts[of UNIV w2 w3] u r k(2) by auto
  qed
qed

lemma reconcile_list:
  assumes "run_state (reconcile_all (gcRunner d) ts) w = (x, w')" "wf_db w" "db_works w"
    "\<forall>t \<in> set ts. task_view w (ID t) = Some t" "distinct (map ID ts)"
  shows "wf_db w' \<and> (\<forall>t \<in> set ts. \<exists>u. reconciled t u \<and> task_view w' (ID t) = Some u) \<and>
    (\<forall>i. i \<notin> ID ` set ts \<longrightarrow> task_view w' i = task_view w i)"
  using assms
proof (induction ts arbitrary: w)
  case (Cons t ts)
  obtain y w1 where y: "run_state (reconcileOrphan (gcRunner d) t) w = (y, w1)"
    by (cases "run_state (reconcileOrphan (gcRunner d) t) w") simp
  obtain u where o: "wf_db w1" "db_works w1" "reconciled t u" "task_view w1 = (task_view w)(ID t \<mapsto> u)"
    using reconcile_one[OF y] Cons.prems by auto
  have run: "run_state (reconcile_all (gcRunner d) ts) w1 = (x, w')" using Cons.prems(1) y by simp
  have nin: "ID t \<notin> ID ` set ts" "distinct (map ID ts)" using Cons.prems(5) by simp_all
  have "\<forall>s \<in> set ts. task_view w1 (ID s) = Some s"
  proof
    fix s assume s: "s \<in> set ts"
    then have "ID s \<noteq> ID t" using nin(1) by (metis imageI)
    then show "task_view w1 (ID s) = Some s" using Cons.prems(4) s o(4) by simp
  qed
  with nin(2) have ih: "wf_db w'" "\<forall>s \<in> set ts. \<exists>u. reconciled s u \<and> task_view w' (ID s) = Some u"
    "\<forall>i. i \<notin> ID ` set ts \<longrightarrow> task_view w' i = task_view w1 i"
    using Cons.IH[OF run o(1,2)] by blast+
  have "task_view w' (ID t) = Some u" using ih(3) nin(1) o(4) by simp
  then show ?case using ih o(3,4) by simp
qed simp

lemma listed_tasks:
  fixes w :: world
  assumes "wf_db w" "distinct rows" "set rows \<subseteq> set (task_rows w)"
  shows "\<forall>t \<in> set (map toDomainTask rows). task_view w (ID t) = Some t" "distinct (map ID (map toDomainTask rows))"
proof -
  have d: "distinct (map gID (task_rows w))" using assms(1) wf_rowsD(1) by (auto simp: wf_db_def)
  show "\<forall>t \<in> set (map toDomainTask rows). task_view w (ID t) = Some t"
    using assms(3) row_at_mem[OF assms(1)] by (auto simp: task_view_def)
  have "inj_on gID (set rows)" using d assms(3) inj_on_subset by (auto simp: distinct_map)
  then show "distinct (map ID (map toDomainTask rows))" using assms(2) by (simp add: distinct_map comp_inj_on_iff comp_def inj_on_def)
qed

lemma table_distinct: "wf_db w \<Longrightarrow> distinct (task_rows w)"
  using wf_rowsD(1) by (auto simp: wf_db_def distinct_map)

section \<open>Sweeping\<close>

definition gc_effects :: "task \<Rightarrow> effect set" where
  "gc_effects t = {ShellRun '''' [''git'', ''worktree'', ''remove'', ''--force'', WorktreePath t] b |b. True} \<union>
     {RemovedAll (path_clean (WorktreePath t))}"

text \<open>Only tasks with P and a worktree change, losing the pointer to it, and what happens
  outside is the removal of their worktrees.\<close>

definition gc_upd :: "(task \<Rightarrow> bool) \<Rightarrow> task option \<Rightarrow> task option \<Rightarrow> bool" where
  "gc_upd P v v' = (v' = v \<or> (\<exists>t x. v = Some t \<and> P t \<and> WorktreePath t \<noteq> '''' \<and>
     v' = Some ((norm_task t)\<lparr> WorktreePath := '''', UpdatedAt := x \<rparr>)))"

definition gc_rel :: "(task \<Rightarrow> bool) \<Rightarrow> world \<Rightarrow> world \<Rightarrow> bool" where
  "gc_rel P w w' = (same_env w w' \<and> (wf_db w \<longrightarrow> wf_db w') \<and>
     (\<forall>i. gc_upd P (task_view w i) (task_view w' i)) \<and>
     (\<exists>es. trace w' = trace w @ es \<and>
        (\<forall>e \<in> set es. \<exists>i t. task_view w i = Some t \<and> P t \<and> WorktreePath t \<noteq> '''' \<and> e \<in> gc_effects t)))"

lemma gc_upd_refl [simp]: "gc_upd P v v"
  by (simp add: gc_upd_def)

lemma gc_upd_trans: "gc_upd P u v \<Longrightarrow> gc_upd P v w \<Longrightarrow> gc_upd P u w"
  by (auto simp: gc_upd_def)

lemma gc_upd_before: "gc_upd P v (Some t) \<Longrightarrow> WorktreePath t \<noteq> '''' \<Longrightarrow> v = Some t"
  by (auto simp: gc_upd_def)

lemma gc_rel_refl [simp]: "gc_rel P w w"
  by (simp add: gc_rel_def)

lemma gc_rel_view: "gc_rel P w w' \<Longrightarrow> gc_upd P (task_view w i) (task_view w' i)"
  by (simp add: gc_rel_def)

lemma gc_rel_before: "gc_rel P a b \<Longrightarrow> task_view b i = Some t \<Longrightarrow> WorktreePath t \<noteq> '''' \<Longrightarrow> task_view a i = Some t"
  using gc_rel_view[of P a b i] gc_upd_before by metis

lemma gc_rel_trans:
  assumes ab: "gc_rel P a b" and bc: "gc_rel P b c"
  shows "gc_rel P a c"
proof -
  have v: "gc_upd P (task_view a i) (task_view c i)" for i
    using gc_upd_trans[OF gc_rel_view[OF ab] gc_rel_view[OF bc]] .
  obtain es fs where es: "trace b = trace a @ es" "\<forall>e \<in> set es. \<exists>i t. task_view a i = Some t \<and> P t \<and> WorktreePath t \<noteq> '''' \<and> e \<in> gc_effects t"
    "trace c = trace b @ fs" "\<forall>e \<in> set fs. \<exists>i t. task_view b i = Some t \<and> P t \<and> WorktreePath t \<noteq> '''' \<and> e \<in> gc_effects t"
    using ab bc unfolding gc_rel_def by blast
  have "\<forall>e \<in> set fs. \<exists>i t. task_view a i = Some t \<and> P t \<and> WorktreePath t \<noteq> '''' \<and> e \<in> gc_effects t"
    using es(4) gc_rel_before[OF ab] by blast
  then have "\<exists>gs. trace c = trace a @ gs \<and> (\<forall>e \<in> set gs. \<exists>i t. task_view a i = Some t \<and> P t \<and> WorktreePath t \<noteq> '''' \<and> e \<in> gc_effects t)"
    using es(1-3) by (intro exI[of _ "es @ fs"]) auto
  moreover have "same_env a c" "wf_db a \<longrightarrow> wf_db c" using ab bc same_env_trans by (auto simp: gc_rel_def)
  ultimately show ?thesis using v unfolding gc_rel_def by blast
qed

lemma frame_gc_rel:
  assumes "frame F w w'" "F \<subseteq> gc_effects t" "task_view w i = Some t" "P t" "WorktreePath t \<noteq> ''''"
  shows "gc_rel P w w'"
proof -
  have "kept F w w'" by (rule frame_kept[OF assms(1)])
  note k = kept_facts[OF this]
  obtain es where "trace w' = trace w @ es" "set es \<subseteq> F" "same_env w w'" using assms(1) by (auto simp: frame_def grows_def)
  then show ?thesis unfolding gc_rel_def using k assms(2-5) by auto
qed

lemma quiet_gc_rel: "frame {} w w' \<Longrightarrow> gc_rel P w w'"
  using frame_kept[of "{}" w w'] kept_facts[of "{}" w w'] by (auto simp: gc_rel_def frame_def grows_def)

lemma clear_rel:
  assumes "run_state (gc_clear (gcRunner d) t) w = (x, w')" "wf_db w" "task_view w (ID t) = Some t" "P t" "WorktreePath t \<noteq> ''''"
  shows "gc_rel P w w'"
proof -
  let ?t = "t\<lparr> WorktreePath := '''' \<rparr>"
  obtain r where r: "repo_Update ?t w = (r, w')"
    using assms(1) by (cases "repo_Update ?t w") (simp add: gc_clear_def gorm_task_repo_def)
  have "grows {} w (snd (repo_Update ?t w))" by (rule repo_kept(1))
  then have g: "same_env w w'" "trace w' = trace w" using r by (auto simp: grows_def)
  have n: "norm_task ?t = (norm_task t)\<lparr> WorktreePath := '''' \<rparr>" by (simp add: norm_task_def)
  from r assms(2) have "task_view w (ID ?t) \<noteq> None \<Longrightarrow> wf_db w' \<and> (task_view w' = task_view w \<or>
      (\<exists>y. task_view w' = (task_view w)(ID t \<mapsto> (norm_task ?t)\<lparr> UpdatedAt := y \<rparr>)))"
    by (auto elim!: repo_Update_cases)
  then have o: "wf_db w'" "task_view w' = task_view w \<or>
      (\<exists>y. task_view w' = (task_view w)(ID t \<mapsto> (norm_task ?t)\<lparr> UpdatedAt := y \<rparr>))" using assms(3) by simp_all
  have "gc_upd P (task_view w i) (task_view w' i)" for i
  proof (cases "task_view w' i = task_view w i")
    case False
    then obtain y where y: "task_view w' = (task_view w)(ID t \<mapsto> (norm_task ?t)\<lparr> UpdatedAt := y \<rparr>)" using o(2) by auto
    then have i: "i = ID t" using False by (metis fun_upd_other)
    have "task_view w' i = Some ((norm_task t)\<lparr> WorktreePath := '''', UpdatedAt := y \<rparr>)" unfolding y i n by simp
    then show ?thesis using assms(3-5) unfolding i gc_upd_def by blast
  qed simp
  then show ?thesis using g o(1) unfolding gc_rel_def by simp
qed

lemma gc_rel_mono: "gc_rel P w w' \<Longrightarrow> (\<And>t. P t \<Longrightarrow> Q t) \<Longrightarrow> gc_rel Q w w'"
  unfolding gc_rel_def gc_upd_def by metis

lemma git_frame_run:
  "run_state (ExecGit args) w = (x, w') \<Longrightarrow> (\<And>b. ShellRun '''' (''git'' # args) b \<in> F) \<Longrightarrow> frame F w w'"
  unfolding ExecGit_def by (rule state_io_relD[OF frame_shell(2)])

lemma remove_rel:
  assumes run: "run_state (gc_removeWorktree (gcRunner d) t) w = (x, w')" and wf: "wf_db w"
    and v: "task_view w (ID t) = Some t" and P: "P t" "WorktreePath t \<noteq> ''''"
  shows "gc_rel P w w'"
proof -
  have step: "gc_rel P a b \<and> wf_db b \<and> task_view b (ID t) = Some t"
    if "frame F a b" "F \<subseteq> gc_effects t" "wf_db a" "task_view a (ID t) = Some t" for F a b
    using frame_gc_rel[of F a b t "ID t" P, OF that(1,2,4) P] kept_facts[OF frame_kept[OF that(1)]] that(3,4) by simp
  obtain absent w1 where a: "run_state (ask file_absent) w = (absent, w1)" by fastforce
  note s1 = step[OF state_io_relD[OF frame_ask[where F = "{}"] a] empty_subsetI wf v]
  show ?thesis
  proof (cases absent)
    case True
    then have "run_state (gc_clear (gcRunner d) t) w1 = (x, w')" using run a by (simp add: gc_removeWorktree_def)
    then show ?thesis using clear_rel s1 P gc_rel_trans by blast
  next
    case False
    let ?args = "[''worktree'', ''remove'', ''--force'', WorktreePath t]"
    obtain oe w2 where g: "run_state (ExecGit ?args) w1 = (oe, w2)" by fastforce
    have "frame (gc_effects t) w1 w2" by (rule git_frame_run[OF g]) (auto simp: gc_effects_def)
    then have s2: "gc_rel P w w2" "wf_db w2" "task_view w2 (ID t) = Some t"
      using step[of "gc_effects t" w1 w2] s1 gc_rel_trans by blast+
    show ?thesis
    proof (cases "snd oe")
      case None
      then have "run_state (gc_clear (gcRunner d) t) w2 = (x, w')" using run a False g by (simp add: gc_removeWorktree_def split: prod.splits)
      then show ?thesis using clear_rel s2 P gc_rel_trans by blast
    next
      case (Some e)
      obtain rm w3 where r: "run_state (remove_all (WorktreePath t)) w2 = (rm, w3)" by fastforce
      have "state_io_rel (frame (gc_effects t)) (remove_all (WorktreePath t))"
        unfolding remove_all_def by (intro keeps_intros) (simp add: gc_effects_def)
      then have s3: "gc_rel P w w3" "wf_db w3" "task_view w3 (ID t) = Some t"
        using step[of "gc_effects t" w2 w3] state_io_relD[OF _ r] s2 gc_rel_trans by blast+
      have "run_state (case rm of None \<Rightarrow> gc_clear (gcRunner d) t | Some _ \<Rightarrow> ret ()) w3 = (x, w')"
        using run a False g Some r by (simp add: gc_removeWorktree_def split: prod.splits)
      then show ?thesis using clear_rel s3 P gc_rel_trans by (cases rm) auto
    qed
  qed
qed

lemma sweep_tasks_rel:
  assumes "run_state (sweep_tasks (gcRunner d) cutoff ts) w = (x, w')" "wf_db w"
    "\<forall>t \<in> set ts. task_view w (ID t) = Some t" "distinct (map ID ts)" "\<forall>t \<in> set ts. expired cutoff t \<longrightarrow> P t"
  shows "gc_rel P w w'"
  using assms
proof (induction ts arbitrary: w)
  case (Cons t ts)
  have nin: "ID t \<notin> ID ` set ts" "distinct (map ID ts)" using Cons.prems(4) by simp_all
  show ?case
  proof (cases "expired cutoff t")
    case False
    then show ?thesis using Cons.IH[of w] Cons.prems nin(2) by simp
  next
    case True
    obtain y w1 where y: "run_state (gc_removeWorktree (gcRunner d) t) w = (y, w1)"
      by (cases "run_state (gc_removeWorktree (gcRunner d) t) w") simp
    have one: "gc_rel (\<lambda>u. ID u = ID t \<and> P u) w w1"
      by (rule remove_rel[OF y Cons.prems(2)]) (use True Cons.prems(3,5) in \<open>simp_all add: expired_def\<close>)
    have v: "\<forall>s \<in> set ts. task_view w1 (ID s) = Some s"
    proof
      fix s assume s: "s \<in> set ts"
      then have "ID s \<noteq> ID t" "task_view w (ID s) = Some s" using nin(1) Cons.prems(3) by (auto simp: image_iff)
      then show "task_view w1 (ID s) = Some s" using gc_rel_view[OF one, of "ID s"] by (auto simp: gc_upd_def)
    qed
    have wf: "wf_db w1" using one Cons.prems(2) by (simp add: gc_rel_def)
    have run: "run_state (sweep_tasks (gcRunner d) cutoff ts) w1 = (x, w')" using Cons.prems(1) True y by simp
    have "\<forall>s \<in> set ts. expired cutoff s \<longrightarrow> P s" using Cons.prems(5) by simp
    then have "gc_rel P w1 w'" by (rule Cons.IH[OF run wf v nin(2)])
    moreover have "gc_rel P w w1" using gc_rel_mono[OF one] by blast
    ultimately show ?thesis using gc_rel_trans by blast
  qed
qed simp

definition listed :: "world \<Rightarrow> task_status \<Rightarrow> task list" where
  "listed w st = map toDomainTask (take 50 (sort_key (\<lambda>r. - gCreatedAt r)
     (filter (\<lambda>r. status_str (gStatus r) = status_str st) (task_rows w))))"

lemma sweep_list:
  fixes w :: world
  assumes "ListTasks (gorm_task_repo True) (sweep_filter st) w = (r, w1)"
  shows "frame {} w w1" "r = Inr ts \<Longrightarrow> ts = listed w st"
proof -
  let ?q = "\<lambda>(_ :: time) d1 :: world. (Inr (take (nat (list_limit (Limit (sweep_filter st))))
              (sort_key (\<lambda>r. - gCreatedAt r) (filter (filter_matches (sweep_filter st)) (task_rows d1)))) :: gorm_task list result, d1)"
  obtain y where y: "exec ?q w = (y, w1)" "r = map_sum (EWrap ''list tasks'') (map toDomainTask) y"
    using assms by (auto simp: gorm_task_repo_def repo_List_def split: prod.splits sum.splits)
  have m: "filter_matches (sweep_filter st) = (\<lambda>r. status_str (gStatus r) = status_str st)"
    by (simp add: fun_eq_iff filter_matches_def sweep_filter_def zero_filter_def opt_holds_def)
  from y(1) have "w1 = tick w \<and> (\<forall>rows. y = Inr rows \<longrightarrow> rows = take 50
      (sort_key (\<lambda>r. - gCreatedAt r) (filter (\<lambda>r. status_str (gStatus r) = status_str st) (task_rows w))))"
    by (cases rule: exec_query) (auto simp: tick_def sweep_filter_def list_limit_def zero_filter_def m[unfolded sweep_filter_def zero_filter_def, simplified])
  then show "frame {} w w1" "r = Inr ts \<Longrightarrow> ts = listed w st"
    using y(2) by (auto simp: listed_def frame_def grows_def same_env_def tick_def map_sum_def split: sum.splits)
qed

lemma listed_ok:
  assumes "wf_db w"
  shows "\<forall>t \<in> set (listed w st). task_view w (ID t) = Some t" "distinct (map ID (listed w st))"
    "\<forall>t \<in> set (listed w st). Status t = st"
proof -
  let ?rows = "take 50 (sort_key (\<lambda>r. - gCreatedAt r) (filter (\<lambda>r. status_str (gStatus r) = status_str st) (task_rows w)))"
  have "distinct ?rows" using table_distinct[OF assms] by (simp add: distinct_take)
  moreover have s: "set ?rows \<subseteq> set (filter (\<lambda>r. gStatus r = st) (task_rows w))"
    by (auto dest: in_set_takeD)
  ultimately show "\<forall>t \<in> set (listed w st). task_view w (ID t) = Some t" "distinct (map ID (listed w st))"
    unfolding listed_def using listed_tasks[OF assms, of ?rows] by auto
  show "\<forall>t \<in> set (listed w st). Status t = st" using s unfolding listed_def by auto
qed

lemma sweep_status_rel:
  assumes "run_state (do { x \<leftarrow> call (ListTasks (gorm_task_repo True) (sweep_filter st));
     (case x of Inl _ \<Rightarrow> ret () | Inr ts \<Rightarrow> sweep_tasks (gcRunner d) cutoff ts) }) w = (y, w')" "wf_db w"
  shows "gc_rel (\<lambda>t. t \<in> set (listed w st) \<and> expired cutoff t) w w'"
proof -
  obtain r w1 where r: "ListTasks (gorm_task_repo True) (sweep_filter st) w = (r, w1)" by fastforce
  have q: "gc_rel P w w1" for P by (rule quiet_gc_rel[OF sweep_list(1)[OF r]])
  have k: "wf_db w1" "task_view w1 = task_view w"
    using kept_facts[OF frame_kept[OF sweep_list(1)[OF r]]] assms(2) by simp_all
  show ?thesis
  proof (cases r)
    case (Inl e)
    then show ?thesis using assms(1) r q by simp
  next
    case (Inr ts)
    then have ts: "ts = listed w st" by (rule sweep_list(2)[OF r])
    have "gc_rel (\<lambda>t. t \<in> set (listed w st) \<and> expired cutoff t) w1 w'"
      by (rule sweep_tasks_rel[of d cutoff ts]) (use assms Inr r k ts listed_ok[OF assms(2), of st] in simp_all)
    then show ?thesis using q gc_rel_trans by blast
  qed
qed

lemma sweep_statuses_Cons:
  "sweep_statuses (gcRunner d) cutoff (st # sts) = do {
     _ \<leftarrow> do { x \<leftarrow> call (ListTasks (gorm_task_repo True) (sweep_filter st));
          (case x of Inl _ \<Rightarrow> ret () | Inr ts \<Rightarrow> sweep_tasks (gcRunner d) cutoff ts) };
     sweep_statuses (gcRunner d) cutoff sts }"
  by simp

lemma sweep_statuses_rel:
  assumes "run_state (sweep_statuses (gcRunner d) cutoff sts) w = (x, w')" "wf_db w"
  shows "gc_rel (\<lambda>t. Status t \<in> set sts \<and> expired cutoff t) w w'"
  using assms
proof (induction sts arbitrary: w)
  case (Cons st sts)
  let ?one = "do { x \<leftarrow> call (ListTasks (gorm_task_repo True) (sweep_filter st));
          (case x of Inl _ \<Rightarrow> ret () | Inr ts \<Rightarrow> sweep_tasks (gcRunner d) cutoff ts) }"
  obtain y w1 where y: "run_state ?one w = (y, w1)" by (cases "run_state ?one w") simp
  note one = sweep_status_rel[OF y Cons.prems(2)]
  have "run_state (sweep_statuses (gcRunner d) cutoff sts) w1 = (x, w')"
    using Cons.prems(1) y unfolding sweep_statuses_Cons
    by (cases "ListTasks (gorm_task_repo True) (sweep_filter st) w") simp
  then have two: "gc_rel (\<lambda>t. Status t \<in> set sts \<and> expired cutoff t) w1 w'"
    using Cons.IH one Cons.prems(2) by (simp add: gc_rel_def)
  have "gc_rel (\<lambda>t. Status t \<in> set (st # sts) \<and> expired cutoff t) w w1"
    by (rule gc_rel_mono[OF one]) (use listed_ok(3)[OF Cons.prems(2)] in auto)
  moreover have "gc_rel (\<lambda>t. Status t \<in> set (st # sts) \<and> expired cutoff t) w1 w'"
    by (rule gc_rel_mono[OF two]) auto
  ultimately show ?case by (rule gc_rel_trans)
qed simp

lemma sweep_rel:
  assumes "run_state (SweepWorktrees (gcRunner d) zone) w = (x, w')" "wf_db w"
  shows "gc_rel (\<lambda>t. Status t \<in> {TaskStatusFailed, TaskStatusCancelled} \<and>
    expired (add_date zone (clock w (ops w)) 0 (- d)) t) w w'"
proof (cases "d \<le> 0")
  case True
  then show ?thesis using assms(1) by (simp add: SweepWorktrees_def)
next
  case False
  let ?P = "\<lambda>t. Status t \<in> {TaskStatusFailed, TaskStatusCancelled} \<and> expired (add_date zone (clock w (ops w)) 0 (- d)) t"
  have "run_state (sweep_statuses (gcRunner d) (add_date zone (clock w (ops w)) 0 (- d))
      [TaskStatusFailed, TaskStatusCancelled]) (tick w) = (x, w')"
    using assms(1) False by (simp add: SweepWorktrees_def now_prog_def ask_def del: sweep_statuses.simps)
  from sweep_statuses_rel[OF this] have "gc_rel ?P (tick w) w'" using assms(2) by (simp add: tick_def wf_db_def)
  moreover have "gc_rel ?P w (tick w)" by (rule quiet_gc_rel) (simp add: frame_def grows_def same_env_def tick_def)
  ultimately show ?thesis using gc_rel_trans by blast
qed

lemma recover_spec:
  assumes "run_state (RecoverOrphans (gcRunner d)) w = (x, w')" "wf_db w" "db_works w"
  shows "wf_db w'" "task_view w i = Some t \<Longrightarrow> Status t = TaskStatusRunning \<Longrightarrow> \<exists>u. reconciled t u \<and> task_view w' i = Some u"
    "\<forall>t. task_view w i = Some t \<longrightarrow> Status t \<noteq> TaskStatusRunning \<Longrightarrow> task_view w' i = task_view w i"
proof -
  let ?rows = "filter (\<lambda>r. gStatus r = TaskStatusRunning) (task_rows w)"
  let ?ts = "map toDomainTask ?rows"
  have g: "GetRunning (gorm_task_repo True) w = (Inr ?ts, tick w)"
    by (simp add: gorm_task_repo_def repo_GetRunning_def db_works_exec[OF assms(3)] tick_def)
  have run: "run_state (reconcile_all (gcRunner d) ?ts) (tick w) = (x, w')"
    using assms(1) g by (simp add: RecoverOrphans_def)
  have t: "wf_db (tick w)" "db_works (tick w)" "task_view (tick w) = task_view w"
  proof -
    have "kept UNIV w (tick w)" by (rule frame_kept) (simp add: frame_def grows_def same_env_def tick_def)
    then show "wf_db (tick w)" "db_works (tick w)" "task_view (tick w) = task_view w"
      using kept_facts assms(2,3) by blast+
  qed
  note l = listed_tasks[OF assms(2), of ?rows]
  have lt: "\<forall>t \<in> set ?ts. task_view (tick w) (ID t) = Some t" "distinct (map ID ?ts)"
    unfolding t(3) by (rule l; simp add: table_distinct[OF assms(2)] filter_is_subset)+
  note r = reconcile_list[OF run t(1,2) lt]
  show "wf_db w'" using r by simp
  have mem: "i \<in> ID ` set ?ts \<longleftrightarrow> (\<exists>t. task_view w i = Some t \<and> Status t = TaskStatusRunning)" for i
  proof
    assume "i \<in> ID ` set ?ts"
    then obtain r where "r \<in> set (task_rows w)" "gStatus r = TaskStatusRunning" "i = gID r" by auto
    then have "task_view w i = Some (toDomainTask r)" using row_at_mem[OF assms(2)] by (simp add: task_view_def)
    then show "\<exists>t. task_view w i = Some t \<and> Status t = TaskStatusRunning"
      using \<open>gStatus r = TaskStatusRunning\<close> by simp
  next
    assume "\<exists>t. task_view w i = Some t \<and> Status t = TaskStatusRunning"
    then obtain r where "row_at w i = Some r" "gStatus r = TaskStatusRunning" by (auto simp: task_view_Some)
    then have "r \<in> set ?rows" "gID r = i" using row_at_Some by fastforce+
    then show "i \<in> ID ` set ?ts" by force
  qed
  show "\<exists>u. reconciled t u \<and> task_view w' i = Some u" if "task_view w i = Some t" "Status t = TaskStatusRunning"
  proof -
    have "i \<in> ID ` set ?ts" using mem that by blast
    then obtain s where s: "s \<in> set ?ts" "ID s = i" by blast
    then have "s = t" using lt(1) t(3) that(1) by (metis option.inject)
    then show ?thesis using r s by blast
  qed
  show "task_view w' i = task_view w i" if "\<forall>t. task_view w i = Some t \<longrightarrow> Status t \<noteq> TaskStatusRunning"
    using r mem[of i] that unfolding t(3) by blast
qed

section \<open>Properties\<close>


text \<open>C23: however git, the file system and the database answer, a sweep changes no task but
  failed and cancelled ones that ended at or before the cutoff and still have a worktree,
  clearing the pointer, and removes no other worktree.\<close>

theorem sweep_removes_only_expired:
  assumes "wf_db w"
  shows "case run_state (SweepWorktrees (gcRunner d) zone) w of (_, w') \<Rightarrow> wf_db w' \<and>
    (let old = (\<lambda>t. Status t \<in> {TaskStatusFailed, TaskStatusCancelled} \<and> WorktreePath t \<noteq> '''' \<and>
           (\<exists>f. FinishedAt t = Some f \<and> f \<le> add_date zone (clock w (ops w)) 0 (- d))) in
     (\<forall>i. task_view w' i = task_view w i \<or>
        (\<exists>t x. task_view w i = Some t \<and> old t \<and>
           task_view w' i = Some ((norm_task t)\<lparr> WorktreePath := '''', UpdatedAt := x \<rparr>))) \<and>
     (\<exists>es. trace w' = trace w @ es \<and> (\<forall>e \<in> set es. \<exists>i t. task_view w i = Some t \<and> old t \<and> e \<in> gc_effects t)))"
proof -
  obtain w' where run: "run_state (SweepWorktrees (gcRunner d) zone) w = ((), w')"
    by (cases "run_state (SweepWorktrees (gcRunner d) zone) w") simp
  have e: "expired c t \<longleftrightarrow> WorktreePath t \<noteq> '''' \<and> (\<exists>f. FinishedAt t = Some f \<and> f \<le> c)" for c t
    by (auto simp: expired_def split: option.splits)
  from sweep_rel[OF run assms] show ?thesis
    using assms run unfolding gc_rel_def gc_upd_def Let_def e by (simp only: prod.case) blast
qed

text \<open>The list of a sweep holds the newest fifty failed tasks (the limit of 500 is
  replaced by the default of the repository), so the worktree of an older one is never
  removed while fifty newer failed tasks are stored.\<close>

theorem sweep_misses_older_tasks:
  assumes "wf_db w" "task_view w i = Some t" "Status t = TaskStatusFailed" "t \<notin> set (listed w TaskStatusFailed)"
  shows "case run_state (SweepWorktrees (gcRunner d) zone) w of (_, w') \<Rightarrow> task_view w' i = Some t"
proof -
  obtain w' where run: "run_state (SweepWorktrees (gcRunner d) zone) w = ((), w')"
    by (cases "run_state (SweepWorktrees (gcRunner d) zone) w") simp
  show ?thesis
  proof (cases "d \<le> 0")
    case True
    then show ?thesis using run assms(2) by (simp add: SweepWorktrees_def)
  next
    case False
    let ?cutoff = "add_date zone (clock w (ops w)) 0 (- d)"
    let ?one = "do { x \<leftarrow> call (ListTasks (gorm_task_repo True) (sweep_filter TaskStatusFailed));
          (case x of Inl _ \<Rightarrow> ret () | Inr ts \<Rightarrow> sweep_tasks (gcRunner d) ?cutoff ts) }"
    obtain w1 where one: "run_state ?one (tick w) = ((), w1)" by (cases "run_state ?one (tick w)") simp
    have two: "run_state (sweep_statuses (gcRunner d) ?cutoff [TaskStatusCancelled]) w1 = ((), w')"
      using run False one unfolding sweep_statuses_Cons SweepWorktrees_def
      by (cases "ListTasks (gorm_task_repo True) (sweep_filter TaskStatusFailed) (tick w)")
        (simp add: now_prog_def ask_def del: sweep_statuses.simps(2) add: sweep_statuses_Cons)
    have wt: "wf_db (tick w)" "task_view (tick w) i = Some t" "listed (tick w) = listed w"
      using assms(1,2) by (simp_all add: listed_def tick_def fun_eq_iff)
    note r1 = sweep_status_rel[OF one wt(1)]
    then have v1: "task_view w1 i = Some t" "wf_db w1"
      using gc_rel_view[OF r1, of i] wt assms(4) by (auto simp: gc_upd_def gc_rel_def)
    have "gc_upd (\<lambda>t. Status t \<in> set [TaskStatusCancelled] \<and> expired ?cutoff t) (task_view w1 i) (task_view w' i)"
      by (rule gc_rel_view[OF sweep_statuses_rel[OF two v1(2)]])
    then show ?thesis using run v1 assms(3) by (auto simp: gc_upd_def)
  qed
qed

lemma start_gc_keeps:
  assumes "run_state (StartGc (gcRunner d) zone evs) w = (x, w')" "wf_db w" "task_view w i = Some t" "FinishedAt t = None"
  shows "task_view w' i = Some t"
  using assms
proof (induction evs arbitrary: w)
  case (Cons ev evs)
  show ?case
  proof (cases ev)
    case True
    obtain w1 where s: "run_state (SweepWorktrees (gcRunner d) zone) w = ((), w1)"
      by (cases "run_state (SweepWorktrees (gcRunner d) zone) w") simp
    note r = sweep_rel[OF s Cons.prems(2)]
    have "task_view w1 i = Some t" "wf_db w1"
      using gc_rel_view[OF r, of i] Cons.prems(2-4) r by (auto simp: gc_upd_def expired_def gc_rel_def)
    then show ?thesis using Cons.IH[of w1] Cons.prems(1,4) True s by simp
  qed (use Cons.prems in simp)
qed simp

text \<open>A task that was running at the restart keeps its worktree for good: the recovery
  sets no end time, and no number of later sweeps removes the worktree of a task without
  one, so neither the directory nor the pointer is ever collected.\<close>

theorem recovered_worktree_never_swept:
  assumes "wf_db w" "db_works w" "task_view w i = Some t" "Status t = TaskStatusRunning" "FinishedAt t = None"
  shows "case run_state (do { RunOnBoot (gcRunner d) zone; StartGc (gcRunner d) zone evs }) w of (_, w') \<Rightarrow>
    \<exists>u. task_view w' i = Some u \<and> Status u \<in> {TaskStatusOrphaned, TaskStatusFailed} \<and>
      FinishedAt u = None \<and> WorktreePath u = WorktreePath t"
proof -
  obtain w1 where r: "run_state (RecoverOrphans (gcRunner d)) w = ((), w1)"
    by (cases "run_state (RecoverOrphans (gcRunner d)) w") simp
  obtain u where u: "reconciled t u" "task_view w1 i = Some u" using recover_spec(2)[OF r assms(1,2)] assms(3,4) by blast
  have wf: "wf_db w1" by (rule recover_spec(1)[OF r assms(1,2)])
  have f: "FinishedAt u = None" "Status u \<in> {TaskStatusOrphaned, TaskStatusFailed}" "WorktreePath u = WorktreePath t"
    using u(1) assms(5) by (auto simp: reconciled_def norm_task_def)
  obtain w' where e: "run_state (StartGc (gcRunner d) zone (True # evs)) w1 = ((), w')"
    by (cases "run_state (StartGc (gcRunner d) zone (True # evs)) w1") simp
  have "run_state (do { RunOnBoot (gcRunner d) zone; StartGc (gcRunner d) zone evs }) w = ((), w')"
    using r e by (simp add: RunOnBoot_def)
  then show ?thesis using start_gc_keeps[OF e wf u(2) f(1)] f by simp
qed

definition restart_sample :: world where
  "restart_sample = calm_world ((migrated_db (\<lambda>n. int n))\<lparr> task_rows :=
     [toGORMTask (queued_sample\<lparr> Status := TaskStatusRunning, WorktreePath := ''.worktrees/task-t1'' \<rparr>)] \<rparr>)"

lemma restart_sample_ok: "wf_db restart_sample" "db_works restart_sample"
  "task_view restart_sample ''t1'' = Some (toDomainTask (toGORMTask
     (queued_sample\<lparr> Status := TaskStatusRunning, WorktreePath := ''.worktrees/task-t1'' \<rparr>)))"
  by (simp_all add: restart_sample_def wf_db_def wf_rows_def migrated_db_def queued_sample_def toGORMTask_def Let_def
      zero_task_def dedup_clash_def db_works_def task_view_def row_at_def)


lemma sweep_witness:
  "case run_state (SweepWorktrees (gcRunner 7) UTC) restart_sample of (_, w') \<Rightarrow>
     task_view w' ''t1'' = task_view restart_sample ''t1''"
proof -
  have "Status (toDomainTask (toGORMTask
     (queued_sample\<lparr> Status := TaskStatusRunning, WorktreePath := ''.worktrees/task-t1'' \<rparr>))) = TaskStatusRunning"
    by (simp add: toGORMTask_def Let_def)
  then show ?thesis
    using sweep_removes_only_expired[OF restart_sample_ok(1), where d = 7 and zone = UTC]
    by (auto split: prod.splits simp: Let_def restart_sample_ok(3) dest!: spec[of _ "''t1''"])
qed

lemma recovered_witness:
  "case run_state (do { RunOnBoot (gcRunner 7) UTC; StartGc (gcRunner 7) UTC [True, True] }) restart_sample of (_, w') \<Rightarrow>
     \<exists>u. task_view w' ''t1'' = Some u \<and> WorktreePath u = ''.worktrees/task-t1''"
proof -
  have t: "Status (toDomainTask (toGORMTask
     (queued_sample\<lparr> Status := TaskStatusRunning, WorktreePath := ''.worktrees/task-t1'' \<rparr>))) = TaskStatusRunning"
    "FinishedAt (toDomainTask (toGORMTask
     (queued_sample\<lparr> Status := TaskStatusRunning, WorktreePath := ''.worktrees/task-t1'' \<rparr>))) = None"
    "WorktreePath (toDomainTask (toGORMTask
     (queued_sample\<lparr> Status := TaskStatusRunning, WorktreePath := ''.worktrees/task-t1'' \<rparr>))) = ''.worktrees/task-t1''"
    by (simp_all add: toGORMTask_def toDomainTask_def Let_def queued_sample_def zero_task_def)
  show ?thesis
    using recovered_worktree_never_swept[OF restart_sample_ok t(1,2), where d = 7 and zone = UTC and evs = "[True, True]"] t(3)
    by (auto split: prod.splits)
qed

definition crowded_task :: "nat \<Rightarrow> task" where
  "crowded_task n = queued_sample\<lparr> ID := nat_str n, Status := TaskStatusFailed, WorktreePath := ''.worktrees/old'',
     FinishedAt := Some 9, CreatedAt := int n \<rparr>"

definition crowded_sample :: world where
  "crowded_sample = calm_world ((migrated_db (\<lambda>n. int n))\<lparr> task_rows := map (toGORMTask \<circ> crowded_task) (rev [0..<51]) \<rparr>)"

lemma crowded_ids: "gID (toGORMTask (crowded_task n)) = nat_str n"
  by (simp add: crowded_task_def)

lemma crowded_ok: "wf_db crowded_sample"
proof -
  have "distinct (map gID (map (toGORMTask \<circ> crowded_task) (rev [0..<51])))"
    by (simp only: map_map comp_def crowded_ids) code_simp
  moreover have "dedup_key (toGORMTask (crowded_task n)) = None" "gTaskType (toGORMTask (crowded_task n)) = TaskTypeFeature" for n
    by (simp_all add: dedup_keys crowded_task_def queued_sample_def)
  ultimately show ?thesis
    unfolding wf_db_def wf_rows_def by (simp add: crowded_sample_def migrated_db_def dedup_clash_def list_all_iff)
qed

lemma nat_str_0: "nat_str 0 = ''0''"
  by code_simp

lemma sweep_misses_witness:
  "case run_state (SweepWorktrees (gcRunner 7) UTC) crowded_sample of (_, w') \<Rightarrow>
     task_view w' ''0'' = Some (toDomainTask (toGORMTask (crowded_task 0)))"
proof (rule sweep_misses_older_tasks[OF crowded_ok])
  show "task_view crowded_sample ''0'' = Some (toDomainTask (toGORMTask (crowded_task 0)))"
  proof -
    have "toGORMTask (crowded_task 0) \<in> set (task_rows crowded_sample)"
      by (simp add: crowded_sample_def del: upt_rec_numeral)
    then show ?thesis
      using row_at_mem[OF crowded_ok] by (metis nat_str_0 crowded_ids task_view_Some)
  qed
  show "Status (toDomainTask (toGORMTask (crowded_task 0))) = TaskStatusFailed" by code_simp
  have "list_all (\<lambda>t. ID t \<noteq> ''0'') (listed crowded_sample TaskStatusFailed)"
    unfolding listed_def crowded_sample_def calm_world_simps by code_simp
  then show "toDomainTask (toGORMTask (crowded_task 0)) \<notin> set (listed crowded_sample TaskStatusFailed)"
    using crowded_ids[of 0] by (fastforce simp: list_all_iff nat_str_0)
qed

end
