(* ===== verification/Sha256.thy ===== *)
theory Sha256
  imports Go_Fmt
begin

text \<open>What the webhook and Slack verifiers use of the Go library: crypto/sha256 with
  crypto/hmac, and encoding/hex, on byte lists. Words are 32 bits wide, the length field 64;
  the schedule of a block is built in reverse order.\<close>

unbundle bit_operations_syntax

section \<open>SHA-256\<close>

type_synonym w32 = "32 word"

definition big_sigma :: "nat \<Rightarrow> nat \<Rightarrow> nat \<Rightarrow> w32 \<Rightarrow> w32" where
  "big_sigma i j k x = word_rotr i x XOR word_rotr j x XOR word_rotr k x"

definition small_sigma :: "nat \<Rightarrow> nat \<Rightarrow> nat \<Rightarrow> w32 \<Rightarrow> w32" where
  "small_sigma i j k x = word_rotr i x XOR word_rotr j x XOR drop_bit k x"

definition choose_bits :: "w32 \<Rightarrow> w32 \<Rightarrow> w32 \<Rightarrow> w32" where
  "choose_bits x y z = (x AND y) XOR (NOT x AND z)"

definition major_bits :: "w32 \<Rightarrow> w32 \<Rightarrow> w32 \<Rightarrow> w32" where
  "major_bits x y z = (x AND y) XOR (x AND z) XOR (y AND z)"

text \<open>The constants of a round are the first 32 fractional bits of the cube roots of the primes
  below 312, and the words a digest starts from those of the square roots of the first eight:
  root_floor finds the bits of a root one by one, and the word drops the whole part.\<close>

primrec root_floor :: "nat \<Rightarrow> int \<Rightarrow> nat \<Rightarrow> int \<Rightarrow> int" where
  "root_floor k n 0 r = r"
| "root_floor k n (Suc b) r = root_floor k n b (if (r + 2 ^ b) ^ k \<le> n then r + 2 ^ b else r)"

definition root_word :: "nat \<Rightarrow> nat \<Rightarrow> w32" where
  "root_word k p = word_of_int (root_floor k (int p * 2 ^ (32 * k)) 36 0)"

definition small_primes :: "nat list" where
  "small_primes = filter (\<lambda>p. \<forall>d \<in> set [2..<p]. p mod d \<noteq> 0) [2..<312]"

definition round_words :: "w32 list" where
  "round_words = map (root_word 3) small_primes"

definition initial_words :: "w32 list" where
  "initial_words = map (root_word 2) (take 8 small_primes)"

primrec extend_schedule :: "nat \<Rightarrow> w32 list \<Rightarrow> w32 list" where
  "extend_schedule 0 ws = ws"
| "extend_schedule (Suc n) ws = extend_schedule n
     ((small_sigma 17 19 10 (ws ! 1) + ws ! 6 + small_sigma 7 18 3 (ws ! 14) + ws ! 15) # ws)"

fun compress_round :: "w32 \<times> w32 \<Rightarrow> w32 list \<Rightarrow> w32 list" where
  "compress_round (k, w) [a, b, c, d, e, f, g, h] =
     (let t1 = h + big_sigma 6 11 25 e + choose_bits e f g + k + w;
          t2 = big_sigma 2 13 22 a + major_bits a b c
      in [t1 + t2, a, b, c, d + t1, e, f, g])"
| "compress_round _ s = s"

definition compress_block :: "w32 list \<Rightarrow> w32 list \<Rightarrow> w32 list" where
  "compress_block h ws =
     map2 (+) h (fold compress_round (zip round_words (rev (extend_schedule 48 (rev ws)))) h)"

definition byte_of :: "char \<Rightarrow> w32" where "byte_of c = of_nat (of_char c)"

definition char_of_byte :: "w32 \<Rightarrow> char" where "char_of_byte b = char_of (unat (b AND 0xFF))"

fun words_of :: "string \<Rightarrow> w32 list" where
  "words_of (a # b # c # d # r) =
     (push_bit 24 (byte_of a) OR push_bit 16 (byte_of b) OR push_bit 8 (byte_of c) OR byte_of d) # words_of r"
| "words_of _ = []"

definition bytes_of :: "w32 \<Rightarrow> string" where
  "bytes_of w = [char_of_byte (drop_bit 24 w), char_of_byte (drop_bit 16 w), char_of_byte (drop_bit 8 w), char_of_byte w]"

text \<open>A one bit, zeros to eight bytes below a multiple of 64, the length in bits.\<close>

definition length_field :: "nat \<Rightarrow> string" where
  "length_field n = (let l = (of_nat (8 * n) :: 64 word) in
     map (\<lambda>k. char_of (unat (drop_bit (8 * k) l AND 0xFF))) [7, 6, 5, 4, 3, 2, 1, 0])"

definition sha_pad :: "string \<Rightarrow> string" where
  "sha_pad m = m @ CHR 0x80 # replicate ((119 - length m mod 64) mod 64) (CHR 0x00) @ length_field (length m)"

function fold_blocks :: "w32 list \<Rightarrow> w32 list \<Rightarrow> w32 list" where
  "fold_blocks h ws = (if length ws < 16 then h else fold_blocks (compress_block h (take 16 ws)) (drop 16 ws))"
  by auto
termination by (relation "measure (\<lambda>(h, ws). length ws)") auto

declare fold_blocks.simps [simp del]

definition sha256 :: "string \<Rightarrow> string" where
  "sha256 m = concat (map bytes_of (fold_blocks initial_words (words_of (sha_pad m))))"

section \<open>HMAC\<close>

definition xor_byte :: "w32 \<Rightarrow> char \<Rightarrow> char" where
  "xor_byte p c = char_of_byte (byte_of c XOR p)"

definition hmac_key :: "string \<Rightarrow> string" where
  "hmac_key key = (let k = (if 64 < length key then sha256 key else key) in k @ replicate (64 - length k) (CHR 0x00))"

definition hmac_sha256 :: "string \<Rightarrow> string \<Rightarrow> string" where
  "hmac_sha256 key msg =
     sha256 (map (xor_byte 0x5c) (hmac_key key) @ sha256 (map (xor_byte 0x36) (hmac_key key) @ msg))"

section \<open>Hexadecimal\<close>

definition hex_char :: "nat \<Rightarrow> char" where
  "hex_char n = (if n < 10 then char_of (48 + n) else char_of (87 + n))"

definition unhex :: "char \<Rightarrow> nat option" where
  "unhex c = (let b = of_char c :: nat in
     if 48 \<le> b \<and> b \<le> 57 then Some (b - 48)
     else if 97 \<le> b \<and> b \<le> 102 then Some (b - 87)
     else if 65 \<le> b \<and> b \<le> 70 then Some (b - 55)
     else None)"

definition hex_encode :: "string \<Rightarrow> string" where
  "hex_encode s = concat (map (\<lambda>c. let b = of_char c :: nat in [hex_char (b div 16), hex_char (b mod 16)]) s)"

definition hex_err :: "char \<Rightarrow> go_error" where
  "hex_err c = EMsg (''encoding/hex: invalid byte: '' @ [c])"

text \<open>An odd length is reported when every byte is a digit.\<close>

fun hex_decode :: "string \<Rightarrow> string result" where
  "hex_decode [] = Inr []"
| "hex_decode [a] = (case unhex a of None \<Rightarrow> Inl (hex_err a) | Some _ \<Rightarrow> Inl (EMsg ''encoding/hex: odd length hex string''))"
| "hex_decode (a # b # r) =
     (case unhex a of
        None \<Rightarrow> Inl (hex_err a)
      | Some x \<Rightarrow>
          (case unhex b of
             None \<Rightarrow> Inl (hex_err b)
           | Some y \<Rightarrow> (case hex_decode r of Inl e \<Rightarrow> Inl e | Inr s \<Rightarrow> Inr (char_of (16 * x + y) # s))))"

section \<open>Lemmas\<close>

lemma unhex_char: "n < 16 \<Longrightarrow> unhex (hex_char n) = Some n"
  by (auto simp: unhex_def hex_char_def Let_def)

lemma hex_round_trip: "hex_decode (hex_encode s) = Inr s"
proof (induction s)
  case (Cons c s)
  have c: "(of_char c :: nat) < 256" by (rule nat_of_char_less_256)
  then have "(of_char c :: nat) div 16 < 16" by (simp add: less_mult_imp_div_less)
  then have "unhex (hex_char (of_char c div 16)) = Some (of_char c div 16)"
    "unhex (hex_char (of_char c mod 16)) = Some (of_char c mod 16)"
    by (simp_all add: unhex_char)
  then show ?case using Cons by (simp add: hex_encode_def Let_def)
qed (simp add: hex_encode_def)

lemma hex_encode_inj: "hex_encode a = hex_encode b \<longleftrightarrow> a = b"
  by (metis hex_round_trip sum.inject(2))

lemma hex_encode_ne: "s \<noteq> [] \<Longrightarrow> hex_encode s \<noteq> []"
  by (cases s) (simp_all add: hex_encode_def Let_def)

end
