(* ===== verification/Http.thy ===== *)
theory Http
  imports Sha256
begin

text \<open>Requests as gin hands them to a handler, and replies: a status code with the text of an
  ErrorResponse or the body. A header or a query parameter that is absent reads as the empty
  text. Reading the query of a form is net/url.\<close>

type_synonym 'b reply = "nat \<times> (string + 'b)"

record http_request =
  ReqBody :: "string result"
  ReqHeader :: "string \<Rightarrow> string"

definition reply_error :: "nat \<Rightarrow> string \<Rightarrow> 'b reply" where "reply_error code msg = (code, Inl msg)"

definition reply_ok :: "nat \<Rightarrow> 'b \<Rightarrow> 'b reply" where "reply_ok code b = (code, Inr b)"

lemma reply_simps [simp]:
  "fst (reply_error code m) = code" "fst (reply_ok code b) = code" "snd (reply_error code m) = Inl m" "snd (reply_ok code b) = Inr b"
  "reply_ok code b = reply_ok code' b' \<longleftrightarrow> code = code' \<and> b = b'" "reply_ok code b \<noteq> reply_error code' m"
  by (auto simp: reply_error_def reply_ok_def)

section \<open>net/url\<close>

text \<open>QueryUnescape: the error names the bad escape.\<close>

fun QueryUnescape :: "string \<Rightarrow> string result" where
  "QueryUnescape [] = Inr []"
| "QueryUnescape (c # r) =
     (if c = CHR ''%'' then
        (case r of
           a # b # r' \<Rightarrow>
             (case (unhex a, unhex b) of
                (Some x, Some y) \<Rightarrow>
                  (case QueryUnescape r' of Inl e \<Rightarrow> Inl e | Inr s \<Rightarrow> Inr (char_of (16 * x + y) # s))
              | _ \<Rightarrow> Inl (EMsg (''invalid URL escape '' @ go_quote [c, a, b])))
         | _ \<Rightarrow> Inl (EMsg (''invalid URL escape '' @ go_quote (c # r))))
      else (case QueryUnescape r of Inl e \<Rightarrow> Inl e
            | Inr s \<Rightarrow> Inr ((if c = CHR ''+'' then CHR '' '' else c) # s)))"

text \<open>One setting of a query; the empty one is skipped.\<close>

definition query_setting :: "string \<Rightarrow> (string \<times> string) option result" where
  "query_setting s =
     (if CHR '';'' \<in> set s then Inl (EMsg ''invalid semicolon separator in query'')
      else if s = '''' then Inr None
      else let k = takeWhile (\<lambda>c. c \<noteq> CHR ''='') s; v = tl (dropWhile (\<lambda>c. c \<noteq> CHR ''='') s) in
           (case QueryUnescape k of
              Inl e \<Rightarrow> Inl e
            | Inr k' \<Rightarrow> (case QueryUnescape v of Inl e \<Rightarrow> Inl e | Inr v' \<Rightarrow> Inr (Some (k', v')))))"

text \<open>ParseQuery: the first error, if there is any, is returned.\<close>

fun parse_settings :: "string list \<Rightarrow> (string \<times> string) list result" where
  "parse_settings [] = Inr []"
| "parse_settings (s # ss) =
     (case query_setting s of
        Inl e \<Rightarrow> Inl e
      | Inr o' \<Rightarrow> (case parse_settings ss of Inl e \<Rightarrow> Inl e
                   | Inr kvs \<Rightarrow> Inr (case o' of None \<Rightarrow> kvs | Some kv \<Rightarrow> kv # kvs)))"

definition ParseQuery :: "string \<Rightarrow> (string \<times> string) list result" where
  "ParseQuery q = parse_settings (split_byte (CHR ''&'') q)"

definition values_Get :: "(string \<times> string) list \<Rightarrow> string \<Rightarrow> string" where
  "values_Get kvs k = (case find (\<lambda>kv. fst kv = k) kvs of None \<Rightarrow> '''' | Some kv \<Rightarrow> snd kv)"

end
