(* ===== verification/Webhook.thy ===== *)
theory Webhook
  imports Enqueue Http
begin

text \<open>The GitHub webhook: internal/github/webhook_verifier.go (the signature of a delivery),
  webhook_dedup.go (the cache of seen deliveries) and webhook_handler.go.\<close>

section \<open>The signature\<close>

definition WebhookVerify :: "string \<Rightarrow> string \<Rightarrow> string \<Rightarrow> unit result" where
  "WebhookVerify secret rawBody sig =
     (if secret = '''' then Inl ErrWebhookDisabled
      else if sig = '''' then Inl ErrMissingSignatureHeader
      else if \<not> has_prefix sig ''sha256='' then Inl (ESuffix ErrInvalidWebhookSignature '': expected sha256= prefix'')
      else (case hex_decode (drop 7 sig) of
              Inl e \<Rightarrow> Inl (ESuffix ErrInvalidWebhookSignature ('': hex decode error: '' @ err_text e))
            | Inr got \<Rightarrow>
                if hmac_sha256 secret rawBody = got then Inr () else Inl ErrInvalidWebhookSignature))"

section \<open>The cache of deliveries\<close>

record mem_dedup =
  Items :: "string \<Rightarrow> time option"
  Ttl :: int

definition NewMemDedupCache :: "int \<Rightarrow> mem_dedup" where
  "NewMemDedupCache ttl = \<lparr> Items = Map.empty, Ttl = ttl \<rparr>"

text \<open>Each operation runs under the mutex, with one reading of the clock.\<close>

definition CheckAndAdd :: "string \<Rightarrow> time \<Rightarrow> mem_dedup \<Rightarrow> bool \<times> mem_dedup" where
  "CheckAndAdd deliveryID now c =
     (case Items c deliveryID of
        Some expires \<Rightarrow>
          if now < expires then (False, c)
          else (True, c\<lparr> Items := (Items c)(deliveryID \<mapsto> now + Ttl c) \<rparr>)
      | None \<Rightarrow> (True, c\<lparr> Items := (Items c)(deliveryID \<mapsto> now + Ttl c) \<rparr>))"

definition evictExpired :: "time \<Rightarrow> mem_dedup \<Rightarrow> mem_dedup" where
  "evictExpired now c = c\<lparr> Items := (\<lambda>k. case Items c k of
     None \<Rightarrow> None | Some expires \<Rightarrow> if expires < now then None else Some expires) \<rparr>"

text \<open>The calls of the handlers and the ticks of gcLoop, in the order the mutex gives them.\<close>

datatype dedup_event = Delivery time string | GcTick time

fun event_time :: "dedup_event \<Rightarrow> time" where
  "event_time (Delivery t d) = t"
| "event_time (GcTick t) = t"

fun dedup_run :: "mem_dedup \<Rightarrow> dedup_event list \<Rightarrow> bool list \<times> mem_dedup" where
  "dedup_run c [] = ([], c)"
| "dedup_run c (Delivery t d # evs) =
     (case CheckAndAdd d t c of (b, c1) \<Rightarrow> (case dedup_run c1 evs of (bs, c2) \<Rightarrow> (b # bs, c2)))"
| "dedup_run c (GcTick t # evs) = dedup_run (evictExpired t c) evs"

section \<open>The handler\<close>

record issue_payload =
  IssNumber :: int
  IssTitle :: string
  IssPullRequest :: "string option"
  IssLabels :: "string list"

record webhook_payload =
  PayAction :: string
  PayIssue :: issue_payload
  PayRepoFullName :: string
  PayLabel :: "string option"

text \<open>The decoders of the nested structs; a pointer is nil for null.\<close>

definition dec_one :: "string \<Rightarrow> 'a decoder \<Rightarrow> 'a decoder" where
  "dec_one f d j v = (case struct_members j of None \<Rightarrow> (v, False) | Some kvs \<Rightarrow> dec_field f d kvs v)"

fun dec_ptr :: "'a decoder \<Rightarrow> 'a \<Rightarrow> 'a option decoder" where
  "dec_ptr d z JNull v = (None, True)"
| "dec_ptr d z j v = (case d j (case v of None \<Rightarrow> z | Some a \<Rightarrow> a) of (a, ok) \<Rightarrow> (Some a, ok))"

definition dec_issue :: "issue_payload decoder" where
  "dec_issue j v =
     (case struct_members j of
        None \<Rightarrow> (v, False)
      | Some kvs \<Rightarrow>
          let (n, o1) = dec_field ''number'' dec_int kvs (IssNumber v);
              (t, o2) = dec_field ''title'' dec_str kvs (IssTitle v);
              (p, o3) = dec_field ''pull_request'' (dec_ptr (dec_one ''url'' dec_str) '''') kvs (IssPullRequest v);
              (l, o4) = dec_field ''labels'' (dec_list (dec_one ''name'' dec_str) '''') kvs (IssLabels v)
          in (\<lparr> IssNumber = n, IssTitle = t, IssPullRequest = p, IssLabels = l \<rparr>, o1 \<and> o2 \<and> o3 \<and> o4))"

definition zero_issue :: issue_payload where
  "zero_issue = \<lparr> IssNumber = 0, IssTitle = '''', IssPullRequest = None, IssLabels = [] \<rparr>"

definition payload_of_json :: "json \<Rightarrow> webhook_payload option" where
  "payload_of_json j =
     (case struct_members j of
        None \<Rightarrow> None
      | Some kvs \<Rightarrow>
          let (a, o1) = dec_field ''action'' dec_str kvs '''';
              (i, o2) = dec_field ''issue'' dec_issue kvs zero_issue;
              (r, o3) = dec_field ''repository'' (dec_one ''full_name'' dec_str) kvs '''';
              (l, o4) = dec_field ''label'' (dec_ptr (dec_one ''name'' dec_str) '''') kvs None
          in if o1 \<and> o2 \<and> o3 \<and> o4
             then Some \<lparr> PayAction = a, PayIssue = i, PayRepoFullName = r, PayLabel = l \<rparr> else None)"

definition unmarshal_payload :: "string \<Rightarrow> webhook_payload option" where
  "unmarshal_payload body = (case json_of_string body of None \<Rightarrow> None | Some j \<Rightarrow> payload_of_json j)"

definition maxBodyBytes :: nat where "maxBodyBytes = 1048576"

definition read_body :: "http_request \<Rightarrow> string option" where
  "read_body req = (case ReqBody req of
     Inl _ \<Rightarrow> None | Inr b \<Rightarrow> if maxBodyBytes < length b then None else Some b)"

record webhook_handler =
  WhSecret :: string
  WhTaskUC :: task_usecase
  WhTaskRepo :: "world task_repo"
  WhRepos :: "repo_config list"

record webhook_response =
  WhAccepted :: bool
  WhReason :: string
  WhTaskID :: string

definition ignored :: "string \<Rightarrow> webhook_response reply" where
  "ignored reason = reply_ok 200 \<lparr> WhAccepted = False, WhReason = reason, WhTaskID = '''' \<rparr>"

definition findRepoCfg :: "webhook_handler \<Rightarrow> string \<Rightarrow> repo_config option" where
  "findRepoCfg h fullName = find (\<lambda>r. RepoName r = fullName) (WhRepos h)"

definition hasAllLabelNames :: "string list \<Rightarrow> string list \<Rightarrow> bool" where
  "hasAllLabelNames labelNames required = list_all (\<lambda>r. r \<in> set labelNames) required"

text \<open>Steps 2 to 8: everything before the cache, which needs neither it nor the world.\<close>

definition webhook_admit :: "webhook_handler \<Rightarrow> http_request \<Rightarrow> webhook_response reply + (string \<times> string)" where
  "webhook_admit h req =
     (case read_body req of
        None \<Rightarrow> Inl (reply_error 400 ''request body too large or unreadable'')
      | Some body \<Rightarrow>
          let event = ReqHeader req ''X-GitHub-Event'';
              delivery = ReqHeader req ''X-GitHub-Delivery'';
              sig = ReqHeader req ''X-Hub-Signature-256''
          in if event = '''' then Inl (reply_error 400 ''missing X-GitHub-Event header'')
             else if delivery = '''' then Inl (reply_error 400 ''missing X-GitHub-Delivery header'')
             else if sig = '''' then Inl (reply_error 401 ''missing X-Hub-Signature-256 header'')
             else (case WebhookVerify (WhSecret h) body sig of
                     Inl _ \<Rightarrow> Inl (reply_error 401 ''signature verification failed'')
                   | Inr _ \<Rightarrow>
                       if event = ''ping''
                       then Inl (reply_ok 200 \<lparr> WhAccepted = True, WhReason = ''ping'', WhTaskID = '''' \<rparr>)
                       else if event \<noteq> ''issues'' then Inl (ignored ''ignored:event_not_supported'')
                       else Inr (body, delivery)))"

text \<open>Steps 10 to 14: the payload and what the configuration says of it.\<close>

definition webhook_payload_stage :: "webhook_handler \<Rightarrow> string \<Rightarrow> webhook_response reply + webhook_payload" where
  "webhook_payload_stage h body =
     (case unmarshal_payload body of
        None \<Rightarrow> Inl (reply_error 400 ''invalid JSON payload'')
      | Some p \<Rightarrow>
          if IssPullRequest (PayIssue p) \<noteq> None then Inl (ignored ''ignored:pr_event'')
          else if PayAction p \<noteq> ''opened'' \<and> PayAction p \<noteq> ''labeled'' then Inl (ignored ''ignored:action'')
          else (case findRepoCfg h (PayRepoFullName p) of
                  None \<Rightarrow> Inl (ignored ''ignored:not_in_allowlist'')
                | Some rc \<Rightarrow>
                    if \<not> hasAllLabelNames (IssLabels (PayIssue p)) (RepoLabels rc)
                    then Inl (ignored ''ignored:label_mismatch'') else Inr p))"

text \<open>Steps 15 to 18.\<close>

definition webhook_enqueue :: "webhook_handler \<Rightarrow> webhook_payload \<Rightarrow> webhook_response reply prog" where
  "webhook_enqueue h p = do {
     ex \<leftarrow> call (ExistsByRepoAndIssue (WhTaskRepo h) (PayRepoFullName p) (IssNumber (PayIssue p)));
     (case ex of
        Inl _ \<Rightarrow> ret (reply_error 500 ''internal server error'')
      | Inr exists \<Rightarrow>
          if exists then ret (ignored ''duplicate'')
          else do {
            r \<leftarrow> EnqueueFromIssue (WhTaskUC h) \<lparr> ReqRepo = PayRepoFullName p, ReqIssueNumber = IssNumber (PayIssue p),
                   ReqIssueTitle = IssTitle (PayIssue p), ReqSource = ''webhook'' \<rparr>;
            ret (case r of
                   Inl _ \<Rightarrow> reply_error 500 ''internal server error''
                 | Inr t \<Rightarrow> reply_ok 200 \<lparr> WhAccepted = True, WhReason = ''queued'', WhTaskID = ID t \<rparr>)
          })
   }"

definition HandleWebhook :: "webhook_handler \<Rightarrow> http_request \<Rightarrow> mem_dedup \<Rightarrow> (webhook_response reply \<times> mem_dedup) prog" where
  "HandleWebhook h req c =
     (case webhook_admit h req of
        Inl r \<Rightarrow> ret (r, c)
      | Inr (body, delivery) \<Rightarrow> do {
          now \<leftarrow> now_prog;
          (case CheckAndAdd delivery now c of
             (False, c1) \<Rightarrow> ret (ignored ''duplicate'', c1)
           | (True, c1) \<Rightarrow>
               (case webhook_payload_stage h body of
                  Inl r \<Rightarrow> ret (r, c1)
                | Inr p \<Rightarrow> do { r \<leftarrow> webhook_enqueue h p; ret (r, c1) }))
        })"

section \<open>The signature and the cache\<close>

lemma webhook_verify_iff:
  "WebhookVerify secret body sig = Inr () \<longleftrightarrow>
     secret \<noteq> '''' \<and> (\<exists>hx. sig = ''sha256='' @ hx \<and> hex_decode hx = Inr (hmac_sha256 secret body))"
proof (cases "has_prefix sig ''sha256=''")
  case True
  then obtain hx where "sig = ''sha256='' @ hx" by (rule has_prefixE)
  then show ?thesis using True by (auto simp: WebhookVerify_def split: sum.splits)
next
  case False
  then have "\<nexists>hx. sig = ''sha256='' @ hx" by (metis has_prefix_append)
  moreover have "WebhookVerify secret body sig \<noteq> Inr ()" using False by (simp add: WebhookVerify_def)
  ultimately show ?thesis by blast
qed

text \<open>The specification of the cache: a delivery is a duplicate when an accepted one of the
  same id is less than the ttl old. It keeps the accepted ones and never forgets.\<close>

fun spec_run :: "int \<Rightarrow> (time \<times> string) list \<Rightarrow> dedup_event list \<Rightarrow> bool list" where
  "spec_run ttl acc [] = []"
| "spec_run ttl acc (Delivery t d # evs) =
     (if list_ex (\<lambda>(t', d'). d' = d \<and> t < t' + ttl) acc then False # spec_run ttl acc evs
      else True # spec_run ttl ((t, d) # acc) evs)"
| "spec_run ttl acc (GcTick t # evs) = spec_run ttl acc evs"

definition live :: "mem_dedup \<Rightarrow> string \<Rightarrow> time \<Rightarrow> bool" where
  "live c d t = (\<exists>x. Items c d = Some x \<and> t < x)"

definition dedup_rel :: "time \<Rightarrow> mem_dedup \<Rightarrow> (time \<times> string) list \<Rightarrow> bool" where
  "dedup_rel now c acc = (\<forall>d t. now \<le> t \<longrightarrow> live c d t = list_ex (\<lambda>(t', d'). d' = d \<and> t < t' + Ttl c) acc)"

lemma dedup_rel_later: "dedup_rel now c acc \<Longrightarrow> now \<le> t \<Longrightarrow> dedup_rel t c acc"
  by (simp add: dedup_rel_def)

lemma check_live: "CheckAndAdd d t c = (if live c d t then (False, c)
    else (True, c\<lparr> Items := (Items c)(d \<mapsto> t + Ttl c) \<rparr>))"
  by (auto simp: CheckAndAdd_def live_def split: option.split)

lemma dedup_rel_add:
  assumes "dedup_rel t c acc" "\<not> live c d t"
  shows "dedup_rel t (c\<lparr> Items := (Items c)(d \<mapsto> t + Ttl c) \<rparr>) ((t, d) # acc)"
  unfolding dedup_rel_def
proof (intro allI impI)
  fix e u assume u: "t \<le> u"
  have d: "\<not> list_ex (\<lambda>(t', d'). d' = d \<and> t < t' + Ttl c) acc"
    using assms by (simp add: dedup_rel_def)
  then have "\<not> list_ex (\<lambda>(t', d'). d' = d \<and> u < t' + Ttl c) acc"
    using u by (fastforce simp: list_ex_iff)
  then show "live (c\<lparr> Items := (Items c)(d \<mapsto> t + Ttl c) \<rparr>) e u =
      list_ex (\<lambda>(t', d'). d' = e \<and> u < t' + Ttl (c\<lparr> Items := (Items c)(d \<mapsto> t + Ttl c) \<rparr>)) ((t, d) # acc)"
    using assms(1) u by (auto simp: live_def dedup_rel_def)
qed

lemma dedup_rel_evict:
  assumes "dedup_rel t c acc"
  shows "dedup_rel t (evictExpired t c) acc"
proof -
  have "live (evictExpired t c) d u = live c d u" if "t \<le> u" for d u
    using that by (auto simp: live_def evictExpired_def split: option.splits)
  then show ?thesis using assms by (simp add: dedup_rel_def evictExpired_def)
qed

lemma dedup_run_spec:
  "dedup_rel now c acc \<Longrightarrow> sorted_wrt (\<le>) (map event_time evs) \<Longrightarrow> \<forall>e \<in> set evs. now \<le> event_time e \<Longrightarrow>
   fst (dedup_run c evs) = spec_run (Ttl c) acc evs"
proof (induction c evs arbitrary: now acc rule: dedup_run.induct)
  case (2 c t d evs)
  have r: "dedup_rel t c acc" using dedup_rel_later 2(2,4) by simp
  then have l: "live c d t = list_ex (\<lambda>(t', d'). d' = d \<and> t < t' + Ttl c) acc" by (simp add: dedup_rel_def)
  show ?case
  proof (cases "live c d t")
    case True
    have "fst (dedup_run c evs) = spec_run (Ttl c) acc evs"
      by (rule 2(1)[of False c t acc]) (use True r 2(3) in \<open>auto simp: check_live\<close>)
    then show ?thesis using True l by (simp add: check_live case_prod_beta)
  next
    case False
    let ?c = "c\<lparr> Items := (Items c)(d \<mapsto> t + Ttl c) \<rparr>"
    have "fst (dedup_run ?c evs) = spec_run (Ttl ?c) ((t, d) # acc) evs"
      by (rule 2(1)[of True ?c t "(t, d) # acc"])
        (use False dedup_rel_add[OF r False] 2(3) in \<open>auto simp: check_live\<close>)
    then show ?thesis using False l by (simp add: check_live case_prod_beta)
  qed
next
  case (3 c t evs)
  then have r: "dedup_rel t c acc" using dedup_rel_later by simp
  have "fst (dedup_run (evictExpired t c) evs) = spec_run (Ttl (evictExpired t c)) acc evs"
    using 3 by (intro 3(1)[OF dedup_rel_evict[OF r]]) auto
  then show ?case by (simp add: evictExpired_def)
qed simp

section \<open>Properties\<close>

text \<open>C16: over any order of deliveries and collections the mutex gives, with a clock that
  does not run backwards, the cache accepts exactly what a cache that never forgets would:
  a delivery is refused when an accepted one of the same id is less than the ttl old.
  Collecting expired entries changes no answer.\<close>

theorem dedup_refines_full_history:
  assumes "sorted_wrt (\<le>) (map event_time evs)"
  shows "fst (dedup_run (NewMemDedupCache ttl) evs) = spec_run ttl [] evs"
proof -
  define now where "now = (if evs = [] then 0 else event_time (hd evs))"
  have "dedup_rel now (NewMemDedupCache ttl) []" by (simp add: dedup_rel_def live_def NewMemDedupCache_def)
  moreover have "\<forall>e \<in> set evs. now \<le> event_time e" using assms by (cases evs) (auto simp: now_def)
  ultimately show ?thesis using dedup_run_spec assms by (fastforce simp: NewMemDedupCache_def)
qed

lemma dedup_witness:
  "fst (dedup_run (NewMemDedupCache 300) [Delivery 0 ''a'', Delivery 299 ''a'', GcTick 301, Delivery 301 ''a'']) =
     [True, False, True]"
  using dedup_refines_full_history[of "[Delivery 0 ''a'', Delivery 299 ''a'', GcTick 301, Delivery 301 ''a'']" 300]
  by simp

lemma webhook_admit_ok:
  "webhook_admit h req = Inr (body, delivery) \<longleftrightarrow>
     read_body req = Some body \<and> delivery = ReqHeader req ''X-GitHub-Delivery'' \<and> delivery \<noteq> '''' \<and>
     ReqHeader req ''X-GitHub-Event'' = ''issues'' \<and>
     WebhookVerify (WhSecret h) body (ReqHeader req ''X-Hub-Signature-256'') = Inr ()"
proof -
  have "WebhookVerify s b '''' \<noteq> Inr ()" for s b by (simp add: WebhookVerify_def)
  then show ?thesis
    by (auto simp: webhook_admit_def ignored_def Let_def split: option.split sum.split if_splits)
qed

lemma webhook_payload_ok:
  "webhook_payload_stage h body = Inr p \<longleftrightarrow>
     unmarshal_payload body = Some p \<and> IssPullRequest (PayIssue p) = None \<and> PayAction p \<in> {''opened'', ''labeled''} \<and>
     (\<exists>rc. findRepoCfg h (PayRepoFullName p) = Some rc \<and> hasAllLabelNames (IssLabels (PayIssue p)) (RepoLabels rc))"
  by (auto simp: webhook_payload_stage_def split: option.split if_splits)

lemma added_changes: "added w t w' \<Longrightarrow> task_view w' \<noteq> task_view w"
  unfolding added_def by (metis fun_upd_same option.distinct(1))

lemma webhook_enqueue_cases:
  assumes "run_state (webhook_enqueue h p) w = (rep, w')" "wf_db w" "WhTaskRepo h = gorm_task_repo True"
    "UcTaskRepo (WhTaskUC h) = gorm_task_repo True" "UcAppState (WhTaskUC h) = Some gorm_app_repo"
  obtains (kept) "task_view w' = task_view w" "\<forall>b. snd rep = Inr b \<longrightarrow> WhReason b = ''duplicate'' \<and> \<not> WhAccepted b"
  | (created) t where "\<not> active_task w (PayRepoFullName p) (IssNumber (PayIssue p))"
      "isAllowedRepo (UcRepos (WhTaskUC h)) (PayRepoFullName p)" "added w t w'"
      "rep = reply_error 500 ''internal server error'' \<or>
       rep = reply_ok 200 \<lparr> WhAccepted = True, WhReason = ''queued'', WhTaskID = ID t \<rparr>"
proof -
  let ?repo = "PayRepoFullName p" and ?num = "IssNumber (PayIssue p)"
  obtain x w1 where x: "ExistsByRepoAndIssue (gorm_task_repo True) ?repo ?num w = (x, w1)" by fastforce
  note k = gorm_task.Exists_keeps[OF assms(2) x]
  show thesis
  proof (cases "x = Inr False")
    case False
    then show thesis using assms(1,3) x k
      by (intro kept) (auto simp: webhook_enqueue_def ignored_def split: sum.splits bool.splits)
  next
    case True
    let ?req = "\<lparr> ReqRepo = ?repo, ReqIssueNumber = ?num, ReqIssueTitle = IssTitle (PayIssue p), ReqSource = ''webhook'' \<rparr>"
    obtain r w2 where r: "run_state (EnqueueFromIssue (WhTaskUC h) ?req) w1 = (r, w2)" by fastforce
    have e: "w' = w2" "rep = (case r of Inl _ \<Rightarrow> reply_error 500 ''internal server error''
        | Inr t \<Rightarrow> reply_ok 200 \<lparr> WhAccepted = True, WhReason = ''queued'', WhTaskID = ID t \<rparr>)"
      using assms(1,3) x True r by (simp_all add: webhook_enqueue_def)
    from r assms(4) disjI1[OF assms(5)] conjunct1[OF k] show thesis
    proof (cases rule: enqueue_from_issue_cases)
      case (refused e)
      then show thesis using e k by (intro kept) simp_all
    next
      case (asked v y)
      have a: "active_task v = active_task w" "added v = added w"
        using asked(4) k by (simp_all add: fun_eq_iff active_task_def added_def)
      note s = enqueue_once_spec[OF asked(3,5)]
      show thesis
      proof (cases "task_view w' = task_view w")
        case True
        have "\<forall>t. y \<noteq> Inr (Inr t)"
        proof (intro allI notI)
          fix t assume "y = Inr (Inr t)"
          then have "added w t w'" using s a e by simp
          then show False using True added_changes by blast
        qed
        then show thesis using asked(6) e True by (intro kept) auto
      next
        case False
        have view: "task_view v = task_view w" using asked(4) k by simp
        obtain z where y: "y = Inr z" using s False e view by (cases y) auto
        obtain t where "\<not> active_task w ?repo ?num" "added w t w'" "\<forall>u. y = Inr (Inr u) \<longrightarrow> u = t"
        proof (cases z)
          case (Inl er)
          then have "\<not> active_task w ?repo ?num" "\<exists>t. added w t w'" using s False a e view unfolding y by auto
          then show thesis using that Inl y by blast
        next
          case (Inr t)
          then have "\<not> active_task w ?repo ?num" "added w t w'" using s a e unfolding y by auto
          then show thesis using that Inr y by blast
        qed
        note t = this
        have "rep = reply_error 500 ''internal server error'' \<or>
            rep = reply_ok 200 \<lparr> WhAccepted = True, WhReason = ''queued'', WhTaskID = ID t \<rparr>"
          using asked(6) e(2) t(3) by (elim disjE exE conjE) simp_all
        then show thesis by (rule created[OF t(1) asked(1)[simplified] t(2)])
      qed
    qed
  qed
qed

text \<open>C6: a delivery that creates a task was signed with the secret, is an issues event not
  seen within the ttl, and reports an issue (not a pull request) opened or labeled in a
  configured repository with all of its labels, for which no task was queued or running. It
  creates one task; the reply says queued exactly with the id of such a task. Any other
  delivery leaves the tasks as they were.\<close>

theorem webhook_creates_only_signed_issues:
  assumes "wf_db w" "WhTaskRepo h = gorm_task_repo True" "UcTaskRepo (WhTaskUC h) = gorm_task_repo True"
    "UcAppState (WhTaskUC h) = Some gorm_app_repo"
  shows "case run_state (HandleWebhook h req c) w of ((rep, c'), w') \<Rightarrow>
    (\<forall>b. snd rep = Inr b \<and> WhReason b = ''queued'' \<longrightarrow> (\<exists>t. added w t w' \<and> ID t = WhTaskID b)) \<and>
    (task_view w' = task_view w \<or>
     (\<exists>t body hx p rc. added w t w' \<and> read_body req = Some body \<and> WhSecret h \<noteq> '''' \<and>
        ReqHeader req ''X-Hub-Signature-256'' = ''sha256='' @ hx \<and> hex_decode hx = Inr (hmac_sha256 (WhSecret h) body) \<and>
        ReqHeader req ''X-GitHub-Event'' = ''issues'' \<and>
        fst (CheckAndAdd (ReqHeader req ''X-GitHub-Delivery'') (clock w (ops w)) c) \<and>
        unmarshal_payload body = Some p \<and> IssPullRequest (PayIssue p) = None \<and>
        PayAction p \<in> {''opened'', ''labeled''} \<and>
        findRepoCfg h (PayRepoFullName p) = Some rc \<and> hasAllLabelNames (IssLabels (PayIssue p)) (RepoLabels rc) \<and>
        isAllowedRepo (UcRepos (WhTaskUC h)) (PayRepoFullName p) \<and>
        \<not> active_task w (PayRepoFullName p) (IssNumber (PayIssue p))))"
proof (cases "webhook_admit h req")
  case (Inl r)
  then have "snd r = Inr b \<Longrightarrow> WhReason b \<noteq> ''queued''" for b
    by (auto simp: webhook_admit_def ignored_def Let_def split: option.splits sum.splits if_splits)
  then show ?thesis using Inl by (auto simp: HandleWebhook_def)
next
  case (Inr bd)
  obtain body delivery where bd: "bd = (body, delivery)" by (cases bd)
  note adm = Inr[unfolded bd webhook_admit_ok]
  obtain ok c1 where ck: "CheckAndAdd delivery (clock w (ops w)) c = (ok, c1)" by fastforce
  have run: "run_state (HandleWebhook h req c) w = run_state (case CheckAndAdd delivery (clock w (ops w)) c of
             (False, c1) \<Rightarrow> ret (ignored ''duplicate'', c1)
           | (True, c1) \<Rightarrow>
               (case webhook_payload_stage h body of
                  Inl r \<Rightarrow> ret (r, c1)
                | Inr p \<Rightarrow> do { r \<leftarrow> webhook_enqueue h p; ret (r, c1) })) (tick w)"
    using Inr bd by (simp add: HandleWebhook_def now_prog_def ask_def)
  show ?thesis
  proof (cases "ok")
    case False
    then show ?thesis using run ck by (auto simp: ignored_def)
  next
    case True
    show ?thesis
    proof (cases "webhook_payload_stage h body")
      case (Inl r)
      then have "snd r = Inr b \<Longrightarrow> WhReason b \<noteq> ''queued''" for b
        by (auto simp: webhook_payload_stage_def ignored_def split: option.splits if_splits)
      then show ?thesis using run ck True Inl by auto
    next
      case (Inr p)
      note pay = Inr[unfolded webhook_payload_ok]
      obtain rep w' where e: "run_state (webhook_enqueue h p) (tick w) = (rep, w')" by fastforce
      have wt: "wf_db (tick w)" "task_view (tick w) = task_view w" "added (tick w) = added w"
          "active_task (tick w) = active_task w"
        using assms(1) by (simp_all add: fun_eq_iff added_def active_task_def)
      have res: "run_state (HandleWebhook h req c) w = ((rep, c1), w')" using run ck True Inr e by simp
      from e wt(1) assms(2-4) show ?thesis
      proof (cases rule: webhook_enqueue_cases)
        case kept
        then show ?thesis using res wt by auto
      next
        case (created t)
        then have "\<exists>hx. ReqHeader req ''X-Hub-Signature-256'' = ''sha256='' @ hx \<and> hex_decode hx = Inr (hmac_sha256 (WhSecret h) body)"
          "WhSecret h \<noteq> ''''"
          using adm unfolding webhook_verify_iff by blast+
        then show ?thesis using created res adm pay ck True wt
          by (fastforce simp: reply_ok_def reply_error_def)
      qed
    qed
  qed
qed

text \<open>C38: a delivery whose processing failed with 500 (so that GitHub may send it again) is
  refused as a duplicate when it is sent again within the ttl, with the reply 200 and
  nothing enqueued: the delivery was recorded before the task was created.\<close>

theorem failed_delivery_is_not_retried:
  assumes "run_state (HandleWebhook h req c) w = (((500, e), c1), w1)"
    "clock w2 (ops w2) < clock w (ops w) + Ttl c"
  shows "run_state (HandleWebhook h req c1) w2 = ((ignored ''duplicate'', c1), tick w2)"
proof (cases "webhook_admit h req")
  case (Inl r)
  then have "fst r \<noteq> 500"
    by (auto simp: webhook_admit_def ignored_def Let_def split: option.splits sum.splits if_splits)
  then show ?thesis using assms(1) Inl by (auto simp: HandleWebhook_def)
next
  case (Inr bd)
  obtain body delivery where bd: "bd = (body, delivery)" by (cases bd)
  have l: "\<not> live c delivery (clock w (ops w))"
    using assms(1) Inr bd by (auto simp: HandleWebhook_def now_prog_def ask_def check_live ignored_def reply_ok_def)
  then have "c1 = c\<lparr> Items := (Items c)(delivery \<mapsto> clock w (ops w) + Ttl c) \<rparr>"
    using assms(1) Inr bd
    by (auto simp: HandleWebhook_def now_prog_def ask_def check_live split: sum.splits prod.splits)
  then have "live c1 delivery (clock w2 (ops w2))" using assms(2) by (simp add: live_def)
  then show ?thesis using Inr bd by (simp add: HandleWebhook_def now_prog_def ask_def check_live)
qed

definition webhook_body :: string where
  "webhook_body = ''{\"action\":\"opened\",\"issue\":{\"number\":7,\"title\":\"slow\",\"labels\":[{\"name\":\"ai\"}]},\"repository\":{\"full_name\":\"acme/app\"}}''"

definition signed_request :: http_request where
  "signed_request = \<lparr> ReqBody = Inr webhook_body, ReqHeader = (\<lambda>n.
     if n = ''X-GitHub-Event'' then ''issues'' else if n = ''X-GitHub-Delivery'' then ''d1''
     else if n = ''X-Hub-Signature-256'' then ''sha256='' @ hex_encode (hmac_sha256 ''s3cret'' webhook_body) else '''') \<rparr>"

definition sample_webhook :: webhook_handler where
  "sample_webhook = \<lparr> WhSecret = ''s3cret'', WhTaskUC = sample_usecase, WhTaskRepo = gorm_task_repo True,
     WhRepos = [sample_repo] \<rparr>"

lemma sample_payload: "unmarshal_payload webhook_body = Some \<lparr> PayAction = ''opened'', PayIssue = \<lparr> IssNumber = 7,
    IssTitle = ''slow'', IssPullRequest = None, IssLabels = [''ai''] \<rparr>, PayRepoFullName = ''acme/app'', PayLabel = None \<rparr>"
  by code_simp

lemma sample_admitted: "webhook_admit sample_webhook signed_request = Inr (webhook_body, ''d1'')"
proof -
  have "length webhook_body \<le> maxBodyBytes" by (simp add: webhook_body_def maxBodyBytes_def)
  then have "read_body signed_request = Some webhook_body" by (simp add: read_body_def signed_request_def)
  then show ?thesis
    unfolding webhook_admit_ok webhook_verify_iff
    by (simp add: signed_request_def sample_webhook_def hex_round_trip)
qed

lemma sample_payload_accepted: "webhook_payload_stage sample_webhook webhook_body = Inr \<lparr> PayAction = ''opened'',
    PayIssue = \<lparr> IssNumber = 7, IssTitle = ''slow'', IssPullRequest = None, IssLabels = [''ai''] \<rparr>,
    PayRepoFullName = ''acme/app'', PayLabel = None \<rparr>"
  unfolding webhook_payload_ok sample_payload
  by (simp add: findRepoCfg_def hasAllLabelNames_def sample_webhook_def sample_repo_def)

lemma webhook_witness:
  "case run_state (HandleWebhook sample_webhook signed_request (NewMemDedupCache 300)) enqueue_sample of ((rep, c'), w') \<Rightarrow>
     \<forall>b. snd rep = Inr b \<and> WhReason b = ''queued'' \<longrightarrow> (\<exists>t. added enqueue_sample t w' \<and> ID t = WhTaskID b)"
  using webhook_creates_only_signed_issues[OF enqueue_sample_ok(1), of sample_webhook signed_request "NewMemDedupCache 300"]
  by (auto simp: sample_webhook_def sample_usecase_def split: prod.splits)

text \<open>A database that is down.\<close>

definition down_sample :: world where
  "down_sample = enqueue_sample\<lparr> outcome := (\<lambda>n. FailsBefore (ConnectionLost ''down'')) \<rparr>"

lemma redelivery_witness:
  "\<exists>c1. run_state (HandleWebhook sample_webhook signed_request (NewMemDedupCache 300)) down_sample =
      ((reply_error 500 ''internal server error'', c1), tick (tick down_sample)) \<and>
    run_state (HandleWebhook sample_webhook signed_request c1) enqueue_sample = ((ignored ''duplicate'', c1), tick enqueue_sample)"
proof -
  let ?c1 = "\<lparr> Items = [''d1'' \<mapsto> clock down_sample (ops down_sample) + 300], Ttl = 300 \<rparr>"
  have a: "run_state (HandleWebhook sample_webhook signed_request (NewMemDedupCache 300)) down_sample =
      ((reply_error 500 ''internal server error'', ?c1), tick (tick down_sample))"
    using sample_admitted sample_payload_accepted
    by (simp add: HandleWebhook_def now_prog_def ask_def check_live live_def NewMemDedupCache_def webhook_enqueue_def
        sample_webhook_def gorm_task_repo_def repo_ExistsByRepoAndIssue_def exec_def tick_def down_sample_def)
  then show ?thesis
    using failed_delivery_is_not_retried[of sample_webhook signed_request "NewMemDedupCache 300" down_sample
        "Inl ''internal server error''" ?c1 "tick (tick down_sample)" enqueue_sample]
    by (auto simp: reply_error_def NewMemDedupCache_def down_sample_def enqueue_sample_def)
qed

end
