(* ===== verification/Slack_Interactions.thy ===== *)
theory Slack_Interactions
  imports Scheduler Http Json_Text
begin

text \<open>The Stop button of Slack: internal/slack/verify.go (the signature of a request and its
  age), internal/slack/interactions.go (the payload) and internal/api/slack_handler.go. The
  canceller is a function over a state; run() of cmd/claude-ops/main.go passes the scheduler.\<close>

section \<open>The signature\<close>

text \<open>time.Since and Abs saturate at the ends of the 64 bit range.\<close>

definition go_sub :: "time \<Rightarrow> time \<Rightarrow> int" where
  "go_sub a b = max (- (2 ^ 63)) (min (2 ^ 63 - 1) (a - b))"

definition go_abs :: "int \<Rightarrow> int" where
  "go_abs d = (if 0 \<le> d then d else if d = - (2 ^ 63) then 2 ^ 63 - 1 else - d)"

definition replayWindow :: int where "replayWindow = 5 * 60 * Second"

definition slack_signature :: "string \<Rightarrow> string \<Rightarrow> string \<Rightarrow> string" where
  "slack_signature secret timestamp body =
     ''v0='' @ hex_encode (hmac_sha256 secret (''v0:'' @ timestamp @ '':'' @ body))"

definition VerifySignature :: "time \<Rightarrow> string \<Rightarrow> string \<Rightarrow> string \<Rightarrow> string \<Rightarrow> unit result" where
  "VerifySignature now timestamp signature body secret =
     (case ParseInt timestamp of
        None \<Rightarrow> Inl (EWrap (''parse timestamp '' @ go_quote timestamp) (EMsg ''strconv.ParseInt''))
      | Some ts \<Rightarrow>
          if replayWindow < go_abs (go_sub now (ts * Second)) then Inl ErrExpiredTimestamp
          else if slack_signature secret timestamp body = signature then Inr () else Inl ErrInvalidSignature)"

section \<open>The payload\<close>

record slack_action =
  ActionID :: string
  ActionValue :: string

record interaction_payload =
  PayType :: string
  PayActions :: "slack_action list"

definition dec_action :: "slack_action decoder" where
  "dec_action j v =
     (case struct_members j of
        None \<Rightarrow> (v, False)
      | Some kvs \<Rightarrow>
          let (a, o1) = dec_field ''action_id'' dec_str kvs (ActionID v);
              (x, o2) = dec_field ''value'' dec_str kvs (ActionValue v)
          in (\<lparr> ActionID = a, ActionValue = x \<rparr>, o1 \<and> o2))"

definition interaction_of_json :: "json \<Rightarrow> interaction_payload option" where
  "interaction_of_json j =
     (case struct_members j of
        None \<Rightarrow> None
      | Some kvs \<Rightarrow>
          let (t, o1) = dec_field ''type'' dec_str kvs '''';
              (as, o2) = dec_field ''actions'' (dec_list dec_action \<lparr> ActionID = '''', ActionValue = '''' \<rparr>) kvs []
          in if o1 \<and> o2 then Some \<lparr> PayType = t, PayActions = as \<rparr> else None)"

definition unmarshal_interaction :: "string \<Rightarrow> interaction_payload option" where
  "unmarshal_interaction s = (case json_of_string s of None \<Rightarrow> None | Some j \<Rightarrow> interaction_of_json j)"

definition ActionIDStopTask :: string where "ActionIDStopTask = ''stop_task''"

text \<open>The loop over the actions; the first error ends it.\<close>

fun stop_actions :: "(string \<Rightarrow> 's \<Rightarrow> unit result \<times> 's) \<Rightarrow> slack_action list \<Rightarrow> 's \<Rightarrow> unit result \<times> 's" where
  "stop_actions cancel_task [] s = (Inr (), s)"
| "stop_actions cancel_task (a # as) s =
     (if ActionID a \<noteq> ActionIDStopTask then stop_actions cancel_task as s
      else let taskID = trim_prefix (ActionValue a) ''task:'' in
           if taskID = '''' then (Inl (EMsg ''empty task ID in stop action''), s)
           else (case cancel_task taskID s of
                   (Inl e, s1) \<Rightarrow> (Inl (EWrap (''cancel task '' @ go_quote taskID) e), s1)
                 | (Inr _, s1) \<Rightarrow> stop_actions cancel_task as s1))"

definition HandleInteraction :: "(string \<Rightarrow> 's \<Rightarrow> unit result \<times> 's) \<Rightarrow> string \<Rightarrow> 's \<Rightarrow> unit result \<times> 's" where
  "HandleInteraction cancel_task rawPayload s =
     (case unmarshal_interaction rawPayload of
        None \<Rightarrow> (Inl (EWrap ''parse interaction payload'' (EMsg ''json'')), s)
      | Some p \<Rightarrow> stop_actions cancel_task (PayActions p) s)"

section \<open>The handler\<close>

text \<open>Slack expects 200 on errors too; the body is the empty object.\<close>

definition HandleInteractions ::
  "(string \<Rightarrow> 's \<Rightarrow> unit result \<times> 's) \<Rightarrow> string \<Rightarrow> time \<Rightarrow> http_request \<Rightarrow> 's \<Rightarrow> unit reply \<times> 's" where
  "HandleInteractions cancel_task signingSecret now req s =
     (case ReqBody req of
        Inl _ \<Rightarrow> (reply_error 400 ''failed to read body'', s)
      | Inr body \<Rightarrow>
          (case VerifySignature now (ReqHeader req ''X-Slack-Request-Timestamp'')
                  (ReqHeader req ''X-Slack-Signature'') body signingSecret of
             Inl _ \<Rightarrow> (reply_error 401 ''invalid signature'', s)
           | Inr _ \<Rightarrow>
               (case ParseQuery body of
                  Inl _ \<Rightarrow> (reply_error 400 ''invalid payload'', s)
                | Inr values \<Rightarrow>
                    let payloadJSON = values_Get values ''payload'' in
                    if payloadJSON = '''' then (reply_error 400 ''missing payload'', s)
                    else (case HandleInteraction cancel_task payloadJSON s of (_, s1) \<Rightarrow> (reply_ok 200 (), s1)))))"

section \<open>Properties\<close>

lemma verify_signature_iff:
  "VerifySignature now timestamp signature body secret = Inr () \<longleftrightarrow>
     (\<exists>ts. ParseInt timestamp = Some ts \<and> \<bar>now - ts * Second\<bar> \<le> replayWindow) \<and>
     signature = slack_signature secret timestamp body"
proof -
  have a: "replayWindow < go_abs (go_sub now t) \<longleftrightarrow> replayWindow < \<bar>now - t\<bar>" for t
    unfolding go_abs_def go_sub_def replayWindow_def by (simp add: max_def min_def)
  show ?thesis by (auto simp: VerifySignature_def a not_less split: option.split)
qed

lemma cancel_task_cases:
  "CancelMap st i = Some c \<Longrightarrow> CancelTask i st = (Inr (), cancel_ctx c st)"
  "CancelMap st i = None \<Longrightarrow> CancelTask i st = (Inl ErrNotFound, st)"
  by (simp_all add: CancelTask_def)

text \<open>What the scheduler's CancelTask lets a list of actions do.\<close>

lemma stop_actions_cancel:
  assumes "stop_actions CancelTask as st = (r, st')"
  shows "\<exists>cs. st' = st\<lparr> CancelledCtx := cs \<rparr> \<and> set (CancelledCtx st) \<subseteq> set cs \<and>
    (\<forall>c \<in> set cs. c \<in> set (CancelledCtx st) \<or> (\<exists>a \<in> set as. ActionID a = ActionIDStopTask \<and>
       CancelMap st (trim_prefix (ActionValue a) ''task:'') = Some c))"
  using assms
proof (induction as arbitrary: st)
  case Nil
  then show ?case by (intro exI[of _ "CancelledCtx st"]) simp
next
  case (Cons a as)
  let ?i = "trim_prefix (ActionValue a) ''task:''"
  show ?case
  proof (cases "ActionID a = ActionIDStopTask \<and> ?i \<noteq> '''' \<and> CancelMap st ?i \<noteq> None")
    case True
    then obtain c where c: "CancelMap st ?i = Some c" by auto
    then have "stop_actions CancelTask as (cancel_ctx c st) = (r, st')"
      using Cons.prems True by (simp add: cancel_task_cases Let_def)
    from Cons.IH[OF this] obtain cs where cs: "st' = (cancel_ctx c st)\<lparr> CancelledCtx := cs \<rparr>"
      "set (CancelledCtx (cancel_ctx c st)) \<subseteq> set cs"
      "\<forall>x \<in> set cs. x \<in> set (CancelledCtx (cancel_ctx c st)) \<or> (\<exists>a \<in> set as. ActionID a = ActionIDStopTask \<and>
         CancelMap (cancel_ctx c st) (trim_prefix (ActionValue a) ''task:'') = Some x)" by blast
    then show ?thesis using c True by (intro exI[of _ cs]) (auto simp: cancel_ctx_def)
  next
    case False
    show ?thesis
    proof (cases "ActionID a = ActionIDStopTask")
      case True
      then have "st' = st" using Cons.prems False by (auto simp: CancelTask_def Let_def split: if_splits option.splits)
      then show ?thesis by (intro exI[of _ "CancelledCtx st"]) simp
    next
      case no: False
      then have "stop_actions CancelTask as st = (r, st')" using Cons.prems by simp
      from Cons.IH[OF this] show ?thesis by auto
    qed
  qed
qed

lemma interactions_acted:
  assumes "HandleInteractions cancel_task secret now req s = (rep, s')" "s' \<noteq> s"
  shows "\<exists>body kvs p r. ReqBody req = Inr body \<and>
     VerifySignature now (ReqHeader req ''X-Slack-Request-Timestamp'') (ReqHeader req ''X-Slack-Signature'') body secret = Inr () \<and>
     ParseQuery body = Inr kvs \<and> unmarshal_interaction (values_Get kvs ''payload'') = Some p \<and>
     stop_actions cancel_task (PayActions p) s = (r, s')"
  using assms
  by (auto simp: HandleInteractions_def HandleInteraction_def Let_def split: sum.splits if_splits option.splits prod.splits)

text \<open>C11: a request to the Slack endpoint changes nothing of the scheduler but that contexts
  are cancelled, and cancels a context only when its body carries the signature of the
  secret, its timestamp is within five minutes of the clock on either side, and its payload
  asks to stop the task the context is registered for.\<close>

theorem slack_cancels_only_authentic:
  "case HandleInteractions CancelTask secret now req st of (rep, st') \<Rightarrow>
     \<exists>cs. st' = st\<lparr> CancelledCtx := cs \<rparr> \<and> set (CancelledCtx st) \<subseteq> set cs \<and>
       (set cs \<subseteq> set (CancelledCtx st) \<or> (\<exists>body ts kvs p. ReqBody req = Inr body \<and>
          ParseInt (ReqHeader req ''X-Slack-Request-Timestamp'') = Some ts \<and> \<bar>now - ts * Second\<bar> \<le> 5 * 60 * Second \<and>
          ReqHeader req ''X-Slack-Signature'' = slack_signature secret (ReqHeader req ''X-Slack-Request-Timestamp'') body \<and>
          ParseQuery body = Inr kvs \<and> unmarshal_interaction (values_Get kvs ''payload'') = Some p \<and>
          (\<forall>c \<in> set cs. c \<in> set (CancelledCtx st) \<or> (\<exists>a \<in> set (PayActions p). ActionID a = ActionIDStopTask \<and>
             CancelMap st (trim_prefix (ActionValue a) ''task:'') = Some c))))"
proof -
  obtain rep st' where h: "HandleInteractions CancelTask secret now req st = (rep, st')" by fastforce
  show ?thesis
  proof (cases "st' = st")
    case True
    then show ?thesis using h by (auto intro!: exI[of _ "CancelledCtx st"])
  next
    case False
    from interactions_acted[OF h this] obtain body kvs p r where b: "ReqBody req = Inr body"
        "VerifySignature now (ReqHeader req ''X-Slack-Request-Timestamp'') (ReqHeader req ''X-Slack-Signature'') body secret = Inr ()"
        "ParseQuery body = Inr kvs" "unmarshal_interaction (values_Get kvs ''payload'') = Some p"
        "stop_actions CancelTask (PayActions p) st = (r, st')" by blast
    obtain ts where ts: "ParseInt (ReqHeader req ''X-Slack-Request-Timestamp'') = Some ts" "\<bar>now - ts * Second\<bar> \<le> 5 * 60 * Second"
      "ReqHeader req ''X-Slack-Signature'' = slack_signature secret (ReqHeader req ''X-Slack-Request-Timestamp'') body"
      using b(2)[unfolded verify_signature_iff replayWindow_def] by blast
    obtain cs where "st' = st\<lparr> CancelledCtx := cs \<rparr>" "set (CancelledCtx st) \<subseteq> set cs"
      "\<forall>c \<in> set cs. c \<in> set (CancelledCtx st) \<or> (\<exists>a \<in> set (PayActions p). ActionID a = ActionIDStopTask \<and>
             CancelMap st (trim_prefix (ActionValue a) ''task:'') = Some c)"
      using stop_actions_cancel[OF b(5)] by blast
    then show ?thesis using h b(1,3,4) ts by auto
  qed
qed

text \<open>An authentic press of the Stop button on a running task cancels the context the
  scheduler registered for it, and is answered with 200.\<close>

theorem slack_stop_cancels:
  assumes "ReqBody req = Inr body" "ParseInt (ReqHeader req ''X-Slack-Request-Timestamp'') = Some ts"
    "\<bar>now - ts * Second\<bar> \<le> 5 * 60 * Second"
    "ReqHeader req ''X-Slack-Signature'' = slack_signature secret (ReqHeader req ''X-Slack-Request-Timestamp'') body"
    "ParseQuery body = Inr kvs" "values_Get kvs ''payload'' \<noteq> ''''"
    "unmarshal_interaction (values_Get kvs ''payload'') = Some p"
    "PayActions p = [\<lparr> ActionID = ''stop_task'', ActionValue = ''task:'' @ i \<rparr>]" "i \<noteq> ''''" "CancelMap st i = Some c"
  shows "case HandleInteractions CancelTask secret now req st of (rep, st') \<Rightarrow>
    rep = reply_ok 200 () \<and> c \<in> set (CancelledCtx st')"
proof -
  have "VerifySignature now (ReqHeader req ''X-Slack-Request-Timestamp'') (ReqHeader req ''X-Slack-Signature'') body secret = Inr ()"
    using assms(2-4) unfolding verify_signature_iff replayWindow_def by blast
  moreover have "trim_prefix (''task:'' @ i) ''task:'' = i" by (simp add: trim_prefix_def has_prefix_def)
  ultimately show ?thesis
    using assms cancel_task_cases(1)[OF assms(10)]
    by (simp add: HandleInteractions_def HandleInteraction_def ActionIDStopTask_def cancel_ctx_def Let_def)
qed

definition stop_body :: string where
  "stop_body = ''payload={\"type\":\"block_actions\",\"actions\":[{\"action_id\":\"stop_task\",\"value\":\"task:t1\"}]}''"

definition stop_request :: http_request where
  "stop_request = \<lparr> ReqBody = Inr stop_body, ReqHeader = (\<lambda>n.
     if n = ''X-Slack-Request-Timestamp'' then ''1700000000''
     else if n = ''X-Slack-Signature'' then slack_signature ''s3cret'' ''1700000000'' stop_body else '''') \<rparr>"

lemma stop_body_query: "ParseQuery stop_body = Inr [(''payload'', drop 8 stop_body)]"
  by code_simp

lemma stop_body_payload: "unmarshal_interaction (drop 8 stop_body) =
     Some \<lparr> PayType = ''block_actions'', PayActions = [\<lparr> ActionID = ''stop_task'', ActionValue = ''task:'' @ ''t1'' \<rparr>] \<rparr>"
  by code_simp

lemma stop_request_headers:
  "ReqBody stop_request = Inr stop_body" "ReqHeader stop_request ''X-Slack-Request-Timestamp'' = ''1700000000''"
  "ReqHeader stop_request ''X-Slack-Signature'' = slack_signature ''s3cret'' ''1700000000'' stop_body"
  by (simp_all add: stop_request_def)

lemma values_Get_here: "values_Get [(k, v)] k = v" by (simp add: values_Get_def)

lemma slack_stop_witness:
  "case HandleInteractions CancelTask ''s3cret'' (1700000060 * Second) stop_request
       (snd (NewScheduler sample_sched)\<lparr> CancelMap := [''t1'' \<mapsto> 3] \<rparr>) of
     (rep, st') \<Rightarrow> rep = reply_ok 200 () \<and> 3 \<in> set (CancelledCtx st')"
proof (rule slack_stop_cancels)
  show "ReqBody stop_request = Inr stop_body" by (rule stop_request_headers)
  show "ParseInt (ReqHeader stop_request ''X-Slack-Request-Timestamp'') = Some 1700000000"
    unfolding stop_request_headers
    by (simp add: ParseInt_def scan_sign_def digits_val_def is_digit_def digit_val_def int64_ok_def)
  show "\<bar>1700000060 * Second - 1700000000 * Second\<bar> \<le> 5 * 60 * Second" by simp
  show "ReqHeader stop_request ''X-Slack-Signature'' =
      slack_signature ''s3cret'' (ReqHeader stop_request ''X-Slack-Request-Timestamp'') stop_body"
    unfolding stop_request_headers ..
  show "ParseQuery stop_body = Inr [(''payload'', drop 8 stop_body)]" by (rule stop_body_query)
  show "values_Get [(''payload'', drop 8 stop_body)] ''payload'' \<noteq> ''''"
    unfolding values_Get_here by code_simp
  show "unmarshal_interaction (values_Get [(''payload'', drop 8 stop_body)] ''payload'') =
      Some \<lparr> PayType = ''block_actions'', PayActions = [\<lparr> ActionID = ''stop_task'', ActionValue = ''task:'' @ ''t1'' \<rparr>] \<rparr>"
    unfolding values_Get_here by (rule stop_body_payload)
qed simp_all

lemma slack_cancels_witness:
  "case HandleInteractions CancelTask ''s3cret'' (1700000060 * Second) stop_request
       (snd (NewScheduler sample_sched)\<lparr> CancelMap := [''t1'' \<mapsto> 3] \<rparr>) of
     (rep, st') \<Rightarrow> rep = reply_ok 200 () \<and> 3 \<in> set (CancelledCtx st') \<and> CancelMap st' = [''t1'' \<mapsto> 3] \<and>
       ReqHeader stop_request ''X-Slack-Signature'' =
         slack_signature ''s3cret'' (ReqHeader stop_request ''X-Slack-Request-Timestamp'') stop_body"
proof -
  let ?st = "snd (NewScheduler sample_sched)\<lparr> CancelMap := [''t1'' \<mapsto> (3::nat)] \<rparr>"
  obtain rep st' where h: "HandleInteractions CancelTask ''s3cret'' (1700000060 * Second) stop_request ?st = (rep, st')"
    by fastforce
  have s: "rep = reply_ok 200 ()" "3 \<in> set (CancelledCtx st')" using slack_stop_witness unfolding h by simp_all
  obtain cs where "st' = ?st\<lparr> CancelledCtx := cs \<rparr>"
    using slack_cancels_only_authentic[where secret = "''s3cret''" and now = "1700000060 * Second" and req = stop_request and st = ?st]
    unfolding h prod.case by blast
  then have "CancelMap st' = [''t1'' \<mapsto> 3]" by simp
  then show ?thesis using h s stop_request_headers by simp
qed

end
