(* ===== verification/Api.thy ===== *)
theory Api
  imports Webhook Slack_Interactions Usage_Usecase
begin

text \<open>The HTTP interface of internal/api: the routes (server.go), the mapping of errors
  (errors.go), the bodies (dto.go) and the handlers of tasks, modes, limits, health and
  usage. A handler is a program that returns a reply; its arguments are what gin reads from
  the request: path and query parameters, and the first JSON document of the body (None when
  it has none). Bodies of replies are records; encoding them is the client's theory.\<close>

section \<open>Errors\<close>

definition mapError :: "go_error \<Rightarrow> 'b reply" where
  "mapError e =
     (if err_is e ErrNotFound then reply_error 404 ''not found''
      else if err_is e ErrOutsideActiveWindow
      then reply_error 409 ''outside active window; enable full mode to override''
      else if err_is e ErrAlreadyRunning
      then reply_error 409 ''task already queued or running for this issue''
      else if err_is e ErrTaskNotCancellable
      then reply_error 409 ''task cannot be cancelled in its current state''
      else if err_is e ErrClaudeUsageExhausted then reply_error 503 ''claude usage exhausted''
      else if err_is e ErrSessionMissing
      then reply_error 503 (''claude session missing; please run '' @ [CHR 0x27] @ ''claude login'' @ [CHR 0x27])
      else reply_error 500 ''internal server error'')"

definition mapUsageError :: "go_error \<Rightarrow> 'b reply" where
  "mapUsageError e =
     (if err_is e ErrInvalidRange then reply_error 400 ''invalid range: from must not be after to''
      else if err_is e ErrRangeTooLarge then reply_error 400 ''range too large: must not exceed 365 days''
      else if err_is e ErrInvalidBucket then reply_error 400 ''invalid group_by: must be one of day, week, month''
      else reply_error 500 ''internal server error'')"

section \<open>Health and modes\<close>

record health_response =
  HrStatus :: string
  HrTickAt :: "time option"
  HrFullMode :: bool

text \<open>The use case may be missing.\<close>

definition Health :: "world app_state_repo option \<Rightarrow> health_response reply prog" where
  "Health modeUC = do {
     fm \<leftarrow> (case modeUC of
        None \<Rightarrow> ret False
      | Some repo \<Rightarrow> do {
          r \<leftarrow> GetFullMode repo;
          ret (case r of Inl _ \<Rightarrow> False | Inr st \<Rightarrow> FmEnabled st)
        });
     ret (reply_ok 200 \<lparr> HrStatus = ''ok'', HrTickAt = None, HrFullMode = fm \<rparr>)
   }"

record full_mode_response =
  FrEnabled :: bool
  FrSince :: "time option"

definition full_mode_reply :: "full_mode_state result \<Rightarrow> full_mode_response reply" where
  "full_mode_reply r =
     (case r of
        Inl e \<Rightarrow> mapError e
      | Inr st \<Rightarrow> reply_ok 200 \<lparr> FrEnabled = FmEnabled st, FrSince = FmSince st \<rparr>)"

definition api_GetFullMode :: "world app_state_repo \<Rightarrow> full_mode_response reply prog" where
  "api_GetFullMode repo = do { r \<leftarrow> GetFullMode repo; ret (full_mode_reply r) }"

definition bind_full_mode :: "json option \<Rightarrow> bool option" where
  "bind_full_mode body =
     (case Option.bind body struct_members of
        None \<Rightarrow> None
      | Some kvs \<Rightarrow> (case dec_field ''enabled'' dec_bool kvs False of (b, ok) \<Rightarrow> if ok then Some b else None))"

definition api_SetFullMode :: "world app_state_repo \<Rightarrow> location \<Rightarrow> json option \<Rightarrow> full_mode_response reply prog" where
  "api_SetFullMode repo tz body =
     (case bind_full_mode body of
        None \<Rightarrow> ret (reply_error 400 ''invalid request body'')
      | Some enabled \<Rightarrow> do { r \<leftarrow> SetFullMode repo tz enabled; ret (full_mode_reply r) })"

section \<open>Limits\<close>

record limits_response =
  LrDailyCount :: int
  LrDailyMax :: int
  LrDailyDate :: string
  LrWeeklyCount :: int
  LrWeeklyMax :: int
  LrWeeklyWeek :: string
  LrBlockedUntil :: "time option"
  LrRateLimitType :: string
  LrReason :: string

text \<open>The block is read at a second reading of the clock.\<close>

definition snapshotToResponse :: "budget_snapshot \<Rightarrow> time \<Rightarrow> limits_response" where
  "snapshotToResponse snap now =
     (let active = Active (Block snap) now in
      \<lparr> LrDailyCount = DailyCount (Counters snap), LrDailyMax = DailyMax (Limits snap),
        LrDailyDate = DailyKey (Counters snap), LrWeeklyCount = WeeklyCount (Counters snap),
        LrWeeklyMax = WeeklyMax (Limits snap), LrWeeklyWeek = WeeklyKey (Counters snap),
        LrBlockedUntil = (if active then Some (BlockedUntil (Block snap)) else None),
        LrRateLimitType = (if active then RateLimitType (Block snap) else ''''),
        LrReason = budget_reason_str (Reason snap) \<rparr>)"

definition limits_reply :: "budget_snapshot result \<Rightarrow> time \<Rightarrow> limits_response reply" where
  "limits_reply r now = (case r of Inl e \<Rightarrow> mapError e | Inr snap \<Rightarrow> reply_ok 200 (snapshotToResponse snap now))"

definition GetLimits :: "world app_state_repo \<Rightarrow> budget_limits \<Rightarrow> limits_response reply prog" where
  "GetLimits repo cfg = do {
     now \<leftarrow> now_prog;
     r \<leftarrow> call (snapshotLocked repo cfg now);
     now2 \<leftarrow> now_prog;
     ret (limits_reply r now2)
   }"

definition bind_limits :: "json option \<Rightarrow> (int option \<times> int option) option" where
  "bind_limits body =
     (case Option.bind body struct_members of
        None \<Rightarrow> None
      | Some kvs \<Rightarrow>
          let (d, o1) = dec_field ''daily_max'' (dec_ptr dec_int 0) kvs None;
              (w, o2) = dec_field ''weekly_max'' (dec_ptr dec_int 0) kvs None
          in if o1 \<and> o2 then Some (d, w) else None)"

definition PatchLimits :: "world app_state_repo \<Rightarrow> budget_limits \<Rightarrow> json option \<Rightarrow> limits_response reply prog" where
  "PatchLimits repo cfg body =
     (case bind_limits body of
        None \<Rightarrow> ret (reply_error 400 ''invalid request body'')
      | Some (d, w) \<Rightarrow> do {
          t \<leftarrow> now_prog;
          r \<leftarrow> call (SetLimits repo cfg (case d of None \<Rightarrow> 0 | Some i \<Rightarrow> i) (case w of None \<Rightarrow> 0 | Some i \<Rightarrow> i) t);
          (case r of
             Inl e \<Rightarrow> ret (reply_error 400 (err_text e))
           | Inr _ \<Rightarrow> GetLimits repo cfg)
        })"

section \<open>Tasks\<close>

fun event_kind_str :: "event_kind \<Rightarrow> string" where
  "event_kind_str EventKindStarted = ''started''"
| "event_kind_str EventKindSlackSent = ''slack_sent''"
| "event_kind_str EventKindClaudeStdoutChunk = ''claude_stdout_chunk''"
| "event_kind_str EventKindCancelled = ''cancelled''"
| "event_kind_str EventKindUsageWarning = ''usage_warning''"
| "event_kind_str EventKindPRCreated = ''pr_created''"
| "event_kind_str EventKindFailed = ''failed''"
| "event_kind_str EventKindCICheckPolled = ''ci_check_polled''"
| "event_kind_str EventKindCIFailureDetected = ''ci_failure_detected''"
| "event_kind_str EventKindCIFixEnqueued = ''ci_fix_enqueued''"
| "event_kind_str EventKindCIFixExhausted = ''ci_fix_exhausted''"

record task_response =
  TrID :: string
  TrRepoFullName :: string
  TrIssueNumber :: int
  TrIssueTitle :: string
  TrTaskType :: string
  TrStatus :: string
  TrSource :: string
  TrMaintenanceName :: string
  TrPRURL :: string
  TrPRNumber :: int
  TrStartedAt :: "time option"
  TrFinishedAt :: "time option"
  TrEstimatedInputTokens :: int
  TrEstimatedOutputTokens :: int
  TrCreatedAt :: time
  TrUpdatedAt :: time
  TrCIStatus :: string
  TrParentTaskID :: string
  TrFixAttemptCount :: int
  TrHeadSHA :: string
  TrCILastPolledAt :: "time option"

record task_event_response =
  ErID :: string
  ErKind :: string
  ErPayloadJSON :: string
  ErCreatedAt :: time

record task_detail_response =
  DrTask :: task_response
  DrStderrTail :: string
  DrEvents :: "task_event_response list"

record task_list_response =
  TlItems :: "task_response list"
  TlNextCursor :: string

definition toTaskResponse :: "task \<Rightarrow> task_response" where
  "toTaskResponse t =
     (let src = (if source_str (Source t) = '''' then source_str TaskSourceGitHubIssue else source_str (Source t));
          parent = (case ParentTaskID t of None \<Rightarrow> '''' | Some p \<Rightarrow> p)
      in \<lparr> TrID = ID t, TrRepoFullName = RepoFullName t, TrIssueNumber = IssueNumber t,
           TrIssueTitle = IssueTitle t, TrTaskType = task_type_str (TaskType t), TrStatus = status_str (Status t),
           TrSource = src, TrMaintenanceName = MaintenanceName t, TrPRURL = PRURL t, TrPRNumber = PRNumber t,
           TrStartedAt = StartedAt t, TrFinishedAt = FinishedAt t,
           TrEstimatedInputTokens = EstimatedInputTokens t, TrEstimatedOutputTokens = EstimatedOutputTokens t,
           TrCreatedAt = CreatedAt t, TrUpdatedAt = UpdatedAt t, TrCIStatus = ci_status_str (CIStatus t),
           TrParentTaskID = parent, TrFixAttemptCount = FixAttemptCount t, TrHeadSHA = HeadSHA t,
           TrCILastPolledAt = CILastPolledAt t \<rparr>)"

text \<open>The query of a list, an absent parameter reading as the empty text. Atoi returns a
  number only when it fits.\<close>

definition list_filter :: "(string \<Rightarrow> string) \<Rightarrow> task_filter" where
  "list_filter query = zero_filter\<lparr>
     FilterStatus := (if query ''status'' \<noteq> '''' then Some (query ''status'') else None),
     FilterSource := (if query ''source'' \<noteq> '''' then Some (query ''source'') else None),
     Limit := (if query ''limit'' \<noteq> '''' then (case ParseInt (query ''limit'') of None \<Rightarrow> 0 | Some n \<Rightarrow> n) else 0),
     Cursor := query ''cursor'' \<rparr>"

definition list_response :: "task list \<Rightarrow> task_list_response" where
  "list_response tasks =
     (let items = map toTaskResponse tasks
      in \<lparr> TlItems = items, TlNextCursor = (if items \<noteq> [] then TrID (last items) else '''') \<rparr>)"

definition api_ListTasks :: "task_usecase \<Rightarrow> (string \<Rightarrow> string) \<Rightarrow> task_list_response reply prog" where
  "api_ListTasks uc query = do {
     r \<leftarrow> uc_ListTasks uc (list_filter query);
     ret (case r of Inl e \<Rightarrow> mapError e | Inr tasks \<Rightarrow> reply_ok 200 (list_response tasks))
   }"

text \<open>The payload of an event is the text of its JSON column.\<close>

definition event_response :: "(rat \<Rightarrow> string) \<Rightarrow> task_event \<Rightarrow> task_event_response" where
  "event_response ft e = \<lparr> ErID = EventID e, ErKind = event_kind_str (Kind e),
     ErPayloadJSON = (case PayloadJSON e of None \<Rightarrow> '''' | Some j \<Rightarrow> json_text ft j), ErCreatedAt = EventCreatedAt e \<rparr>"

definition api_GetTask :: "task_usecase \<Rightarrow> string \<Rightarrow> task_detail_response reply prog" where
  "api_GetTask uc i = do {
     r \<leftarrow> GetTask uc i;
     ft \<leftarrow> State (\<lambda>w. (float_text w, w));
     ret (case r of
        Inl e \<Rightarrow> mapError e
      | Inr d \<Rightarrow> reply_ok 200 \<lparr> DrTask = toTaskResponse (DetTask d), DrStderrTail = StderrTail (DetTask d),
                  DrEvents = map (event_response ft) (DetEvents d) \<rparr>)
   }"

text \<open>The body of POST /tasks: the repository and an issue number from one on are required.\<close>

definition bind_enqueue :: "json option \<Rightarrow> enqueue_request option" where
  "bind_enqueue body =
     (case Option.bind body struct_members of
        None \<Rightarrow> None
      | Some kvs \<Rightarrow>
          let (r, o1) = dec_field ''repo'' dec_str kvs '''';
              (n, o2) = dec_field ''issue_number'' dec_int kvs 0;
              (t, o3) = dec_field ''issue_title'' dec_str kvs ''''
          in if o1 \<and> o2 \<and> o3 \<and> r \<noteq> '''' \<and> n \<noteq> 0 \<and> 1 \<le> n
             then Some \<lparr> ReqRepo = r, ReqIssueNumber = n, ReqIssueTitle = t, ReqSource = '''' \<rparr> else None)"

definition api_EnqueueTask :: "task_usecase \<Rightarrow> json option \<Rightarrow> task_response reply prog" where
  "api_EnqueueTask uc body =
     (case bind_enqueue body of
        None \<Rightarrow> ret (reply_error 400 ''invalid request body'')
      | Some req \<Rightarrow> do {
          r \<leftarrow> EnqueueFromIssue uc req;
          ret (case r of Inl e \<Rightarrow> mapError e | Inr t \<Rightarrow> reply_ok 201 (toTaskResponse t))
        })"

text \<open>The body of a stop is the flag accepted.\<close>

definition api_StopTask :: "task_usecase \<Rightarrow> string \<Rightarrow> bool reply prog" where
  "api_StopTask uc i = do {
     r \<leftarrow> StopTask uc i;
     ret (case r of Inl e \<Rightarrow> mapError e | Inr _ \<Rightarrow> reply_ok 202 True)
   }"

section \<open>Usage\<close>

text \<open>time.Parse with the layout of a date and UTC; the defaults are today and thirty days
  before the end.\<close>

definition parseFromTo :: "(string \<Rightarrow> string) \<Rightarrow> time \<Rightarrow> string + time \<times> time" where
  "parseFromTo query now =
     (case (if query ''to'' = '''' then Some (day_time (local_day UTC now)) else map_option day_time (parse_date (query ''to''))) of
        None \<Rightarrow> Inl ''invalid to: must be YYYY-MM-DD''
      | Some to_t \<Rightarrow>
          (case (if query ''from'' = '''' then Some (add_date UTC to_t 0 (- 30))
                 else map_option day_time (parse_date (query ''from''))) of
             None \<Rightarrow> Inl ''invalid from: must be YYYY-MM-DD''
           | Some from_t \<Rightarrow> Inr (from_t, to_t)))"

definition bucket_of_query :: "string \<Rightarrow> bucket_kind" where
  "bucket_of_query s =
     (if s = ''day'' then BucketDay else if s = ''week'' then BucketWeek
      else if s = ''month'' then BucketMonth else BucketOther s)"

definition bucket_str :: "bucket_kind \<Rightarrow> string" where
  "bucket_str b = (case b of BucketDay \<Rightarrow> ''day'' | BucketWeek \<Rightarrow> ''week'' | BucketMonth \<Rightarrow> ''month'' | BucketOther s \<Rightarrow> s)"

text \<open>The bodies copy the fields of the rows, so the rows stand for them.\<close>

record usage_response =
  UrFrom :: string
  UrTo :: string
  UrGroupBy :: string
  UrBuckets :: "usage_bucket_row list"
  UrTotals :: usage_bucket_row

definition GetUsage ::
  "world usage_repo \<Rightarrow> budget_limits \<Rightarrow> (string \<Rightarrow> string) \<Rightarrow> string option \<Rightarrow> usage_response reply prog" where
  "GetUsage repo l query group_by = do {
     now \<leftarrow> now_prog;
     (case parseFromTo query now of
        Inl m \<Rightarrow> ret (reply_error 400 m)
      | Inr (from_t, to_t) \<Rightarrow> do {
          r \<leftarrow> call (Aggregate repo l from_t to_t (bucket_of_query (case group_by of None \<Rightarrow> ''day'' | Some g \<Rightarrow> g)));
          ret (case r of
             Inl e \<Rightarrow> mapUsageError e
           | Inr res \<Rightarrow> reply_ok 200 \<lparr> UrFrom = ResFrom res, UrTo = ResTo res, UrGroupBy = bucket_str (ResGroupBy res),
                           UrBuckets = ResBuckets res, UrTotals = ResTotals res \<rparr>)
        })
   }"

record usage_by_model_response =
  UmFrom :: string
  UmTo :: string
  UmModels :: "usage_model_row list"

definition GetUsageByModel :: "world usage_repo \<Rightarrow> (string \<Rightarrow> string) \<Rightarrow> usage_by_model_response reply prog" where
  "GetUsageByModel repo query = do {
     now \<leftarrow> now_prog;
     (case parseFromTo query now of
        Inl m \<Rightarrow> ret (reply_error 400 m)
      | Inr (from_t, to_t) \<Rightarrow> do {
          r \<leftarrow> call (ByModel repo from_t to_t);
          ret (case r of
             Inl e \<Rightarrow> mapUsageError e
           | Inr rows \<Rightarrow> reply_ok 200 \<lparr> UmFrom = format_date (local_day UTC from_t),
                            UmTo = format_date (local_day UTC to_t), UmModels = rows \<rparr>)
        })
   }"

definition GetUsageLimits ::
  "world usage_repo \<Rightarrow> budget_limits \<Rightarrow> rat \<Rightarrow> rat \<Rightarrow> usage_limits_snapshot reply prog" where
  "GetUsageLimits repo l dailyMax weeklyMax = do {
     now \<leftarrow> now_prog;
     r \<leftarrow> call (UsageLimits repo l dailyMax weeklyMax now);
     ret (case r of Inl e \<Rightarrow> reply_error 500 ''internal server error'' | Inr snap \<Rightarrow> reply_ok 200 snap)
   }"

section \<open>The routes\<close>

datatype endpoint =
    EpHealth | EpListTasks | EpGetTask | EpEnqueueTask | EpStopTask | EpGetFullMode | EpSetFullMode
  | EpGetLimits | EpPatchLimits | EpSlack | EpUsage | EpUsageByModel | EpUsageLimits | EpWebhook
  | EpMetrics | EpForecast

definition NewRouter :: "bool \<Rightarrow> bool \<Rightarrow> (string \<times> string \<times> endpoint) list" where
  "NewRouter usage webhook =
     [(''GET'', ''/healthz'', EpHealth),
      (''GET'', ''/tasks'', EpListTasks), (''GET'', ''/tasks/:id'', EpGetTask),
      (''POST'', ''/tasks'', EpEnqueueTask), (''POST'', ''/tasks/:id/stop'', EpStopTask),
      (''GET'', ''/modes/full'', EpGetFullMode), (''POST'', ''/modes/full'', EpSetFullMode),
      (''GET'', ''/modes/limits'', EpGetLimits), (''PATCH'', ''/modes/limits'', EpPatchLimits),
      (''POST'', ''/slack/interactions'', EpSlack)]
     @ (if usage then [(''GET'', ''/usage'', EpUsage), (''GET'', ''/usage/by-model'', EpUsageByModel),
          (''GET'', ''/usage/limits'', EpUsageLimits)] else [])
     @ (if webhook then [(''POST'', ''/github/webhook'', EpWebhook)] else [])"

section \<open>Every reply is typed\<close>

text \<open>What a client may get: a success with its code and a body, or one of a set of errors.\<close>

definition typed_reply :: "nat \<Rightarrow> (nat \<times> string) set \<Rightarrow> 'b reply \<Rightarrow> bool" where
  "typed_reply ok errs rep = (case snd rep of Inl m \<Rightarrow> (fst rep, m) \<in> errs | Inr _ \<Rightarrow> fst rep = ok)"

lemma typed_reply_simps [simp]:
  "typed_reply ok errs (reply_error c m) \<longleftrightarrow> (c, m) \<in> errs" "typed_reply ok errs (reply_ok c b) \<longleftrightarrow> c = ok"
  by (simp_all add: typed_reply_def)

definition domain_errors :: "(nat \<times> string) set" where
  "domain_errors = {(404, ''not found''), (409, ''outside active window; enable full mode to override''),
     (409, ''task already queued or running for this issue''), (409, ''task cannot be cancelled in its current state''),
     (503, ''claude usage exhausted''),
     (503, ''claude session missing; please run '' @ [CHR 0x27] @ ''claude login'' @ [CHR 0x27]),
     (500, ''internal server error'')}"

definition usage_errors :: "(nat \<times> string) set" where
  "usage_errors = {(400, ''invalid range: from must not be after to''),
     (400, ''range too large: must not exceed 365 days''),
     (400, ''invalid group_by: must be one of day, week, month''), (500, ''internal server error''),
     (400, ''invalid to: must be YYYY-MM-DD''), (400, ''invalid from: must be YYYY-MM-DD'')}"

lemma mapError_typed [simp]: "domain_errors \<subseteq> E \<Longrightarrow> typed_reply ok E (mapError e)"
  by (auto simp: mapError_def domain_errors_def)

lemma mapUsageError_typed [simp]: "typed_reply ok usage_errors (mapUsageError e)"
  by (auto simp: mapUsageError_def usage_errors_def)

text \<open>Whatever the last step of a program returns.\<close>

definition replies :: "('b reply \<Rightarrow> bool) \<Rightarrow> 'b reply prog \<Rightarrow> bool" where
  "replies P m = (\<forall>w. P (fst (run_state m w)))"

lemma replies_ret: "P rep \<Longrightarrow> replies P (ret rep)"
  by (simp add: replies_def)

lemma replies_bind: "(\<And>a. replies P (f a)) \<Longrightarrow> replies P (State_Monad.bind m f)"
  by (simp add: replies_def split: prod.split)

lemma replies_split:
  "(\<And>e. replies P (f e)) \<Longrightarrow> (\<And>a. replies P (g a)) \<Longrightarrow> replies P (case r of Inl e \<Rightarrow> f e | Inr a \<Rightarrow> g a)"
  "replies P m \<Longrightarrow> (\<And>a. replies P (h a)) \<Longrightarrow> replies P (case x of None \<Rightarrow> m | Some a \<Rightarrow> h a)"
  "(\<And>a b. replies P (k a b)) \<Longrightarrow> replies P (case p of (a, b) \<Rightarrow> k a b)"
  by (auto split: sum.split option.split prod.split)

lemmas replies_rules = replies_split replies_bind replies_ret

lemma bad_from_to: "parseFromTo query now = Inl m \<Longrightarrow> (400, m) \<in> usage_errors"
  by (auto simp: parseFromTo_def usage_errors_def split: option.splits)

lemma replies_usage:
  assumes "\<And>a b. replies (typed_reply ok usage_errors) (f a b)"
  shows "replies (typed_reply ok usage_errors)
    (case parseFromTo query now of Inl m \<Rightarrow> ret (reply_error 400 m) | Inr (a, b) \<Rightarrow> f a b)"
  using assms bad_from_to by (cases "parseFromTo query now") (auto intro: replies_ret)


section \<open>Limits over the API\<close>

lemma dec_members_ptr_int:
  "(case v of None \<Rightarrow> True | Some i \<Rightarrow> int64_ok i) \<Longrightarrow>
   (case fst (dec_members (dec_ptr dec_int 0) js v) of None \<Rightarrow> True | Some i \<Rightarrow> int64_ok i)"
proof (induction js arbitrary: v)
  case (Cons j js)
  have "int64_ok i \<Longrightarrow> int64_ok (fst (dec_int j i))" for i by (cases j) simp_all
  then have "case fst (dec_ptr dec_int 0 j v) of None \<Rightarrow> True | Some i \<Rightarrow> int64_ok i"
    using Cons.prems by (cases j) (simp_all add: int64_ok_def case_prod_beta split: option.splits)
  then show ?case using Cons.IH by (simp split: prod.split) (metis fst_conv)
qed simp

definition ptr_int :: "int option \<Rightarrow> int" where "ptr_int p = (case p of None \<Rightarrow> 0 | Some i \<Rightarrow> i)"

lemma bind_limits_int64:
  assumes "bind_limits body = Some (d, k)"
  shows "int64_ok (ptr_int d)" "int64_ok (ptr_int k)"
proof -
  obtain kvs where "Option.bind body struct_members = Some kvs"
    using assms by (cases "Option.bind body struct_members") (simp_all add: bind_limits_def)
  then have "d = fst (dec_field ''daily_max'' (dec_ptr dec_int 0) kvs None)"
    "k = fst (dec_field ''weekly_max'' (dec_ptr dec_int 0) kvs None)"
    using assms by (auto simp: bind_limits_def Let_def case_prod_beta split: if_splits)
  then show "int64_ok (ptr_int d)" "int64_ok (ptr_int k)"
    using dec_members_ptr_int[of None "members ''daily_max'' kvs"] dec_members_ptr_int[of None "members ''weekly_max'' kvs"]
    by (simp_all add: dec_field_def ptr_int_def int64_ok_def split: option.splits)
qed

lemma app_view_tick [simp]: "app_view (tick w) = app_view w"
  by (simp add: app_view_def tick_def)

lemma db_works_tick [simp]: "db_works w \<Longrightarrow> db_works (tick w)"
  by (simp add: db_works_def tick_def)

lemma read_now: "run_state now_prog w = (clock w (ops w), tick w)"
  by (simp add: now_prog_def ask_def)

text \<open>The snapshot of a view at an instant.\<close>

definition snap_at :: "budget_limits \<Rightarrow> time \<Rightarrow> (string \<Rightarrow> json option) \<Rightarrow> budget_snapshot" where
  "snap_at cfg now v = \<lparr> Counters = rolled_at cfg now v, Limits = limits_of cfg v, Block = block_of v,
     Reason = reason_at cfg now v \<rparr>"

lemma get_limits_works:
  assumes "db_works w"
  shows "\<exists>now2 w'. run_state (GetLimits gorm_app_repo cfg) w =
      (reply_ok 200 (snapshotToResponse (snap_at cfg (clock w (ops w)) (app_view w)) now2), w') \<and> db_works w' \<and>
    same_budget_config (app_view w) (app_view w')"
proof -
  obtain w1 where "db_works w1" "same_budget_config (app_view w) (app_view w1)"
    "snapshotLocked gorm_app_repo cfg (clock w (ops w)) (tick w) = (Inr (snap_at cfg (clock w (ops w)) (app_view w)), w1)"
    using gorm_app_works.snapshot_works[OF db_works_tick[OF assms], of cfg "clock w (ops w)"] by (auto simp: snap_at_def)
  then show ?thesis by (intro exI[of _ "clock w1 (ops w1)"] exI[of _ "tick w1"])
    (simp add: GetLimits_def read_now limits_reply_def)
qed

lemma set_limits_works:
  assumes "db_works w" "int64_ok d" "int64_ok k" "0 \<le> d" "0 \<le> k" "d \<le> 0 \<or> k \<le> 0 \<or> d \<le> k"
  shows "\<exists>l w'. SetLimits gorm_app_repo cfg d k t w = (Inr l, w') \<and> db_works w' \<and>
    app_view w' = (app_view w)(''limits_override'' \<mapsto> enc_override d k)"
proof -
  let ?p = "put_state gorm_app_repo ''limits_override'' (enc_override d k) t w"
  obtain w1 where p: "?p = (Inr (), w1)" "db_works w1"
    using gorm_app_works.Set_works[OF assms(1)] unfolding put_state_def by blast
  have v: "app_view w1 = (app_view w)(''limits_override'' \<mapsto> enc_override d k)"
    using gorm_app.Set_ok[OF p(1)[unfolded put_state_def]] by simp
  obtain w2 where w2: "db_works w2" "app_view w2 = app_view w1"
    "effectiveLimitsLocked gorm_app_repo cfg w1 = (Inr (limits_of cfg (app_view w1)), w2)"
    using gorm_app_works.load_works[OF p(2), of "''limits_override''" cfg "override_limits cfg"]
    unfolding effectiveLimitsLocked_def limits_of_def by (elim exE conjE)
  have "\<not> (d < 0 \<or> k < 0)" "\<not> (0 < d \<and> 0 < k \<and> k < d)" using assms(4-6) by auto
  then have "SetLimits gorm_app_repo cfg d k t w = (Inr (limits_of cfg (app_view w1)), w2)"
    using p(1) w2(3) by (simp add: SetLimits_def)
  then show ?thesis using w2(1,2) v by simp
qed

lemma patch_limits_works:
  assumes "db_works w" "bind_limits body = Some (d, k)" "0 \<le> ptr_int d" "0 \<le> ptr_int k"
    "ptr_int d \<le> 0 \<or> ptr_int k \<le> 0 \<or> ptr_int d \<le> ptr_int k"
  defines "v \<equiv> (app_view w)(''limits_override'' \<mapsto> enc_override (ptr_int d) (ptr_int k))"
  shows "\<exists>now now2 w'. run_state (PatchLimits gorm_app_repo cfg body) w =
      (reply_ok 200 (snapshotToResponse (snap_at cfg now v) now2), w') \<and>
    limits_of cfg (app_view w') = limits_of cfg v \<and>
    limits_of cfg v = cfg\<lparr> DailyMax := if 0 < ptr_int d then ptr_int d else DailyMax cfg,
      WeeklyMax := if 0 < ptr_int k then ptr_int k else WeeklyMax cfg \<rparr>"
proof -
  obtain l w1 where s: "SetLimits gorm_app_repo cfg (ptr_int d) (ptr_int k) (clock w (ops w)) (tick w) = (Inr l, w1)"
    "db_works w1" "app_view w1 = v"
    using set_limits_works[OF db_works_tick[OF assms(1)] bind_limits_int64[OF assms(2)] assms(3-5), of cfg "clock w (ops w)"]
    by (auto simp: v_def)
  have lim: "limits_of cfg v = cfg\<lparr> DailyMax := if 0 < ptr_int d then ptr_int d else DailyMax cfg,
      WeeklyMax := if 0 < ptr_int k then ptr_int k else WeeklyMax cfg \<rparr>"
    using assms(3,4) bind_limits_int64[OF assms(2)]
    by (simp add: v_def limits_of_def at_key_def override_limits_def dec_enc_override)
  obtain now2 w2 where g: "run_state (GetLimits gorm_app_repo cfg) w1 =
      (reply_ok 200 (snapshotToResponse (snap_at cfg (clock w1 (ops w1)) v) now2), w2)" "same_budget_config v (app_view w2)"
    using get_limits_works[OF s(2), of cfg] unfolding s(3) by blast
  have "run_state (PatchLimits gorm_app_repo cfg body) w =
      (reply_ok 200 (snapshotToResponse (snap_at cfg (clock w1 (ops w1)) v) now2), w2)"
    using assms(2) s(1) g(1) by (simp add: PatchLimits_def read_now ptr_int_def[symmetric])
  then show ?thesis using same_budget_configD(1)[OF g(2)] lim by blast
qed

text \<open>Over a working database, PATCH /modes/limits with a readable body refuses negative
  caps and a daily cap above a weekly one with 400 and stores nothing; else it answers 200
  with the caps now in force, the given ones or, for a cap that is missing or zero, the
  configured one, and every later reading of the limits finds these.\<close>

theorem patch_limits_effective:
  assumes "db_works w" "bind_limits body = Some (d, k)"
  shows "case run_state (PatchLimits gorm_app_repo cfg body) w of (rep, w') \<Rightarrow>
    if ptr_int d < 0 \<or> ptr_int k < 0 \<or> (0 < ptr_int d \<and> 0 < ptr_int k \<and> ptr_int k < ptr_int d)
    then fst rep = 400 \<and> app_view w' = app_view w
    else let dmax = (if 0 < ptr_int d then ptr_int d else DailyMax cfg);
             wmax = (if 0 < ptr_int k then ptr_int k else WeeklyMax cfg) in
      (\<exists>r. rep = reply_ok 200 r \<and> LrDailyMax r = dmax \<and> LrWeeklyMax r = wmax) \<and>
      limits_of cfg (app_view w') = cfg\<lparr> DailyMax := dmax, WeeklyMax := wmax \<rparr>"
proof (cases "ptr_int d < 0 \<or> ptr_int k < 0 \<or> (0 < ptr_int d \<and> 0 < ptr_int k \<and> ptr_int k < ptr_int d)")
  case True
  then have "\<exists>e. SetLimits gorm_app_repo cfg (ptr_int d) (ptr_int k) (clock w (ops w)) (tick w) = (Inl e, tick w)"
    by (auto simp: SetLimits_def)
  then show ?thesis using True assms(2)
    by (auto simp: PatchLimits_def read_now ptr_int_def[symmetric] reply_error_def)
next
  case False
  then have a: "0 \<le> ptr_int d" "0 \<le> ptr_int k" "ptr_int d \<le> 0 \<or> ptr_int k \<le> 0 \<or> ptr_int d \<le> ptr_int k" by auto
  show ?thesis using patch_limits_works[OF assms a, of cfg] False
    by (elim exE conjE) (simp add: Let_def snapshotToResponse_def snap_at_def)
qed

lemma patch_limits_witness:
  "case run_state (PatchLimits gorm_app_repo sample_limits (Some (JObj [(''daily_max'', JInt 3)]))) mode_sample of (rep, w') \<Rightarrow>
     (\<exists>r. rep = reply_ok 200 r \<and> LrDailyMax r = 3) \<and> DailyMax (limits_of sample_limits (app_view w')) = 3"
proof -
  have b: "bind_limits (Some (JObj [(''daily_max'', JInt 3)])) = Some (Some 3, None)"
    by (simp add: bind_limits_def dec_field_def fold_eq_simps to_lower_char_def int64_ok_def)
  have w: "db_works mode_sample" by (simp add: mode_sample_def db_works_def migrated_db_def)
  show ?thesis using patch_limits_effective[OF w b, of sample_limits]
    by (auto simp: ptr_int_def Let_def split: prod.splits)
qed

section \<open>What a failing store shows\<close>

text \<open>The promise of errors.go, that internal messages are never exposed, fails for
  PATCH /modes/limits: with admissible caps and a database that refuses the write, the client
  gets 400, the code of a bad request, with the text of the database error, where the same
  failure of GET /modes/limits is a 500 with a fixed text.\<close>

theorem patch_limits_exposes_store_error:
  assumes "bind_limits body = Some (d, k)" "0 \<le> ptr_int d" "0 \<le> ptr_int k"
    "ptr_int d \<le> 0 \<or> ptr_int k \<le> 0 \<or> ptr_int d \<le> ptr_int k"
    "outcome w (Suc (ops w)) = FailsBefore e"
  shows "fst (run_state (PatchLimits gorm_app_repo cfg body) w) =
      reply_error 400 (''set app state limits_override: '' @ err_text (db_err e)) \<and>
    fst (run_state (GetLimits gorm_app_repo cfg) w) = reply_error 500 ''internal server error''"
proof -
  have o: "outcome (tick w) (ops (tick w)) = FailsBefore e" using assms(5) by (simp add: tick_def)
  have no: "\<not> err_is (db_err e) ErrRecordNotFound" "\<not> err_is (EWrap m (db_err e)) ErrNotFound"
    "mapError (EWrap m (db_err e)) = reply_error 500 ''internal server error''" for m
    by (cases e; simp add: err_is_def mapError_def)+
  have "\<exists>w1. SetLimits gorm_app_repo cfg (ptr_int d) (ptr_int k) (clock w (ops w)) (tick w) =
      (Inl (EWrap ''set app state limits_override'' (db_err e)), w1)"
    using assms(2-4) o
    by (auto simp: SetLimits_def put_state_def gorm_app_repo_def repo_Set_def exec_def Let_def)
  then have p: "fst (run_state (PatchLimits gorm_app_repo cfg body) w) =
      reply_error 400 (''set app state limits_override: '' @ err_text (db_err e))"
    using assms(1) by (auto simp: PatchLimits_def read_now ptr_int_def[symmetric])
  have "\<exists>w1. snapshotLocked gorm_app_repo cfg (clock w (ops w)) (tick w) =
      (Inl (EWrap ''get app state limits_override'' (db_err e)), w1)"
    using o no
    by (simp add: snapshotLocked_def effectiveLimitsLocked_def load_state_def gorm_app_repo_def repo_Get_def
        exec_def Let_def)
  then have "fst (run_state (GetLimits gorm_app_repo cfg) w) = reply_error 500 ''internal server error''"
    using no by (auto simp: GetLimits_def read_now limits_reply_def)
  then show ?thesis using p by simp
qed

lemma patch_limits_exposes_witness:
  "fst (run_state (PatchLimits gorm_app_repo sample_limits (Some (JObj [])))
     (mode_sample\<lparr> outcome := (\<lambda>_. FailsBefore (ConnectionLost ''dial tcp 10.0.0.5:3306: connection refused'')) \<rparr>)) =
   reply_error 400 ''set app state limits_override: dial tcp 10.0.0.5:3306: connection refused''"
proof -
  have b: "bind_limits (Some (JObj [])) = Some (None, None)" by (simp add: bind_limits_def dec_field_def)
  show ?thesis
    using patch_limits_exposes_store_error[OF b, of "mode_sample\<lparr> outcome := (\<lambda>_. FailsBefore (ConnectionLost
        ''dial tcp 10.0.0.5:3306: connection refused'')) \<rparr>" "ConnectionLost ''dial tcp 10.0.0.5:3306: connection refused''" sample_limits]
    by (simp add: ptr_int_def)
qed

section \<open>Following the cursor\<close>

text \<open>A client that asks for page after page with the cursor of the page before, at most n of
  them, until there is no cursor or an error.\<close>

fun follow_pages :: "nat \<Rightarrow> task_usecase \<Rightarrow> (string \<Rightarrow> string) \<Rightarrow> task_list_response list prog" where
  "follow_pages 0 uc query = ret []"
| "follow_pages (Suc n) uc query = do {
     rep \<leftarrow> api_ListTasks uc query;
     (case snd rep of
        Inl _ \<Rightarrow> ret []
      | Inr l \<Rightarrow> do {
          rest \<leftarrow> (if TlNextCursor l = '''' then ret [] else follow_pages n uc (query(''cursor'' := TlNextCursor l)));
          ret (l # rest)
        })
   }"

abbreviation page_ids :: "task_list_response \<Rightarrow> string set" where "page_ids l \<equiv> TrID ` set (TlItems l)"

lemma str_less_trans: "str_less a b \<Longrightarrow> str_less b c \<Longrightarrow> str_less a c"
proof (induction a b arbitrary: c rule: str_less.induct)
  case (2 b bs)
  then show ?case by (cases c) auto
next
  case (3 a as b bs)
  then show ?case by (cases c) auto
qed simp

lemma to_domain_id [simp]: "ID (toDomainTask r) = gID r"
  by (simp add: toDomainTask_def Let_def)

lemma page_below_cursor:
  assumes "UcTaskRepo uc = gorm_task_repo wired" "run_state (api_ListTasks uc query) w = (rep, w')" "snd rep = Inr l"
  shows "query ''cursor'' = '''' \<or> (\<forall>i \<in> page_ids l. str_less i (query ''cursor''))"
    "TlNextCursor l \<noteq> '''' \<Longrightarrow> TlNextCursor l \<in> page_ids l"
proof -
  obtain r w1 where r: "repo_List (list_filter query) w = (r, w1)" by fastforce
  obtain ts where ts: "r = Inr ts" "l = list_response ts"
    using assms r by (auto simp: api_ListTasks_def uc_ListTasks_def gorm_task_repo_def mapError_def split: sum.splits if_splits)
  have "set ts \<subseteq> toDomainTask ` {g. filter_matches (list_filter query) g}"
    using r ts(1) by (auto simp: repo_List_def exec_def Let_def dest!: in_set_takeD
        split: db_outcome.splits)
  then show "query ''cursor'' = '''' \<or> (\<forall>i \<in> page_ids l. str_less i (query ''cursor''))"
    by (auto simp: ts(2) list_response_def Let_def toTaskResponse_def filter_matches_def list_filter_def)
  show "TlNextCursor l \<in> page_ids l" if "TlNextCursor l \<noteq> ''''"
    using that last_in_set[of ts] by (auto simp: ts(2) list_response_def Let_def last_map split: if_splits)
qed

lemma later_pages_below:
  assumes "UcTaskRepo uc = gorm_task_repo wired" "query ''cursor'' \<noteq> ''''" "\<not> str_less i (query ''cursor'')"
    and "page \<in> set (fst (run_state (follow_pages n uc query) w))"
  shows "i \<notin> page_ids page"
  using assms(2-4)
proof (induction n arbitrary: query w)
  case (Suc n)
  obtain rep w1 where p: "run_state (api_ListTasks uc query) w = (rep, w1)" by fastforce
  obtain l where l: "snd rep = Inr l" using Suc.prems(3) p by (cases "snd rep") auto
  note below = page_below_cursor[OF assms(1) p l]
  have i: "i \<notin> page_ids l" using below(1) Suc.prems(1,2) by blast
  show ?case
  proof (cases "TlNextCursor l = '''' \<or> page = l")
    case True
    then show ?thesis using Suc.prems(3) p l i by auto
  next
    case False
    let ?q = "query(''cursor'' := TlNextCursor l)"
    have "page \<in> set (fst (run_state (follow_pages n uc ?q) w1))"
      using Suc.prems(3) p l False by (simp split: prod.splits)
    moreover have "\<not> str_less i (?q ''cursor'')"
    proof
      assume "str_less i (?q ''cursor'')"
      moreover have "str_less (TlNextCursor l) (query ''cursor'')" using below Suc.prems(1) False by blast
      ultimately show False using Suc.prems(2) str_less_trans by (simp add: str_less_trans)
    qed
    ultimately show ?thesis using Suc.IH[where query = ?q and w = w1] False by (simp del: fun_upd_apply) (simp)
  qed
qed simp

text \<open>C39: the pages of GET /tasks are ordered by age and cut by id: a task that is not on
  the first page and whose id is not below its cursor is on no later page, however long the
  client follows the cursors.\<close>

theorem listing_skips_tasks:
  assumes "UcTaskRepo uc = gorm_task_repo wired" "run_state (api_ListTasks uc query) w = (reply_ok 200 l, w1)"
    and "i \<notin> page_ids l" "\<not> str_less i (TlNextCursor l)"
  shows "\<forall>page \<in> set (fst (run_state (follow_pages n uc query) w)). i \<notin> page_ids page"
proof (cases n)
  case (Suc m)
  show ?thesis
    using later_pages_below[OF assms(1), of "query(''cursor'' := TlNextCursor l)" i _ m w1] assms(2-4)
    by (auto simp: Suc split: prod.splits)
qed simp

definition listing_sample :: world where
  "listing_sample = calm_world ((migrated_db (\<lambda>_. 0))\<lparr> task_rows :=
     [toGORMTask (queued_sample\<lparr> ID := ''c'', CreatedAt := 1 \<rparr>), toGORMTask (queued_sample\<lparr> ID := ''b'', CreatedAt := 2 \<rparr>)] \<rparr>)"

lemma listing_skips_witness:
  "task_view listing_sample ''c'' \<noteq> None \<and>
   ''c'' \<notin> (\<Union>page \<in> set (fst (run_state (follow_pages 9 sample_usecase
      (\<lambda>p. if p = ''limit'' then ''1'' else '''')) listing_sample)). page_ids page)"
proof -
  let ?q = "\<lambda>p. if p = ''limit'' then ''1'' else ''''"
  have lim: "ParseInt ''1'' = Some 1" by code_simp
  have p: "\<exists>l w1. run_state (api_ListTasks sample_usecase ?q) listing_sample = (reply_ok 200 l, w1) \<and>
      page_ids l = {''b''} \<and> TlNextCursor l = ''b''"
    by (simp add: api_ListTasks_def uc_ListTasks_def sample_usecase_def gorm_task_repo_def repo_List_def exec_def
        listing_sample_def migrated_db_def Let_def list_filter_def zero_filter_def lim filter_matches_def
        list_limit_def list_response_def toTaskResponse_def toGORMTask_def opt_holds_def queued_sample_def zero_task_def)
  obtain l w1 where l: "run_state (api_ListTasks sample_usecase ?q) listing_sample = (reply_ok 200 l, w1)"
      "page_ids l = {''b''}" "TlNextCursor l = ''b''" using p by (elim exE conjE)
  have u: "UcTaskRepo sample_usecase = gorm_task_repo True" by (simp add: sample_usecase_def)
  have "task_view listing_sample ''c'' \<noteq> None"
    by (simp add: listing_sample_def task_view_def row_at_def toGORMTask_def Let_def)
  then show ?thesis using listing_skips_tasks[OF u l(1), of "''c''" 9] l(2,3) by simp
qed

section \<open>Routes\<close>

text \<open>gin refuses to register a method and path twice.\<close>

lemma routes_distinct: "distinct (map (\<lambda>(m, p, _). (m, p)) (NewRouter usage webhook))"
  by (cases usage; cases webhook) (simp_all add: NewRouter_def)

end
