(* ===== verification/Collector.thy ===== *)
theory Collector
  imports Api Metrics
begin

text \<open>What is computed when the metrics are read: internal/metrics/collector.go and handler.go
  with the adapters of cmd/claude-ops/main.go. A missing source leaves its gauges out. Gauges
  and forecasts are rationals, where Go has float64. The lemmas relate the gauges to the
  decisions of the budget gate and show that reading them writes the counters.\<close>

section \<open>Sources\<close>

record metrics_sources =
  MsBudget :: "(time \<Rightarrow> budget_snapshot result prog) option"
  MsWindow :: "(time \<Rightarrow> bool \<Rightarrow> bool) option"
  MsFullMode :: "bool prog option"
  MsSlots :: "(int \<times> int) option"

definition metricsWindowAdapter :: "active_window list \<Rightarrow> time \<Rightarrow> bool \<Rightarrow> bool" where
  "metricsWindowAdapter windows t fullMode = (fullMode \<or> list_ex (\<lambda>w. Contains w t) windows)"

text \<open>The sources run() gives, with the slots of the scheduler.\<close>

definition metrics_wiring ::
  "world app_state_repo \<Rightarrow> budget_limits \<Rightarrow> active_window list \<Rightarrow> scheduler \<Rightarrow> metrics_sources" where
  "metrics_wiring repo cfg windows sched =
     \<lparr> MsBudget = Some (\<lambda>now. call (snapshotLocked repo cfg now)), MsWindow = Some (metricsWindowAdapter windows),
       MsFullMode = Some (IsFullMode (Some repo)), MsSlots = Some (int (SlotsInUse sched), int (MaxSlots sched)) \<rparr>"

section \<open>The collector\<close>

datatype gauge =
    TasksRemaining string int
  | BlockSecondsRemaining rat
  | ActiveWindowOpen bool
  | SlotsInUseGauge int
  | SlotsMaxGauge int

text \<open>The cap and the count are ints, their difference wraps.\<close>

definition remaining :: "int \<Rightarrow> int \<Rightarrow> int" where
  "remaining cap spent =
     (if cap \<le> 0 then - 1
      else let diff = wrap64 (cap - spent) in if diff < 0 then 0 else diff)"

definition block_seconds :: "rate_limit_block \<Rightarrow> time \<Rightarrow> rat" where
  "block_seconds b now = (if Active b now then of_int (go_sub (BlockedUntil b) now) / of_int Second else 0)"

definition budget_gauges :: "budget_snapshot \<Rightarrow> time \<Rightarrow> gauge list" where
  "budget_gauges snap now =
     [TasksRemaining ''daily'' (remaining (DailyMax (Limits snap)) (DailyCount (Counters snap))),
      TasksRemaining ''weekly'' (remaining (WeeklyMax (Limits snap)) (WeeklyCount (Counters snap))),
      BlockSecondsRemaining (block_seconds (Block snap) now)]"

definition Collect :: "metrics_sources \<Rightarrow> gauge list prog" where
  "Collect m = do {
     now \<leftarrow> now_prog;
     budget \<leftarrow> (case MsBudget m of
        None \<Rightarrow> ret []
      | Some snapshot \<Rightarrow> do {
          r \<leftarrow> snapshot now;
          ret (case r of Inl _ \<Rightarrow> [] | Inr snap \<Rightarrow> budget_gauges snap now)
        });
     window \<leftarrow> (case MsWindow m of
        None \<Rightarrow> ret []
      | Some isOpen \<Rightarrow> do {
          fullMode \<leftarrow> (case MsFullMode m of None \<Rightarrow> ret False | Some p \<Rightarrow> p);
          ret [ActiveWindowOpen (isOpen now fullMode)]
        });
     ret (budget @ window @ (case MsSlots m of None \<Rightarrow> [] | Some (spent, cap) \<Rightarrow> [SlotsInUseGauge spent, SlotsMaxGauge cap]))
   }"

section \<open>The forecast\<close>

text \<open>The conversion of a float64 to an int64: towards zero; out of range as on amd64.\<close>

definition rat_trunc :: "rat \<Rightarrow> int" where
  "rat_trunc q = (if 0 \<le> q then floor q else - floor (- q))"

definition int64_of_rat :: "rat \<Rightarrow> int" where
  "int64_of_rat q = (let i = rat_trunc q in if int64_ok i then i else - (2 ^ 63))"

definition eta_from :: "time \<Rightarrow> time \<Rightarrow> int \<Rightarrow> int \<Rightarrow> time option" where
  "eta_from start now spent cap =
     (let elapsed = of_int (go_sub now start) / of_int Second :: rat in
      if elapsed \<le> 0 then None
      else let ratePerSec = of_int spent / elapsed in
        if ratePerSec \<le> 0 then None
        else let etaSec = of_int (wrap64 (cap - spent)) / ratePerSec
             in Some (now + int64_of_rat (etaSec * of_int Second)))"

definition predictDailyETA :: "time \<Rightarrow> location \<Rightarrow> int \<Rightarrow> int \<Rightarrow> time option" where
  "predictDailyETA now tz spent cap =
     (if cap \<le> 0 \<or> cap \<le> spent \<or> spent \<le> 0 then None
      else eta_from (time_date tz (local_day tz now) 0 0) now spent cap)"

definition predictWeeklyETA :: "time \<Rightarrow> location \<Rightarrow> int \<Rightarrow> int \<Rightarrow> int \<Rightarrow> time option" where
  "predictWeeklyETA now tz weekStartsOn spent cap =
     (if cap \<le> 0 \<or> cap \<le> spent \<or> spent \<le> 0 then None
      else let offset = week_offset (weekday_of tz now) weekStartsOn;
               weekStart = add_date tz (time_date tz (local_day tz now) 0 0) 0 (- offset)
           in eta_from weekStart now spent cap)"

record forecast_response =
  FcNow :: time
  FcDailyUsed :: int
  FcDailyMax :: int
  FcDailyKey :: string
  FcDailyETA :: "time option"
  FcWeeklyUsed :: int
  FcWeeklyMax :: int
  FcWeeklyKey :: string
  FcWeeklyETA :: "time option"
  FcRateLimitActive :: bool
  FcRateLimitType :: string
  FcBlockedUntil :: "time option"

definition forecast_of :: "budget_snapshot \<Rightarrow> time \<Rightarrow> forecast_response" where
  "forecast_of snap now =
     (let c = Counters snap; l = Limits snap; tz = tz_of (ResetTZ l); active = Active (Block snap) now in
      \<lparr> FcNow = now, FcDailyUsed = DailyCount c, FcDailyMax = DailyMax l, FcDailyKey = DailyKey c,
        FcDailyETA = predictDailyETA now tz (DailyCount c) (DailyMax l),
        FcWeeklyUsed = WeeklyCount c, FcWeeklyMax = WeeklyMax l, FcWeeklyKey = WeeklyKey c,
        FcWeeklyETA = predictWeeklyETA now tz (WeekStartsOn l) (WeeklyCount c) (WeeklyMax l),
        FcRateLimitActive = active, FcRateLimitType = (if active then RateLimitType (Block snap) else ''''),
        FcBlockedUntil = (if active then Some (BlockedUntil (Block snap)) else None) \<rparr>)"

definition Forecast :: "metrics_sources \<Rightarrow> forecast_response reply prog" where
  "Forecast m =
     (case MsBudget m of
        None \<Rightarrow> ret (reply_error 503 ''budget source not configured'')
      | Some snapshot \<Rightarrow> do {
          now \<leftarrow> now_prog;
          r \<leftarrow> snapshot now;
          ret (case r of Inl _ \<Rightarrow> reply_error 503 ''budget snapshot failed'' | Inr snap \<Rightarrow> reply_ok 200 (forecast_of snap now))
        })"

section \<open>The gauges and the gate\<close>

lemma remaining_zero:
  assumes "int64_ok cap" "int64_ok spent" "0 \<le> spent"
  shows "remaining cap spent = 0 \<longleftrightarrow> 0 < cap \<and> cap \<le> spent"
  using assms by (auto simp: remaining_def Let_def int64_ok_def wrap64_id)

lemma block_seconds_zero: "block_seconds b now = 0 \<longleftrightarrow> \<not> Active b now"
  by (auto simp: block_seconds_def go_sub_def Active_def)

lemma limits_of_int64:
  assumes "int64_ok (DailyMax cfg)" "int64_ok (WeeklyMax cfg)"
  shows "int64_ok (DailyMax (limits_of cfg v))" "int64_ok (WeeklyMax (limits_of cfg v))"
proof -
  have "int64_ok (fst (dec_field f dec_int kvs 0))" for f kvs
    unfolding dec_field_def by (rule dec_members_int) (simp add: int64_ok_def)
  then have "dec_override j = Some (d, k) \<Longrightarrow> int64_ok d \<and> int64_ok k" for j d k
    unfolding dec_override_def
    by (cases "struct_members j") (auto simp: Let_def case_prod_beta split: if_splits)
  then show "int64_ok (DailyMax (limits_of cfg v))" "int64_ok (WeeklyMax (limits_of cfg v))"
    using assms by (auto simp: limits_of_def at_key_def override_limits_def Let_def split: option.splits)
qed

lemma evaluate_remaining:
  assumes "int64_ok (DailyMax l)" "int64_ok (WeeklyMax l)" "int64_counters c" "0 \<le> DailyCount c" "0 \<le> WeeklyCount c"
  shows "EvaluateBudget now c l b = BudgetReasonAllowed \<longleftrightarrow>
    remaining (DailyMax l) (DailyCount c) \<noteq> 0 \<and> remaining (WeeklyMax l) (WeeklyCount c) \<noteq> 0 \<and> block_seconds b now = 0"
  using assms by (auto simp: EvaluateBudget_allowed_iff remaining_zero block_seconds_zero int64_counters_def)

lemma collect_budget:
  assumes "db_works w"
  shows "\<exists>rest w'. run_state (Collect (metrics_wiring gorm_app_repo cfg windows sched)) w =
      (budget_gauges \<lparr> Counters = rolled_at cfg (clock w (ops w)) (app_view w), Limits = limits_of cfg (app_view w),
        Block = block_of (app_view w), Reason = reason_at cfg (clock w (ops w)) (app_view w) \<rparr> (clock w (ops w)) @ rest, w') \<and>
    counters_of (app_view w') = rolled_at cfg (clock w (ops w)) (app_view w)"
proof -
  let ?snap = "\<lparr> Counters = rolled_at cfg (clock w (ops w)) (app_view w), Limits = limits_of cfg (app_view w),
        Block = block_of (app_view w), Reason = reason_at cfg (clock w (ops w)) (app_view w) \<rparr>"
  obtain w1 where w1: "counters_of (app_view w1) = rolled_at cfg (clock w (ops w)) (app_view w)"
    "snapshotLocked gorm_app_repo cfg (clock w (ops w)) (tick w) = (Inr ?snap, w1)"
    using gorm_app_works.snapshot_works[OF db_works_tick[OF assms], of cfg "clock w (ops w)"] by auto
  obtain fm w2 where fm: "run_state (IsFullMode (Some gorm_app_repo)) w1 = (fm, w2)" by fastforce
  obtain r where g: "Get gorm_app_repo ''full_mode'' w1 = (r, w2)"
    using fm by (auto simp: IsFullMode_def split: prod.splits)
  then have v: "app_view w2 = app_view w1" by (rule gorm_app.Get_keeps)
  have "run_state (Collect (metrics_wiring gorm_app_repo cfg windows sched)) w =
      (budget_gauges ?snap (clock w (ops w)) @ [ActiveWindowOpen (metricsWindowAdapter windows (clock w (ops w)) fm),
        SlotsInUseGauge (int (SlotsInUse sched)), SlotsMaxGauge (int (MaxSlots sched))], w2)"
    using w1 fm by (simp add: Collect_def metrics_wiring_def read_now)
  moreover have "counters_of (app_view w2) = rolled_at cfg (clock w (ops w)) (app_view w)" using w1(1) v by simp
  ultimately show ?thesis by (intro exI conjI)
qed

text \<open>C22: what a scrape reports is what the budget gate decides: over a working database the
  three budget gauges are there, and a check of the budget at the same instant is allowed
  exactly when neither cap has zero slots remaining (an absent cap reports -1) and no
  rate-limit block has seconds left.\<close>

theorem scrape_agrees_with_gate:
  assumes "db_works w" "int64_ok (DailyMax cfg)" "int64_ok (WeeklyMax cfg)"
    and "0 \<le> DailyCount (rolled_at cfg (clock w (ops w)) (app_view w))"
    and "0 \<le> WeeklyCount (rolled_at cfg (clock w (ops w)) (app_view w))"
  shows "\<exists>d k b. {TasksRemaining ''daily'' d, TasksRemaining ''weekly'' k, BlockSecondsRemaining b}
      \<subseteq> set (fst (run_state (Collect (metrics_wiring gorm_app_repo cfg windows sched)) w)) \<and>
    (fst (CheckAndIncrementReason gorm_app_repo cfg (clock w (ops w)) w) = Inr BudgetReasonAllowed \<longleftrightarrow>
       d \<noteq> 0 \<and> k \<noteq> 0 \<and> b = 0)"
proof -
  let ?now = "clock w (ops w)" and ?v = "app_view w"
  let ?l = "limits_of cfg ?v" and ?c = "rolled_at cfg ?now ?v"
  have "fst (CheckAndIncrementReason gorm_app_repo cfg ?now w) = Inr (reason_at cfg ?now ?v)"
    using gorm_app_works.check_works[OF assms(1), of cfg ?now] by (auto simp: CheckAndIncrementReason_def)
  moreover have "reason_at cfg ?now ?v = BudgetReasonAllowed \<longleftrightarrow>
      remaining (DailyMax ?l) (DailyCount ?c) \<noteq> 0 \<and> remaining (WeeklyMax ?l) (WeeklyCount ?c) \<noteq> 0 \<and>
      block_seconds (block_of ?v) ?now = 0"
    unfolding reason_at_def
    using evaluate_remaining[OF limits_of_int64[OF assms(2,3)] int64_rolled assms(4,5)] by blast
  moreover obtain rest w' where "run_state (Collect (metrics_wiring gorm_app_repo cfg windows sched)) w =
      (budget_gauges \<lparr> Counters = ?c, Limits = ?l, Block = block_of ?v, Reason = reason_at cfg ?now ?v \<rparr> ?now @ rest, w')"
    using collect_budget[OF assms(1), of cfg windows sched] by (elim exE conjE)
  ultimately show ?thesis
    by (intro exI[of _ "remaining (DailyMax ?l) (DailyCount ?c)"] exI[of _ "remaining (WeeklyMax ?l) (WeeklyCount ?c)"]
        exI[of _ "block_seconds (block_of ?v) ?now"]) (simp add: budget_gauges_def)
qed

text \<open>A scrape is not read-only, as the comment on its sources says: when the stored
  counters are of another day or week, reading the metrics stores them rolled over.\<close>

theorem scrape_stores_rollover:
  assumes "db_works w"
  shows "case run_state (Collect (metrics_wiring gorm_app_repo cfg windows sched)) w of (gauges, w') \<Rightarrow>
    counters_of (app_view w') = RolloverCounters (clock w (ops w)) (counters_of (app_view w)) (limits_of cfg (app_view w)) \<and>
    (counters_of (app_view w') \<noteq> counters_of (app_view w) \<longrightarrow> app_rows w' \<noteq> app_rows w)"
proof -
  obtain gs w' where c: "run_state (Collect (metrics_wiring gorm_app_repo cfg windows sched)) w = (gs, w')"
    "counters_of (app_view w') = rolled_at cfg (clock w (ops w)) (app_view w)"
    using collect_budget[OF assms, of cfg windows sched] by (elim exE conjE)
  moreover have "app_rows w' = app_rows w \<Longrightarrow> app_view w' = app_view w" by (simp add: app_view_def fun_eq_iff)
  ultimately show ?thesis using c by (auto simp: rolled_at_def)
qed

lemma scrape_gate_witness:
  "\<exists>d k b. {TasksRemaining ''daily'' d, TasksRemaining ''weekly'' k, BlockSecondsRemaining b}
      \<subseteq> set (fst (run_state (Collect (metrics_wiring gorm_app_repo sample_limits [] (snd (NewScheduler sample_sched)))) mode_sample)) \<and>
    (fst (CheckAndIncrementReason gorm_app_repo sample_limits (clock mode_sample (ops mode_sample)) mode_sample) = Inr BudgetReasonAllowed \<longleftrightarrow>
       d \<noteq> 0 \<and> k \<noteq> 0 \<and> b = 0)"
proof (rule scrape_agrees_with_gate)
  have v: "counters_of (app_view mode_sample) = zero_counters"
    by (simp add: counters_of_def at_key_def app_view_def mode_sample_def migrated_db_def)
  then show "0 \<le> DailyCount (rolled_at sample_limits (clock mode_sample (ops mode_sample)) (app_view mode_sample))"
    "0 \<le> WeeklyCount (rolled_at sample_limits (clock mode_sample (ops mode_sample)) (app_view mode_sample))"
    by (simp_all add: rolled_at_def RolloverCounters_fields zero_counters_def)
qed (simp_all add: mode_sample_def db_works_def migrated_db_def sample_limits_def int64_ok_def)

lemma scrape_rollover_witness:
  "case run_state (Collect (metrics_wiring gorm_app_repo sample_limits [] (snd (NewScheduler sample_sched)))) mode_sample of
     (gauges, w') \<Rightarrow> counters_of (app_view w') \<noteq> counters_of (app_view mode_sample)"
proof -
  have w: "db_works mode_sample" by (simp add: mode_sample_def db_works_def migrated_db_def)
  have v: "counters_of (app_view mode_sample) = zero_counters"
    by (simp add: counters_of_def at_key_def app_view_def mode_sample_def migrated_db_def)
  have "DailyKey (RolloverCounters t zero_counters l) = DateKey t (ResetTZ l)" for t l
    by (simp add: RolloverCounters_fields)
  moreover have "DateKey t tz \<noteq> ''''" for t tz
    by (cases "date_of_day (local_day (tz_of tz) t)") (simp add: DateKey_def format_date_def)
  ultimately have "RolloverCounters t zero_counters l \<noteq> zero_counters" for t l
    by (metis budget_counters.select_convs(2) zero_counters_def)
  then show ?thesis using scrape_stores_rollover[OF w, of sample_limits "[]" "snd (NewScheduler sample_sched)"]
    by (auto simp: v split: prod.splits)
qed

section \<open>The forecast\<close>

lemma eta_from_bounds:
  assumes "eta_from start now spent cap = Some eta" "0 < spent" "spent < cap" "int64_ok cap"
    and "now - start < 2 ^ 63" "(cap - spent) * (now - start) < spent * 2 ^ 63"
  shows "start < now \<and> now \<le> eta \<and> spent * (eta - start) \<le> cap * (now - start) \<and>
    cap * (now - start) < spent * (eta - start) + spent"
proof -
  let ?e = "now - start" and ?r = "cap - spent"
  have s: "start < now"
    using assms(1) by (auto simp: eta_from_def go_sub_def Let_def field_simps split: if_splits)
  have g: "go_sub now start = ?e" using s assms(5) by (simp add: go_sub_def)
  have w: "wrap64 ?r = ?r" using assms(2-4) by (intro wrap64_id) (simp add: int64_ok_def)
  have q: "rat_of_int ?r / (of_int spent / (of_int ?e / of_int Second)) * of_int Second = of_int (?r * ?e) / of_int spent"
    using s assms(2) by (simp add: field_simps)
  have t: "rat_trunc (of_int (?r * ?e) / of_int spent) = ?r * ?e div spent"
    using s assms(2,3) unfolding rat_trunc_def floor_divide_of_int_eq by simp
  have b: "0 \<le> ?r * ?e div spent" using s assms(2,3) by (simp add: pos_imp_zdiv_nonneg_iff)
  have m: "spent * (?r * ?e div spent) = ?r * ?e - ?r * ?e mod spent" by (simp only: minus_mod_eq_mult_div)
  have "0 \<le> ?r * ?e mod spent" "?r * ?e mod spent < spent" using assms(2) by simp_all
  then have le: "spent * (?r * ?e div spent) \<le> ?r * ?e" "?r * ?e < spent * (?r * ?e div spent) + spent"
    using m by linarith+
  then have "spent * (?r * ?e div spent) < spent * 2 ^ 63" using assms(6) by linarith
  then have b2: "?r * ?e div spent < 2 ^ 63" using assms(2) by (simp only: mult_less_cancel_left_pos)
  have i: "int64_of_rat (of_int (?r * ?e) / of_int spent) = ?r * ?e div spent"
    unfolding int64_of_rat_def t Let_def using b b2 by (simp add: int64_ok_def)
  have "eta = now + ?r * ?e div spent"
    using assms(1) unfolding eta_from_def g w Let_def q i by (simp split: if_splits)
  moreover note le
  ultimately show ?thesis using s b by (simp add: algebra_simps)
qed

text \<open>A daily forecast is given only while some but not all slots of the day are used and
  the day has begun; it is not in the past and lies on the line through the start of the
  local day and the present count: by the forecast instant the count of the day grows to the
  cap, up to a nanosecond. (The bounds are those of time.Duration.)\<close>

theorem forecast_on_the_line:
  assumes "predictDailyETA now tz spent cap = Some eta" "int64_ok cap"
    and "now - time_date tz (local_day tz now) 0 0 < 2 ^ 63"
    and "(cap - spent) * (now - time_date tz (local_day tz now) 0 0) < spent * 2 ^ 63"
  shows "let start = time_date tz (local_day tz now) 0 0 in
    0 < spent \<and> spent < cap \<and> start < now \<and> now \<le> eta \<and>
    spent * (eta - start) \<le> cap * (now - start) \<and> cap * (now - start) < spent * (eta - start) + spent"
proof -
  have g: "0 < spent" "spent < cap" "eta_from (time_date tz (local_day tz now) 0 0) now spent cap = Some eta"
    using assms(1) by (auto simp: predictDailyETA_def split: if_splits)
  show ?thesis unfolding Let_def using g eta_from_bounds[OF g(3,1,2) assms(2-4)] by blast
qed

lemma forecast_line_witness:
  "predictDailyETA (3600 * Second) UTC 2 6 = Some (3 * 3600 * Second) \<and>
   2 * (3 * 3600 * Second) \<le> 6 * (3600 * Second)"
proof -
  have e: "predictDailyETA (3600 * Second) UTC 2 6 = Some (3 * 3600 * Second)"
    by (simp add: predictDailyETA_def eta_from_def go_sub_def Let_def time_date_UTC local_day_def local_sec_UTC unix_sec_def
        wrap64_id int64_ok_def int64_of_rat_def rat_trunc_def)
  have s: "time_date UTC (local_day UTC (3600 * Second)) 0 0 = 0"
    by (simp add: time_date_UTC local_day_def local_sec_UTC unix_sec_def)
  show ?thesis using e forecast_on_the_line[OF e] by (simp add: s Let_def int64_ok_def)
qed

text \<open>With a large cap the duration does not fit: the forecast is in the past.\<close>

lemma forecast_overflows:
  "\<exists>eta. predictDailyETA (86399 * Second) UTC 1 1000000 = Some eta \<and> eta < 0"
  by (simp add: predictDailyETA_def eta_from_def go_sub_def Let_def time_date_UTC local_day_def local_sec_UTC unix_sec_def
      wrap64_id int64_ok_def int64_of_rat_def rat_trunc_def)

end
