(* ===== verification/Canceller.thy ===== *)
theory Canceller
  imports Go_Fmt Calendar
begin

text \<open>internal/claude/canceller.go: SIGTERM to a process group, polls until it is gone or a
  grace period is over, then SIGKILL. What kill(2) answers and what the clock says are
  functions of a step counter; the signals sent are a list. The loop waits for the clock,
  so it is a partial function; it returns as soon as the clock moves as time.Sleep
  promises.\<close>

section \<open>Processes\<close>

datatype signal = SIGTERM | SIGKILL | Probe

datatype kill_reply = KillOk | ESRCH | KillFails string

record processes =
  kill_answer :: "nat \<Rightarrow> kill_reply"
  proc_clock :: "nat \<Rightarrow> time"
  proc_steps :: nat
  sent :: "(signal \<times> int) list"

definition Kill :: "int \<Rightarrow> signal \<Rightarrow> processes \<Rightarrow> kill_reply \<times> processes" where
  "Kill pgid sig p = (kill_answer p (proc_steps p), p\<lparr> proc_steps := Suc (proc_steps p), sent := sent p @ [(sig, pgid)] \<rparr>)"

definition read_clock :: "processes \<Rightarrow> time \<times> processes" where
  "read_clock p = (proc_clock p (proc_steps p), p\<lparr> proc_steps := Suc (proc_steps p) \<rparr>)"

section \<open>Cancel\<close>

definition processGroupExists :: "int \<Rightarrow> processes \<Rightarrow> bool \<times> processes" where
  "processGroupExists pgid p = (case Kill pgid Probe p of (r, p1) \<Rightarrow> (r = KillOk, p1))"

definition isNoSuchProcess :: "kill_reply \<Rightarrow> bool" where "isNoSuchProcess r = (r = ESRCH)"

text \<open>The loop up to the deadline: whether the group was seen to be gone.\<close>

partial_function (option) grace_loop :: "int \<Rightarrow> time \<Rightarrow> processes \<Rightarrow> (bool \<times> processes) option" where
  "grace_loop pgid deadline p =
     (case read_clock p of (now, p1) \<Rightarrow>
        if now < deadline
        then (case processGroupExists pgid p1 of (exists, p2) \<Rightarrow>
                if \<not> exists then Some (True, p2) else grace_loop pgid deadline p2)
        else Some (False, p1))"

definition GraceTimeout :: int where "GraceTimeout = 5 * Second"

definition Cancel :: "int \<Rightarrow> int \<Rightarrow> processes \<Rightarrow> (unit result \<times> processes) option" where
  "Cancel grace pgid p =
     (if pgid \<le> 0 then Some (Inl (EMsg (''invalid pgid: '' @ int_str pgid)), p)
      else case Kill pgid SIGTERM p of
        (KillOk, p1) \<Rightarrow>
          (case read_clock p1 of (t0, p2) \<Rightarrow>
             Option.bind (grace_loop pgid (t0 + grace) p2) (\<lambda>(gone, p3).
               if gone then Some (Inr (), p3)
               else (case Kill pgid SIGKILL p3 of
                       (KillFails m, p4) \<Rightarrow> Some (Inl (EWrap (''SIGKILL pgid '' @ int_str pgid) (EMsg m)), p4)
                     | (_, p4) \<Rightarrow> Some (Inr (), p4))))
      | (ESRCH, p1) \<Rightarrow> Some (Inr (), p1)
      | (KillFails m, p1) \<Rightarrow> Some (Inl (EWrap (''SIGTERM pgid '' @ int_str pgid) (EMsg m)), p1))"

section \<open>It ends\<close>

text \<open>From the present step on, the clock moves by at least 200 ms between the reading before a
  poll and the one after it; a reading is one step and a poll is one step.\<close>

definition poll_interval :: int where "poll_interval = 200 * 1000000"

definition sleeps :: "processes \<Rightarrow> bool" where
  "sleeps p = (\<forall>n \<ge> proc_steps p. proc_clock p n \<le> proc_clock p (n + 1) \<and>
     proc_clock p n + poll_interval \<le> proc_clock p (n + 2))"

text \<open>What the loop did: polls only, the last of which failed, or all of which were answered
  until the deadline.\<close>

definition polled :: "int \<Rightarrow> time \<Rightarrow> processes \<Rightarrow> bool \<Rightarrow> nat \<Rightarrow> processes \<Rightarrow> bool" where
  "polled pgid deadline p gone n p' = (\<exists>m. p' = p\<lparr> proc_steps := Suc m, sent := sent p @ replicate n (Probe, pgid) \<rparr> \<and>
     proc_steps p \<le> m \<and> (if gone then kill_answer p m \<noteq> KillOk else deadline \<le> proc_clock p m))"

lemma grace_loop_ends:
  assumes "sleeps p" "deadline - proc_clock p (proc_steps p) \<le> int k * poll_interval"
  shows "\<exists>gone p' n. grace_loop pgid deadline p = Some (gone, p') \<and> n \<le> k \<and> polled pgid deadline p gone n p'"
  using assms
proof (induction k arbitrary: p)
  case 0
  then have "grace_loop pgid deadline p = Some (False, snd (read_clock p))"
    by (subst grace_loop.simps) (simp add: read_clock_def)
  then show ?case using 0 by (intro exI[of _ False] exI[of _ "snd (read_clock p)"] exI[of _ 0])
    (auto simp: polled_def read_clock_def intro!: exI[of _ "proc_steps p"])
next
  case (Suc k)
  let ?p1 = "snd (read_clock p)"
  obtain exists p2 where g: "processGroupExists pgid ?p1 = (exists, p2)" by fastforce
  then have p2: "p2 = p\<lparr> proc_steps := proc_steps p + 2, sent := sent p @ [(Probe, pgid)] \<rparr>"
    "exists \<longleftrightarrow> kill_answer p (Suc (proc_steps p)) = KillOk"
    by (auto simp: processGroupExists_def Kill_def read_clock_def split: prod.splits)
  consider "deadline \<le> proc_clock p (proc_steps p)" | "proc_clock p (proc_steps p) < deadline" "\<not> exists"
    | "proc_clock p (proc_steps p) < deadline" exists by linarith
  then show ?case
  proof cases
    case 1
    then have "grace_loop pgid deadline p = Some (False, ?p1)" by (subst grace_loop.simps) (simp add: read_clock_def)
    then show ?thesis using 1 by (intro exI[of _ False] exI[of _ ?p1] exI[of _ 0])
      (auto simp: polled_def read_clock_def intro!: exI[of _ "proc_steps p"])
  next
    case 2
    then have "grace_loop pgid deadline p = Some (True, p2)"
      using g by (subst grace_loop.simps) (simp add: read_clock_def)
    then show ?thesis using p2 2
      by (intro exI[of _ True] exI[of _ p2] exI[of _ 1]) (auto simp: polled_def intro!: exI[of _ "Suc (proc_steps p)"])
  next
    case 3
    then have e: "grace_loop pgid deadline p = grace_loop pgid deadline p2"
      using g by (subst grace_loop.simps) (simp add: read_clock_def)
    have s: "sleeps p2" using Suc.prems(1) by (auto simp: sleeps_def p2)
    have "proc_clock p (proc_steps p) + poll_interval \<le> proc_clock p (proc_steps p + 2)"
      using Suc.prems(1) by (simp add: sleeps_def)
    then have "deadline - proc_clock p2 (proc_steps p2) \<le> int k * poll_interval"
      using Suc.prems(2) by (simp add: p2 algebra_simps)
    from Suc.IH[OF s this] obtain gone p' n where "grace_loop pgid deadline p2 = Some (gone, p')" "n \<le> k"
      "polled pgid deadline p2 gone n p'" by blast
    moreover from this(3) have "polled pgid deadline p gone (Suc n) p'"
      by (auto simp: polled_def p2(1))
    ultimately show ?thesis unfolding e by (intro exI[of _ gone] exI[of _ p'] exI[of _ "Suc n"]) simp
  qed
qed

text \<open>C20: when the clock advances as the sleeps of the loop promise, Cancel returns: it sends
  SIGTERM to the given group, polls it at most 25 times and sends SIGKILL at most once and
  last. SIGKILL follows only when five seconds have passed since the SIGTERM; no error
  and no SIGKILL means that the group was found gone.\<close>

theorem cancel_ends:
  assumes "sleeps p" "0 < pgid"
  shows "\<exists>r p' n killed. Cancel GraceTimeout pgid p = Some (r, p') \<and> n \<le> 25 \<and>
    sent p' = sent p @ (SIGTERM, pgid) # replicate n (Probe, pgid) @ (if killed then [(SIGKILL, pgid)] else []) \<and>
    (killed \<longrightarrow> proc_clock p (proc_steps p + 1) + 5 * Second \<le> proc_clock p (proc_steps p' - 2)) \<and>
    (\<not> killed \<and> r = Inr () \<longrightarrow> kill_answer p (proc_steps p' - 1) \<noteq> KillOk)"
proof -
  let ?i = "proc_steps p"
  let ?p1 = "p\<lparr> proc_steps := Suc ?i, sent := sent p @ [(SIGTERM, pgid)] \<rparr>"
  let ?p2 = "?p1\<lparr> proc_steps := Suc (Suc ?i) \<rparr>" and ?d = "proc_clock p (Suc ?i) + GraceTimeout"
  have st: "Kill pgid SIGTERM p = (kill_answer p ?i, ?p1)" by (simp add: Kill_def)
  show ?thesis
  proof (cases "kill_answer p ?i")
    case KillOk
    have "proc_clock p (Suc ?i) \<le> proc_clock p (Suc (Suc ?i))" using assms(1) by (auto simp: sleeps_def)
    then have d: "?d - proc_clock ?p2 (proc_steps ?p2) \<le> int 25 * poll_interval"
      by (simp add: GraceTimeout_def poll_interval_def)
    have s: "sleeps ?p2" using assms(1) by (auto simp: sleeps_def)
    obtain gone p' n where g: "grace_loop pgid ?d ?p2 = Some (gone, p')" "n \<le> 25" "polled pgid ?d ?p2 gone n p'"
      using grace_loop_ends[OF s d] by blast
    then have "\<exists>m. p' = ?p2\<lparr> proc_steps := Suc m, sent := sent ?p2 @ replicate n (Probe, pgid) \<rparr> \<and>
        (if gone then kill_answer ?p2 m \<noteq> KillOk else ?d \<le> proc_clock ?p2 m)"
      unfolding polled_def by blast
    then obtain m where m: "p' = ?p2\<lparr> proc_steps := Suc m, sent := sent ?p2 @ replicate n (Probe, pgid) \<rparr>"
      "if gone then kill_answer ?p2 m \<noteq> KillOk else ?d \<le> proc_clock ?p2 m" by (elim exE conjE)
    show ?thesis
    proof (cases gone)
      case True
      then have "Cancel GraceTimeout pgid p = Some (Inr (), p')"
        using assms(2) st KillOk g(1) by (simp add: Cancel_def read_clock_def)
      then show ?thesis using g(2) m True by (intro exI[of _ "Inr ()"] exI[of _ p'] exI[of _ n] exI[of _ False]) simp
    next
      case False
      let ?q = "snd (Kill pgid SIGKILL p')"
      have "\<exists>r. Cancel GraceTimeout pgid p = Some (r, ?q)"
        using assms(2) st KillOk g(1) False
        by (cases "kill_answer p (Suc m)") (simp_all add: Cancel_def read_clock_def Kill_def m(1))
      then obtain r where "Cancel GraceTimeout pgid p = Some (r, ?q)" by blast
      then show ?thesis using g(2) m False
        by (intro exI[of _ r] exI[of _ ?q] exI[of _ n] exI[of _ True]) (simp add: Kill_def GraceTimeout_def)
    qed
  qed (use assms(2) st in \<open>auto simp: Cancel_def intro!: exI[of _ 0] exI[of _ False]\<close>)
qed

definition stubborn_group :: processes where
  "stubborn_group = \<lparr> kill_answer = (\<lambda>_. KillOk), proc_clock = (\<lambda>n. int n * poll_interval), proc_steps = 0, sent = [] \<rparr>"

lemma cancel_witness:
  "\<exists>r p' n killed. Cancel GraceTimeout 42 stubborn_group = Some (r, p') \<and> n \<le> 25 \<and>
    sent p' = sent stubborn_group @ (SIGTERM, 42) # replicate n (Probe, 42) @ (if killed then [(SIGKILL, 42)] else []) \<and>
    (killed \<longrightarrow> proc_clock stubborn_group (proc_steps stubborn_group + 1) + 5 * Second \<le>
       proc_clock stubborn_group (proc_steps p' - 2)) \<and>
    (\<not> killed \<and> r = Inr () \<longrightarrow> kill_answer stubborn_group (proc_steps p' - 1) \<noteq> KillOk)"
  by (rule cancel_ends) (simp_all add: sleeps_def stubborn_group_def poll_interval_def)

end
