(* ===== verification/Opsctl.thy ===== *)
theory Opsctl
  imports Api
begin

text \<open>The client cmd/claude-opsctl and the JSON it shares with the server: the encoding of the
  bodies of internal/api/dto.go (encoding/json with omitempty) and their decoding by types.go
  and client.go, and the commands. Flags are given parsed; the connection is an argument
  that takes a method, a path and a body. Documents stand for their texts; the layout of a
  table is text/tabwriter. The lemmas show that the client reads what the server wrote.\<close>

section \<open>Encoding\<close>

definition omit_str :: "string \<Rightarrow> string \<Rightarrow> (string \<times> json) list" where
  "omit_str k s = (if s = '''' then [] else [(k, JStr s)])"

definition omit_int :: "string \<Rightarrow> int \<Rightarrow> (string \<times> json) list" where
  "omit_int k i = (if i = 0 then [] else [(k, JInt i)])"

definition time_field :: "location \<Rightarrow> string \<Rightarrow> time \<Rightarrow> (string \<times> json) list result" where
  "time_field tz k t = (case marshal_time tz t of Inl e \<Rightarrow> Inl e | Inr j \<Rightarrow> Inr [(k, j)])"

definition omit_time :: "location \<Rightarrow> string \<Rightarrow> time option \<Rightarrow> (string \<times> json) list result" where
  "omit_time tz k t = (case t of None \<Rightarrow> Inr [] | Some x \<Rightarrow> time_field tz k x)"

text \<open>The fields of a struct in order; the first that cannot be encoded is the error.\<close>

fun all_fields :: "(string \<times> json) list result list \<Rightarrow> (string \<times> json) list result" where
  "all_fields [] = Inr []"
| "all_fields (r # rs) =
     (case r of
        Inl e \<Rightarrow> Inl e
      | Inr a \<Rightarrow> (case all_fields rs of Inl e \<Rightarrow> Inl e | Inr b \<Rightarrow> Inr (a @ b)))"

definition enc_struct :: "(string \<times> json) list result list \<Rightarrow> json result" where
  "enc_struct fs = (case all_fields fs of Inl e \<Rightarrow> Inl e | Inr kvs \<Rightarrow> Inr (JObj kvs))"

definition enc_health :: "location \<Rightarrow> health_response \<Rightarrow> json result" where
  "enc_health tz r = enc_struct [Inr [(''status'', JStr (HrStatus r))], omit_time tz ''tick_at'' (HrTickAt r),
     Inr [(''full_mode'', JBool (HrFullMode r))]]"

definition enc_full_mode_response :: "location \<Rightarrow> full_mode_response \<Rightarrow> json result" where
  "enc_full_mode_response tz r =
     enc_struct [Inr [(''enabled'', JBool (FrEnabled r))], omit_time tz ''since'' (FrSince r)]"

definition enc_limits :: "location \<Rightarrow> limits_response \<Rightarrow> json result" where
  "enc_limits tz r =
     (case omit_time tz ''blocked_until'' (LrBlockedUntil r) of
        Inl e \<Rightarrow> Inl e
      | Inr b \<Rightarrow> Inr (JObj (
          [(''daily'', JObj [(''count'', JInt (LrDailyCount r)), (''max'', JInt (LrDailyMax r)), (''date'', JStr (LrDailyDate r))]),
           (''weekly'', JObj [(''count'', JInt (LrWeeklyCount r)), (''max'', JInt (LrWeeklyMax r)), (''week'', JStr (LrWeeklyWeek r))]),
           (''rate_limit'', JObj (b @ omit_str ''rate_limit_type'' (LrRateLimitType r)))]
          @ omit_str ''reason'' (LrReason r))))"

definition task_fields :: "location \<Rightarrow> task_response \<Rightarrow> (string \<times> json) list result" where
  "task_fields tz r = all_fields
     [Inr [(''id'', JStr (TrID r)), (''repo_full_name'', JStr (TrRepoFullName r)), (''issue_number'', JInt (TrIssueNumber r)),
           (''issue_title'', JStr (TrIssueTitle r)), (''task_type'', JStr (TrTaskType r)), (''status'', JStr (TrStatus r)),
           (''source'', JStr (TrSource r))],
      Inr (omit_str ''maintenance_name'' (TrMaintenanceName r) @ omit_str ''pr_url'' (TrPRURL r) @ omit_int ''pr_number'' (TrPRNumber r)),
      omit_time tz ''started_at'' (TrStartedAt r), omit_time tz ''finished_at'' (TrFinishedAt r),
      Inr (omit_int ''estimated_input_tokens'' (TrEstimatedInputTokens r) @ omit_int ''estimated_output_tokens'' (TrEstimatedOutputTokens r)),
      time_field tz ''created_at'' (TrCreatedAt r), time_field tz ''updated_at'' (TrUpdatedAt r),
      Inr (omit_str ''ci_status'' (TrCIStatus r) @ omit_str ''parent_task_id'' (TrParentTaskID r) @
           omit_int ''fix_attempt_count'' (TrFixAttemptCount r) @ omit_str ''head_sha'' (TrHeadSHA r)),
      omit_time tz ''ci_last_polled_at'' (TrCILastPolledAt r)]"

definition enc_task :: "location \<Rightarrow> task_response \<Rightarrow> json result" where
  "enc_task tz r = enc_struct [task_fields tz r]"

fun enc_all :: "('b \<Rightarrow> json result) \<Rightarrow> 'b list \<Rightarrow> json list result" where
  "enc_all f [] = Inr []"
| "enc_all f (b # bs) =
     (case f b of Inl e \<Rightarrow> Inl e | Inr j \<Rightarrow> (case enc_all f bs of Inl e \<Rightarrow> Inl e | Inr js \<Rightarrow> Inr (j # js)))"

definition array_field :: "string \<Rightarrow> json list result \<Rightarrow> (string \<times> json) list result" where
  "array_field k r = (case r of Inl e \<Rightarrow> Inl e | Inr js \<Rightarrow> Inr [(k, JArr js)])"

definition enc_event :: "location \<Rightarrow> task_event_response \<Rightarrow> json result" where
  "enc_event tz e = enc_struct [Inr [(''id'', JStr (ErID e)), (''kind'', JStr (ErKind e))],
     Inr (omit_str ''payload_json'' (ErPayloadJSON e)), time_field tz ''created_at'' (ErCreatedAt e)]"

definition enc_task_detail :: "location \<Rightarrow> task_detail_response \<Rightarrow> json result" where
  "enc_task_detail tz d = enc_struct [task_fields tz (DrTask d), Inr (omit_str ''stderr_tail'' (DrStderrTail d)),
     (if DrEvents d = [] then Inr [] else array_field ''events'' (enc_all (enc_event tz) (DrEvents d)))]"

definition enc_task_list :: "location \<Rightarrow> task_list_response \<Rightarrow> json result" where
  "enc_task_list tz l = enc_struct [array_field ''items'' (enc_all (enc_task tz) (TlItems l)),
     Inr (omit_str ''next_cursor'' (TlNextCursor l))]"

section \<open>Decoding\<close>

fun dec_time :: "time decoder" where
  "dec_time JNull v = (v, True)"
| "dec_time (JStr s) v = (case parse_rfc3339 s of None \<Rightarrow> (v, False) | Some t \<Rightarrow> (t, True))"
| "dec_time _ v = (v, False)"

definition decode :: "'a decoder \<Rightarrow> 'a \<Rightarrow> json \<Rightarrow> 'a option" where
  "decode d z j = (case d j z of (v, ok) \<Rightarrow> if ok then Some v else None)"

definition dec_health :: "health_response decoder" where
  "dec_health j v =
     (case struct_members j of
        None \<Rightarrow> (v, False)
      | Some kvs \<Rightarrow>
          let (s, o1) = dec_field ''status'' dec_str kvs (HrStatus v);
              (t, o2) = dec_field ''tick_at'' dec_time_ptr kvs (HrTickAt v);
              (f, o3) = dec_field ''full_mode'' dec_bool kvs (HrFullMode v)
          in (\<lparr> HrStatus = s, HrTickAt = t, HrFullMode = f \<rparr>, o1 \<and> o2 \<and> o3))"

definition dec_full_mode_response :: "full_mode_response decoder" where
  "dec_full_mode_response j v =
     (case struct_members j of
        None \<Rightarrow> (v, False)
      | Some kvs \<Rightarrow>
          let (b, o1) = dec_field ''enabled'' dec_bool kvs (FrEnabled v);
              (t, o2) = dec_field ''since'' dec_time_ptr kvs (FrSince v)
          in (\<lparr> FrEnabled = b, FrSince = t \<rparr>, o1 \<and> o2))"

text \<open>A bucket of the limits: its count, cap and key.\<close>

definition dec_bucket :: "string \<Rightarrow> (int \<times> int \<times> string) decoder" where
  "dec_bucket key j v =
     (case struct_members j of
        None \<Rightarrow> (v, False)
      | Some kvs \<Rightarrow>
          let (c, o1) = dec_field ''count'' dec_int kvs (fst v);
              (m, o2) = dec_field ''max'' dec_int kvs (fst (snd v));
              (k, o3) = dec_field key dec_str kvs (snd (snd v))
          in ((c, m, k), o1 \<and> o2 \<and> o3))"

definition dec_rate_limit :: "(time option \<times> string) decoder" where
  "dec_rate_limit j v =
     (case struct_members j of
        None \<Rightarrow> (v, False)
      | Some kvs \<Rightarrow>
          let (u, o1) = dec_field ''blocked_until'' dec_time_ptr kvs (fst v);
              (t, o2) = dec_field ''rate_limit_type'' dec_str kvs (snd v)
          in ((u, t), o1 \<and> o2))"

definition dec_limits :: "limits_response decoder" where
  "dec_limits j v =
     (case struct_members j of
        None \<Rightarrow> (v, False)
      | Some kvs \<Rightarrow>
          let (d, o1) = dec_field ''daily'' (dec_bucket ''date'') kvs (LrDailyCount v, LrDailyMax v, LrDailyDate v);
              (k, o2) = dec_field ''weekly'' (dec_bucket ''week'') kvs (LrWeeklyCount v, LrWeeklyMax v, LrWeeklyWeek v);
              (b, o3) = dec_field ''rate_limit'' dec_rate_limit kvs (LrBlockedUntil v, LrRateLimitType v);
              (r, o4) = dec_field ''reason'' dec_str kvs (LrReason v)
          in (\<lparr> LrDailyCount = fst d, LrDailyMax = fst (snd d), LrDailyDate = snd (snd d),
                LrWeeklyCount = fst k, LrWeeklyMax = fst (snd k), LrWeeklyWeek = snd (snd k),
                LrBlockedUntil = fst b, LrRateLimitType = snd b, LrReason = r \<rparr>, o1 \<and> o2 \<and> o3 \<and> o4))"

definition zero_limits :: limits_response where
  "zero_limits = \<lparr> LrDailyCount = 0, LrDailyMax = 0, LrDailyDate = '''', LrWeeklyCount = 0, LrWeeklyMax = 0,
     LrWeeklyWeek = '''', LrBlockedUntil = None, LrRateLimitType = '''', LrReason = '''' \<rparr>"

text \<open>The client's task has no fields for the source, the maintenance and the CI watch.\<close>

record client_task =
  CtID :: string
  CtRepoFullName :: string
  CtIssueNumber :: int
  CtIssueTitle :: string
  CtTaskType :: string
  CtStatus :: string
  CtPRURL :: string
  CtPRNumber :: int
  CtStartedAt :: "time option"
  CtFinishedAt :: "time option"
  CtEstimatedInputTokens :: int
  CtEstimatedOutputTokens :: int
  CtCreatedAt :: time
  CtUpdatedAt :: time

definition zero_client_task :: client_task where
  "zero_client_task = \<lparr> CtID = '''', CtRepoFullName = '''', CtIssueNumber = 0, CtIssueTitle = '''', CtTaskType = '''',
     CtStatus = '''', CtPRURL = '''', CtPRNumber = 0, CtStartedAt = None, CtFinishedAt = None, CtEstimatedInputTokens = 0,
     CtEstimatedOutputTokens = 0, CtCreatedAt = zero_time, CtUpdatedAt = zero_time \<rparr>"

definition client_task_of :: "(string \<times> json) list \<Rightarrow> client_task \<Rightarrow> client_task \<times> bool" where
  "client_task_of kvs v =
     (let (i, o1) = dec_field ''id'' dec_str kvs (CtID v);
          (r, o2) = dec_field ''repo_full_name'' dec_str kvs (CtRepoFullName v);
          (n, o3) = dec_field ''issue_number'' dec_int kvs (CtIssueNumber v);
          (ti, o4) = dec_field ''issue_title'' dec_str kvs (CtIssueTitle v);
          (ty, o5) = dec_field ''task_type'' dec_str kvs (CtTaskType v);
          (st, o6) = dec_field ''status'' dec_str kvs (CtStatus v);
          (pu, o7) = dec_field ''pr_url'' dec_str kvs (CtPRURL v);
          (pn, o8) = dec_field ''pr_number'' dec_int kvs (CtPRNumber v);
          (sa, o9) = dec_field ''started_at'' dec_time_ptr kvs (CtStartedAt v);
          (fa, o10) = dec_field ''finished_at'' dec_time_ptr kvs (CtFinishedAt v);
          (ei, o11) = dec_field ''estimated_input_tokens'' dec_int kvs (CtEstimatedInputTokens v);
          (eo, o12) = dec_field ''estimated_output_tokens'' dec_int kvs (CtEstimatedOutputTokens v);
          (ca, o13) = dec_field ''created_at'' dec_time kvs (CtCreatedAt v);
          (ua, o14) = dec_field ''updated_at'' dec_time kvs (CtUpdatedAt v)
      in (\<lparr> CtID = i, CtRepoFullName = r, CtIssueNumber = n, CtIssueTitle = ti, CtTaskType = ty, CtStatus = st,
            CtPRURL = pu, CtPRNumber = pn, CtStartedAt = sa, CtFinishedAt = fa, CtEstimatedInputTokens = ei,
            CtEstimatedOutputTokens = eo, CtCreatedAt = ca, CtUpdatedAt = ua \<rparr>,
          o1 \<and> o2 \<and> o3 \<and> o4 \<and> o5 \<and> o6 \<and> o7 \<and> o8 \<and> o9 \<and> o10 \<and> o11 \<and> o12 \<and> o13 \<and> o14))"

definition dec_client_task :: "client_task decoder" where
  "dec_client_task j v = (case struct_members j of None \<Rightarrow> (v, False) | Some kvs \<Rightarrow> client_task_of kvs v)"

definition dec_event :: "task_event_response decoder" where
  "dec_event j v =
     (case struct_members j of
        None \<Rightarrow> (v, False)
      | Some kvs \<Rightarrow>
          let (i, o1) = dec_field ''id'' dec_str kvs (ErID v);
              (k, o2) = dec_field ''kind'' dec_str kvs (ErKind v);
              (p, o3) = dec_field ''payload_json'' dec_str kvs (ErPayloadJSON v);
              (t, o4) = dec_field ''created_at'' dec_time kvs (ErCreatedAt v)
          in (\<lparr> ErID = i, ErKind = k, ErPayloadJSON = p, ErCreatedAt = t \<rparr>, o1 \<and> o2 \<and> o3 \<and> o4))"

definition zero_event :: task_event_response where
  "zero_event = \<lparr> ErID = '''', ErKind = '''', ErPayloadJSON = '''', ErCreatedAt = zero_time \<rparr>"

record client_detail =
  CdTask :: client_task
  CdStderrTail :: string
  CdEvents :: "task_event_response list"

text \<open>The task is embedded: its members are those of the document.\<close>

definition dec_client_detail :: "client_detail decoder" where
  "dec_client_detail j v =
     (case struct_members j of
        None \<Rightarrow> (v, False)
      | Some kvs \<Rightarrow>
          let (t, o1) = client_task_of kvs (CdTask v);
              (s, o2) = dec_field ''stderr_tail'' dec_str kvs (CdStderrTail v);
              (es, o3) = dec_field ''events'' (dec_list dec_event zero_event) kvs (CdEvents v)
          in (\<lparr> CdTask = t, CdStderrTail = s, CdEvents = es \<rparr>, o1 \<and> o2 \<and> o3))"

record client_list =
  ClItems :: "client_task list"
  ClNextCursor :: string

definition dec_client_list :: "client_list decoder" where
  "dec_client_list j v =
     (case struct_members j of
        None \<Rightarrow> (v, False)
      | Some kvs \<Rightarrow>
          let (is, o1) = dec_field ''items'' (dec_list dec_client_task zero_client_task) kvs (ClItems v);
              (c, o2) = dec_field ''next_cursor'' dec_str kvs (ClNextCursor v)
          in (\<lparr> ClItems = is, ClNextCursor = c \<rparr>, o1 \<and> o2))"

section \<open>The HTTP client\<close>

text \<open>What came back: an error of the connection or of reading the body, or the status, the
  text of the body and the document it is, if it is one.\<close>

type_synonym response = "go_error + nat \<times> string \<times> json option"

record connection =
  BaseURL :: string
  Send :: "string \<Rightarrow> string \<Rightarrow> json option \<Rightarrow> response prog"

definition defaultBaseURL :: string where "defaultBaseURL = ''http://127.0.0.1:8787''"

text \<open>newClient: the variable CLAUDE_OPS_URL, if it is set.\<close>

definition newClient :: "string \<Rightarrow> (string \<Rightarrow> string \<Rightarrow> json option \<Rightarrow> response prog) \<Rightarrow> connection" where
  "newClient env conn = \<lparr> BaseURL = (if env = '''' then defaultBaseURL else env), Send = conn \<rparr>"

definition do_response :: "string \<Rightarrow> 'a decoder \<Rightarrow> 'a \<Rightarrow> response \<Rightarrow> 'a result" where
  "do_response url d z r =
     (case r of
        Inl e \<Rightarrow> Inl (EWrap (''http request to '' @ url) e)
      | Inr (code, raw, doc) \<Rightarrow>
          if code < 200 \<or> 300 \<le> code
          then (let msg = (case Option.bind doc (decode (dec_one ''error'' dec_str) '''') of None \<Rightarrow> '''' | Some m \<Rightarrow> m)
                in Inl (EMsg (''API error '' @ nat_str code @ '': '' @ (if msg \<noteq> '''' then msg else raw))))
          else (case Option.bind doc (decode d z) of
                  None \<Rightarrow> Inl (EWrap ''decode response'' (EMsg ''json''))
                | Some v \<Rightarrow> Inr v))"

definition client_get :: "connection \<Rightarrow> string \<Rightarrow> 'a decoder \<Rightarrow> 'a \<Rightarrow> 'a result prog" where
  "client_get conn path d z = do { r \<leftarrow> Send conn ''GET'' path None; ret (do_response (BaseURL conn @ path) d z r) }"

definition sendJSON :: "connection \<Rightarrow> string \<Rightarrow> string \<Rightarrow> json \<Rightarrow> 'a decoder \<Rightarrow> 'a \<Rightarrow> 'a result prog" where
  "sendJSON conn method path body d z = do { r \<leftarrow> Send conn method path (Some body); ret (do_response (BaseURL conn @ path) d z r) }"

definition client_post :: "connection \<Rightarrow> string \<Rightarrow> json \<Rightarrow> 'a decoder \<Rightarrow> 'a \<Rightarrow> 'a result prog" where
  "client_post conn path body d z = sendJSON conn ''POST'' path body d z"

definition client_patch :: "connection \<Rightarrow> string \<Rightarrow> json \<Rightarrow> 'a decoder \<Rightarrow> 'a \<Rightarrow> 'a result prog" where
  "client_patch conn path body d z = sendJSON conn ''PATCH'' path body d z"

section \<open>Output\<close>

datatype out_item = Line string | Table "string list" "string list list"

text \<open>What a command prints: the response as indented JSON, or lines and tables.\<close>

datatype 'a printed = AsJSON 'a | AsText "out_item list"

definition outputJSON :: string where "outputJSON = ''json''"

definition formatTime :: "location \<Rightarrow> time option \<Rightarrow> string" where
  "formatTime tz t =
     (case t of
        None \<Rightarrow> ''-''
      | Some x \<Rightarrow> format_date (local_day tz x) @ '' '' @ zero_pad 2 (hour_of tz x) @ '':'' @
          zero_pad 2 (minute_of tz x) @ '':'' @ zero_pad 2 (second_of tz x))"

definition orDash :: "string \<Rightarrow> string" where "orDash s = (if s = '''' then ''-'' else s)"

definition show_result :: "string \<Rightarrow> ('a \<Rightarrow> out_item list) \<Rightarrow> 'a result \<Rightarrow> 'a printed result" where
  "show_result output f r =
     (case r of Inl e \<Rightarrow> Inl e | Inr v \<Rightarrow> Inr (if output = outputJSON then AsJSON v else AsText (f v)))"

section \<open>Commands\<close>

definition health_lines :: "location \<Rightarrow> health_response \<Rightarrow> out_item list" where
  "health_lines tz r = [Line (''status:    '' @ HrStatus r), Line (''full_mode: '' @ bool_text (HrFullMode r)),
     Line (''tick_at:   '' @ (case HrTickAt r of None \<Rightarrow> ''-'' | Some t \<Rightarrow> formatTime tz (Some t)))]"

definition health_cmd :: "connection \<Rightarrow> location \<Rightarrow> string \<Rightarrow> health_response printed result prog" where
  "health_cmd conn tz output = do {
     r \<leftarrow> client_get conn ''/healthz'' dec_health \<lparr> HrStatus = '''', HrTickAt = None, HrFullMode = False \<rparr>;
     ret (show_result output (health_lines tz) r)
   }"

definition printFullMode :: "location \<Rightarrow> full_mode_response \<Rightarrow> out_item list" where
  "printFullMode tz r = [Line (''full_mode: '' @ (if FrEnabled r then ''enabled'' else ''disabled'')),
     Line (''since:     '' @ formatTime tz (FrSince r))]"

text \<open>The flags --on and --off and whether the argument show is given.\<close>

definition mode_full_cmd ::
  "connection \<Rightarrow> location \<Rightarrow> string \<Rightarrow> bool \<Rightarrow> bool \<Rightarrow> bool \<Rightarrow> full_mode_response printed result prog" where
  "mode_full_cmd conn tz output on off show_arg =
     (let isShow = (\<not> on \<and> \<not> off \<or> show_arg); z = \<lparr> FrEnabled = False, FrSince = None \<rparr> in
      if on \<and> off then ret (Inl (EMsg ''--on and --off are mutually exclusive''))
      else do {
        r \<leftarrow> (if isShow then client_get conn ''/modes/full'' dec_full_mode_response z
              else client_post conn ''/modes/full'' (JObj [(''enabled'', JBool on)]) dec_full_mode_response z);
        ret (show_result output (printFullMode tz) r)
      })"

definition printLimits :: "location \<Rightarrow> limits_response \<Rightarrow> out_item list" where
  "printLimits tz r =
     [Line (''daily:  '' @ int_str (LrDailyCount r) @ '' / '' @ int_str (LrDailyMax r) @ ''  ('' @ LrDailyDate r @ '')''),
      Line (''weekly: '' @ int_str (LrWeeklyCount r) @ '' / '' @ int_str (LrWeeklyMax r) @ ''  ('' @ LrWeeklyWeek r @ '')'')]
     @ (if LrReason r \<noteq> '''' then [Line (''reason: '' @ LrReason r)] else [])
     @ (if LrBlockedUntil r \<noteq> None
        then [Line (''rate_limit_type:  '' @ LrRateLimitType r), Line (''blocked_until:    '' @ formatTime tz (LrBlockedUntil r))]
        else [])"

definition limits_show_cmd :: "connection \<Rightarrow> location \<Rightarrow> string \<Rightarrow> limits_response printed result prog" where
  "limits_show_cmd conn tz output = do {
     r \<leftarrow> client_get conn ''/modes/limits'' dec_limits zero_limits;
     ret (show_result output (printLimits tz) r)
   }"

text \<open>A flag that was not given is None; its field is left out of the body.\<close>

definition limits_patch_body :: "int option \<Rightarrow> int option \<Rightarrow> json" where
  "limits_patch_body daily weekly = JObj ((case daily of None \<Rightarrow> [] | Some d \<Rightarrow> [(''daily_max'', JInt d)]) @
     (case weekly of None \<Rightarrow> [] | Some k \<Rightarrow> [(''weekly_max'', JInt k)]))"

definition limits_set_cmd ::
  "connection \<Rightarrow> location \<Rightarrow> string \<Rightarrow> int option \<Rightarrow> int option \<Rightarrow> limits_response printed result prog" where
  "limits_set_cmd conn tz output daily weekly =
     (if daily = None \<and> weekly = None then ret (Inl (EMsg ''at least one of --daily or --weekly must be specified''))
      else do {
        r \<leftarrow> client_patch conn ''/modes/limits'' (limits_patch_body daily weekly) dec_limits zero_limits;
        ret (show_result output (printLimits tz) r)
      })"

definition tasks_table :: "location \<Rightarrow> client_list \<Rightarrow> out_item list" where
  "tasks_table tz l =
     [Table [''ID'', ''REPO'', ''ISSUE'', ''TYPE'', ''STATUS'', ''PR'', ''CREATED'']
        (map (\<lambda>t. [CtID t, CtRepoFullName t, ''#'' @ int_str (CtIssueNumber t), CtTaskType t, CtStatus t,
                    (if CtPRURL t \<noteq> '''' then CtPRURL t else ''-''), formatTime tz (Some (CtCreatedAt t))]) (ClItems l))]
     @ (if ClNextCursor l \<noteq> '''' then [Line '''', Line (''next_cursor: '' @ ClNextCursor l)] else [])"

definition tasks_ls_cmd :: "connection \<Rightarrow> location \<Rightarrow> string \<Rightarrow> string \<Rightarrow> client_list printed result prog" where
  "tasks_ls_cmd conn tz output status = do {
     r \<leftarrow> client_get conn (''/tasks'' @ (if status \<noteq> '''' then ''?status='' @ status else ''''))
            dec_client_list \<lparr> ClItems = [], ClNextCursor = '''' \<rparr>;
     ret (show_result output (tasks_table tz) r)
   }"

definition event_row :: "location \<Rightarrow> task_event_response \<Rightarrow> string list" where
  "event_row tz e =
     (let payload = (if 60 < length (ErPayloadJSON e) then take 60 (ErPayloadJSON e) @ ''...'' else ErPayloadJSON e)
      in [ErKind e, formatTime tz (Some (ErCreatedAt e)), payload])"

definition detail_lines :: "location \<Rightarrow> client_detail \<Rightarrow> out_item list" where
  "detail_lines tz d =
     (let t = CdTask d in
      [Line (''id:          '' @ CtID t), Line (''repo:        '' @ CtRepoFullName t),
       Line (''issue:       #'' @ int_str (CtIssueNumber t) @ '' '' @ CtIssueTitle t), Line (''type:        '' @ CtTaskType t),
       Line (''status:      '' @ CtStatus t), Line (''pr_url:      '' @ orDash (CtPRURL t)),
       Line (''started_at:  '' @ formatTime tz (CtStartedAt t)), Line (''finished_at: '' @ formatTime tz (CtFinishedAt t)),
       Line (''created_at:  '' @ formatTime tz (Some (CtCreatedAt t)))]
      @ (if CdStderrTail d \<noteq> '''' then [Line '''', Line ''--- stderr tail ---'', Line (CdStderrTail d)] else [])
      @ (if CdEvents d \<noteq> [] then [Line '''', Line ''--- events ---'',
           Table [''KIND'', ''CREATED_AT'', ''PAYLOAD''] (map (event_row tz) (CdEvents d))] else []))"

definition tasks_show_cmd :: "connection \<Rightarrow> location \<Rightarrow> string \<Rightarrow> string \<Rightarrow> client_detail printed result prog" where
  "tasks_show_cmd conn tz output i = do {
     r \<leftarrow> client_get conn (''/tasks/'' @ i) dec_client_detail
            \<lparr> CdTask = zero_client_task, CdStderrTail = '''', CdEvents = [] \<rparr>;
     ret (show_result output (detail_lines tz) r)
   }"

text \<open>The flag --type travels as the title of the issue.\<close>

definition enqueue_body :: "string \<Rightarrow> int \<Rightarrow> string \<Rightarrow> json" where
  "enqueue_body repo issueNum taskType =
     JObj ([(''repo'', JStr repo), (''issue_number'', JInt issueNum)] @ omit_str ''issue_title'' taskType)"

definition tasks_run_cmd ::
  "connection \<Rightarrow> string \<Rightarrow> string \<Rightarrow> int \<Rightarrow> string \<Rightarrow> client_task printed result prog" where
  "tasks_run_cmd conn output repo issueNum taskType =
     (if CHR ''/'' \<notin> set repo then ret (Inl (EMsg (''repo must be in owner/repo format, got: '' @ repo)))
      else do {
        r \<leftarrow> client_post conn ''/tasks'' (enqueue_body repo issueNum taskType) dec_client_task zero_client_task;
        ret (show_result output (\<lambda>t. [Line (''enqueued task '' @ CtID t), Line (''status: '' @ CtStatus t)]) r)
      })"

section \<open>The client reads what the server wrote\<close>

text \<open>Zones whose offsets are whole minutes, as RFC 3339 writes them.\<close>

definition minute_zone :: "location \<Rightarrow> bool" where "minute_zone tz = (\<forall>u. tz u mod 60 = 0)"

lemma members_append: "members f (a @ b) = members f a @ members f b"
  by (simp add: members_def)

lemma members_omit:
  "members f (omit_str k s) = (if s \<noteq> '''' \<and> fold_eq k f then [JStr s] else [])"
  "members f (omit_int k i) = (if i \<noteq> 0 \<and> fold_eq k f then [JInt i] else [])"
  by (simp_all add: omit_str_def omit_int_def)

lemma dec_marshalled:
  assumes "marshal_time tz t = Inr j" "minute_zone tz"
  shows "\<exists>s. j = JStr s \<and> parse_rfc3339 s = Some t"
proof -
  have "tz (unix_sec t) mod 60 = 0" using assms(2) by (simp add: minute_zone_def)
  then show ?thesis using assms(1)
    by (auto simp: marshal_time_def Let_def split: if_splits intro!: parse_rfc3339_nano)
qed

lemma time_field_cases:
  assumes "time_field tz k t = Inr a" "minute_zone tz"
  shows "\<exists>s. a = [(k, JStr s)] \<and> parse_rfc3339 s = Some t"
  using assms dec_marshalled by (fastforce simp: time_field_def split: sum.splits)

lemma omit_time_cases:
  assumes "omit_time tz k t = Inr a" "minute_zone tz"
  shows "t = None \<and> a = [] \<or> (\<exists>x s. t = Some x \<and> a = [(k, JStr s)] \<and> parse_rfc3339 s = Some x)"
  using assms time_field_cases by (auto simp: omit_time_def split: option.splits)

lemma dec_omitted:
  assumes "minute_zone tz"
  shows "omit_time tz k t = Inr a \<Longrightarrow> dec_members dec_time_ptr (members k a) None = (t, True)"
    "omit_time tz k t = Inr a \<Longrightarrow> \<not> fold_eq k f \<Longrightarrow> members f a = []"
    "time_field tz k x = Inr a \<Longrightarrow> dec_members dec_time (members k a) z = (x, True)"
    "time_field tz k x = Inr a \<Longrightarrow> \<not> fold_eq k f \<Longrightarrow> members f a = []"
  using omit_time_cases[OF _ assms] time_field_cases[OF _ assms] by fastforce+

lemma all_fields_Cons:
  "all_fields (r # rs) = Inr kvs \<longleftrightarrow> (\<exists>a b. r = Inr a \<and> all_fields rs = Inr b \<and> kvs = a @ b)"
  by (auto split: sum.splits)

lemma dec_limits_enc:
  assumes "enc_limits tz r = Inr j" "minute_zone tz"
    and "int64_ok (LrDailyCount r)" "int64_ok (LrDailyMax r)" "int64_ok (LrWeeklyCount r)" "int64_ok (LrWeeklyMax r)"
  shows "decode dec_limits zero_limits j = Some r"
proof -
  obtain b where b: "omit_time tz ''blocked_until'' (LrBlockedUntil r) = Inr b"
    using assms(1) by (auto simp: enc_limits_def split: sum.splits)
  note m = dec_omitted(1)[OF assms(2) b] dec_omitted(2)[OF assms(2) b, of "''rate_limit_type''"]
  have j: "j = JObj (
          [(''daily'', JObj [(''count'', JInt (LrDailyCount r)), (''max'', JInt (LrDailyMax r)), (''date'', JStr (LrDailyDate r))]),
           (''weekly'', JObj [(''count'', JInt (LrWeeklyCount r)), (''max'', JInt (LrWeeklyMax r)), (''week'', JStr (LrWeeklyWeek r))]),
           (''rate_limit'', JObj (b @ omit_str ''rate_limit_type'' (LrRateLimitType r)))]
          @ omit_str ''reason'' (LrReason r))"
    using assms(1) b by (simp add: enc_limits_def)
  show ?thesis using assms(3-6) m
    by (simp add: j decode_def dec_limits_def dec_bucket_def dec_rate_limit_def dec_field_def zero_limits_def
        members_append members_omit fold_eq_simps to_lower_char_def Let_def)
qed

text \<open>What the client keeps of a task.\<close>

definition client_view :: "task_response \<Rightarrow> client_task" where
  "client_view r = \<lparr> CtID = TrID r, CtRepoFullName = TrRepoFullName r, CtIssueNumber = TrIssueNumber r,
     CtIssueTitle = TrIssueTitle r, CtTaskType = TrTaskType r, CtStatus = TrStatus r, CtPRURL = TrPRURL r,
     CtPRNumber = TrPRNumber r, CtStartedAt = TrStartedAt r, CtFinishedAt = TrFinishedAt r,
     CtEstimatedInputTokens = TrEstimatedInputTokens r, CtEstimatedOutputTokens = TrEstimatedOutputTokens r,
     CtCreatedAt = TrCreatedAt r, CtUpdatedAt = TrUpdatedAt r \<rparr>"

definition int64_task :: "task_response \<Rightarrow> bool" where
  "int64_task r = (int64_ok (TrIssueNumber r) \<and> int64_ok (TrPRNumber r) \<and> int64_ok (TrEstimatedInputTokens r) \<and>
     int64_ok (TrEstimatedOutputTokens r))"

text \<open>Members of a struct the task is embedded in do not disturb the reading of the task.\<close>

definition foreign :: "(string \<times> json) list \<Rightarrow> bool" where
  "foreign kvs = (\<forall>f \<in> set [''id'', ''repo_full_name'', ''issue_number'', ''issue_title'', ''task_type'', ''status'', ''pr_url'',
     ''pr_number'', ''started_at'', ''finished_at'', ''estimated_input_tokens'', ''estimated_output_tokens'', ''created_at'',
     ''updated_at'']. members f kvs = [])"

lemma task_fields_shape:
  assumes "task_fields tz r = Inr kvs"
  obtains a b c d e where "omit_time tz ''started_at'' (TrStartedAt r) = Inr a" "omit_time tz ''finished_at'' (TrFinishedAt r) = Inr b"
    "time_field tz ''created_at'' (TrCreatedAt r) = Inr c" "time_field tz ''updated_at'' (TrUpdatedAt r) = Inr d"
    "omit_time tz ''ci_last_polled_at'' (TrCILastPolledAt r) = Inr e"
    "kvs = [(''id'', JStr (TrID r)), (''repo_full_name'', JStr (TrRepoFullName r)), (''issue_number'', JInt (TrIssueNumber r)),
           (''issue_title'', JStr (TrIssueTitle r)), (''task_type'', JStr (TrTaskType r)), (''status'', JStr (TrStatus r)),
           (''source'', JStr (TrSource r))] @
      (omit_str ''maintenance_name'' (TrMaintenanceName r) @ omit_str ''pr_url'' (TrPRURL r) @ omit_int ''pr_number'' (TrPRNumber r)) @
      a @ b @ (omit_int ''estimated_input_tokens'' (TrEstimatedInputTokens r) @ omit_int ''estimated_output_tokens'' (TrEstimatedOutputTokens r)) @
      c @ d @ (omit_str ''ci_status'' (TrCIStatus r) @ omit_str ''parent_task_id'' (TrParentTaskID r) @
           omit_int ''fix_attempt_count'' (TrFixAttemptCount r) @ omit_str ''head_sha'' (TrHeadSHA r)) @ e"
  using assms unfolding task_fields_def all_fields_Cons by (auto simp del: append.simps)

lemma client_task_round_trip:
  assumes "task_fields tz r = Inr kvs" "minute_zone tz" "int64_task r" "foreign extra"
  shows "client_task_of (kvs @ extra) zero_client_task = (client_view r, True)"
proof -
  obtain a b c d e where f: "omit_time tz ''started_at'' (TrStartedAt r) = Inr a" "omit_time tz ''finished_at'' (TrFinishedAt r) = Inr b"
    "time_field tz ''created_at'' (TrCreatedAt r) = Inr c" "time_field tz ''updated_at'' (TrUpdatedAt r) = Inr d"
    "omit_time tz ''ci_last_polled_at'' (TrCILastPolledAt r) = Inr e"
    and k: "kvs = [(''id'', JStr (TrID r)), (''repo_full_name'', JStr (TrRepoFullName r)), (''issue_number'', JInt (TrIssueNumber r)),
           (''issue_title'', JStr (TrIssueTitle r)), (''task_type'', JStr (TrTaskType r)), (''status'', JStr (TrStatus r)),
           (''source'', JStr (TrSource r))] @
      (omit_str ''maintenance_name'' (TrMaintenanceName r) @ omit_str ''pr_url'' (TrPRURL r) @ omit_int ''pr_number'' (TrPRNumber r)) @
      a @ b @ (omit_int ''estimated_input_tokens'' (TrEstimatedInputTokens r) @ omit_int ''estimated_output_tokens'' (TrEstimatedOutputTokens r)) @
      c @ d @ (omit_str ''ci_status'' (TrCIStatus r) @ omit_str ''parent_task_id'' (TrParentTaskID r) @
           omit_int ''fix_attempt_count'' (TrFixAttemptCount r) @ omit_str ''head_sha'' (TrHeadSHA r)) @ e"
    using assms(1) by (rule task_fields_shape)
  note m = dec_omitted(1)[OF assms(2) f(1)] dec_omitted(2)[OF assms(2) f(1)] dec_omitted(1)[OF assms(2) f(2)]
    dec_omitted(2)[OF assms(2) f(2)] dec_omitted(3)[OF assms(2) f(3)] dec_omitted(4)[OF assms(2) f(3)]
    dec_omitted(3)[OF assms(2) f(4)] dec_omitted(4)[OF assms(2) f(4)] dec_omitted(2)[OF assms(2) f(5)]
  have x: "members f extra = []" if "f \<in> set [''id'', ''repo_full_name'', ''issue_number'', ''issue_title'', ''task_type'', ''status'', ''pr_url'',
     ''pr_number'', ''started_at'', ''finished_at'', ''estimated_input_tokens'', ''estimated_output_tokens'', ''created_at'',
     ''updated_at'']" for f
    using assms(4) that unfolding foreign_def by blast
  show ?thesis using assms(3)
    by (simp add: k client_task_of_def zero_client_task_def dec_field_def members_append members_omit m x fold_eq_simps
        to_lower_char_def Let_def client_view_def int64_task_def)
qed

lemma enc_all_Cons: "enc_all f (b # bs) = Inr js \<longleftrightarrow> (\<exists>j js'. f b = Inr j \<and> enc_all f bs = Inr js' \<and> js = j # js')"
  by (auto split: sum.splits)

lemma enc_struct_Inr: "enc_struct fs = Inr j \<longleftrightarrow> (\<exists>kvs. all_fields fs = Inr kvs \<and> j = JObj kvs)"
  by (auto simp: enc_struct_def split: sum.splits)

lemma dec_task_enc:
  assumes "enc_task tz r = Inr j" "minute_zone tz" "int64_task r"
  shows "dec_client_task j zero_client_task = (client_view r, True)"
proof -
  obtain kvs where "task_fields tz r = Inr kvs" "j = JObj kvs"
    using assms(1) unfolding enc_task_def enc_struct_Inr all_fields_Cons by auto
  then show ?thesis using client_task_round_trip[of tz r kvs "[]"] assms(2,3)
    by (simp add: dec_client_task_def foreign_def)
qed

lemma dec_list_enc:
  assumes "enc_all f bs = Inr js" "\<And>b j. b \<in> set bs \<Longrightarrow> f b = Inr j \<Longrightarrow> d j z = (g b, True)"
  shows "dec_list d z (JArr js) v = (map g bs, True)"
proof -
  have "enc_all f bs = Inr js \<Longrightarrow> (\<And>b j. b \<in> set bs \<Longrightarrow> f b = Inr j \<Longrightarrow> d j z = (g b, True)) \<Longrightarrow>
      map (\<lambda>j. fst (d j z)) js = map g bs \<and> list_all (\<lambda>j. snd (d j z)) js" for js
  proof (induction bs arbitrary: js)
    case (Cons b bs)
    then obtain j js' where j: "f b = Inr j" "enc_all f bs = Inr js'" "js = j # js'" unfolding enc_all_Cons by blast
    have "d j z = (g b, True)" using Cons.prems(2)[of b j] j(1) by simp
    then show ?case using Cons.IH[OF j(2)] Cons.prems(2) j(3) by simp
  qed simp
  then show ?thesis using assms by simp
qed

lemma dec_event_enc:
  assumes "enc_event tz e = Inr j" "minute_zone tz"
  shows "dec_event j zero_event = (e, True)"
proof -
  obtain c where c: "time_field tz ''created_at'' (ErCreatedAt e) = Inr c"
    and j: "j = JObj ([(''id'', JStr (ErID e)), (''kind'', JStr (ErKind e))] @ omit_str ''payload_json'' (ErPayloadJSON e) @ c)"
    using assms(1) unfolding enc_event_def enc_struct_Inr all_fields_Cons by (auto simp del: append.simps)
  note m = dec_omitted(3)[OF assms(2) c] dec_omitted(4)[OF assms(2) c]
  show ?thesis
    by (simp add: j dec_event_def zero_event_def dec_field_def members_append members_omit m fold_eq_simps
        to_lower_char_def Let_def)
qed

lemma foreign_append: "foreign (a @ b) \<longleftrightarrow> foreign a \<and> foreign b"
  by (auto simp: foreign_def members_append)

lemma foreign_members: "foreign (omit_str ''stderr_tail'' s)" "foreign [(''events'', j)]"
  by (simp_all add: foreign_def members_omit fold_eq_simps to_lower_char_def)

lemma decode_list_enc:
  assumes "minute_zone tz" "enc_task_list tz l = Inr j" "\<forall>r \<in> set (TlItems l). int64_task r"
  shows "decode dec_client_list \<lparr> ClItems = [], ClNextCursor = '''' \<rparr> j =
    Some \<lparr> ClItems = map client_view (TlItems l), ClNextCursor = TlNextCursor l \<rparr>"
proof -
  obtain js where js: "enc_all (enc_task tz) (TlItems l) = Inr js"
    and j: "j = JObj ([(''items'', JArr js)] @ omit_str ''next_cursor'' (TlNextCursor l))"
    using assms(2) unfolding enc_task_list_def enc_struct_Inr all_fields_Cons
    by (auto simp: array_field_def split: sum.splits)
  have "dec_list dec_client_task zero_client_task (JArr js) [] = (map client_view (TlItems l), True)"
    using assms(1,3) by (intro dec_list_enc[OF js] dec_task_enc) auto
  then show ?thesis
    by (simp add: j decode_def dec_client_list_def dec_field_def members_append members_omit fold_eq_simps to_lower_char_def
        Let_def del: dec_list.simps)
qed

lemma task_fields_members:
  assumes "task_fields tz r = Inr kvs" "minute_zone tz"
  shows "members ''stderr_tail'' kvs = []" "members ''events'' kvs = []"
proof -
  obtain a b c d e where f: "omit_time tz ''started_at'' (TrStartedAt r) = Inr a" "omit_time tz ''finished_at'' (TrFinishedAt r) = Inr b"
    "time_field tz ''created_at'' (TrCreatedAt r) = Inr c" "time_field tz ''updated_at'' (TrUpdatedAt r) = Inr d"
    "omit_time tz ''ci_last_polled_at'' (TrCILastPolledAt r) = Inr e"
    and k: "kvs = [(''id'', JStr (TrID r)), (''repo_full_name'', JStr (TrRepoFullName r)), (''issue_number'', JInt (TrIssueNumber r)),
           (''issue_title'', JStr (TrIssueTitle r)), (''task_type'', JStr (TrTaskType r)), (''status'', JStr (TrStatus r)),
           (''source'', JStr (TrSource r))] @
      (omit_str ''maintenance_name'' (TrMaintenanceName r) @ omit_str ''pr_url'' (TrPRURL r) @ omit_int ''pr_number'' (TrPRNumber r)) @
      a @ b @ (omit_int ''estimated_input_tokens'' (TrEstimatedInputTokens r) @ omit_int ''estimated_output_tokens'' (TrEstimatedOutputTokens r)) @
      c @ d @ (omit_str ''ci_status'' (TrCIStatus r) @ omit_str ''parent_task_id'' (TrParentTaskID r) @
           omit_int ''fix_attempt_count'' (TrFixAttemptCount r) @ omit_str ''head_sha'' (TrHeadSHA r)) @ e"
    using assms(1) by (rule task_fields_shape)
  note m = dec_omitted(2)[OF assms(2) f(1)] dec_omitted(2)[OF assms(2) f(2)] dec_omitted(4)[OF assms(2) f(3)]
    dec_omitted(4)[OF assms(2) f(4)] dec_omitted(2)[OF assms(2) f(5)]
  show "members ''stderr_tail'' kvs = []" "members ''events'' kvs = []"
    by (simp_all add: k members_append members_omit m fold_eq_simps to_lower_char_def)
qed

lemma decode_detail_enc:
  assumes "minute_zone tz" "enc_task_detail tz d = Inr j" "int64_task (DrTask d)"
  shows "decode dec_client_detail \<lparr> CdTask = zero_client_task, CdStderrTail = '''', CdEvents = [] \<rparr> j =
    Some \<lparr> CdTask = client_view (DrTask d), CdStderrTail = DrStderrTail d, CdEvents = DrEvents d \<rparr>"
proof -
  obtain kvs ev where k: "task_fields tz (DrTask d) = Inr kvs"
    and e: "(if DrEvents d = [] then Inr [] else array_field ''events'' (enc_all (enc_event tz) (DrEvents d))) = Inr ev"
    and j: "j = JObj (kvs @ omit_str ''stderr_tail'' (DrStderrTail d) @ ev)"
    using assms(2) unfolding enc_task_detail_def enc_struct_Inr all_fields_Cons by auto
  obtain js where js: "enc_all (enc_event tz) (DrEvents d) = Inr js" "ev = (if DrEvents d = [] then [] else [(''events'', JArr js)])"
    using e by (auto simp: array_field_def split: if_splits sum.splits)
  have evs: "dec_list dec_event zero_event (JArr js) [] = (map (\<lambda>e. e) (DrEvents d), True)"
    using assms(1) by (intro dec_list_enc[OF js(1)] dec_event_enc) auto
  have other: "members ''stderr_tail'' kvs = []" "members ''events'' kvs = []"
    by (rule task_fields_members[OF k assms(1)])+
  have "foreign (omit_str ''stderr_tail'' (DrStderrTail d) @ ev)" by (simp add: foreign_append foreign_members js(2)) (simp add: foreign_def)
  from client_task_round_trip[OF k assms(1,3) this] evs other show ?thesis
    by (simp add: j js(2) decode_def dec_client_detail_def dec_field_def members_append members_omit fold_eq_simps to_lower_char_def
        Let_def del: dec_list.simps)
qed

text \<open>C25: what tasks ls and tasks show print is what the server sent: from the encoded list and
  detail the client decodes every field it has, omitted zero values, embedded task and
  nested events included, whenever the times could be encoded and the zone has whole
  minutes.\<close>

theorem client_reads_server:
  assumes "minute_zone tz" "enc_task_list tz l = Inr jl" "\<forall>r \<in> set (TlItems l). int64_task r"
    and "enc_task_detail tz d = Inr jd" "int64_task (DrTask d)"
  shows "do_response url dec_client_list \<lparr> ClItems = [], ClNextCursor = '''' \<rparr> (Inr (200, raw, Some jl)) =
      Inr \<lparr> ClItems = map client_view (TlItems l), ClNextCursor = TlNextCursor l \<rparr> \<and>
    do_response url dec_client_detail \<lparr> CdTask = zero_client_task, CdStderrTail = '''', CdEvents = [] \<rparr> (Inr (200, raw, Some jd)) =
      Inr \<lparr> CdTask = client_view (DrTask d), CdStderrTail = DrStderrTail d, CdEvents = DrEvents d \<rparr>"
  using decode_list_enc[OF assms(1-3)] decode_detail_enc[OF assms(1,4,5)] by (simp add: do_response_def)

definition sample_response :: task_response where
  "sample_response = toTaskResponse (zero_task\<lparr> ID := ''t1'', CreatedAt := 5, UpdatedAt := 5, StartedAt := Some 7 \<rparr>)"

definition sample_detail :: task_detail_response where
  "sample_detail = \<lparr> DrTask = sample_response, DrStderrTail = ''boom'',
     DrEvents = [\<lparr> ErID = ''e1'', ErKind = ''started'', ErPayloadJSON = ''{}'', ErCreatedAt = 7 \<rparr>] \<rparr>"

lemma client_reads_witness:
  "\<exists>jl jd. enc_task_list UTC \<lparr> TlItems = [sample_response], TlNextCursor = ''t1'' \<rparr> = Inr jl \<and>
    enc_task_detail UTC sample_detail = Inr jd \<and>
    do_response ''http://h/tasks'' dec_client_list \<lparr> ClItems = [], ClNextCursor = '''' \<rparr> (Inr (200, ''body'', Some jl)) =
      Inr \<lparr> ClItems = [client_view sample_response], ClNextCursor = ''t1'' \<rparr> \<and>
    do_response ''http://h/tasks'' dec_client_detail \<lparr> CdTask = zero_client_task, CdStderrTail = '''', CdEvents = [] \<rparr> (Inr (200, ''body'', Some jd)) =
      Inr \<lparr> CdTask = client_view sample_response, CdStderrTail = ''boom'', CdEvents = DrEvents sample_detail \<rparr>"
proof -
  let ?l = "\<lparr> TlItems = [sample_response], TlNextCursor = ''t1'' \<rparr>"
  have m: "minute_zone UTC" by (simp add: minute_zone_def UTC_def)
  have i: "int64_task sample_response"
    by (simp add: int64_task_def sample_response_def toTaskResponse_def zero_task_def int64_ok_def Let_def)
  have "\<not> isl (enc_task_list UTC ?l)" "\<not> isl (enc_task_detail UTC sample_detail)" by code_simp+
  then obtain jl jd where j: "enc_task_list UTC ?l = Inr jl" "enc_task_detail UTC sample_detail = Inr jd"
    by (cases "enc_task_list UTC ?l"; cases "enc_task_detail UTC sample_detail") auto
  show ?thesis
    using client_reads_server[OF m j(1) _ j(2), of "''http://h/tasks''" "''body''"] i j by (simp add: sample_detail_def)
qed

section \<open>Setting limits from the command line\<close>

text \<open>The answer of a handler on the wire; a body that cannot be encoded is cut off.\<close>

definition error_json :: "string \<Rightarrow> json" where "error_json m = JObj [(''error'', JStr m)]"

definition wire :: "(json \<Rightarrow> string) \<Rightarrow> ('b \<Rightarrow> json result) \<Rightarrow> 'b reply \<Rightarrow> response" where
  "wire txt enc rep =
     (let doc = (case snd rep of Inl m \<Rightarrow> Some (error_json m)
                 | Inr b \<Rightarrow> (case enc b of Inl _ \<Rightarrow> None | Inr j \<Rightarrow> Some j))
      in Inr (fst rep, (case doc of None \<Rightarrow> '''' | Some j \<Rightarrow> txt j), doc))"

lemma bind_patch_body:
  assumes "int64_ok (ptr_int d)" "int64_ok (ptr_int k)"
  shows "bind_limits (Some (limits_patch_body d k)) = Some (d, k)"
  using assms by (cases d; cases k)
    (simp_all add: bind_limits_def limits_patch_body_def dec_field_def fold_eq_simps to_lower_char_def ptr_int_def)

text \<open>C15: claude-opsctl limits set with caps that are not negative (daily at most weekly, at
  least one given) against the server of the repository over a working database without a
  rate-limit block prints the response, and both the printed caps and those every later
  reading finds are the given ones, or the configured one where a flag is zero or missing.\<close>

theorem opsctl_sets_limits:
  assumes "db_works w" "d \<noteq> None \<or> k \<noteq> None" "0 \<le> ptr_int d" "0 \<le> ptr_int k"
    and "ptr_int d \<le> 0 \<or> ptr_int k \<le> 0 \<or> ptr_int d \<le> ptr_int k"
    and "int64_ok (ptr_int d)" "int64_ok (ptr_int k)" "int64_ok (DailyMax cfg)" "int64_ok (WeeklyMax cfg)"
    and "block_of (app_view w) = no_block" "minute_zone tz"
    and "Send conn ''PATCH'' ''/modes/limits'' =
      (\<lambda>body. do { rep \<leftarrow> PatchLimits gorm_app_repo cfg body; ret (wire txt (enc_limits tz) rep) })"
  shows "case run_state (limits_set_cmd conn tz output d k) w of (out, w') \<Rightarrow>
    \<exists>r. out = show_result output (printLimits tz) (Inr r) \<and>
      LrDailyMax r = (if 0 < ptr_int d then ptr_int d else DailyMax cfg) \<and>
      LrWeeklyMax r = (if 0 < ptr_int k then ptr_int k else WeeklyMax cfg) \<and>
      limits_of cfg (app_view w') = cfg\<lparr> DailyMax := LrDailyMax r, WeeklyMax := LrWeeklyMax r \<rparr>"
proof -
  let ?v = "(app_view w)(''limits_override'' \<mapsto> enc_override (ptr_int d) (ptr_int k))"
  obtain now now2 w' where p: "run_state (PatchLimits gorm_app_repo cfg (Some (limits_patch_body d k))) w =
      (reply_ok 200 (snapshotToResponse (snap_at cfg now ?v) now2), w')"
    "limits_of cfg (app_view w') = limits_of cfg ?v"
    and l: "limits_of cfg ?v = cfg\<lparr> DailyMax := if 0 < ptr_int d then ptr_int d else DailyMax cfg,
      WeeklyMax := if 0 < ptr_int k then ptr_int k else WeeklyMax cfg \<rparr>"
    using patch_limits_works[OF assms(1) bind_patch_body[OF assms(6,7)] assms(3-5), of cfg] by (elim exE conjE)
  let ?r = "snapshotToResponse (snap_at cfg now ?v) now2"
  have b: "block_of ?v = no_block" using assms(10) views_put_override(1) by simp
  then have u: "LrBlockedUntil ?r = None" by (simp add: snapshotToResponse_def snap_at_def Let_def)
  obtain j where j: "enc_limits tz ?r = Inr j" by (simp add: enc_limits_def u omit_time_def)
  have "int64_ok (LrDailyCount ?r)" "int64_ok (LrWeeklyCount ?r)"
    using int64_rolled[of cfg now ?v] by (simp_all add: snapshotToResponse_def snap_at_def Let_def int64_counters_def)
  moreover have m: "LrDailyMax ?r = (if 0 < ptr_int d then ptr_int d else DailyMax cfg)"
      "LrWeeklyMax ?r = (if 0 < ptr_int k then ptr_int k else WeeklyMax cfg)"
    by (simp_all add: snapshotToResponse_def snap_at_def Let_def l)
  ultimately have "decode dec_limits zero_limits j = Some ?r"
    using assms(6-9) by (intro dec_limits_enc[OF j assms(11)]) simp_all
  then have "do_response url dec_limits zero_limits (wire txt (enc_limits tz) (reply_ok 200 ?r)) = Inr ?r" for url
    using j by (simp add: do_response_def wire_def Let_def)
  then have "run_state (limits_set_cmd conn tz output d k) w = (show_result output (printLimits tz) (Inr ?r), w')"
    using assms(2) p(1) by (auto simp: limits_set_cmd_def client_patch_def sendJSON_def assms(12))
  then show ?thesis using m l p(2) by (simp add: exI[of _ ?r])
qed

definition patch_connection :: connection where
  "patch_connection = newClient '''' (\<lambda>_ _ body. do { rep \<leftarrow> PatchLimits gorm_app_repo sample_limits body;
     ret (wire (json_text (\<lambda>_. ''0.0'')) (enc_limits UTC) rep) })"

lemma opsctl_limits_witness:
  "case run_state (limits_set_cmd patch_connection UTC ''table'' (Some 3) None) mode_sample of (out, w') \<Rightarrow>
     (\<exists>r. out = Inr (AsText (printLimits UTC r)) \<and> LrDailyMax r = 3) \<and> DailyMax (limits_of sample_limits (app_view w')) = 3"
proof -
  have w: "db_works mode_sample" by (simp add: mode_sample_def db_works_def migrated_db_def)
  have b: "block_of (app_view mode_sample) = no_block"
    by (simp add: block_of_def at_key_def app_view_def mode_sample_def migrated_db_def)
  have z: "minute_zone UTC" by (simp add: minute_zone_def UTC_def)
  have s: "Send patch_connection ''PATCH'' ''/modes/limits'' = (\<lambda>body. do { rep \<leftarrow> PatchLimits gorm_app_repo sample_limits body;
     ret (wire (json_text (\<lambda>_. ''0.0'')) (enc_limits UTC) rep) })" by (simp add: patch_connection_def newClient_def)
  show ?thesis
    using opsctl_sets_limits[OF w _ _ _ _ _ _ _ _ b z s, of "Some 3" None "''table''"]
    by (auto simp: ptr_int_def int64_ok_def sample_limits_def show_result_def outputJSON_def split: prod.splits)
qed

section \<open>The type of an enqueued task\<close>

lemma get_works_tick:
  assumes "db_works w"
  shows "\<exists>r. repo_Get k (w :: world) = (r, tick w) \<and> (\<forall>e. r = Inl e \<longrightarrow> e = ErrNotFound)"
  using assms by (auto simp: repo_Get_def db_works_exec tick_def err_is_def split: option.splits)

lemma enqueue_request_works:
  fixes w :: world
  assumes uc: "UcTaskRepo uc = gorm_task_repo True" "UcAppState uc = Some gorm_app_repo" "UcWindowGate uc = None"
    and "isAllowedRepo (UcRepos uc) (ReqRepo req)" "db_works w" "wf_db w" "\<not> active_task w (ReqRepo req) (ReqIssueNumber req)"
    and fresh: "\<forall>k. task_view w (uuids w k) = None"
  shows "\<exists>t w' k. run_state (EnqueueFromIssue uc req) w = (Inr t, w') \<and> added w t w' \<and>
    t = zero_task\<lparr> ID := uuids w k, RepoFullName := ReqRepo req, IssueNumber := ReqIssueNumber req, IssueTitle := ReqIssueTitle req,
      TaskType := TaskTypeFeature, Status := TaskStatusQueued, CreatedAt := clock w (Suc k), UpdatedAt := clock w (Suc (Suc k)) \<rparr>"
proof -
  let ?w2 = "tick (tick w)" and ?k = "Suc (Suc (ops w))"
  let ?t = "zero_task\<lparr> ID := uuids w ?k, RepoFullName := ReqRepo req, IssueNumber := ReqIssueNumber req, IssueTitle := ReqIssueTitle req,
      TaskType := TaskTypeFeature, Status := TaskStatusQueued, CreatedAt := clock w (Suc ?k), UpdatedAt := clock w (Suc (Suc ?k)) \<rparr>"
  obtain r where r: "repo_Get ''full_mode'' w = (r, tick w)" "\<forall>e. r = Inl e \<longrightarrow> e = ErrNotFound"
    using get_works_tick[OF assms(5)] by blast
  obtain full where fm: "run_state (task_isFullMode (Some gorm_app_repo)) w = (Inr full, tick w)"
    using r by (cases r) (auto simp: task_isFullMode_def gorm_app_repo_def)
  have ex: "ExistsByRepoAndIssue (gorm_task_repo True) (ReqRepo req) (ReqIssueNumber req) (tick w) = (Inr False, ?w2)"
    using exists_works[of "tick w" "ReqRepo req" "ReqIssueNumber req"] assms(5-7) by (simp add: active_task_def)
  have w3: "db_works (tick (tick (tick ?w2)))" using assms(5) by simp
  obtain w' where c: "Create (gorm_task_repo True) ?t (tick (tick (tick ?w2))) = (Inr (), w')"
    using create_works[OF w3, of ?t] fresh by auto
  have o: "ops ?w2 = ?k" "clock ?w2 = clock w" by (simp_all add: tick_def)
  have n: "run_state (new_issue_task (ReqRepo req) (ReqIssueNumber req) (ReqIssueTitle req) TaskTypeFeature) ?w2 =
      (?t, tick (tick (tick ?w2)))" unfolding run_new_issue_task by (simp add: o)
  have run: "run_state (EnqueueFromIssue uc req) w = (Inr ?t, w')"
    using assms(4) fm ex n c by (simp add: EnqueueFromIssue_def uc)
  have "enqueue_once (ReqRepo req) (ReqIssueNumber req) (ReqIssueTitle req) TaskTypeFeature (tick w) = (Inr (Inr ?t), w')"
    using ex n c by (simp add: enqueue_once_def)
  then have "added (tick w) ?t w'" using enqueue_once_spec[of "tick w"] assms(6) by fastforce
  then have "added w ?t w'" by (simp add: added_def)
  then show ?thesis using run by blast
qed

lemma bind_enqueue_body:
  assumes "repo \<noteq> ''''" "1 \<le> n" "int64_ok n"
  shows "bind_enqueue (Some (enqueue_body repo n ty)) = Some \<lparr> ReqRepo = repo, ReqIssueNumber = n, ReqIssueTitle = ty, ReqSource = '''' \<rparr>"
  using assms by (simp add: bind_enqueue_def enqueue_body_def dec_field_def members_append members_omit fold_eq_simps
      to_lower_char_def)

text \<open>The flag --type of claude-opsctl tasks run does not choose a type: against the server
  of the repository over a working database, for an allowed repository without an active
  task for the issue, the task that is stored and printed is a feature task, and the type
  the user asked for is its title.\<close>

theorem opsctl_type_is_title:
  assumes "UcTaskRepo uc = gorm_task_repo True" "UcAppState uc = Some gorm_app_repo" "UcWindowGate uc = None"
    and "isAllowedRepo (UcRepos uc) repo" "CHR ''/'' \<in> set repo" "1 \<le> n" "int64_ok n"
    and "db_works w" "wf_db w" "\<not> active_task w repo n" "\<forall>k. task_view w (uuids w k) = None"
    and "minute_zone tz" "\<forall>k. \<exists>j. marshal_time tz (clock w k) = Inr j"
    and "Send conn ''POST'' ''/tasks'' =
      (\<lambda>body. do { rep \<leftarrow> api_EnqueueTask uc body; ret (wire txt (enc_task tz) rep) })"
  shows "case run_state (tasks_run_cmd conn ''json'' repo n ty) w of (out, w') \<Rightarrow>
    \<exists>t. added w t w' \<and> TaskType t = TaskTypeFeature \<and> IssueTitle t = ty \<and>
      out = Inr (AsJSON (client_view (toTaskResponse t)))"
proof -
  let ?req = "\<lparr> ReqRepo = repo, ReqIssueNumber = n, ReqIssueTitle = ty, ReqSource = '''' \<rparr>"
  obtain t w' k where t: "run_state (EnqueueFromIssue uc ?req) w = (Inr t, w')" "added w t w'"
    "t = zero_task\<lparr> ID := uuids w k, RepoFullName := repo, IssueNumber := n, IssueTitle := ty,
      TaskType := TaskTypeFeature, Status := TaskStatusQueued, CreatedAt := clock w (Suc k), UpdatedAt := clock w (Suc (Suc k)) \<rparr>"
    using enqueue_request_works[OF assms(1-3), of ?req w] assms(4,8-11) by auto
  let ?r = "toTaskResponse t"
  obtain ja jb where "marshal_time tz (clock w (Suc k)) = Inr ja" "marshal_time tz (clock w (Suc (Suc k))) = Inr jb"
    using assms(13) by meson
  then obtain j where j: "enc_task tz ?r = Inr j"
    by (auto simp: enc_task_def task_fields_def enc_struct_def toTaskResponse_def t(3) zero_task_def omit_time_def time_field_def)
  have i: "int64_task ?r" using assms(7) by (simp add: int64_task_def toTaskResponse_def t(3) zero_task_def int64_ok_def)
  have "repo \<noteq> ''''" using assms(5) by auto
  note b = bind_enqueue_body[OF this assms(6,7), of ty]
  have "run_state (api_EnqueueTask uc (Some (enqueue_body repo n ty))) w = (reply_ok 201 ?r, w')"
    using t(1) by (simp add: api_EnqueueTask_def b)
  moreover have "do_response url dec_client_task zero_client_task (wire txt (enc_task tz) (reply_ok 201 ?r)) = Inr (client_view ?r)" for url
    using j dec_task_enc[OF j assms(12) i] by (simp add: do_response_def wire_def decode_def Let_def)
  ultimately have "run_state (tasks_run_cmd conn ''json'' repo n ty) w = (Inr (AsJSON (client_view ?r)), w')"
    using assms(5) by (simp add: tasks_run_cmd_def client_post_def sendJSON_def assms(14) show_result_def outputJSON_def)
  then show ?thesis using t(2,3) by auto
qed

definition enqueue_connection :: connection where
  "enqueue_connection = newClient '''' (\<lambda>_ _ body. do { rep \<leftarrow> api_EnqueueTask sample_usecase body;
     ret (wire (json_text (\<lambda>_. ''0.0'')) (enc_task UTC) rep) })"

lemma opsctl_type_witness:
  "case run_state (tasks_run_cmd enqueue_connection ''json'' ''acme/app'' 9 ''security'') mode_sample of (out, w') \<Rightarrow>
    \<exists>t. added mode_sample t w' \<and> TaskType t = TaskTypeFeature \<and> IssueTitle t = ''security'' \<and>
      out = Inr (AsJSON (client_view (toTaskResponse t)))"
proof (rule opsctl_type_is_title)
  show "UcTaskRepo sample_usecase = gorm_task_repo True" "UcAppState sample_usecase = Some gorm_app_repo"
    "UcWindowGate sample_usecase = None" "isAllowedRepo (UcRepos sample_usecase) ''acme/app''"
    by (simp_all add: sample_usecase_def isAllowedRepo_def sample_repo_def)
  have v: "task_view mode_sample i = None" for i
    by (simp add: mode_sample_def task_view_def row_at_def migrated_db_def)
  then show "\<not> active_task mode_sample ''acme/app'' 9" "\<forall>k. task_view mode_sample (uuids mode_sample k) = None"
    by (simp_all add: active_task_def)
  have "\<not> isl (marshal_time UTC 7)" by code_simp
  then show "\<forall>k. \<exists>j. marshal_time UTC (clock mode_sample k) = Inr j"
    by (cases "marshal_time UTC 7") (simp_all add: mode_sample_def migrated_db_def)
  show "Send enqueue_connection ''POST'' ''/tasks'' = (\<lambda>body. do { rep \<leftarrow> api_EnqueueTask sample_usecase body;
     ret (wire (json_text (\<lambda>_. ''0.0'')) (enc_task UTC) rep) })" by (simp add: enqueue_connection_def newClient_def)
qed (simp_all add: int64_ok_def minute_zone_def UTC_def mode_sample_def db_works_def migrated_db_def wf_db_def wf_rows_def)

section \<open>Paths\<close>

text \<open>The fixed paths of the commands are routes of the server, with any handlers configured.\<close>

lemma client_paths_routed:
  "{(''GET'', ''/healthz'', EpHealth), (''GET'', ''/modes/full'', EpGetFullMode), (''POST'', ''/modes/full'', EpSetFullMode),
    (''GET'', ''/modes/limits'', EpGetLimits), (''PATCH'', ''/modes/limits'', EpPatchLimits), (''GET'', ''/tasks'', EpListTasks),
    (''POST'', ''/tasks'', EpEnqueueTask)} \<subseteq> set (NewRouter usage webhook)"
  by (simp add: NewRouter_def)

end
