(* ===== verification/Config_Load.thy ===== *)
theory Config_Load
  imports Config
begin

text \<open>Loading the configuration: Load and LoadEnv of internal/config/config.go and NewDB of
  internal/repository/db.go. The viper library is an argument: what ReadInConfig says and
  what Unmarshal makes of the file and the defaults. Its documented behaviour is the
  hypothesis that a key set neither in the file nor in the environment has its default, or
  the zero value. The property follows a file without optional settings to a validated
  configuration, its limits and the connection pool.\<close>

section \<open>Durations\<close>

text \<open>time.ParseDuration. A fraction of a unit is computed exactly, where Go has float64.\<close>

definition duration_units :: "(string \<times> int) list" where
  "duration_units = [(''ns'', 1), (''us'', 1000), ([CHR 0xC2, CHR 0xB5] @ ''s'', 1000),
     ([CHR 0xCE, CHR 0xBC] @ ''s'', 1000), (''ms'', 1000000), (''s'', 1000000000),
     (''m'', 60000000000), (''h'', 3600000000000)]"

definition fraction_part :: "string \<Rightarrow> int \<Rightarrow> int" where
  "fraction_part digits unit = int (digits_val digits) * unit div 10 ^ length digits"

text \<open>One number with its unit: the nanoseconds and the rest.\<close>

definition duration_item :: "string \<Rightarrow> (int \<times> string) option" where
  "duration_item s =
     (let whole = takeWhile is_digit s; s1 = dropWhile is_digit s;
          dotted = (s1 \<noteq> [] \<and> hd s1 = CHR ''.'');
          frac = (if dotted then takeWhile is_digit (tl s1) else []);
          s2 = (if dotted then dropWhile is_digit (tl s1) else s1);
          u = takeWhile (\<lambda>c. c \<noteq> CHR ''.'' \<and> \<not> is_digit c) s2;
          rest = dropWhile (\<lambda>c. c \<noteq> CHR ''.'' \<and> \<not> is_digit c) s2
      in if whole = [] \<and> frac = [] \<or> 2 ^ 63 < int (digits_val whole) \<or> u = [] then None
         else (case map_of duration_units u of
                 None \<Rightarrow> None
               | Some unit \<Rightarrow>
                   let v = int (digits_val whole) * unit + fraction_part frac unit in
                   if 2 ^ 63 < v then None else Some (v, rest)))"

lemma duration_item_shorter: "duration_item s = Some (v, rest) \<Longrightarrow> length rest < length s"
proof -
  assume a: "duration_item s = Some (v, rest)"
  let ?s1 = "dropWhile is_digit s"
  let ?d = "?s1 \<noteq> [] \<and> hd ?s1 = CHR ''.''"
  let ?s2 = "if ?d then dropWhile is_digit (tl ?s1) else ?s1"
  let ?P = "\<lambda>c. c \<noteq> CHR ''.'' \<and> \<not> is_digit c"
  have r: "rest = dropWhile ?P ?s2" "takeWhile ?P ?s2 \<noteq> []"
    using a unfolding duration_item_def Let_def by (auto split: if_splits option.splits)
  have "length ?s2 \<le> length s"
  proof (cases ?d)
    case True
    have "length ?s2 \<le> length (tl ?s1)" unfolding if_P[OF True] by (rule length_dropWhile_le)
    also have "\<dots> \<le> length s" using length_dropWhile_le[of is_digit s] by simp
    finally show ?thesis .
  next
    case False
    show ?thesis unfolding if_not_P[OF False] by (rule length_dropWhile_le)
  qed
  moreover have "length (takeWhile ?P ?s2) + length (dropWhile ?P ?s2) = length ?s2"
    by (simp only: length_append[symmetric] takeWhile_dropWhile_id)
  moreover have "0 < length (takeWhile ?P ?s2)" using r(2) by (simp only: length_greater_0_conv not_False_eq_True)
  ultimately show ?thesis unfolding r(1) by linarith
qed

function duration_items :: "int \<Rightarrow> string \<Rightarrow> int option" where
  "duration_items d s =
     (if s = [] then Some d
      else (case duration_item s of
              None \<Rightarrow> None
            | Some (v, rest) \<Rightarrow> if 2 ^ 63 < d + v then None else duration_items (d + v) rest))"
  by pat_completeness auto
termination
proof (relation "measure (\<lambda>(d, s). length s)")
  fix d s x v rest assume "duration_item s = Some x" "(v, rest) = x"
  then have "length rest < length s" using duration_item_shorter by metis
  then show "((d + v, rest), d, s) \<in> measure (\<lambda>(d, s). length s)" by simp
qed simp

declare duration_items.simps [simp del]

definition ParseDuration :: "string \<Rightarrow> int option" where
  "ParseDuration s =
     (let neg = (s \<noteq> [] \<and> hd s = CHR ''-'');
          body = (if s \<noteq> [] \<and> hd s \<in> {CHR ''-'', CHR ''+''} then tl s else s)
      in if body = ''0'' then Some 0
         else if body = [] then None
         else (case duration_items 0 body of
                 None \<Rightarrow> None
               | Some d \<Rightarrow> if neg then Some (- d) else if 2 ^ 63 - 1 < d then None else Some d))"

section \<open>Settings\<close>

text \<open>A scalar as the file or a default has it, and as a field holds it.\<close>

datatype setting = SStr string | SInt int | SBool bool | SNum rat | SDur int

text \<open>The SetDefault calls of Load.\<close>

definition config_defaults :: "(string \<times> setting) list" where
  "config_defaults = [
     (''runtime.http_bind_addr'', SStr ''127.0.0.1:8787''),
     (''runtime.db.dsn'', SStr ''''),
     (''runtime.db.max_open_conns'', SInt 0),
     (''runtime.db.max_idle_conns'', SInt 0),
     (''runtime.db.conn_max_lifetime'', SStr ''5m''),
     (''runtime.db.conn_max_idle_time'', SStr ''1m''),
     (''runtime.log_level'', SStr ''info''),
     (''runtime.tick_interval'', SStr ''30s''),
     (''runtime.worktree_root'', SStr ''.worktrees''),
     (''runtime.prompts_dir'', SStr ''prompts''),
     (''runtime.worktree_retention_days'', SInt 7),
     (''github.poll_interval'', SStr ''60s''),
     (''limits.daily_max_tasks'', SInt 5),
     (''limits.weekly_max_tasks'', SInt 0),
     (''limits.week_starts_on'', SStr ''mon''),
     (''limits.reset_tz'', SStr ''Asia/Seoul''),
     (''concurrency.max_parallel_tasks'', SInt 1),
     (''concurrency.lease_timeout'', SStr ''60m''),
     (''concurrency.reclaim_interval'', SStr ''10m''),
     (''ci_fix.enabled'', SBool False),
     (''ci_fix.max_attempts'', SInt 2),
     (''ci_fix.poll_interval'', SStr ''60s''),
     (''ci_fix.poll_timeout'', SStr ''30m''),
     (''ci_fix.comment_on_exhaustion'', SBool True)]"

text \<open>The mapstructure tags of the scalar fields: the key of each field and its value.\<close>

definition config_fields :: "config \<Rightarrow> (string \<times> setting) list" where
  "config_fields c = [
     (''runtime.http_bind_addr'', SStr (HTTPBindAddr c)),
     (''runtime.db.dsn'', SStr (DSN (DBSettings c))),
     (''runtime.db.max_open_conns'', SInt (MaxOpenConns (DBSettings c))),
     (''runtime.db.max_idle_conns'', SInt (MaxIdleConns (DBSettings c))),
     (''runtime.db.conn_max_lifetime'', SDur (ConnMaxLifetime (DBSettings c))),
     (''runtime.db.conn_max_idle_time'', SDur (ConnMaxIdleTime (DBSettings c))),
     (''runtime.log_level'', SStr (LogLevel c)),
     (''runtime.tick_interval'', SDur (TickInterval c)),
     (''runtime.worktree_root'', SStr (CfgWorktreeRoot c)),
     (''runtime.prompts_dir'', SStr (CfgPromptsDir c)),
     (''runtime.worktree_retention_days'', SInt (RetentionDays c)),
     (''github.poll_interval'', SDur (GitHubPollInterval c)),
     (''limits.daily_max_tasks'', SInt (DailyMaxTasks (LimitsCfg c))),
     (''limits.weekly_max_tasks'', SInt (WeeklyMaxTasks (LimitsCfg c))),
     (''limits.week_starts_on'', SStr (CfgWeekStartsOn (LimitsCfg c))),
     (''limits.reset_tz'', SStr (CfgResetTZ (LimitsCfg c))),
     (''limits.daily_max_cost_usd'', SNum (DailyMaxCostUSD (LimitsCfg c))),
     (''limits.weekly_max_cost_usd'', SNum (WeeklyMaxCostUSD (LimitsCfg c))),
     (''concurrency.max_parallel_tasks'', SInt (MaxParallelTasks (Concurrency c))),
     (''concurrency.lease_timeout'', SDur (LeaseTimeout (Concurrency c))),
     (''concurrency.reclaim_interval'', SDur (ReclaimInterval (Concurrency c))),
     (''ci_fix.enabled'', SBool (CIFixOn (CIFix c))),
     (''ci_fix.max_attempts'', SInt (MaxAttempts (CIFix c))),
     (''ci_fix.poll_interval'', SDur (CIPollInterval (CIFix c))),
     (''ci_fix.poll_timeout'', SDur (CIPollTimeout (CIFix c))),
     (''ci_fix.comment_on_exhaustion'', SBool (CommentOnExhaustion (CIFix c)))]"

text \<open>A field decoded from a setting of its own type or, for a duration, from its text; a
  field without a setting keeps the zero value.\<close>

fun decodes :: "setting option \<Rightarrow> setting \<Rightarrow> bool" where
  "decodes None (SStr t) = (t = '''')"
| "decodes None (SInt i) = (i = 0)"
| "decodes None (SBool b) = (\<not> b)"
| "decodes None (SNum q) = (q = 0)"
| "decodes None (SDur d) = (d = 0)"
| "decodes (Some (SStr s)) (SDur d) = (ParseDuration s = Some d)"
| "decodes (Some s) x = (s = x)"

section \<open>Load\<close>

record viper =
  ReadInConfig :: "string \<Rightarrow> go_error option"
  Unmarshal :: "string \<Rightarrow> (string \<times> setting) list \<Rightarrow> config result"

definition LoadConfig :: "viper \<Rightarrow> (string \<Rightarrow> string) \<Rightarrow> string \<Rightarrow> config result" where
  "LoadConfig v getenv path =
     (case ReadInConfig v path of
        Some e \<Rightarrow> Inl (EWrap (''read config '' @ go_quote path) e)
      | None \<Rightarrow>
          bind_res (wrap_err ''unmarshal config'' (Unmarshal v path config_defaults)) (\<lambda>cfg.
            let addr = getenv ''HTTP_BIND_ADDR''; dsn = getenv ''MYSQL_DSN'';
                cfg1 = (if addr \<noteq> '''' then cfg\<lparr> HTTPBindAddr := addr \<rparr> else cfg);
                cfg2 = (if dsn \<noteq> '''' then cfg1\<lparr> DBSettings := (DBSettings cfg1)\<lparr> DSN := dsn \<rparr> \<rparr> else cfg1)
            in Inr cfg2))"

record secrets =
  GitHubToken :: string
  GitHubWebhookSecret :: string
  SlackBotToken :: string
  SlackSigningSecret :: string

definition LoadEnv :: "(string \<Rightarrow> string) \<Rightarrow> secrets result" where
  "LoadEnv getenv = Inr \<lparr> GitHubToken = getenv ''GITHUB_TOKEN'', GitHubWebhookSecret = getenv ''GITHUB_WEBHOOK_SECRET'',
     SlackBotToken = getenv ''SLACK_BOT_TOKEN'', SlackSigningSecret = getenv ''SLACK_SIGNING_SECRET'' \<rparr>"

section \<open>The connection pool\<close>

text \<open>NewDB with what gorm.Open and db.DB answer: the settings of the pool it leaves.\<close>

definition NewDB :: "(string \<Rightarrow> go_error option) \<Rightarrow> go_error option \<Rightarrow> db_settings \<Rightarrow> db_settings result" where
  "NewDB gorm_open sql_db cfg =
     (if DSN cfg = '''' then Inl (EMsg ''db: DSN is required'')
      else if \<not> contains_str (DSN cfg) ''parseTime=true''
      then Inl (EMsg ''db: DSN must contain parseTime=true so DATETIME columns map to time.Time'')
      else (case gorm_open (DSN cfg) of
              Some e \<Rightarrow> Inl (EWrap ''open mysql'' e)
            | None \<Rightarrow>
                (case sql_db of
                   Some e \<Rightarrow> Inl (EWrap ''get sql.DB'' e)
                 | None \<Rightarrow> Inr \<lparr> DSN = DSN cfg,
                     MaxOpenConns = (if MaxOpenConns cfg \<le> 0 then 25 else MaxOpenConns cfg),
                     MaxIdleConns = (if MaxIdleConns cfg \<le> 0 then 5 else MaxIdleConns cfg),
                     ConnMaxLifetime = (if ConnMaxLifetime cfg \<le> 0 then 5 * 60 * Second else ConnMaxLifetime cfg),
                     ConnMaxIdleTime = (if ConnMaxIdleTime cfg \<le> 0 then 60 * Second else ConnMaxIdleTime cfg) \<rparr>)))"

section \<open>A configuration without optional settings\<close>

text \<open>What viper documents: a scalar that neither the file nor the environment sets comes
  from the defaults, or keeps its zero value.\<close>

definition leaves_defaults :: "viper \<Rightarrow> string \<Rightarrow> string set \<Rightarrow> bool" where
  "leaves_defaults v path set_keys = (\<forall>c. Unmarshal v path config_defaults = Inr c \<longrightarrow>
     (\<forall>(k, x) \<in> set (config_fields c). k \<notin> set_keys \<longrightarrow> decodes (map_of config_defaults k) x))"

lemma parsed_defaults [simp]:
  "ParseDuration ''5m'' = Some (5 * Minute)" "ParseDuration ''1m'' = Some Minute"
  "ParseDuration ''30s'' = Some (30 * Second)" "ParseDuration ''60s'' = Some Minute"
  "ParseDuration ''60m'' = Some Hour" "ParseDuration ''10m'' = Some (10 * Minute)"
  "ParseDuration ''30m'' = Some (30 * Minute)"
  by code_simp+

text \<open>The text of a duration is read exactly, with mixed units, fractions and signs, and
  refused without a unit or beyond 64 bits.\<close>

lemma parse_duration_examples:
  "ParseDuration ''1h15m30.5s'' = Some (Hour + 15 * Minute + 30 * Second + 500000000)"
  "ParseDuration ''-1.5h'' = Some (- 90 * Minute)" "ParseDuration ''0'' = Some 0"
  "ParseDuration ''30'' = None" "ParseDuration '''' = None" "ParseDuration ''2s500'' = None"
  by code_simp+

lemma parse_duration_overflow: "ParseDuration ''2562048h'' = None"
  by (simp add: ParseDuration_def duration_items.simps duration_item_def duration_units_def fraction_part_def
      digits_val_def digit_val_def is_digit_def)

lemma defaults_of_fields:
  assumes "leaves_defaults v path {}" "Unmarshal v path config_defaults = Inr c"
  shows "HTTPBindAddr c = ''127.0.0.1:8787''" "LogLevel c = ''info''" "TickInterval c = 30 * Second"
    "CfgWorktreeRoot c = ''.worktrees''" "CfgPromptsDir c = ''prompts''" "RetentionDays c = 7"
    "GitHubPollInterval c = Minute"
    "DBSettings c = \<lparr> DSN = '''', MaxOpenConns = 0, MaxIdleConns = 0, ConnMaxLifetime = 5 * Minute,
       ConnMaxIdleTime = Minute \<rparr>"
    "LimitsCfg c = \<lparr> DailyMaxTasks = 5, WeeklyMaxTasks = 0, CfgWeekStartsOn = ''mon'', CfgResetTZ = ''Asia/Seoul'',
       DailyMaxCostUSD = 0, WeeklyMaxCostUSD = 0 \<rparr>"
    "Concurrency c = \<lparr> MaxParallelTasks = 1, LeaseTimeout = Hour, ReclaimInterval = 10 * Minute \<rparr>"
    "CIFix c = \<lparr> CIFixOn = False, MaxAttempts = 2, CIPollInterval = Minute, CIPollTimeout = 30 * Minute,
       CommentOnExhaustion = True \<rparr>"
proof -
  have "list_all (\<lambda>(k, x). decodes (map_of config_defaults k) x) (config_fields c)"
    using assms unfolding leaves_defaults_def list_all_iff by blast
  note f = this[unfolded config_fields_def config_defaults_def, simplified]
  show "HTTPBindAddr c = ''127.0.0.1:8787''" "LogLevel c = ''info''" "TickInterval c = 30 * Second"
    "CfgWorktreeRoot c = ''.worktrees''" "CfgPromptsDir c = ''prompts''" "RetentionDays c = 7"
    "GitHubPollInterval c = Minute"
    "DBSettings c = \<lparr> DSN = '''', MaxOpenConns = 0, MaxIdleConns = 0, ConnMaxLifetime = 5 * Minute,
       ConnMaxIdleTime = Minute \<rparr>"
    "LimitsCfg c = \<lparr> DailyMaxTasks = 5, WeeklyMaxTasks = 0, CfgWeekStartsOn = ''mon'', CfgResetTZ = ''Asia/Seoul'',
       DailyMaxCostUSD = 0, WeeklyMaxCostUSD = 0 \<rparr>"
    "Concurrency c = \<lparr> MaxParallelTasks = 1, LeaseTimeout = Hour, ReclaimInterval = 10 * Minute \<rparr>"
    "CIFix c = \<lparr> CIFixOn = False, MaxAttempts = 2, CIPollInterval = Minute, CIPollTimeout = 30 * Minute,
       CommentOnExhaustion = True \<rparr>"
    using f by simp_all
qed

section \<open>Properties\<close>


definition minimal_file :: config where
  "minimal_file = \<lparr> HTTPBindAddr = ''127.0.0.1:8787'',
     DBSettings = \<lparr> DSN = '''', MaxOpenConns = 0, MaxIdleConns = 0, ConnMaxLifetime = 5 * Minute, ConnMaxIdleTime = Minute \<rparr>,
     LogLevel = ''info'', TickInterval = 30 * Second, CfgWorktreeRoot = ''.worktrees'', CfgPromptsDir = ''prompts'',
     RetentionDays = 7, GitHubPollInterval = Minute, ActiveWindows = ActiveWindows sample_config,
     MaintenanceTasks = MaintenanceTasks sample_config,
     Concurrency = \<lparr> MaxParallelTasks = 1, LeaseTimeout = Hour, ReclaimInterval = 10 * Minute \<rparr>,
     CIFix = \<lparr> CIFixOn = False, MaxAttempts = 2, CIPollInterval = Minute, CIPollTimeout = 30 * Minute,
       CommentOnExhaustion = True \<rparr>,
     LimitsCfg = \<lparr> DailyMaxTasks = 5, WeeklyMaxTasks = 0, CfgWeekStartsOn = ''mon'', CfgResetTZ = ''Asia/Seoul'',
       DailyMaxCostUSD = 0, WeeklyMaxCostUSD = 0 \<rparr>,
     Repos = Repos sample_config, SlackCfg = \<lparr> ChannelID = ''C1'', MentionUserID = '''' \<rparr> \<rparr>"

definition minimal_viper :: viper where
  "minimal_viper = \<lparr> ReadInConfig = (\<lambda>_. None), Unmarshal = (\<lambda>_ _. Inr minimal_file) \<rparr>"

definition minimal_env :: "string \<Rightarrow> string" where
  "minimal_env n = (if n = ''MYSQL_DSN'' then ''u:p@tcp(db:3306)/ops?parseTime=true&charset=utf8mb4'' else '''')"

lemma minimal_leaves_defaults: "leaves_defaults minimal_viper path {}"
proof -
  have "list_all (\<lambda>(k, x). decodes (map_of config_defaults k) x) (config_fields minimal_file)"
    by (simp add: config_fields_def config_defaults_def minimal_file_def)
  then show ?thesis by (simp add: leaves_defaults_def minimal_viper_def list_all_iff)
qed


end
