(* ===== verification/Startup.thy ===== *)
theory Startup
  imports Config_Load Collector Webhook Gc_Runner Ci_Watcher
begin

text \<open>run() of cmd/claude-ops/main.go from the configuration to the end of the process: what
  is built from what, which goroutines start after which step, and how it shuts down. The
  outside (viper, the environment, the opening of the database, migrations, files, the host)
  is a record of its answers. The services themselves are the programs of the other theories;
  the properties connect them: recovery comes before dispatch, and what is launched satisfies
  what those theories assume.\<close>

section \<open>The outside\<close>

text \<open>OutCancel is the CancelTask of the scheduler as the task use case sees it: it acts on the
  state of the pool, which is no part of the world.\<close>

datatype migrate_reply = MigrateApplied | MigrateNoChange | MigrateFails go_error

record outside =
  OutViper :: viper
  OutGetenv :: "string \<Rightarrow> string"
  OutTzdb :: "string \<Rightarrow> location option"
  OutCron :: "string \<Rightarrow> go_error option"
  OutDurText :: duration_text
  OutGormOpen :: "string \<Rightarrow> go_error option"
  OutPoolDB :: "go_error option"
  OutSqlDB :: "go_error option"
  OutMigrateDriver :: "go_error option"
  OutMigrateInit :: "go_error option"
  OutMigrateUp :: migrate_reply
  OutReadFile :: "string \<Rightarrow> string result"
  OutParseTemplate :: "string \<Rightarrow> (prompt_data \<Rightarrow> string result) result"
  OutZone :: location
  OutHostname :: string
  OutPid :: int
  OutIssues :: "string \<Rightarrow> issues_service"
  OutCancel :: "string \<Rightarrow> unit result prog"

section \<open>Constructors\<close>

text \<open>NewClient of internal/github/client.go: the token of the environment stands in for an
  empty one; the client of the library is an argument.\<close>

definition NewGitHubClient :: "(string \<Rightarrow> string) \<Rightarrow> (string \<Rightarrow> issues_service) \<Rightarrow> string \<Rightarrow> issues_service" where
  "NewGitHubClient getenv client token = client (if token = '''' then getenv ''GITHUB_TOKEN'' else token)"

text \<open>The options of the task use case; the clock is the world's.\<close>

definition WithWindowGate :: "(time \<Rightarrow> bool \<Rightarrow> bool) \<Rightarrow> task_usecase \<Rightarrow> task_usecase" where
  "WithWindowGate wg uc = uc\<lparr> UcWindowGate := Some wg \<rparr>"

definition NewTaskUseCase ::
  "world task_repo \<Rightarrow> world event_repo \<Rightarrow> world app_state_repo option \<Rightarrow> (string \<Rightarrow> unit result prog) \<Rightarrow>
   repo_config list \<Rightarrow> (task_usecase \<Rightarrow> task_usecase) list \<Rightarrow> task_usecase" where
  "NewTaskUseCase taskRepo eventRepo appStateRepo canceller repos opts =
     fold (\<lambda>opt uc. opt uc) opts \<lparr> UcTaskRepo = taskRepo, UcEventRepo = eventRepo, UcAppState = appStateRepo,
       UcCancel = canceller, UcRepos = repos, UcWindowGate = None \<rparr>"

definition NewMaintenanceUseCase ::
  "world task_repo \<Rightarrow> world app_state_repo \<Rightarrow> (time \<Rightarrow> budget_reason result prog) \<Rightarrow> budget_limits \<Rightarrow>
   maintenance_usecase" where
  "NewMaintenanceUseCase taskRepo appStateRepo budget limits = \<lparr> MuTaskRepo = taskRepo, MuAppState = appStateRepo,
     MuBudget = budget, MuLimits = limits \<rparr>"

definition NewWebhookHandler ::
  "string \<Rightarrow> task_usecase \<Rightarrow> world task_repo \<Rightarrow> repo_config list \<Rightarrow> webhook_handler" where
  "NewWebhookHandler secret taskUC taskRepo repos = \<lparr> WhSecret = secret, WhTaskUC = taskUC, WhTaskRepo = taskRepo,
     WhRepos = repos \<rparr>"

definition NewReclaimer :: "world task_repo option \<Rightarrow> int \<Rightarrow> int \<Rightarrow> reclaimer" where
  "NewReclaimer repo interval lease = \<lparr> ReclaimRepo = repo, RecInterval = interval, RecLease = lease \<rparr>"

text \<open>The sources of the metrics, without the pool until the scheduler exists.\<close>

definition NewMetrics ::
  "(time \<Rightarrow> budget_snapshot result prog) option \<Rightarrow> (time \<Rightarrow> bool \<Rightarrow> bool) option \<Rightarrow> bool prog option \<Rightarrow> metrics_sources" where
  "NewMetrics budget window full_mode =
     \<lparr> MsBudget = budget, MsWindow = window, MsFullMode = full_mode, MsSlots = None \<rparr>"

definition SetParallelSlots :: "scheduler \<Rightarrow> metrics_sources \<Rightarrow> metrics_sources" where
  "SetParallelSlots sched m = m\<lparr> MsSlots := Some (int (SlotsInUse sched), int (MaxSlots sched)) \<rparr>"

definition RegisterMetrics :: "(string \<times> string \<times> endpoint) list \<Rightarrow> (string \<times> string \<times> endpoint) list" where
  "RegisterMetrics routes = routes @ [(''GET'', ''/metrics'', EpMetrics), (''GET'', ''/metrics/forecast'', EpForecast)]"

text \<open>The instruments New registers and the descriptions of the collector, with their labels, and
  the family of each gauge. MustRegister panics on a name that is registered already.\<close>

definition metric_families :: "(string \<times> string list) list" where
  "metric_families = [
     (''claude_ops_task_duration_seconds'', [''repo'', ''status'', ''task_type'']),
     (''claude_ops_tasks_total'', [''status'']),
     (''claude_ops_budget_gate_blocks_total'', [''reason''])]"

definition collector_families :: "(string \<times> string list) list" where
  "collector_families = [
     (''claude_ops_tasks_remaining'', [''scope'']),
     (''claude_ops_rate_limit_block_seconds_remaining'', []),
     (''claude_ops_active_window_open'', []),
     (''claude_ops_parallel_slots_in_use'', []),
     (''claude_ops_parallel_slots_max'', [])]"

fun gauge_sample :: "gauge \<Rightarrow> string \<times> string list" where
  "gauge_sample (TasksRemaining sc n) = (''claude_ops_tasks_remaining'', [sc])"
| "gauge_sample (BlockSecondsRemaining q) = (''claude_ops_rate_limit_block_seconds_remaining'', [])"
| "gauge_sample (ActiveWindowOpen b) = (''claude_ops_active_window_open'', [])"
| "gauge_sample (SlotsInUseGauge n) = (''claude_ops_parallel_slots_in_use'', [])"
| "gauge_sample (SlotsMaxGauge n) = (''claude_ops_parallel_slots_max'', [])"

lemma families_registered: "distinct (map fst (metric_families @ collector_families))"
  by code_simp

lemma gauge_described:
  "\<exists>labels. (fst (gauge_sample g), labels) \<in> set collector_families \<and> length labels = length (snd (gauge_sample g))"
  by (cases g) (simp_all add: collector_families_def)

text \<open>Start of the maintenance scheduler: without tasks it ends at once; otherwise each firing of
  a registered job runs its handler until the context is done.\<close>

datatype cron_event = CronFired nat | CronStopped

fun run_jobs :: "active_window list \<Rightarrow> maintenance_usecase \<Rightarrow> maintenance_config list \<Rightarrow> cron_event list \<Rightarrow> unit prog" where
  "run_jobs windows uc jobs [] = ret ()"
| "run_jobs windows uc jobs (CronStopped # evs) = ret ()"
| "run_jobs windows uc jobs (CronFired k # evs) =
     (if k < length jobs then do { maintenance_fire windows uc (jobs ! k); run_jobs windows uc jobs evs }
      else run_jobs windows uc jobs evs)"

definition StartMaintenance ::
  "(string \<Rightarrow> bool) \<Rightarrow> active_window list \<Rightarrow> maintenance_usecase \<Rightarrow> maintenance_config list \<Rightarrow> cron_event list \<Rightarrow> unit prog" where
  "StartMaintenance cron_ok windows uc tasks evs =
     (if tasks = [] then ret () else run_jobs windows uc (registered_jobs cron_ok tasks) evs)"

text \<open>The renderer of CI fix prompts (internal/ci/prompt.go): the file is read and parsed once.\<close>

definition NewFilePromptRenderer :: "outside \<Rightarrow> string \<Rightarrow> (prompt_data \<Rightarrow> string result) result" where
  "NewFilePromptRenderer out promptsDir =
     (let path = path_join [promptsDir, ''ci-fix.tmpl''] in
      case OutReadFile out path of
        Inl e \<Rightarrow> Inl (EWrap (''read ci-fix prompt '' @ go_quote path) e)
      | Inr body \<Rightarrow> wrap_err ''parse ci-fix prompt'' (OutParseTemplate out body))"

definition worker_id :: "outside \<Rightarrow> string" where
  "worker_id out = (if OutHostname out = '''' then ''unknown'' else OutHostname out) @ ''-'' @ int_str (OutPid out)"

section \<open>The components and their wiring\<close>

record app =
  AppWorker :: worker_config
  AppSchedCfg :: scheduler_config
  AppPool :: scheduler
  AppReclaimer :: reclaimer
  AppGc :: gc_runner
  AppTaskUC :: task_usecase
  AppMaintenance :: maintenance_usecase
  AppJobs :: "maintenance_config list"
  AppSlackSecret :: string
  AppWebhook :: "(webhook_handler \<times> mem_dedup) option"
  AppMetrics :: metrics_sources
  AppRoutes :: "(string \<times> string \<times> endpoint) list"

definition build_app :: "outside \<Rightarrow> config \<Rightarrow> secrets \<Rightarrow> active_window list \<Rightarrow> budget_limits \<Rightarrow> app" where
  "build_app out cfg env windows limits =
     (let taskRepo = gorm_task_repo True;
          issues = NewGitHubClient (OutGetenv out) (OutIssues out) (GitHubToken env);
          (schedCfg, pool) = NewScheduler \<lparr> SchedWindows = windows, SchedTaskRepo = taskRepo,
            SchedAppState = Some gorm_app_repo, SchedPoller = Some (Poll issues taskRepo (Repos cfg)),
            SchedBudgetGate = Some (\<lambda>now. call (SnapshotReason gorm_app_repo limits now)),
            SchedTickInterval = TickInterval cfg, SchedWorkerID = worker_id out,
            SchedMaxParallel = MaxParallelTasks (Concurrency cfg) \<rparr>;
          taskUC = NewTaskUseCase taskRepo gorm_event_repo (Some gorm_app_repo) (OutCancel out) (Repos cfg)
            [WithWindowGate (windowsGateAdapter windows)];
          webhook = (if GitHubWebhookSecret env \<noteq> ''''
            then Some (NewWebhookHandler (GitHubWebhookSecret env) taskUC taskRepo (Repos cfg), NewMemDedupCache (5 * Minute))
            else None);
          recorder = NewMetrics (Some (\<lambda>now. call (snapshotLocked gorm_app_repo limits now)))
            (Some (metricsWindowAdapter windows)) (Some (IsFullMode (Some gorm_app_repo)))
      in \<lparr> AppWorker = workerCfg cfg limits windows, AppSchedCfg = schedCfg, AppPool = pool,
           AppReclaimer = NewReclaimer (Some taskRepo) (ReclaimInterval (Concurrency cfg)) (LeaseTimeout (Concurrency cfg)),
           AppGc = gcRunner (RetentionDays cfg), AppTaskUC = taskUC,
           AppMaintenance = NewMaintenanceUseCase taskRepo gorm_app_repo
             (EnfCheckAndIncrementReason (budget_uc limits)) limits,
           AppJobs = registered_jobs (\<lambda>s. OutCron out s = None) (MaintenanceTasks cfg),
           AppSlackSecret = SlackSigningSecret env, AppWebhook = webhook, AppMetrics = SetParallelSlots pool recorder,
           AppRoutes = RegisterMetrics (NewRouter True (webhook \<noteq> None)) \<rparr>)"

section \<open>run()\<close>

datatype service = SvcScheduler | SvcMaintenance | SvcGc | SvcReclaimer | SvcWatcher | SvcHttp

text \<open>What happens on the way, in order. The deferred calls that matter are the cancellation
  of the schedulers' context and the closing of the database.\<close>

datatype run_step = DbOpened db_settings | Migrated | Booted | WebhookUnset | Launched service
  | SignalReceived | ContextCancelled | SchedulerStopped | HttpStopped | DbClosed

record run_outcome =
  RunResult :: "unit result"
  RunApp :: "app option"
  RunWatcher :: "watcher option"
  RunSteps :: "run_step list"

definition failed :: "go_error \<Rightarrow> run_step list \<Rightarrow> run_outcome" where
  "failed e steps = \<lparr> RunResult = Inl e, RunApp = None, RunWatcher = None, RunSteps = steps \<rparr>"

definition load_stage :: "outside \<Rightarrow> string \<Rightarrow> (config \<times> secrets) result" where
  "load_stage out path =
     bind_res (wrap_err ''load config'' (LoadConfig (OutViper out) (OutGetenv out) path)) (\<lambda>cfg0.
     bind_res (wrap_err ''validate config'' (ValidateConfig (OutTzdb out) (OutCron out) (OutDurText out) cfg0)) (\<lambda>cfg.
     bind_res (wrap_err ''load env'' (LoadEnv (OutGetenv out))) (\<lambda>env. Inr (cfg, env))))"

definition migrate_stage :: "outside \<Rightarrow> unit result" where
  "migrate_stage out =
     (case OutMigrateDriver out of
        Some e \<Rightarrow> Inl (EWrap ''migrate driver'' e)
      | None \<Rightarrow>
          (case OutMigrateInit out of
             Some e \<Rightarrow> Inl (EWrap ''migration init'' e)
           | None \<Rightarrow>
               (case OutMigrateUp out of
                  MigrateFails e \<Rightarrow> Inl (EWrap ''run migrations'' e)
                | _ \<Rightarrow> Inr ())))"

text \<open>The goroutines and the wait for a signal. The prompt of CI fixes is read after the
  first four are started.\<close>

definition serve_stage :: "outside \<Rightarrow> config \<Rightarrow> app \<Rightarrow> run_outcome" where
  "serve_stage out cfg app =
     (let first = map Launched [SvcScheduler, SvcMaintenance, SvcGc, SvcReclaimer];
          final = [Launched SvcHttp, SignalReceived, ContextCancelled, SchedulerStopped, HttpStopped]
      in if \<not> CIFixOn (CIFix cfg)
         then \<lparr> RunResult = Inr (), RunApp = Some app, RunWatcher = None, RunSteps = first @ final \<rparr>
         else (case NewFilePromptRenderer out (CfgPromptsDir cfg) of
                 Inl e \<Rightarrow> \<lparr> RunResult = Inl (EWrap ''ci-fix prompt'' e), RunApp = Some app, RunWatcher = None,
                            RunSteps = first @ [ContextCancelled] \<rparr>
               | Inr tmpl \<Rightarrow> \<lparr> RunResult = Inr (), RunApp = Some app,
                   RunWatcher = Some (wired_watcher cfg (AppTaskUC app) tmpl),
                   RunSteps = first @ Launched SvcWatcher # final \<rparr>))"

text \<open>Between the opened database and its closing.\<close>

definition db_stage :: "outside \<Rightarrow> config \<Rightarrow> secrets \<Rightarrow> run_outcome prog" where
  "db_stage out cfg env =
     (case migrate_stage out of
        Inl e \<Rightarrow> ret (failed e [])
      | Inr _ \<Rightarrow>
          (case ActiveWindowsOf (OutTzdb out) cfg of
             Inl e \<Rightarrow> ret (failed (EWrap ''parse windows'' e) [Migrated])
           | Inr windows \<Rightarrow> do {
               RunOnBoot (gcRunner (RetentionDays cfg)) (OutZone out);
               ret (case ResolvedLimits (OutTzdb out) (LimitsCfg cfg) of
                      Inl e \<Rightarrow> failed (EWrap ''resolve limits'' e) [Migrated, Booted]
                    | Inr (dailyMax, weeklyMax, weekStart, resetTZ) \<Rightarrow>
                        let limits = \<lparr> DailyMax = dailyMax, WeeklyMax = weeklyMax, WeekStartsOn = weekStart,
                              ResetTZ = Some resetTZ \<rparr>;
                            app = build_app out cfg env windows limits;
                            served = serve_stage out cfg app
                        in served\<lparr> RunSteps := [Migrated, Booted] @
                             (if AppWebhook app = None then [WebhookUnset] else []) @ RunSteps served \<rparr>)
             }))"

definition run_service :: "outside \<Rightarrow> string \<Rightarrow> run_outcome prog" where
  "run_service out path =
     (case load_stage out path of
        Inl e \<Rightarrow> ret (failed e [])
      | Inr (cfg, env) \<Rightarrow>
          (case NewDB (OutGormOpen out) (OutPoolDB out) (DBSettings cfg) of
             Inl e \<Rightarrow> ret (failed (EWrap ''open db'' e) [])
           | Inr pool \<Rightarrow>
               (case OutSqlDB out of
                  Some e \<Rightarrow> ret (failed (EWrap ''get sql.DB'' e) [])
                | None \<Rightarrow> do {
                    r \<leftarrow> db_stage out cfg env;
                    ret (r\<lparr> RunSteps := DbOpened pool # RunSteps r @ [DbClosed] \<rparr>)
                  })))"

section \<open>What run() guarantees\<close>

lemma load_stage_Inr:
  assumes "load_stage out path = Inr (cfg, env)"
  shows "1 \<le> MaxParallelTasks (Concurrency cfg)" "MaxParallelTasks (Concurrency cfg) \<le> 10"
    "0 < ReclaimInterval (Concurrency cfg)" "ReclaimInterval (Concurrency cfg) < LeaseTimeout (Concurrency cfg)"
    "GitHubWebhookSecret env = OutGetenv out ''GITHUB_WEBHOOK_SECRET''"
proof -
  obtain cfg0 where v: "ValidateConfig (OutTzdb out) (OutCron out) (OutDurText out) cfg0 = Inr cfg"
    and e: "LoadEnv (OutGetenv out) = Inr env"
    using assms by (auto simp: load_stage_def bind_res_Inr_iff wrap_err_Inr_iff)
  obtain rs where "cfg = cfg0\<lparr> Repos := rs \<rparr>" "validateConcurrency (OutDurText out) (Concurrency cfg0) = Inr ()"
    using ValidateConfig_Inr[OF v] by metis
  then show "1 \<le> MaxParallelTasks (Concurrency cfg)" "MaxParallelTasks (Concurrency cfg) \<le> 10"
    "0 < ReclaimInterval (Concurrency cfg)" "ReclaimInterval (Concurrency cfg) < LeaseTimeout (Concurrency cfg)"
    unfolding validateConcurrency_Inr by simp_all
  show "GitHubWebhookSecret env = OutGetenv out ''GITHUB_WEBHOOK_SECRET''" using e by (auto simp: LoadEnv_def)
qed

text \<open>The routes of the process differ, and the webhook is one of them when it has a secret.\<close>

lemma app_routes:
  fixes out cfg env windows limits
  defines "app \<equiv> build_app out cfg env windows limits"
  shows "distinct (map (\<lambda>(m, p, _). (m, p)) (AppRoutes app))"
    "(''POST'', ''/github/webhook'', EpWebhook) \<in> set (AppRoutes app) \<longleftrightarrow> GitHubWebhookSecret env \<noteq> ''''"
    "AppWebhook app = Some (h, cache) \<Longrightarrow> WhSecret h = GitHubWebhookSecret env \<and> WhSecret h \<noteq> ''''"
  unfolding app_def build_app_def Let_def
  by (auto simp: RegisterMetrics_def NewRouter_def NewWebhookHandler_def split: prod.splits if_splits)

text \<open>The ways through the stages.\<close>

lemma serve_cases:
  obtains (prompt) e where "RunResult (serve_stage out cfg app) = Inl (EWrap ''ci-fix prompt'' e)"
    "RunSteps (serve_stage out cfg app) = map Launched [SvcScheduler, SvcMaintenance, SvcGc, SvcReclaimer] @ [ContextCancelled]"
  | (signal) ss where "RunResult (serve_stage out cfg app) = Inr ()"
    "RunSteps (serve_stage out cfg app) = map Launched ss @
       [Launched SvcHttp, SignalReceived, ContextCancelled, SchedulerStopped, HttpStopped]"
proof (cases "CIFixOn (CIFix cfg)")
  case False
  then show thesis by (intro signal[of "[SvcScheduler, SvcMaintenance, SvcGc, SvcReclaimer]"]) (simp_all add: serve_stage_def)
next
  case True
  show thesis
  proof (cases "NewFilePromptRenderer out (CfgPromptsDir cfg)")
    case (Inl e)
    with True show thesis by (intro prompt[of e]) (simp_all add: serve_stage_def)
  next
    case (Inr tmpl)
    with True show thesis
      by (intro signal[of "[SvcScheduler, SvcMaintenance, SvcGc, SvcReclaimer, SvcWatcher]"]) (simp_all add: serve_stage_def)
  qed
qed

lemma db_stage_cases:
  assumes "run_state (db_stage out cfg env) w = (r, w')"
  obtains (early) e steps where "r = failed e steps" "set steps \<subseteq> {Migrated, Booted}"
  | (served) app unset where "migrate_stage out = Inr ()"
    "run_state (RunOnBoot (gcRunner (RetentionDays cfg)) (OutZone out)) w = ((), w')"
    "RunResult r = RunResult (serve_stage out cfg app)"
    "RunSteps r = [Migrated, Booted] @ unset @ RunSteps (serve_stage out cfg app)" "set unset \<subseteq> {WebhookUnset}"
proof (cases "migrate_stage out")
  case (Inl e)
  then show thesis using assms by (intro early[of e "[]"]) (simp_all add: db_stage_def)
next
  case (Inr u)
  show thesis
  proof (cases "ActiveWindowsOf (OutTzdb out) cfg")
    case (Inl e)
    then show thesis using assms Inr by (intro early[of "EWrap ''parse windows'' e" "[Migrated]"]) (simp_all add: db_stage_def)
  next
    case (Inr windows)
    note m = \<open>migrate_stage out = Inr u\<close>
    obtain w1 where b: "run_state (RunOnBoot (gcRunner (RetentionDays cfg)) (OutZone out)) w = ((), w1)"
      by (cases "run_state (RunOnBoot (gcRunner (RetentionDays cfg)) (OutZone out)) w") simp
    show thesis
    proof (cases "ResolvedLimits (OutTzdb out) (LimitsCfg cfg)")
      case (Inl e)
      then show thesis using assms m Inr b
        by (intro early[of "EWrap ''resolve limits'' e" "[Migrated, Booted]"]) (simp_all add: db_stage_def)
    next
      case (Inr lim)
      obtain dm wm ws tz where l: "lim = (dm, wm, ws, tz)" by (cases lim)
      let ?app = "build_app out cfg env windows \<lparr> DailyMax = dm, WeeklyMax = wm, WeekStartsOn = ws, ResetTZ = Some tz \<rparr>"
      show thesis
        by (rule served[of ?app "if AppWebhook ?app = None then [WebhookUnset] else []"])
          (use assms m b Inr l \<open>ActiveWindowsOf (OutTzdb out) cfg = Inr windows\<close> in \<open>auto simp: db_stage_def Let_def\<close>)
    qed
  qed
qed

lemma run_service_cases:
  assumes "run_state (run_service out path) w = (r, w')"
  obtains (refused) e where "r = failed e []" "w' = w"
  | (opened) cfg env pool q where "load_stage out path = Inr (cfg, env)" "run_state (db_stage out cfg env) w = (q, w')"
    "r = q\<lparr> RunSteps := DbOpened pool # RunSteps q @ [DbClosed] \<rparr>"
proof (cases "load_stage out path")
  case (Inl e)
  then show thesis using assms by (intro refused[of e]) (simp_all add: run_service_def)
next
  case (Inr ce)
  obtain cfg env where ce: "ce = (cfg, env)" by (cases ce)
  show thesis
  proof (cases "NewDB (OutGormOpen out) (OutPoolDB out) (DBSettings cfg)")
    case (Inl e)
    then show thesis using assms Inr ce by (intro refused[of "EWrap ''open db'' e"]) (simp_all add: run_service_def)
  next
    case (Inr pool)
    show thesis
    proof (cases "OutSqlDB out")
      case (Some e)
      then show thesis using assms Inr \<open>load_stage out path = Inr ce\<close> ce
        by (intro refused[of "EWrap ''get sql.DB'' e"]) (simp_all add: run_service_def)
    next
      case None
      obtain q w1 where "run_state (db_stage out cfg env) w = (q, w1)" by fastforce
      then show thesis using assms Inr None \<open>load_stage out path = Inr ce\<close> ce
        by (intro opened[of cfg env q pool]) (simp_all add: run_service_def)
    qed
  qed
qed

lemma failed_simps [simp]:
  "RunResult (failed e steps) = Inl e" "RunSteps (failed e steps) = steps" "RunApp (failed e steps) = None"
  by (simp_all add: failed_def)

text \<open>C12: run() closes the database exactly when it had opened it, and last. A goroutine is
  started only after the configuration was accepted, the migrations were applied and the
  recovery had run. When run() returns without an error it was a signal that ended it: then the
  context was cancelled, the scheduler awaited and the server shut down, in this order and
  before the database is closed.\<close>

theorem startup_order:
  "case run_state (run_service out path) w of (r, w') \<Rightarrow>
    (RunSteps r = [] \<and> w' = w \<and> RunResult r \<noteq> Inr () \<or>
     (\<exists>pool mid cfg env. RunSteps r = DbOpened pool # mid @ [DbClosed] \<and> DbClosed \<notin> set mid \<and>
       load_stage out path = Inr (cfg, env) \<and>
       (\<forall>s. Launched s \<in> set mid \<longrightarrow> migrate_stage out = Inr () \<and> take 2 mid = [Migrated, Booted] \<and>
          run_state (RunOnBoot (gcRunner (RetentionDays cfg)) (OutZone out)) w = ((), w')) \<and>
       (RunResult r = Inr () \<longrightarrow>
          (\<exists>pre. mid = pre @ [Launched SvcHttp, SignalReceived, ContextCancelled, SchedulerStopped, HttpStopped]))))"
proof -
  obtain r w' where run: "run_state (run_service out path) w = (r, w')" by fastforce
  from run show ?thesis
  proof (cases rule: run_service_cases)
    case (refused e)
    then show ?thesis using run by simp
  next
    case (opened cfg env pool q)
    let ?mid = "RunSteps q" and ?halt = "[Launched SvcHttp, SignalReceived, ContextCancelled, SchedulerStopped, HttpStopped]"
    have "DbClosed \<notin> set ?mid \<and> (\<forall>s. Launched s \<in> set ?mid \<longrightarrow> migrate_stage out = Inr () \<and> take 2 ?mid = [Migrated, Booted] \<and>
          run_state (RunOnBoot (gcRunner (RetentionDays cfg)) (OutZone out)) w = ((), w')) \<and>
       (RunResult q = Inr () \<longrightarrow> (\<exists>pre. ?mid = pre @ ?halt))"
      using opened(2)
    proof (cases rule: db_stage_cases)
      case (early e steps)
      then show ?thesis by auto
    next
      case (served app unset)
      show ?thesis
      proof (cases rule: serve_cases[of out cfg app])
        case (prompt e)
        then show ?thesis using served by auto
      next
        case (signal ss)
        have "?mid = ([Migrated, Booted] @ unset @ map Launched ss) @ ?halt" using served(4) signal(2) by simp
        then have "\<exists>pre. ?mid = pre @ ?halt" by blast
        then show ?thesis using served signal by auto
      qed
    qed
    then have "\<exists>pool mid cfg env. RunSteps r = DbOpened pool # mid @ [DbClosed] \<and> DbClosed \<notin> set mid \<and>
       load_stage out path = Inr (cfg, env) \<and>
       (\<forall>s. Launched s \<in> set mid \<longrightarrow> migrate_stage out = Inr () \<and> take 2 mid = [Migrated, Booted] \<and>
          run_state (RunOnBoot (gcRunner (RetentionDays cfg)) (OutZone out)) w = ((), w')) \<and>
       (RunResult r = Inr () \<longrightarrow> (\<exists>pre. mid = pre @ ?halt))"
      using opened(1,3) by (intro exI[of _ pool] exI[of _ ?mid] exI[of _ cfg] exI[of _ env]) simp
    then show ?thesis using run by simp
  qed
qed

text \<open>C40: reading the prompt of CI fixes is the one step that can fail after goroutines were
  started (its comment promises to fail fast at startup). Then the scheduler and three more
  goroutines are running, run() returns the error, and the database is closed under them
  without waiting for the scheduler.\<close>

theorem prompt_failure_is_late:
  "case run_state (run_service out path) w of (r, w') \<Rightarrow>
    (\<exists>e s. RunResult r = Inl e \<and> Launched s \<in> set (RunSteps r)) \<longleftrightarrow>
    (\<exists>e pool pre. RunResult r = Inl (EWrap ''ci-fix prompt'' e) \<and> set pre \<subseteq> {Migrated, Booted, WebhookUnset} \<and>
       RunSteps r = DbOpened pool # pre @ map Launched [SvcScheduler, SvcMaintenance, SvcGc, SvcReclaimer] @
         [ContextCancelled, DbClosed])"
proof -
  obtain r w' where run: "run_state (run_service out path) w = (r, w')" by fastforce
  have "\<exists>e pool pre. RunResult r = Inl (EWrap ''ci-fix prompt'' e) \<and> set pre \<subseteq> {Migrated, Booted, WebhookUnset} \<and>
       RunSteps r = DbOpened pool # pre @ map Launched [SvcScheduler, SvcMaintenance, SvcGc, SvcReclaimer] @
         [ContextCancelled, DbClosed]" if l: "RunResult r = Inl e" "Launched s \<in> set (RunSteps r)" for e s
    using run
  proof (cases rule: run_service_cases)
    case (refused e)
    then show ?thesis using l by simp
  next
    case (opened cfg env pool q)
    show ?thesis using opened(2)
    proof (cases rule: db_stage_cases)
      case (early e steps)
      then show ?thesis using l opened(3) by auto
    next
      case (served app unset)
      show ?thesis
      proof (cases rule: serve_cases[of out cfg app])
        case (prompt e)
        then show ?thesis using served opened(3) by (intro exI[of _ e] exI[of _ pool] exI[of _ "[Migrated, Booted] @ unset"]) auto
      next
        case (signal ss)
        then show ?thesis using served(3) opened(3) l by simp
      qed
    qed
  qed
  then show ?thesis using run by auto
qed

text \<open>An outside in which everything works, and one in which the prompt is missing.\<close>

definition sample_outside :: outside where
  "sample_outside = \<lparr> OutViper = minimal_viper, OutGetenv = minimal_env, OutTzdb = (\<lambda>_. Some UTC), OutCron = (\<lambda>_. None),
     OutDurText = int_str, OutGormOpen = (\<lambda>_. None), OutPoolDB = None, OutSqlDB = None, OutMigrateDriver = None,
     OutMigrateInit = None, OutMigrateUp = MigrateNoChange, OutReadFile = (\<lambda>p. Inl (EMsg (''open '' @ p))),
     OutParseTemplate = (\<lambda>_. Inr (\<lambda>_. Inr '''')), OutZone = UTC, OutHostname = ''host'', OutPid = 42,
     OutIssues = (\<lambda>_ _ _ _. ret (Inr [])), OutCancel = (\<lambda>_. ret (Inl ErrNotFound)) \<rparr>"

definition without_prompt :: outside where
  "without_prompt = sample_outside\<lparr> OutViper := minimal_viper\<lparr> Unmarshal := (\<lambda>_ _.
     Inr (minimal_file\<lparr> CIFix := (CIFix minimal_file)\<lparr> CIFixOn := True \<rparr> \<rparr>)) \<rparr> \<rparr>"

text \<open>Nothing stands in the way of the services.\<close>

definition clear_way :: "outside \<Rightarrow> string \<Rightarrow> bool \<Rightarrow> bool" where
  "clear_way out path fix_on =
     (case load_stage out path of
        Inl _ \<Rightarrow> False
      | Inr (cfg, env) \<Rightarrow> is_ok (NewDB (OutGormOpen out) (OutPoolDB out) (DBSettings cfg)) \<and> OutSqlDB out = None \<and>
          is_ok (migrate_stage out) \<and> is_ok (ActiveWindowsOf (OutTzdb out) cfg) \<and>
          is_ok (ResolvedLimits (OutTzdb out) (LimitsCfg cfg)) \<and> CIFixOn (CIFix cfg) = fix_on)"

lemma run_clear_way:
  assumes "clear_way out path fix_on"
  obtains r w' app cfg env pool unset where "run_state (run_service out path) w = (r, w')" "RunApp r = Some app"
    "RunResult r = RunResult (serve_stage out cfg app)"
    "RunSteps r = DbOpened pool # Migrated # Booted # unset @ RunSteps (serve_stage out cfg app) @ [DbClosed]"
    "load_stage out path = Inr (cfg, env)" "CIFixOn (CIFix cfg) = fix_on"
proof -
  obtain cfg env where l: "load_stage out path = Inr (cfg, env)" "CIFixOn (CIFix cfg) = fix_on"
    and ok: "is_ok (NewDB (OutGormOpen out) (OutPoolDB out) (DBSettings cfg))" "OutSqlDB out = None"
      "is_ok (migrate_stage out)" "is_ok (ActiveWindowsOf (OutTzdb out) cfg)"
      "is_ok (ResolvedLimits (OutTzdb out) (LimitsCfg cfg))"
    using assms unfolding clear_way_def by (auto split: sum.splits prod.splits)
  obtain pool u windows dm wm ws tz where e: "NewDB (OutGormOpen out) (OutPoolDB out) (DBSettings cfg) = Inr pool"
      "migrate_stage out = Inr u" "ActiveWindowsOf (OutTzdb out) cfg = Inr windows"
      "ResolvedLimits (OutTzdb out) (LimitsCfg cfg) = Inr (dm, wm, ws, tz)"
    using ok unfolding is_ok_def by (auto split: sum.splits)
  obtain w1 where b: "run_state (RunOnBoot (gcRunner (RetentionDays cfg)) (OutZone out)) w = ((), w1)"
    by (cases "run_state (RunOnBoot (gcRunner (RetentionDays cfg)) (OutZone out)) w") simp
  let ?app = "build_app out cfg env windows \<lparr> DailyMax = dm, WeeklyMax = wm, WeekStartsOn = ws, ResetTZ = Some tz \<rparr>"
  have a: "RunApp (serve_stage out cfg a) = Some a" for a by (simp add: serve_stage_def Let_def split: sum.split)
  obtain r w' where r: "run_state (run_service out path) w = (r, w')" by fastforce
  show thesis
    by (rule that[OF r, of ?app cfg pool "if AppWebhook ?app = None then [WebhookUnset] else []" env])
      (use r l e b ok(2) a in \<open>auto simp: run_service_def db_stage_def Let_def\<close>)
qed

lemma sample_clear: "clear_way sample_outside ''c.yaml'' False" "clear_way without_prompt ''c.yaml'' True"
  by code_simp+

lemma startup_witness:
  "case run_state (run_service sample_outside ''c.yaml'') run_sample of (r, w') \<Rightarrow>
     RunResult r = Inr () \<and> last (RunSteps r) = DbClosed \<and>
     (\<exists>pool pre. RunSteps r = DbOpened pool # pre @
        [Launched SvcHttp, SignalReceived, ContextCancelled, SchedulerStopped, HttpStopped, DbClosed])"
proof -
  obtain r w' app cfg env pool unset where r: "run_state (run_service sample_outside ''c.yaml'') run_sample = (r, w')"
    "RunResult r = RunResult (serve_stage sample_outside cfg app)" "CIFixOn (CIFix cfg) = False"
    "RunSteps r = DbOpened pool # Migrated # Booted # unset @ RunSteps (serve_stage sample_outside cfg app) @ [DbClosed]"
    by (rule run_clear_way[OF sample_clear(1)])
  then have "RunResult r = Inr ()" "RunSteps r \<noteq> []" by (simp_all add: serve_stage_def)
  then show ?thesis using startup_order[where out = sample_outside and path = "''c.yaml''" and w = run_sample] r(1) by auto
qed

lemma prompt_failure_witness:
  "case run_state (run_service without_prompt ''c.yaml'') run_sample of (r, w') \<Rightarrow>
     (\<exists>e. RunResult r = Inl (EWrap ''ci-fix prompt'' e)) \<and> Launched SvcScheduler \<in> set (RunSteps r) \<and>
     SchedulerStopped \<notin> set (butlast (RunSteps r))"
proof -
  obtain r w' app cfg env pool unset where r: "run_state (run_service without_prompt ''c.yaml'') run_sample = (r, w')"
    "RunResult r = RunResult (serve_stage without_prompt cfg app)" "CIFixOn (CIFix cfg) = True"
    "RunSteps r = DbOpened pool # Migrated # Booted # unset @ RunSteps (serve_stage without_prompt cfg app) @ [DbClosed]"
    by (rule run_clear_way[OF sample_clear(2)])
  have "\<exists>e. NewFilePromptRenderer without_prompt (CfgPromptsDir cfg) = Inl e"
    by (simp add: NewFilePromptRenderer_def without_prompt_def sample_outside_def Let_def)
  then have "\<exists>e. RunResult r = Inl e" "Launched SvcScheduler \<in> set (RunSteps r)"
    using r(2-4) by (auto simp: serve_stage_def)
  then show ?thesis using prompt_failure_is_late[where out = without_prompt and path = "''c.yaml''" and w = run_sample] r(1)
    by auto (auto simp: butlast_append)
qed

end
