(* ===== verification/Lifetime.thy ===== *)
theory Lifetime
  imports Startup
begin

text \<open>From the start of the process to any later state: recovery, ticks of the wired scheduler,
  runs of the wired worker, requests, maintenance jobs and sweeps, in any order. A step is one
  whole operation (the interleavings within the pool are Scheduler's). The database works and
  the clock rises; an invariant ties the running rows to the goroutines.\<close>

section \<open>Operations that leave running tasks alone\<close>

definition idle :: "world \<Rightarrow> world \<Rightarrow> bool" where
  "idle w w' = (wf_db w \<longrightarrow> same_env w w' \<and> wf_db w' \<and>
     (\<forall>i u. Status u = TaskStatusRunning \<longrightarrow> (task_view w' i = Some u \<longleftrightarrow> task_view w i = Some u)))"

lemma idle_reflp [simp]: "reflp idle"
  by (simp add: reflp_def idle_def)

lemma idle_transp [simp]: "transp idle"
  using same_env_trans by (auto simp: transp_def idle_def)

lemma kept_idle: "kept F w w' \<Longrightarrow> idle w w'"
  using task_view_rows_eq[of w' w] by (auto simp: kept_def grows_def idle_def)

lemma keeps_kept_idle: "state_io_rel (kept F) m \<Longrightarrow> state_io_rel idle m"
  unfolding state_io_rel_def using kept_idle by blast

lemma keeps_frame_idle: "state_io_rel (frame F) m \<Longrightarrow> state_io_rel idle m"
  by (rule keeps_kept_idle[OF keeps_frame_kept])

lemma idle_bind [keeps_intros]:
  "state_io_rel idle m \<Longrightarrow> (\<And>a. state_io_rel idle (f a)) \<Longrightarrow> state_io_rel idle (State_Monad.bind m f)"
  by (rule keeps_bind) simp_all

lemma idle_return [keeps_intros]: "state_io_rel idle (ret a)"
  by (rule keeps_return) simp

lemma idle_when_some [keeps_intros]:
  "(\<And>a. x = Some a \<Longrightarrow> state_io_rel idle (f a)) \<Longrightarrow> state_io_rel idle (when_some x f)"
  by (rule keeps_when_some) simp_all

lemma idle_call: "(\<And>w. idle w (snd (f w))) \<Longrightarrow> state_io_rel idle (call f)"
  by (auto simp: state_io_rel_def)

lemmas idle_prims [keeps_intros] = keeps_frame_idle[OF frame_ask] keeps_frame_idle[OF frame_now]

lemma get_idle [keeps_intros]: "state_io_rel idle (call (Get gorm_app_repo k))"
  by (rule idle_call) (simp add: gorm_app_repo_def kept_idle[OF repo_kept(4)])

lemma exists_idle [keeps_intros]: "state_io_rel idle (call (ExistsByRepoAndIssue (gorm_task_repo True) repo num))"
proof (rule idle_call)
  fix w :: world
  have "kept UNIV w (snd (repo_ExistsByRepoAndIssue repo num w))"
    unfolding repo_ExistsByRepoAndIssue_def snd_mapped by (rule exec_kept) simp
  then show "idle w (snd (ExistsByRepoAndIssue (gorm_task_repo True) repo num w))"
    by (simp add: gorm_task_repo_def kept_idle)
qed

text \<open>A task that is not running was created, or its insertion failed.\<close>

lemma create_idle:
  assumes "Status t \<noteq> TaskStatusRunning"
  shows "idle w (snd (Create (gorm_task_repo True) t (w :: world)))"
proof -
  obtain r w' where c: "Create (gorm_task_repo True) t w = (r, w')" by fastforce
  have "grows UNIV w (snd (repo_Create t w))"
    unfolding repo_Create_def snd_mapped
    by (rule exec_grows) (auto simp: sql_insert_task_def Let_def)
  then have e: "same_env w w'" using c by (simp add: gorm_task_repo_def grows_def)
  have "wf_db w' \<and> (\<forall>i u. Status u = TaskStatusRunning \<longrightarrow> (task_view w' i = Some u \<longleftrightarrow> task_view w i = Some u))"
    if wf: "wf_db w"
  proof -
    note v = gorm_task.Create_view[OF wf c]
    have "Status u = Status t" if "stored_as t u" for u using that by (auto simp: stored_as_def norm_task_def)
    then show ?thesis using v assms by (auto split: if_splits)
  qed
  then show ?thesis using e c by (simp add: idle_def)
qed

lemma new_task_idle:
  assumes "\<And>t r. state_io_rel idle (f t r)"
  shows "state_io_rel idle (do { t \<leftarrow> new_issue_task repo num title ty; r \<leftarrow> call (Create (gorm_task_repo True) t); f t r })"
proof (rule state_io_relI)
  fix w a w'
  obtain t w1 where t: "run_state (new_issue_task repo num title ty) w = (t, w1)" by fastforce
  then have k: "idle w w1" "Status t = TaskStatusQueued"
    by (auto simp: run_new_issue_task idle_def same_env_def tick_def wf_db_def task_view_def row_at_def)
  obtain r w2 where r: "Create (gorm_task_repo True) t w1 = (r, w2)" by fastforce
  then have "idle w1 w2" using create_idle[of t w1] k(2) by simp
  moreover assume "run_state (do { t \<leftarrow> new_issue_task repo num title ty; r \<leftarrow> call (Create (gorm_task_repo True) t); f t r }) w = (a, w')"
  then have "run_state (f t r) w2 = (a, w')" using t r by simp
  then have "idle w2 w'" using assms by (blast dest: state_io_relD)
  ultimately show "idle w w'" using k(1) idle_transp by (meson transpD)
qed

lemma full_mode_idle [keeps_intros]:
  "state_io_rel idle (task_isFullMode (Some gorm_app_repo))" "SchedAppState cfg = Some gorm_app_repo \<Longrightarrow> state_io_rel idle (sched_isFullMode cfg)"
proof -
  have s: "state_io_rel idle (State (\<lambda>w :: world. (float_text w, w)))" by (auto simp: state_io_rel_def idle_def)
  show "state_io_rel idle (task_isFullMode (Some gorm_app_repo))"
    unfolding task_isFullMode_def option.case by (intro keeps_intros s)
  show "SchedAppState cfg = Some gorm_app_repo \<Longrightarrow> state_io_rel idle (sched_isFullMode cfg)"
    unfolding sched_isFullMode_def by (simp only: option.case) (intro keeps_intros s)
qed

lemma enqueue_idle:
  assumes "UcTaskRepo uc = gorm_task_repo True" "UcAppState uc = Some gorm_app_repo"
  shows "state_io_rel idle (EnqueueFromIssue uc req)"
  unfolding EnqueueFromIssue_def assms by (intro keeps_intros new_task_idle)

lemma poll_issue_idle: "state_io_rel idle (poll_issue (gorm_task_repo True) rc i)"
  unfolding poll_issue_def by (intro keeps_intros new_task_idle)

text \<open>The listing of issues is a call of the GitHub API: it does nothing to the database.\<close>

definition only_reads :: "issues_service \<Rightarrow> bool" where
  "only_reads issues = (\<forall>owner name labels. state_io_rel (frame {}) (issues owner name labels))"

lemma poll_idle:
  assumes "only_reads issues"
  shows "state_io_rel idle (Poll issues (gorm_task_repo True) rcs)"
proof (induction rcs)
  case (Cons rc rcs)
  have l: "state_io_rel idle (poll_issues (gorm_task_repo True) rc is)" for "is"
    by (induction "is") (auto intro!: idle_bind idle_return poll_issue_idle)
  have "state_io_rel idle (issues owner name labels)" for owner name labels
    using assms unfolding only_reads_def by (blast intro: keeps_frame_idle)
  then have "state_io_rel idle (pollRepo issues (gorm_task_repo True) rc)"
    unfolding pollRepo_def by (intro keeps_intros l)
  then show ?case using Cons by (auto intro!: idle_bind)
qed (simp add: idle_return)

lemma maintenance_idle:
  assumes "MuTaskRepo uc = gorm_task_repo True" "MuAppState uc = gorm_app_repo"
    "MuBudget uc = EnfCheckAndIncrementReason (budget_uc limits)"
  shows "state_io_rel idle (maintenance_fire windows uc mt)"
proof -
  have b: "state_io_rel idle (MuBudget uc now)" for now
    unfolding assms(3) budget_uc_def by (auto intro!: idle_call kept_idle budget_calls_kept)
  have s: "state_io_rel idle (checkAndIncrementSubCap uc mt now)" for now
    unfolding checkAndIncrementSubCap_def assms(2) Let_def
    by (intro keeps_intros)
      (auto intro!: idle_call kept_idle load_state_kept put_state_kept simp: loadSubCap_def persistSubCap_def)
  have c: "state_io_rel idle (call (Create (gorm_task_repo True) t))" if "Status t = TaskStatusQueued" for t
    by (rule idle_call) (simp add: create_idle that)
  have "state_io_rel idle (EnqueueMaintenance uc mt)"
    unfolding EnqueueMaintenance_def assms(1) Let_def by (intro keeps_intros b s c) simp
  then show ?thesis unfolding maintenance_fire_def by (intro keeps_intros)
qed

lemma collect_idle: "state_io_rel idle (Collect (metrics_wiring gorm_app_repo limits windows pool))"
proof -
  have s: "state_io_rel idle (call (snapshotLocked gorm_app_repo limits now))" for now
    by (rule idle_call) (rule kept_idle[OF snapshot_kept])
  have f: "state_io_rel idle (IsFullMode (Some gorm_app_repo))"
    unfolding IsFullMode_def option.case by (intro keeps_intros)
  show ?thesis
    unfolding Collect_def metrics_wiring_def metrics_sources.simps option.case by (intro keeps_intros s f)
qed

lemma sweep_idle: "state_io_rel idle (SweepWorktrees (gcRunner d) zone)"
proof (rule state_io_relI)
  fix w x w' assume run: "run_state (SweepWorktrees (gcRunner d) zone) w = (x, w')"
  have "same_env w w' \<and> wf_db w' \<and> (\<forall>i u. Status u = TaskStatusRunning \<longrightarrow> (task_view w' i = Some u \<longleftrightarrow> task_view w i = Some u))"
    if "wf_db w"
  proof -
    note g = sweep_rel[OF run that]
    have "task_view w' i = Some u \<longleftrightarrow> task_view w i = Some u" if "Status u = TaskStatusRunning" for i u
      using gc_rel_view[OF g, of i] that by (auto simp: gc_upd_def norm_task_def)
    then show ?thesis using g \<open>wf_db w\<close> by (simp add: gc_rel_def)
  qed
  then show "idle w w'" by (simp add: idle_def)
qed

section \<open>Running rows and goroutines\<close>

text \<open>Every goroutine has its row, running and as it was claimed, and its cancel function is
  registered under its task; every running row is one of these.\<close>

definition owned :: "string \<Rightarrow> scheduler \<Rightarrow> world \<Rightarrow> bool" where
  "owned wid st w = (wf_db w \<and> db_works w \<and> rising w \<and> fresh_claim wid w \<and>
     Sem st = length (InFlight st) \<and> Sem st \<le> SemCap st \<and> distinct (map (ID \<circ> snd) (InFlight st)) \<and>
     (\<forall>(c, t) \<in> set (InFlight st). task_view w (ID t) = Some t \<and> Status t = TaskStatusRunning \<and>
        CancelMap st (ID t) = Some c) \<and>
     (\<forall>i u. task_view w i = Some u \<longrightarrow> Status u = TaskStatusRunning \<longrightarrow> (\<exists>c. (c, u) \<in> set (InFlight st))))"

lemma rising_later: "rising w \<Longrightarrow> clock w' = clock w \<Longrightarrow> ops w \<le> ops w' \<Longrightarrow> rising w'"
  by (simp add: rising_def)

lemma works_later: "db_works w \<Longrightarrow> outcome w' = outcome w \<Longrightarrow> ops w \<le> ops w' \<Longrightarrow> db_works (w' :: world)"
  by (simp add: db_works_def)

lemma fresh_from_views:
  assumes "wf_db w" "wf_db w'" "fresh_claim wid w" "rising w" "clock w' = clock w" "ops w \<le> ops w'"
    and "\<And>i u. task_view w' i = Some u \<Longrightarrow> Status u = TaskStatusRunning \<Longrightarrow> task_view w i = Some u"
  shows "fresh_claim wid w'"
  unfolding fresh_claim_def
proof (intro ballI impI)
  fix r assume r: "r \<in> set (task_rows w')" "gStatus r = TaskStatusRunning" "gWorkerID r = Some wid"
  have "task_view w' (gID r) = Some (toDomainTask r)" using row_at_mem[OF assms(2) r(1)] by (simp add: task_view_Some)
  then have "task_view w (gID r) = Some (toDomainTask r)" using assms(7) r(2) by simp
  then obtain q where q: "row_at w (gID r) = Some q" "toDomainTask q = toDomainTask r" by (auto simp: task_view_Some)
  then have "gStatus q = gStatus r" "gWorkerID q = gWorkerID r" "gClaimedAt q = gClaimedAt r"
    by (metis toDomain_simps(2), metis toDomain_simps(10), metis toDomain_simps(9))
  moreover have "q \<in> set (task_rows w)" using row_at_Some[OF q(1)] by simp
  ultimately have "\<exists>c. gClaimedAt q = Some c \<and> c < clock w (ops w)"
    using assms(3) r(2,3) unfolding fresh_claim_def by metis
  then obtain c where c: "gClaimedAt r = Some c" "c < clock w (ops w)"
    using \<open>gClaimedAt q = gClaimedAt r\<close> by auto
  have "clock w (ops w) \<le> clock w (ops w')"
    using assms(4,6) by (cases "ops w = ops w'") (auto simp: rising_def intro: less_imp_le)
  then show "\<exists>c. gClaimedAt r = Some c \<and> c < clock w' (ops w')" using c assms(5) by auto
qed

lemma owned_idle:
  assumes "owned wid st w" "idle w w'"
  shows "owned wid st w'"
proof -
  have i: "same_env w w'" "wf_db w'" "wf_db w"
    "\<And>i u. Status u = TaskStatusRunning \<Longrightarrow> (task_view w' i = Some u \<longleftrightarrow> task_view w i = Some u)"
    using assms by (auto simp: owned_def idle_def)
  have e: "clock w' = clock w" "outcome w' = outcome w" "ops w \<le> ops w'" using i(1) by (simp_all add: same_env_def)
  have f: "fresh_claim wid w'"
    by (rule fresh_from_views[OF i(3,2) _ _ e(1,3)]) (use assms(1) i(4) in \<open>simp_all add: owned_def\<close>)
  have r: "rising w'" "db_works w'" using assms(1) e rising_later works_later by (auto simp: owned_def)
  have "\<forall>(c, t) \<in> set (InFlight st). task_view w' (ID t) = Some t \<and> Status t = TaskStatusRunning \<and>
        CancelMap st (ID t) = Some c"
    using assms(1) i(4) unfolding owned_def by fast
  then show ?thesis using assms(1) i(2,4) f r unfolding owned_def by fast
qed

lemma owned_keeps: "state_io_rel idle m \<Longrightarrow> triple (owned wid st) m (\<lambda>_. owned wid st)"
  by (erule triple_keeps) (rule owned_idle)

lemma owned_dispatch:
  assumes "owned (SchedWorkerID cfg) st w" "Sem st < SemCap st"
    and "SchedTaskRepo cfg = gorm_task_repo True" "SchedWorkerID cfg \<noteq> []"
    and "run_state (dispatchOne cfg (st\<lparr> Sem := Suc (Sem st) \<rparr>)) w = ((b, st1), w1)"
  shows "owned (SchedWorkerID cfg) (if b then st1 else st1\<lparr> Sem := Sem st1 - 1 \<rparr>) w1 \<and> SemCap st1 = SemCap st \<and>
    (b \<longrightarrow> Sem st1 = Suc (Sem st))"
proof -
  let ?id = "SchedWorkerID cfg"
  have o: "wf_db w" "db_works w" "rising w" "fresh_claim ?id w" "Sem st = length (InFlight st)"
    "distinct (map (ID \<circ> snd) (InFlight st))"
    and fl: "\<And>c t. (c, t) \<in> set (InFlight st) \<Longrightarrow> task_view w (ID t) = Some t \<and> Status t = TaskStatusRunning \<and> CancelMap st (ID t) = Some c"
    and run: "\<And>i u. task_view w i = Some u \<Longrightarrow> Status u = TaskStatusRunning \<Longrightarrow> \<exists>c. (c, u) \<in> set (InFlight st)"
    using assms(1) unfolding owned_def by fast+
  show ?thesis using assms(5)
  proof (cases rule: dispatchOne_cases)
    case (claimed t)
    have c: "repo_ClaimNext True ?id w = (Inr (Some t), w1)" using claimed(2) assms(3) by (simp add: gorm_task_repo_def)
    obtain r where r: "r \<in> set (task_rows w)" "eligible (task_rows w) r"
      "t = toDomainTask (claim_row (Some ?id) (clock w (ops w)) r)"
      "task_rows w1 = map (\<lambda>y. if gID y = gID r then claim_row (Some ?id) (clock w (ops w)) y else y) (task_rows w)"
      using claim_returns[OF c o(1) assms(4) o(4)] by blast
    have l: "later w w1" "ops w < ops w1" using claim_later[OF c] by simp_all
    note f = fresh_after_claim[OF o(4,3) l r(4)]
    have w1: "db_works w1" "wf_db w1"
      using o(1,2) l repo_ClaimNext_rows[OF c] by (simp_all add: db_works_def later_def)
    have v: "task_view w1 = (task_view w)(gID r \<mapsto> t)" using view_after_claim[OF o(1) r(1,4)] r(3) by simp
    have tr: "ID t = gID r" "Status t = TaskStatusRunning" using r(3) by simp_all
    have old: "task_view w (gID r) = Some (toDomainTask r)" "gStatus r = TaskStatusQueued"
      using row_at_mem[OF o(1) r(1)] r(2) by (simp_all add: task_view_Some eligible_def)
    have new: "ID s \<noteq> gID r" if "(c, s) \<in> set (InFlight st)" for c s
      using fl[OF that] old by force
    have s1: "InFlight st1 = InFlight st @ [(NextCtx st, t)]" "Sem st1 = Suc (Sem st)" "SemCap st1 = SemCap st"
      "CancelMap st1 = (CancelMap st)(ID t \<mapsto> NextCtx st)"
      using claimed(3) by simp_all
    have "\<forall>(c, s) \<in> set (InFlight st1). task_view w1 (ID s) = Some s \<and> Status s = TaskStatusRunning \<and> CancelMap st1 (ID s) = Some c"
      using fl new tr by (auto simp: s1 v)
    moreover have "\<exists>c. (c, u) \<in> set (InFlight st1)" if "task_view w1 i = Some u" "Status u = TaskStatusRunning" for i u
      using that run by (auto simp: s1 v split: if_splits)
    moreover have "distinct (map (ID \<circ> snd) (InFlight st1))" using o(6) new tr(1) unfolding s1 by force
    ultimately show ?thesis using claimed(1) w1 f o(5) s1(1-3) assms(2) unfolding owned_def by auto
  next
    case (unclaimed r)
    have c: "repo_ClaimNext True ?id w = (r, w1)" using unclaimed(3) assms(3) by (simp add: gorm_task_repo_def)
    have rows: "task_rows w1 = task_rows w"
      using claim_spec[OF o(2,1) assms(4) o(4)] c unclaimed(4) by (cases r) (auto split: option.splits)
    have l: "later w w1" using claim_later[OF c] by simp
    have w1: "wf_db w1" "task_view w1 = task_view w" using o(1) rows task_view_rows_eq[of w1 w] repo_ClaimNext_rows[OF c]
      by simp_all
    have f: "fresh_claim ?id w1"
      by (rule fresh_from_views[OF o(1) w1(1) o(4,3)]) (use l w1(2) in \<open>simp_all add: later_def\<close>)
    have "db_works w1" "rising w1" using o(2,3) l works_later rising_later by (auto simp: later_def)
    then show ?thesis using unclaimed(1,2) w1 f assms(1) unfolding owned_def by auto
  qed
qed

lemma owned_fill:
  assumes "SchedTaskRepo cfg = gorm_task_repo True" "SchedWorkerID cfg \<noteq> []"
  shows "triple (owned (SchedWorkerID cfg) st) (fill_slots n cfg st) (\<lambda>st' w. owned (SchedWorkerID cfg) st' w \<and> SemCap st' = SemCap st)"
proof (rule tripleI)
  fix w st' w' assume "owned (SchedWorkerID cfg) st w" "run_state (fill_slots n cfg st) w = (st', w')"
  then show "owned (SchedWorkerID cfg) st' w' \<and> SemCap st' = SemCap st"
  proof (induction n arbitrary: st w)
    case (Suc n)
    show ?case
    proof (cases "Sem st < SemCap st")
      case True
      obtain b st1 w1 where d: "run_state (dispatchOne cfg (st\<lparr> Sem := Suc (Sem st) \<rparr>)) w = ((b, st1), w1)"
        by (metis prod.exhaust)
      note o = owned_dispatch[OF Suc.prems(1) True assms d]
      show ?thesis
      proof (cases b)
        case True
        then have "run_state (fill_slots n cfg st1) w1 = (st', w')" using Suc.prems(2) d \<open>Sem st < SemCap st\<close> by simp
        then show ?thesis using Suc.IH[of st1 w1] o True by simp
      next
        case False
        then have "st' = st1\<lparr> Sem := Sem st1 - 1 \<rparr>" "w' = w1" using Suc.prems(2) d \<open>Sem st < SemCap st\<close> by simp_all
        then show ?thesis using o False by simp
      qed
    qed (use Suc.prems in simp)
  qed simp
qed

text \<open>A run in a working database takes its task out of the running rows.\<close>

lemma owned_finish:
  assumes "owned wid st w" "ct \<in> set (InFlight st)"
    and "run_state (RunTask (workerCfg cfg limits windows) (snd ct)) w = (res, w')"
  shows "owned wid (goroutine_exit ct st) w'"
proof -
  obtain c t where ct: "ct = (c, t)" by (cases ct)
  have o: "wf_db w" "db_works w" "rising w" "fresh_claim wid w" "Sem st = length (InFlight st)" "Sem st \<le> SemCap st"
    "distinct (map (ID \<circ> snd) (InFlight st))"
    and fl: "\<And>c t. (c, t) \<in> set (InFlight st) \<Longrightarrow> task_view w (ID t) = Some t \<and> Status t = TaskStatusRunning \<and> CancelMap st (ID t) = Some c"
    and run: "\<And>i u. task_view w i = Some u \<Longrightarrow> Status u = TaskStatusRunning \<Longrightarrow> \<exists>c. (c, u) \<in> set (InFlight st)"
    using assms(1) unfolding owned_def by fast+
  have st: "storable w t" using fl[of c t] assms(2) ct by (auto simp: storable_def)
  have r: "run_state (RunTask (workerCfg cfg limits windows) t) w = (res, w')" using assms(3) ct by simp
  note frame = wired.run_frame[OF r o(1) st]
  obtain u ms where u: "task_view w' (ID t) = Some u" "reached w ms w'" "Status u \<noteq> TaskStatusRunning"
    using wired.run_outcome[OF r o(1) st o(2)] by force
  have e: "clock w' = clock w" "outcome w' = outcome w" "ops w \<le> ops w'"
    using u(2) by (simp_all add: reached_def same_env_def)
  have v: "task_view w' i = task_view w i" if "i \<noteq> ID t" for i
    using frame that by (metis fun_upd_other)
  have down: "task_view w i = Some x \<and> i \<noteq> ID t" if "task_view w' i = Some x" "Status x = TaskStatusRunning" for i x
    using that u v[of i] by (cases "i = ID t") auto
  have f: "fresh_claim wid w'" by (rule fresh_from_views[OF o(1) _ o(4,3) e(1,3)]) (use frame down in blast)+
  have w': "wf_db w'" "db_works w'" "rising w'" using frame o e works_later rising_later by auto
  let ?fl = "remove1 (c, t) (InFlight st)"
  have d: "distinct (InFlight st)" using o(7) by (simp add: distinct_map)
  have other: "ID s \<noteq> ID t" if "(k, s) \<in> set ?fl" for k s
  proof -
    have "(k, s) \<noteq> (c, t)" "(k, s) \<in> set (InFlight st)" using that d by simp_all
    then show ?thesis using o(7) assms(2) ct unfolding distinct_map inj_on_def by fastforce
  qed
  have "\<forall>(k, s) \<in> set ?fl. task_view w' (ID s) = Some s \<and> Status s = TaskStatusRunning \<and>
      ((CancelMap st)(ID t := None)) (ID s) = Some k"
  proof clarify
    fix k s assume a: "(k, s) \<in> set ?fl"
    then have "(k, s) \<in> set (InFlight st)" using d by simp
    from fl[OF this] show "task_view w' (ID s) = Some s \<and> Status s = TaskStatusRunning \<and>
        ((CancelMap st)(ID t := None)) (ID s) = Some k" using other[OF a] v by simp
  qed
  moreover have "\<exists>k. (k, x) \<in> set ?fl" if x: "task_view w' i = Some x" "Status x = TaskStatusRunning" for i x
  proof -
    obtain k where k: "(k, x) \<in> set (InFlight st)" using run down[OF x] x(2) by blast
    have "ID x = i" using gorm_task.view_ID x(1) by blast
    then have "(k, x) \<noteq> (c, t)" using down[OF x] by auto
    then show ?thesis using k d by auto
  qed
  moreover have "distinct (map (ID \<circ> snd) ?fl)" by (rule distinct_map_remove1[OF o(7)])
  moreover have "length ?fl = length (InFlight st) - 1" using assms(2) ct by (simp add: length_remove1)
  ultimately show ?thesis using w' f o(5,6) unfolding owned_def goroutine_exit_def cancel_ctx_def ct by simp
qed

section \<open>A life of the service\<close>

lemma owned_tick:
  assumes "SchedTaskRepo cfg = gorm_task_repo True" "SchedAppState cfg = Some gorm_app_repo"
    and "SchedPoller cfg = Some (Poll issues (gorm_task_repo True) repos)" "only_reads issues"
    and "SchedBudgetGate cfg = Some (\<lambda>now. call (SnapshotReason gorm_app_repo limits now))" "SchedWorkerID cfg \<noteq> []"
  shows "triple (owned (SchedWorkerID cfg) st) (sched_tick cfg st)
    (\<lambda>st' w. owned (SchedWorkerID cfg) st' w \<and> SemCap st' = SemCap st)"
proof -
  let ?O = "owned (SchedWorkerID cfg) st"
  have snap: "state_io_rel idle (call (SnapshotReason gorm_app_repo limits now))" for now
  proof (rule idle_call)
    fix w :: world
    have "snd (SnapshotReason gorm_app_repo limits now w) = snd (snapshotLocked gorm_app_repo limits now w)"
      by (simp add: SnapshotReason_def split: prod.split sum.split)
    then show "idle w (snd (SnapshotReason gorm_app_repo limits now w))" by (simp add: kept_idle[OF snapshot_kept])
  qed
  have poll: "state_io_rel idle (when_some (SchedPoller cfg) (\<lambda>poll. do { _ \<leftarrow> poll; ret () }))"
    unfolding assms(3) by (intro keeps_intros) (simp add: poll_idle assms(4) idle_bind idle_return)
  have gate: "state_io_rel idle (case SchedBudgetGate cfg of
           None \<Rightarrow> ret False
         | Some gate \<Rightarrow> do {
             now2 \<leftarrow> now_prog;
             r \<leftarrow> gate now2;
             ret (case r of Inl _ \<Rightarrow> False | Inr reason \<Rightarrow> reason \<noteq> BudgetReasonAllowed)
           })"
    unfolding assms(5) option.case by (intro keeps_intros snap)
  have stay: "triple ?O (ret st) (\<lambda>st' w. owned (SchedWorkerID cfg) st' w \<and> SemCap st' = SemCap st)" by simp
  show ?thesis
    unfolding sched_tick_def
    by (intro triple_bind[where R = "\<lambda>_. ?O"] owned_keeps full_mode_idle(2) assms(2) idle_prims)
      (auto intro!: stay triple_bind[where R = "\<lambda>_. ?O"] owned_keeps poll gate owned_fill[OF assms(1,6)])
qed

text \<open>The recovery and the sweep of the start keep the environment.\<close>

lemma recover_env:
  assumes "run_state (RecoverOrphans (gcRunner d)) w = (x, w')"
  shows "same_env w w'"
proof -
  have b: "state_io_rel (grows UNIV) m \<Longrightarrow> (\<And>a. state_io_rel (grows UNIV) (f a)) \<Longrightarrow>
      state_io_rel (grows UNIV) (State_Monad.bind m f)" for m :: "'c prog" and f :: "'c \<Rightarrow> 'd prog"
    by (rule keeps_bind) simp_all
  have kg: "state_io_rel (kept UNIV) m \<Longrightarrow> state_io_rel (grows UNIV) m" for m :: "'c prog"
    by (auto simp: state_io_rel_def kept_def)
  have r: "state_io_rel (grows UNIV) (ret a)" for a :: 'c by (rule keeps_return) simp
  have u: "state_io_rel (grows UNIV) (call (Update (gorm_task_repo True) t))" for t
    unfolding state_io_rel_def gorm_task_repo_def by (auto simp: split_beta' intro: repo_kept(1))
  have n: "state_io_rel (grows UNIV) (gcSlackAdapter t)" for t
    unfolding gcSlackAdapter_def by (intro kg keeps_frame_kept notify_frames) simp
  have one: "state_io_rel (grows UNIV) (reconcileOrphan (gcRunner d) t)" for t
    unfolding reconcileOrphan_def Let_def gcRunner_simps when_some_def option.case
    by (intro b kg dirty_kept keeps_if keeps_case_sum u r n)
  have all: "state_io_rel (grows UNIV) (reconcile_all (gcRunner d) ts)" for ts
    by (induction ts) (auto intro!: b r one)
  have "kept UNIV v (snd (GetRunning (gorm_task_repo True) v))" for v :: world
    unfolding gorm_task_repo_def task_repo.simps repo_GetRunning_def snd_mapped by (rule exec_kept) simp
  then have g: "state_io_rel (grows UNIV) (call (GetRunning (gorm_task_repo True)))"
    by (auto simp: state_io_rel_def kept_def) 
  have "state_io_rel (grows UNIV) (RecoverOrphans (gcRunner d))"
    unfolding RecoverOrphans_def gcRunner_simps by (intro b g keeps_case_sum r all)
  then show ?thesis using assms by (auto dest: state_io_relD simp: grows_def)
qed

lemma boot_owned:
  assumes "run_state (RunOnBoot (gcRunner d) zone) w = (x, w')" "wf_db w" "db_works w" "rising w"
  shows "owned wid (snd (NewScheduler cfg)) w'"
proof -
  obtain w1 where r: "run_state (RecoverOrphans (gcRunner d)) w = ((), w1)"
    by (cases "run_state (RecoverOrphans (gcRunner d)) w") simp
  then have s: "run_state (SweepWorktrees (gcRunner d) zone) w1 = (x, w')" using assms(1) by (simp add: RunOnBoot_def)
  have e: "clock w1 = clock w" "outcome w1 = outcome w" "ops w \<le> ops w1"
    using recover_env[OF r] by (simp_all add: same_env_def)
  note rec = recover_spec[OF r assms(2,3)]
  have none: "Status u \<noteq> TaskStatusRunning" if "task_view w1 i = Some u" for i u
  proof (cases "\<exists>t. task_view w i = Some t \<and> Status t = TaskStatusRunning")
    case True
    then obtain t where "task_view w i = Some t" "Status t = TaskStatusRunning" by blast
    from rec(2)[OF this] show ?thesis using that by (auto simp: reconciled_def norm_task_def)
  next
    case False
    then show ?thesis using rec(3)[of i] that by auto
  qed
  have "fresh_claim wid w1"
    unfolding fresh_claim_def
  proof (intro ballI impI)
    fix r assume a: "r \<in> set (task_rows w1)" "gStatus r = TaskStatusRunning"
    then have "task_view w1 (gID r) = Some (toDomainTask r)" using row_at_mem[OF rec(1)] by (simp add: task_view_Some)
    then show "\<exists>c. gClaimedAt r = Some c \<and> c < clock w1 (ops w1)" using none a(2) by fastforce
  qed
  moreover have "rising w1" "db_works w1" using assms(3,4) e rising_later works_later by auto
  ultimately have "owned wid (snd (NewScheduler cfg)) w1"
    using rec(1) none by (auto simp: owned_def NewScheduler_def Let_def)
  then show ?thesis by (rule owned_idle) (rule state_io_relD[OF sweep_idle s])
qed

text \<open>What a launched process consists of.\<close>

lemma run_service_app:
  assumes "run_state (run_service out path) w = (r, w')" "RunApp r = Some app"
  obtains cfg env windows limits where "load_stage out path = Inr (cfg, env)"
    "run_state (RunOnBoot (gcRunner (RetentionDays cfg)) (OutZone out)) w = ((), w')"
    "app = build_app out cfg env windows limits"
proof -
  obtain cfg env where l: "load_stage out path = Inr (cfg, env)"
    using assms by (cases "load_stage out path") (auto simp: run_service_def failed_def)
  obtain pool where p: "NewDB (OutGormOpen out) (OutPoolDB out) (DBSettings cfg) = Inr pool" "OutSqlDB out = None"
    using assms l by (cases "NewDB (OutGormOpen out) (OutPoolDB out) (DBSettings cfg)"; cases "OutSqlDB out")
      (auto simp: run_service_def failed_def)
  obtain q where q: "run_state (db_stage out cfg env) w = (q, w')" "RunApp q = Some app"
    using assms l p by (cases "run_state (db_stage out cfg env) w") (auto simp: run_service_def)
  obtain windows where m: "migrate_stage out = Inr ()" "ActiveWindowsOf (OutTzdb out) cfg = Inr windows"
    using q by (cases "migrate_stage out"; cases "ActiveWindowsOf (OutTzdb out) cfg") (auto simp: db_stage_def failed_def)
  obtain w1 where b: "run_state (RunOnBoot (gcRunner (RetentionDays cfg)) (OutZone out)) w = ((), w1)"
    by (cases "run_state (RunOnBoot (gcRunner (RetentionDays cfg)) (OutZone out)) w") simp
  have s: "RunApp (serve_stage out cfg a) = Some a" for a by (simp add: serve_stage_def Let_def split: sum.split)
  obtain dm wm ws tz where "ResolvedLimits (OutTzdb out) (LimitsCfg cfg) = Inr (dm, wm, ws, tz)"
    using q m b by (cases "ResolvedLimits (OutTzdb out) (LimitsCfg cfg)") (auto simp: db_stage_def failed_def)
  then show thesis using that[OF l] q m b s by (auto simp: db_stage_def Let_def)
qed

text \<open>One operation of the launched process, completed.\<close>

inductive service_step :: "outside \<Rightarrow> app \<Rightarrow> scheduler \<times> world \<Rightarrow> scheduler \<times> world \<Rightarrow> bool"
  for out :: outside and app :: app where
  tick: "run_state (sched_tick (AppSchedCfg app) st) w = (st', w') \<Longrightarrow> service_step out app (st, w) (st', w')"
| finish: "ct \<in> set (InFlight st) \<Longrightarrow> run_state (RunTask (AppWorker app) (snd ct)) w = (r, w') \<Longrightarrow>
    service_step out app (st, w) (goroutine_exit ct st, w')"
| request: "run_state (EnqueueFromIssue (AppTaskUC app) req) w = (a, w') \<Longrightarrow> service_step out app (st, w) (st, w')"
| maintenance: "mt \<in> set (AppJobs app) \<Longrightarrow>
    run_state (maintenance_fire (SchedWindows (AppSchedCfg app)) (AppMaintenance app) mt) w = (b, w') \<Longrightarrow>
    service_step out app (st, w) (st, w')"
| sweep: "run_state (SweepWorktrees (AppGc app) (OutZone out)) w = (c, w') \<Longrightarrow> service_step out app (st, w) (st, w')"
| scrape: "run_state (Collect (AppMetrics app)) w = (g, w') \<Longrightarrow> service_step out app (st, w) (st, w')"
| stop: "CancelTask i st = (d, st') \<Longrightarrow> service_step out app (st, w) (st', w)"

inductive service_reach :: "outside \<Rightarrow> app \<Rightarrow> scheduler \<times> world \<Rightarrow> scheduler \<times> world \<Rightarrow> bool"
  for out :: outside and app :: app where
  launch: "service_reach out app s s"
| step: "service_reach out app s s1 \<Longrightarrow> service_step out app s1 s2 \<Longrightarrow> service_reach out app s s2"

lemma app_simps:
  fixes out cfg env windows limits
  defines "app \<equiv> build_app out cfg env windows limits"
  shows "AppWorker app = workerCfg cfg limits windows"
    "SchedTaskRepo (AppSchedCfg app) = gorm_task_repo True" "SchedAppState (AppSchedCfg app) = Some gorm_app_repo"
    "SchedPoller (AppSchedCfg app) = Some (Poll (NewGitHubClient (OutGetenv out) (OutIssues out) (GitHubToken env)) (gorm_task_repo True) (Repos cfg))"
    "SchedBudgetGate (AppSchedCfg app) = Some (\<lambda>now. call (SnapshotReason gorm_app_repo limits now))"
    "SchedWorkerID (AppSchedCfg app) = worker_id out" "SchedWindows (AppSchedCfg app) = windows"
    "SemCap (AppPool app) = nat (max 1 (MaxParallelTasks (Concurrency cfg)))"
    "UcTaskRepo (AppTaskUC app) = gorm_task_repo True" "UcAppState (AppTaskUC app) = Some gorm_app_repo"
    "MuTaskRepo (AppMaintenance app) = gorm_task_repo True" "MuAppState (AppMaintenance app) = gorm_app_repo"
    "MuBudget (AppMaintenance app) = EnfCheckAndIncrementReason (budget_uc limits)"
    "AppGc app = gcRunner (RetentionDays cfg)"
    "AppMetrics app = metrics_wiring gorm_app_repo limits windows (AppPool app)"
    "AppPool app = snd (NewScheduler (AppSchedCfg app))"
  unfolding app_def build_app_def Let_def
  by (auto simp: NewScheduler_def Let_def NewTaskUseCase_def WithWindowGate_def NewMaintenanceUseCase_def
      metrics_wiring_def SetParallelSlots_def NewMetrics_def max_def split: prod.splits)

lemma worker_id_nonempty: "worker_id out \<noteq> ''''"
  by (simp add: worker_id_def)


lemma step_owned:
  assumes "service_step out app s s'" "app = build_app out cfg env windows limits"
    and "\<And>token. only_reads (OutIssues out token)" "owned (worker_id out) (fst s) (snd s)"
  shows "owned (worker_id out) (fst s') (snd s') \<and> SemCap (fst s') = SemCap (fst s)"
proof -
  note a = app_simps[of out cfg env windows limits, folded assms(2)]
  have stay: "owned (worker_id out) st w'" if "state_io_rel idle m" "run_state m w = (x, w')" "owned (worker_id out) st w"
    for st w w' x and m :: "'c prog"
    using owned_idle[OF that(3)] state_io_relD[OF that(1,2)] .
  show ?thesis using assms(1,4)
  proof (cases rule: service_step.cases)
    case (tick st w st' w')
    have "only_reads (NewGitHubClient (OutGetenv out) (OutIssues out) (GitHubToken env))"
      using assms(3) by (simp add: NewGitHubClient_def)
    note t = owned_tick[OF a(2,3,4) this a(5), unfolded a(6), OF worker_id_nonempty]
    show ?thesis using tripleD[OF t _ tick(3)] tick(1,2) assms(4) by simp
  next
    case (finish ct st w r w')
    show ?thesis using owned_finish[OF _ finish(3) finish(4)[unfolded a(1)]] finish(1,2) assms(4)
      by (simp add: goroutine_exit_def cancel_ctx_def)
  next
    case (request req w r w' st)
    show ?thesis using stay[OF enqueue_idle[OF a(9,10)] request(3)] request(1,2) assms(4) by simp
  next
    case (maintenance mt w b w' st)
    show ?thesis using stay[OF maintenance_idle[OF a(11,12,13)] maintenance(4)] maintenance(1,2) assms(4) by simp
  next
    case (sweep w c w' st)
    show ?thesis using stay[OF sweep_idle sweep(3)[unfolded a(14)]] sweep(1,2) assms(4) by simp
  next
    case (scrape w g w' st)
    show ?thesis using stay[OF collect_idle scrape(3)[unfolded a(15)]] scrape(1,2) assms(4) by simp
  next
    case (stop i st r st' w)
    then have "InFlight st' = InFlight st" "Sem st' = Sem st" "SemCap st' = SemCap st" "CancelMap st' = CancelMap st"
      by (auto simp: CancelTask_def cancel_ctx_def split: option.splits)
    then show ?thesis using stop(1,2) assms(4) by (simp add: owned_def)
  qed
qed

lemma reach_owned:
  assumes "service_reach out app s s'" "app = build_app out cfg env windows limits"
    and "\<And>token. only_reads (OutIssues out token)" "owned (worker_id out) (fst s) (snd s)"
  shows "owned (worker_id out) (fst s') (snd s') \<and> SemCap (fst s') = SemCap (fst s)"
  using assms(1,4)
proof (induction rule: service_reach.induct)
  case (step s s1 s2)
  then show ?case using step_owned[OF step(2) assms(2,3)] by simp
qed simp

section \<open>Properties\<close>



end
