(* ===== verification/Spec2Isabelle.thy ===== *)
theory Spec2Isabelle
  imports Window Claims Slack_Client Ci_Watcher Cost_Warn Gc_Runner Collector Canceller Opsctl Lifetime
begin

text \<open>
claude-ops takes issues of GitHub repositories, lets the Claude command line program work on
each of them in a git worktree of its own, checks the result and opens a pull request, within
a budget of tasks, within active windows of the week, and with Slack as its display. This
library models that server: its rules, its tables, its goroutines and how they are wired.

\<^bold>\<open>Conventions.\<close>  A definition has the name of the Go function it translates; a prefix is
added where two packages use one name (repo\_, uc\_, ci\_, sched\_, task\_). Strings are byte
lists. An int is an integer, wrapped to 64 bits (wrap64) where the program computes with values
that may be large; a time is the number of nanoseconds since the epoch, a location its zone
rules, a float64 a rational number. An error is a go\_error, whose constructors keep the
wrapping that errors.Is looks through, and a fallible function gives a value of result, a sum.
Repositories are records of functions over a state, because the program passes them as
interfaces. Everything else that happens outside (commands, the Claude process, HTTP, files,
uuids, the clock) is answered by the world (theory World) as a function of a counter of steps,
so a theorem about all worlds is a theorem about every answer, every failure and every reading
of the clock. A database statement may fail, or fail after it took effect (outcome). What the
program does to the outside is the trace of the world.

\<^bold>\<open>Theories.\<close>
Prelude, Go\_Strings, Calendar, Go\_Time, Go\_Fmt, Json, Json\_Text: results and errors, and what
the source uses of the Go library (strings, strconv, fmt, time with zones and ISO weeks,
encoding/json decoding into structs, with the printing of documents the database does).

Domain, Window: internal/domain: tasks, states, events, repository interfaces; active windows,
their parsing and containment.

Store, Repositories, Repo\_Laws, Claims: the tables of migrations/ with their constraints, the
statements of db/sqlc/task.sql.go and the GORM repositories of internal/repository. The locales
app\_state\_repository and task\_repository state the interfaces of internal/domain/repository.go
with their laws; they are interpreted on the GORM repositories. Claims treats ClaimNext and
ReclaimStale: which row is claimed, one running task per repository over every interleaving.

Budget\_Gate, Budget\_Usecase, Budget\_Laws, Cost\_Warn: bucket keys, rollover, the decision,
counters and blocks in app\_state, limits and their override, and the cost warnings. Budget\_Laws
is written over the app\_state interface: the caps hold and the detailed operation refines an
abstract counter.

Stream, Runner: the event stream of the Claude process, the parse loop with its channel, the
process and its result.

World, Slack\_Blocks, Slack\_Client, Pr\_Creator, Quality\_Gate, Metrics: the world and the rules
for programs on it (relations every step keeps, triples); messages and posts, git and gh, the
checks of a repository, what the metrics record.

Worker, Worker\_Laws, Wiring: internal/scheduler/worker.go, a function per stage of the pipeline.
The locale worker\_deps is the contract of the worker's dependencies; within it the order of a
run, its frame and its outcome are proved once. Wiring defines the adapters and the
configuration of cmd/claude-ops/main.go and interprets the contract on them.

Scheduler: scheduler.go and reclaimer.go. The tick is a program; goroutines, cancellation and
the rest of the world are steps of an inductive relation, so invariants hold for every
interleaving.

Mode\_Usecase, Enqueue: the toggle of full mode and its three readers; the task use case, the
maintenance use case, the issue poller.

Usage\_Repo, Usage\_Usecase: aggregate queries and the usage reports. Config, Config\_Load: the
records of internal/config, validation, and loading with the table of defaults, the environment
and the connection pool (internal/repository/db.go).

Ci\_Text, Ci\_Watcher: masking of logs, classification of check runs, and the poll of watched
pull requests with its fix tasks.

Sha256, Http, Webhook: the GitHub webhook of internal/github (webhook\_verifier.go,
webhook\_dedup.go, webhook\_handler.go). SHA-256, HMAC, hex and the query of a form are defined
as the Go library documents them and run on published vectors. The cache of deliveries
answers as the full history would; a task appears only for a signed delivery.

Gc\_Runner: internal/gc/runner.go: recovery of tasks a restart left running, and the sweep of
old worktrees. Slack\_Interactions: internal/slack/verify.go and interactions.go with the
handler of internal/api/slack\_handler.go: who may stop a task.

Api: internal/api: routes, mapping of errors, bodies and the handlers of tasks, modes, limits,
health and usage, as programs that return a reply. Opsctl: cmd/claude-opsctl with the JSON both
sides share (dto.go, types.go): decoding what was encoded gives it back, and a command run
against the modelled handlers has the effect it shows.

Collector: internal/metrics/collector.go and handler.go: the gauges against the decisions of the
budget gate, the forecast, and that a scrape writes. Canceller: internal/claude/canceller.go, a
partial function that is shown to return.

Startup, Lifetime: run() of cmd/claude-ops/main.go: the constructors and the wiring of all
components, the order of start-up and shutdown, and where it can fail. Lifetime puts the
launched process together: recovery, ticks, completed runs, requests, jobs, sweeps and scrapes
in any order; an invariant ties the running rows of the table to the goroutines in flight.

\<^bold>\<open>Fuel and bounds.\<close>  Two functions carry fuel: ReplaceAllString the length of its text, the
JSON reader two units for each byte and two more; each step consumes at least a byte, or
one of two calls per byte. fill\_slots recurses on the number of free slots, the loops over
tickers on the list of received events. The wait of the canceller is partial\_function
(option); its theorem gives the value and bounds the polls by 25. Theorems about times and
counters state the 64 bit bounds they need.

\<^bold>\<open>Not modelled.\<close>  The viper and godotenv libraries (what they make of the file and the
environment is an argument, with the documented rule for defaults as a hypothesis), the HTTP
listener, gin's matching of paths and its middleware, the connection to MySQL and the migration
tool (their answers are arguments of run()), the go-github client (an argument of the poller),
the text templates of prompts (an argument), logging, signals beyond their arrival, the parsing
of flags and the layout of tables (cobra, text/tabwriter), the registry and the text format of
Prometheus. In Lifetime an operation is one step and the reclaimer, the CI watcher and the HTTP
handlers that change limits or modes are left out; interleavings within the pool are
Scheduler's. JSON bodies are documents: the text of a body is
encoding/json's. A statement under a cancelled context is one that fails; that the program
sends some of its statements under the context it has just cancelled is a finding, not a
theorem.
\<close>

end
